(* ===== verification/Prelude.thy ===== *)
theory Prelude
  imports Main "HOL-Library.Word" "HOL-Library.Char_ord" "HOL-Library.List_Lexorder"
begin

unbundle bit_operations_syntax

text \<open>
  The prelude of the EpsilonDB development: the machine integers of the C sources, C strings
  and the library calls the sources make on them (\<open>strcmp\<close>, \<open>snprintf\<close> into a fixed
  buffer, \<open>memcpy\<close> into an array), first-match search over arrays, the hexadecimal
  printing every digest uses, and the generic facts about them that the component theories
  share. C strings are HOL strings (character lists without the terminating NUL).
\<close>

section \<open>Types and collections of facts\<close>

type_synonym byte = "8 word"
type_synonym u32 = "32 word"
type_synonym u64 = "64 word"

named_theorems cstr_simps \<open>facts about C string functions\<close>
named_theorems wf_intros \<open>preservation of well-formedness invariants\<close>

section \<open>C strings\<close>

text \<open>\<open>strcmp\<close> compares as unsigned characters; only the sign of the result is specified.\<close>

fun strcmp :: "string \<Rightarrow> string \<Rightarrow> int" where
  "strcmp [] [] = 0"
| "strcmp [] (d # ds) = - 1"
| "strcmp (c # cs) [] = 1"
| "strcmp (c # cs) (d # ds) =
     (if c = d then strcmp cs ds
      else if (of_char c :: nat) < of_char d then - 1 else 1)"

text \<open>\<open>snprintf (buf, cap, "%s", s)\<close> keeps at most \<open>cap - 1\<close> characters.\<close>

definition snprintf_s :: "nat \<Rightarrow> string \<Rightarrow> string" where
  "snprintf_s cap s = take (cap - 1) s"

text \<open>\<open>tolower\<close> of the C locale on every character; \<open>strcasecmp\<close> compares the strings it gives.\<close>

definition lower_ascii :: "string \<Rightarrow> string" where
  "lower_ascii s = map (\<lambda>c. if 65 \<le> (of_char c :: nat) \<and> (of_char c :: nat) \<le> 90 then char_of (of_char c + 32 :: nat) else c) s"

definition strcasecmp_eq :: "string \<Rightarrow> string \<Rightarrow> bool" where
  "strcasecmp_eq x y \<longleftrightarrow> lower_ascii x = lower_ascii y"

lemma strcmp_eq_0_iff [simp]: "strcmp x y = 0 \<longleftrightarrow> x = y"
  by (induction x y rule: strcmp.induct) auto

lemma strcmp_refl [simp]: "strcmp x x = 0"
  by simp

lemma of_char_linear:
  "c \<noteq> d \<Longrightarrow> \<not> (of_char c :: nat) < of_char d \<Longrightarrow> (of_char d :: nat) < of_char c"
  by (metis linorder_neqE_nat of_char_eq_iff)

lemma strcmp_neg_iff [cstr_simps]: "strcmp x y < 0 \<longleftrightarrow> x < y"
  by (induction x y rule: strcmp.induct) (auto simp: less_char_def)

lemma strcmp_pos_iff [cstr_simps]: "0 < strcmp x y \<longleftrightarrow> y < x"
  by (induction x y rule: strcmp.induct) (auto simp: less_char_def of_char_linear)

lemma strcmp_nonneg_iff [cstr_simps]: "0 \<le> strcmp x y \<longleftrightarrow> y \<le> x"
  using strcmp_neg_iff [of x y] by (auto simp: not_less)

lemma strcmp_nonpos_iff [cstr_simps]: "strcmp x y \<le> 0 \<longleftrightarrow> x \<le> y"
  using strcmp_pos_iff [of x y] by (auto simp: not_less)

lemma snprintf_s_id [cstr_simps]: "length s < cap \<Longrightarrow> snprintf_s cap s = s"
  by (simp add: snprintf_s_def)

lemma snprintf_s_length: "0 < cap \<Longrightarrow> length (snprintf_s cap s) < cap"
  by (auto simp: snprintf_s_def)

section \<open>Arrays\<close>

text \<open>\<open>memcpy (dst + off, src, length src)\<close> on an array \<open>dst\<close>.\<close>

definition memcpy :: "'a list \<Rightarrow> nat \<Rightarrow> 'a list \<Rightarrow> 'a list" where
  "memcpy dst off src = take off dst @ src @ drop (off + length src) dst"

lemma memcpy_length [simp]:
  "off + length src \<le> length dst \<Longrightarrow> length (memcpy dst off src) = length dst"
  by (simp add: memcpy_def)

lemma take_memcpy [simp]:
  "off + length src \<le> length dst \<Longrightarrow> take (off + length src) (memcpy dst off src) = take off dst @ src"
  by (simp add: memcpy_def)

text \<open>The first element an upward \<open>for\<close> loop with a \<open>break\<close> finds, and its index.\<close>

definition first_match :: "('a \<Rightarrow> bool) \<Rightarrow> 'a list \<Rightarrow> 'a option" where
  "first_match P xs = List.find P xs"

fun index_of :: "('a \<Rightarrow> bool) \<Rightarrow> 'a list \<Rightarrow> nat option" where
  "index_of P [] = None"
| "index_of P (x # xs) = (if P x then Some 0 else map_option Suc (index_of P xs))"

lemma index_of_None_iff: "index_of P xs = None \<longleftrightarrow> (\<forall>x \<in> set xs. \<not> P x)"
  by (induction xs) auto

lemma index_of_SomeD:
  "index_of P xs = Some i \<Longrightarrow> i < length xs \<and> P (xs ! i) \<and> (\<forall>j < i. \<not> P (xs ! j))"
proof (induction xs arbitrary: i)
  case Nil
  then show ?case by simp
next
  case (Cons x xs)
  show ?case
  proof (cases "P x")
    case True
    with Cons.prems show ?thesis by simp
  next
    case False
    with Cons.prems obtain k where k: "index_of P xs = Some k" "i = Suc k" by auto
    with Cons.IH [OF k(1)] False show ?thesis
      by (auto simp: less_Suc_eq_0_disj)
  qed
qed

text \<open>The in-place update of the first matching element, as the peer tables use it.\<close>

fun update_first :: "('a \<Rightarrow> bool) \<Rightarrow> ('a \<Rightarrow> 'a) \<Rightarrow> 'a list \<Rightarrow> 'a list" where
  "update_first P f [] = []"
| "update_first P f (x # xs) = (if P x then f x # xs else x # update_first P f xs)"

lemma length_update_first [simp]: "length (update_first P f xs) = length xs"
  by (induction xs) auto

lemma map_update_first_same:
  "(\<And>x. P x \<Longrightarrow> g (f x) = g x) \<Longrightarrow> map g (update_first P f xs) = map g xs"
  by (induction xs) auto

lemma update_first_no_match: "(\<forall>x \<in> set xs. \<not> P x) \<Longrightarrow> update_first P f xs = xs"
  by (induction xs) auto

lemma set_update_first: "set (update_first P f xs) \<subseteq> set xs \<union> f ` {x \<in> set xs. P x}"
  by (induction xs) auto

lemma update_first_hit: "\<exists>x \<in> set xs. P x \<Longrightarrow> \<exists>x. P x \<and> x \<in> set xs \<and> f x \<in> set (update_first P f xs)"
  by (induction xs) auto

section \<open>Bytes and hexadecimal\<close>

definition bytes_of_string :: "string \<Rightarrow> byte list" where
  "bytes_of_string s = map of_char s"

definition hex_digits :: string where
  "hex_digits = ''0123456789abcdef''"

text \<open>\<open>out[2 * i] = hex[d[i] >> 4]; out[2 * i + 1] = hex[d[i] & 0xf]\<close>.\<close>

definition hex_byte :: "byte \<Rightarrow> string" where
  "hex_byte b = [hex_digits ! unat (drop_bit 4 b), hex_digits ! unat (b AND 15)]"

definition hex_of_bytes :: "byte list \<Rightarrow> string" where
  "hex_of_bytes bs = concat (map hex_byte bs)"

definition is_hex_char :: "char \<Rightarrow> bool" where
  "is_hex_char c \<longleftrightarrow> c \<in> set hex_digits"

lemma length_bytes_of_string [simp]: "length (bytes_of_string s) = length s"
  by (simp add: bytes_of_string_def)

lemma length_hex_digits [simp]: "length hex_digits = 16"
  by (simp add: hex_digits_def)

lemma unat_hi_nibble: "unat (drop_bit 4 (b :: byte)) < 16"
proof -
  have "unat (drop_bit 4 b) = unat b div 2 ^ 4"
    by (simp add: drop_bit_eq_div unat_div_distrib)
  moreover have "unat b < 2 ^ 8"
    using unsigned_less [of b, where 'a = nat] by simp
  ultimately show ?thesis by simp
qed

lemma unat_lo_nibble: "unat ((b :: byte) AND 15) < 16"
proof -
  have "unat (b AND 15) \<le> unat (15 :: byte)"
    by (rule word_and_le1 [THEN word_le_nat_alt [THEN iffD1]])
  then show ?thesis by simp
qed

lemma length_hex_of_bytes [simp]: "length (hex_of_bytes bs) = 2 * length bs"
  by (induction bs) (auto simp: hex_of_bytes_def hex_byte_def)

lemma hex_of_bytes_hex: "c \<in> set (hex_of_bytes bs) \<Longrightarrow> is_hex_char c"
  unfolding hex_of_bytes_def hex_byte_def is_hex_char_def
  using unat_hi_nibble unat_lo_nibble by (auto intro!: nth_mem)

end
