(* ===== verification/Decimal.thy ===== *)
theory Decimal
  imports Prelude
begin

text \<open>
  Decimal numbers in C strings: printing with \<open>%llu\<close> and \<open>%lld\<close>, and the library functions
  \<open>strtoull\<close> and \<open>strtoll\<close> in base 10, which skip white space, take a sign and digits, saturate
  with \<open>ERANGE\<close> and report where they stopped. Printing and reading back is the identity on the
  values of the C types.
\<close>

section \<open>Printing\<close>

definition digit_char :: "nat \<Rightarrow> char" where
  "digit_char d = char_of (48 + d)"

fun show_nat :: "nat \<Rightarrow> string" where
  "show_nat n = (if n < 10 then [digit_char n] else show_nat (n div 10) @ [digit_char (n mod 10)])"

declare show_nat.simps [simp del]

definition show_int :: "int \<Rightarrow> string" where
  "show_int i = (if i < 0 then CHR ''-'' # show_nat (nat (- i)) else show_nat (nat i))"

section \<open>Reading\<close>

definition is_digit :: "char \<Rightarrow> bool" where
  "is_digit c \<longleftrightarrow> 48 \<le> (of_char c :: nat) \<and> (of_char c :: nat) \<le> 57"

definition digit_val :: "char \<Rightarrow> nat" where
  "digit_val c = of_char c - 48"

definition is_space :: "char \<Rightarrow> bool" where
  "is_space c \<longleftrightarrow> c = CHR '' '' \<or> 9 \<le> (of_char c :: nat) \<and> (of_char c :: nat) \<le> 13"

definition digits_val :: "string \<Rightarrow> nat" where
  "digits_val s = foldl (\<lambda>v c. v * 10 + digit_val c) 0 s"

text \<open>The sign, the digits and what follows them; \<open>None\<close> when there is no digit.\<close>

definition scan_number :: "string \<Rightarrow> (bool \<times> nat \<times> string) option" where
  "scan_number s =
     (let t = dropWhile is_space s;
          neg = (t \<noteq> [] \<and> hd t = CHR ''-'');
          u = (if t \<noteq> [] \<and> (hd t = CHR ''-'' \<or> hd t = CHR ''+'') then tl t else t);
          ds = takeWhile is_digit u
      in if ds = [] then None else Some (neg, digits_val ds, dropWhile is_digit u))"

definition ULLONG_MAX :: nat where
  "ULLONG_MAX = 2 ^ 64 - 1"

text \<open>The value, the unread rest of the string (\<open>end\<close>) and whether \<open>errno\<close> is set to \<open>ERANGE\<close>.\<close>

definition strtoull :: "string \<Rightarrow> u64 \<times> string \<times> bool" where
  "strtoull s =
     (case scan_number s of
        None \<Rightarrow> (0, s, False)
      | Some (neg, v, rest) \<Rightarrow>
          if ULLONG_MAX < v then (- 1, rest, True)
          else (if neg then - of_nat v else of_nat v, rest, False))"

definition strtoll :: "string \<Rightarrow> int \<times> string \<times> bool" where
  "strtoll s =
     (case scan_number s of
        None \<Rightarrow> (0, s, False)
      | Some (neg, v, rest) \<Rightarrow>
          let i = (if neg then - int v else int v)
          in if i < - (2 ^ 63) then (- (2 ^ 63), rest, True)
             else if 2 ^ 63 - 1 < i then (2 ^ 63 - 1, rest, True)
             else (i, rest, False))"

section \<open>Printing and reading back\<close>

lemma of_char_digit [simp]: "d < 10 \<Longrightarrow> (of_char (digit_char d) :: nat) = 48 + d"
  by (simp add: digit_char_def)

lemma is_digit_digit_char [simp]: "d < 10 \<Longrightarrow> is_digit (digit_char d)"
  by (simp add: is_digit_def)

lemma digit_val_digit_char [simp]: "d < 10 \<Longrightarrow> digit_val (digit_char d) = d"
  by (simp add: digit_val_def)

lemma show_nat_digits: "c \<in> set (show_nat n) \<Longrightarrow> is_digit c"
  by (induction n rule: show_nat.induct) (subst (asm) (2) show_nat.simps, auto split: if_splits)

lemma show_nat_not_Nil [simp]: "show_nat n \<noteq> []"
  by (subst show_nat.simps) simp

lemma digits_val_append: "digits_val (s @ [c]) = digits_val s * 10 + digit_val c"
  by (simp add: digits_val_def)

lemma digits_val_show_nat [simp]: "digits_val (show_nat n) = n"
proof (induction n rule: show_nat.induct)
  case (1 n)
  then show ?case
    by (cases "n < 10") (simp_all add: show_nat.simps [of n] digits_val_append digits_val_def [of "[_]"])
qed

lemma digit_not_sign: "is_digit c \<Longrightarrow> c \<noteq> CHR ''-'' \<and> c \<noteq> CHR ''+'' \<and> \<not> is_space c"
  by (auto simp: is_digit_def is_space_def)

lemma scan_show_nat [simp]: "scan_number (show_nat n) = Some (False, n, [])"
proof -
  let ?s = "show_nat n"
  obtain c cs where s: "?s = c # cs" by (cases ?s) auto
  have all: "\<forall>x \<in> set ?s. is_digit x" using show_nat_digits by blast
  then have "is_digit c" by (simp add: s)
  then have "dropWhile is_space ?s = ?s" "hd ?s \<noteq> CHR ''-''" "hd ?s \<noteq> CHR ''+''"
    using digit_not_sign [of c] by (simp_all add: s)
  moreover have "takeWhile is_digit ?s = ?s" "dropWhile is_digit ?s = []"
    using all by (simp_all add: takeWhile_eq_all_conv)
  ultimately show ?thesis by (simp add: scan_number_def Let_def takeWhile_eq_all_conv [THEN iffD2])
qed

lemma scan_show_neg [simp]: "scan_number (CHR ''-'' # show_nat n) = Some (True, n, [])"
proof -
  have all: "\<forall>x \<in> set (show_nat n). is_digit x" using show_nat_digits by blast
  then have "takeWhile is_digit (show_nat n) = show_nat n" "dropWhile is_digit (show_nat n) = []"
    by (simp_all add: takeWhile_eq_all_conv)
  moreover have "\<not> is_space CHR ''-''" by (simp add: is_space_def)
  ultimately show ?thesis by (simp add: scan_number_def Let_def takeWhile_eq_all_conv [THEN iffD2])
qed

lemma strtoull_show_nat: "n \<le> ULLONG_MAX \<Longrightarrow> strtoull (show_nat n) = (of_nat n, [], False)"
  by (simp add: strtoull_def)

lemma strtoll_show_int: "- (2 ^ 63) \<le> i \<Longrightarrow> i < 2 ^ 63 \<Longrightarrow> strtoll (show_int i) = (i, [], False)"
  by (auto simp: strtoll_def show_int_def Let_def)

lemma unat_u64_le: "unat (w :: u64) \<le> ULLONG_MAX"
  using unsigned_less [of w, where 'a = nat] by (simp add: ULLONG_MAX_def)

end
