(* ===== verification/Http_Parse.thy ===== *)
theory Http_Parse
  imports Decimal "HOL-Library.Sublist"
begin

text \<open>
  The request parser of the HTTP server (httpd/epsilon_http.c): the receive buffer of a connection,
  the search for the end of the head, the request line, the header table, the length of the body and
  the body itself. What the peer sends is a script: the list of the pieces \<open>recv\<close> finds when the
  server polls. A piece longer than the free space is taken in parts; an empty piece is the end of the
  stream; the end of the script is a time-out or an error. Allocation succeeds; \<open>recv_reserve\<close> still
  refuses a size that would overflow \<open>size_t\<close>. The bytes before \<open>pos\<close> are consumed and never read
  again, so the NUL bytes the parser writes over them are not kept.
\<close>

section \<open>Constants and requests\<close>

definition EDB_HTTP_MAX_HEADER_BYTES :: nat where
  "EDB_HTTP_MAX_HEADER_BYTES = 32 * 1024"

definition EDB_HTTP_MAX_BODY_BYTES :: nat where
  "EDB_HTTP_MAX_BODY_BYTES = 16 * 1024 * 1024"

definition EDB_HTTP_MAX_HEADERS :: nat where
  "EDB_HTTP_MAX_HEADERS = 32"

definition SIZE_MAX :: nat where
  "SIZE_MAX = 2 ^ 64 - 1"

abbreviation chr_nul :: char where "chr_nul \<equiv> CHR 0x00"
abbreviation chr_tab :: char where "chr_tab \<equiv> CHR 0x09"
abbreviation chr_lf :: char where "chr_lf \<equiv> CHR 0x0A"
abbreviation chr_cr :: char where "chr_cr \<equiv> CHR 0x0D"

abbreviation crlf2 :: string where "crlf2 \<equiv> [chr_cr, chr_lf, chr_cr, chr_lf]"
abbreviation lf2 :: string where "lf2 \<equiv> [chr_lf, chr_lf]"

record http_request =
  rq_method :: string
  rq_path :: string
  rq_query :: string
  rq_headers :: "(string \<times> string) list"
  rq_body :: string
  rq_peer_ip :: string
  rq_trusted :: bool

definition edb_http_header :: "http_request \<Rightarrow> string \<Rightarrow> string option" where
  "edb_http_header req name = map_option snd (first_match (\<lambda>h. strcasecmp_eq (fst h) name) (rq_headers req))"

section \<open>The receive buffer\<close>

text \<open>The bytes received (\<open>rb->len\<close> of them) and the capacity of the buffer.\<close>

record recv_buf =
  rb_data :: string
  rb_cap :: nat

text \<open>The doubling loop; \<open>newcap\<close> is never 0 there.\<close>

function grow_cap :: "nat \<Rightarrow> nat \<Rightarrow> nat option" where
  "grow_cap newcap need =
     (if newcap < need
      then if newcap = 0 \<or> SIZE_MAX div 2 < newcap then None else grow_cap (newcap * 2) need
      else Some newcap)"
  by pat_completeness auto
termination
  by (relation "measure (\<lambda>(newcap, need). need - newcap)") auto

declare grow_cap.simps [simp del]

definition recv_reserve :: "recv_buf \<Rightarrow> nat \<Rightarrow> recv_buf option" where
  "recv_reserve rb need =
     (if need \<le> rb_cap rb then Some rb
      else case grow_cap (if rb_cap rb = 0 then 8192 else rb_cap rb) need of
             None \<Rightarrow> None
           | Some c \<Rightarrow> Some (rb\<lparr>rb_cap := c\<rparr>))"

text \<open>The buffer and the script after the call, and the number of bytes received.\<close>

definition recv_room :: "recv_buf \<Rightarrow> recv_buf option" where
  "recv_room rb =
     (if rb_cap rb - length (rb_data rb) < 4096 then recv_reserve rb (length (rb_data rb) + 4096) else Some rb)"

definition recv_append :: "recv_buf \<Rightarrow> string list \<Rightarrow> (recv_buf \<times> string list \<times> nat) option" where
  "recv_append rb script =
     (case recv_room rb of
        None \<Rightarrow> None
      | Some rb \<Rightarrow>
          case script of
            [] \<Rightarrow> None
          | piece # later \<Rightarrow>
              let n = min (length piece) (rb_cap rb - length (rb_data rb))
              in if n = 0 then None
                 else Some (rb\<lparr>rb_data := rb_data rb @ take n piece\<rparr>,
                            if n = length piece then later else drop n piece # later, n))"

lemma recv_reserve_data: "recv_reserve rb need = Some rb' \<Longrightarrow> rb_data rb' = rb_data rb"
  by (auto simp: recv_reserve_def split: if_splits option.splits)

lemma recv_room_data: "recv_room rb = Some rb' \<Longrightarrow> rb_data rb' = rb_data rb"
  by (auto simp: recv_room_def recv_reserve_data split: if_splits)

lemma recv_append_SomeD:
  assumes "recv_append rb script = Some (rb', script', n)"
  shows "rb_data rb' @ concat script' = rb_data rb @ concat script"
    and "length (rb_data rb') = length (rb_data rb) + n"
    and "0 < n"
    and "length (concat script') < length (concat script)"
proof -
  from assms obtain rb1 where room: "recv_room rb = Some rb1"
    by (auto simp: recv_append_def split: option.splits)
  note rb1 = recv_room_data [OF room]
  from assms obtain piece later where script: "script = piece # later"
    by (cases script) (auto simp: recv_append_def room)
  define k where "k = min (length piece) (rb_cap rb1 - length (rb_data rb1))"
  have "k \<noteq> 0" and rb': "rb' = rb1\<lparr>rb_data := rb_data rb1 @ take k piece\<rparr>"
    and script': "script' = (if k = length piece then later else drop k piece # later)" and "n = k"
    using assms by (auto simp: recv_append_def room script Let_def simp flip: k_def split: if_splits)
  then have n: "n = min (length piece) (rb_cap rb1 - length (rb_data rb1))" "n \<noteq> 0"
    by (simp_all add: k_def)
  note rb' = rb' [folded \<open>n = k\<close>] and script' = script' [folded \<open>n = k\<close>]
  show "rb_data rb' @ concat script' = rb_data rb @ concat script"
    by (auto simp: rb' script' script rb1)
  show "length (rb_data rb') = length (rb_data rb) + n"
    using n by (simp add: rb' rb1)
  show "0 < n" using n(2) by simp
  show "length (concat script') < length (concat script)"
    using n by (auto simp: script' script)
qed

section \<open>Searching and splitting\<close>

fun buf_find :: "string \<Rightarrow> string \<Rightarrow> nat option" where
  "buf_find [] needle = None"
| "buf_find (c # s) needle =
     (if needle = [] then None
      else if prefix needle (c # s) then Some 0
      else map_option Suc (buf_find s needle))"

text \<open>\<open>strchr\<close>: the string before the first \<open>c\<close>, and the string behind it.\<close>

definition strchr_split :: "char \<Rightarrow> string \<Rightarrow> (string \<times> string) option" where
  "strchr_split c s =
     (case dropWhile (\<lambda>x. x \<noteq> c) s of
        [] \<Rightarrow> None
      | _ # rest \<Rightarrow> Some (takeWhile (\<lambda>x. x \<noteq> c) s, rest))"

definition cstr :: "string \<Rightarrow> string" where
  "cstr s = takeWhile (\<lambda>c. c \<noteq> chr_nul) s"

definition trim :: "string \<Rightarrow> string" where
  "trim s =
     rev (dropWhile (\<lambda>c. c = CHR '' '' \<or> c = chr_tab \<or> c = chr_cr)
       (rev (dropWhile (\<lambda>c. c = CHR '' '' \<or> c = chr_tab) s)))"

text \<open>A \<open>%<n>s\<close> conversion of \<open>sscanf\<close>: the word and the rest of the input.\<close>

definition scan_word :: "nat \<Rightarrow> string \<Rightarrow> (string \<times> string) option" where
  "scan_word n s =
     (let t = dropWhile is_space s;
          w = take n (takeWhile (\<lambda>c. \<not> is_space c) t)
      in if w = [] then None else Some (w, drop (length w) t))"

lemma strchr_split_Cons:
  "strchr_split c (x # s) =
     (if x = c then Some ([], s) else map_option (apfst (Cons x)) (strchr_split c s))"
  by (cases "dropWhile (\<lambda>x. x \<noteq> c) s") (simp_all add: strchr_split_def del: dropWhile_eq_Nil_conv)

lemma strchr_split_Nil [simp]: "strchr_split c [] = None"
  by (simp add: strchr_split_def)

lemma strchr_split_SomeD:
  "strchr_split c s = Some (a, b) \<Longrightarrow> s = a @ c # b \<and> c \<notin> set a"
  by (induction s arbitrary: a) (auto simp: strchr_split_Cons split: if_splits)

lemma strchr_split_append [simp]: "c \<notin> set a \<Longrightarrow> strchr_split c (a @ c # b) = Some (a, b)"
  by (induction a) (auto simp: strchr_split_Cons)

lemma strchr_split_None: "c \<notin> set s \<Longrightarrow> strchr_split c s = None"
  by (induction s) (auto simp: strchr_split_Cons)

section \<open>The head\<close>

text \<open>The length of the head in the unread bytes, if they hold all of it.\<close>

definition find_head :: "string \<Rightarrow> nat option" where
  "find_head s =
     (case buf_find s crlf2 of
        Some i \<Rightarrow> Some (i + 4)
      | None \<Rightarrow> map_option (\<lambda>i. i + 2) (buf_find s lf2))"

function read_head :: "recv_buf \<Rightarrow> string list \<Rightarrow> nat \<Rightarrow> nat \<Rightarrow> (recv_buf \<times> string list \<times> nat) option" where
  "read_head rb script pos header_total =
     (case find_head (drop pos (rb_data rb)) of
        Some n \<Rightarrow> Some (rb, script, n)
      | None \<Rightarrow>
          if EDB_HTTP_MAX_HEADER_BYTES < header_total then None
          else case recv_append rb script of
                 None \<Rightarrow> None
               | Some (rb', script', n) \<Rightarrow> read_head rb' script' pos (header_total + n))"
  by pat_completeness auto
termination
  by (relation "measure (\<lambda>(rb, script, pos, header_total). length (concat script))")
    (auto dest: recv_append_SomeD(4))

declare read_head.simps [simp del]

text \<open>The request line: method, path and query.\<close>

definition parse_line :: "string \<Rightarrow> (string \<times> string \<times> string) option" where
  "parse_line line =
     (case scan_word 15 line of
        None \<Rightarrow> None
      | Some (method, rest) \<Rightarrow>
          (case scan_word 3071 rest of
             None \<Rightarrow> None
           | Some (target, _) \<Rightarrow>
               (case strchr_split (CHR ''?'') target of
                  Some (path, query) \<Rightarrow> Some (method, snprintf_s 1024 path, snprintf_s 2048 query)
                | None \<Rightarrow> Some (method, snprintf_s 1024 target, []))))"

text \<open>The header loop from \<open>cursor\<close>; \<open>None\<close> when the table is full.\<close>

function parse_headers :: "string \<Rightarrow> (string \<times> string) list \<Rightarrow> (string \<times> string) list option" where
  "parse_headers cursor hs =
     (case strchr_split chr_lf cursor of
        None \<Rightarrow> Some hs
      | Some (line, rest) \<Rightarrow>
          if hd cursor = chr_cr \<or> hd cursor = chr_lf then Some hs
          else if EDB_HTTP_MAX_HEADERS \<le> length hs then None
          else parse_headers rest
                 (case strchr_split (CHR '':'') line of
                    None \<Rightarrow> hs
                  | Some (name, value) \<Rightarrow> hs @ [(trim name, trim value)]))"
  by pat_completeness auto
termination
  by (relation "measure (\<lambda>(cursor, hs). length cursor)") (auto dest!: strchr_split_SomeD)

declare parse_headers.simps [simp del]

definition content_length :: "(string \<times> string) list \<Rightarrow> nat option" where
  "content_length hs =
     (case filter (\<lambda>h. strcasecmp_eq (fst h) ''Content-Length'') hs of
        [] \<Rightarrow> Some 0
      | [(_, cl)] \<Rightarrow>
          if cl = [] \<or> (\<exists>c \<in> set cl. \<not> is_digit c) then None
          else
            let (parsed, rest, erange) = strtoull cl
            in if erange \<or> rest \<noteq> [] \<or> EDB_HTTP_MAX_BODY_BYTES < unat parsed then None else Some (unat parsed)
      | _ \<Rightarrow> None)"

text \<open>
  The head of \<open>n\<close> bytes: its last byte is overwritten with a NUL, and the string functions stop at
  the first NUL.
\<close>

definition parse_head :: "string \<Rightarrow> nat \<Rightarrow> (http_request \<times> nat) option" where
  "parse_head s n =
     (if EDB_HTTP_MAX_HEADER_BYTES < n then None
      else
        case strchr_split chr_lf (cstr (take (n - 1) s)) of
          None \<Rightarrow> None
        | Some (line, cursor) \<Rightarrow>
            (case parse_line line of
               None \<Rightarrow> None
             | Some (method, path, query) \<Rightarrow>
                 (case parse_headers cursor [] of
                    None \<Rightarrow> None
                  | Some hs \<Rightarrow>
                      let req = \<lparr>rq_method = method, rq_path = path, rq_query = query, rq_headers = hs,
                                 rq_body = [], rq_peer_ip = [], rq_trusted = False\<rparr>
                      in case content_length hs of
                           None \<Rightarrow> None
                         | Some cl \<Rightarrow> if edb_http_header req ''Transfer-Encoding'' \<noteq> None then None else Some (req, cl))))"

section \<open>The body and the whole request\<close>

function recv_until :: "recv_buf \<Rightarrow> string list \<Rightarrow> nat \<Rightarrow> (recv_buf \<times> string list) option" where
  "recv_until rb script goal_len =
     (if length (rb_data rb) < goal_len
      then case recv_append rb script of
             None \<Rightarrow> None
           | Some (rb', script', _) \<Rightarrow> recv_until rb' script' goal_len
      else Some (rb, script))"
  by pat_completeness auto
termination
  by (relation "measure (\<lambda>(rb, script, goal_len). length (concat script))") (auto dest: recv_append_SomeD(4))

declare recv_until.simps [simp del]

definition parse_request_full ::
  "recv_buf \<Rightarrow> string list \<Rightarrow> nat \<Rightarrow> (http_request \<times> recv_buf \<times> string list \<times> nat) option" where
  "parse_request_full rb script pos =
     (case read_head rb script pos 0 of
        None \<Rightarrow> None
      | Some (rb, script, head_len) \<Rightarrow>
          (case parse_head (drop pos (rb_data rb)) head_len of
             None \<Rightarrow> None
           | Some (req, cl) \<Rightarrow>
               if SIZE_MAX - pos - head_len < cl then None
               else case recv_reserve rb (pos + head_len + cl + 1) of
                      None \<Rightarrow> None
                    | Some rb \<Rightarrow>
                        (case recv_until rb script (pos + head_len + cl) of
                           None \<Rightarrow> None
                         | Some (rb, script) \<Rightarrow>
                             Some (req\<lparr>rq_body := take cl (drop (pos + head_len) (rb_data rb))\<rparr>, rb, script,
                                   pos + head_len + cl))))"

end
