(* ===== verification/Http_Frame.thy ===== *)
theory Http_Frame
  imports Http_Parse
begin

text \<open>
  What the request parser does to the stream of a connection: no byte is lost or reordered, a request
  is a head that ends in an empty line and as many bytes as its headers announce, and a request that is
  printed the standard way is read back whatever pieces it arrives in and whatever follows it.
\<close>

section \<open>Searching\<close>

lemma buf_find_SomeD: "buf_find s needle = Some i \<Longrightarrow> needle \<noteq> [] \<and> prefix needle (drop i s)"
  by (induction s arbitrary: i) (auto split: if_splits)

lemma buf_find_length: "buf_find s needle = Some i \<Longrightarrow> i + length needle \<le> length s"
  using buf_find_SomeD [of s needle i] by (cases needle) (auto dest!: prefix_length_le)

text \<open>The first occurrence stays the first one when more bytes arrive.\<close>

lemma buf_find_append: "buf_find s needle = Some i \<Longrightarrow> buf_find (s @ t) needle = Some i"
proof (induction s arbitrary: i)
  case (Cons c s)
  show ?case
  proof (cases "prefix needle (c # s)")
    case True
    then have "prefix needle ((c # s) @ t)" by (rule prefix_prefix)
    with True Cons.prems show ?thesis by (auto split: if_splits)
  next
    case False
    with Cons.prems obtain j where j: "buf_find s needle = Some j" "i = Suc j" "needle \<noteq> []"
      by (auto split: if_splits)
    have "\<not> prefix needle (c # s @ t)"
    proof
      assume "prefix needle (c # s @ t)"
      moreover have "length needle \<le> length (c # s)" using buf_find_length [OF j(1)] by simp
      ultimately have "prefix needle (c # s)"
        using prefix_length_prefix [of needle "(c # s) @ t" "c # s"] by simp
      with False show False ..
    qed
    with j Cons.IH [OF j(1)] show ?thesis by simp
  qed
qed simp

lemma buf_find_prefix: "prefix p s \<Longrightarrow> buf_find p needle = Some i \<Longrightarrow> buf_find s needle = Some i"
  by (auto simp: prefix_def buf_find_append)

text \<open>Characters the needle does not start with are skipped.\<close>

lemma buf_find_skip:
  "x \<notin> set s \<Longrightarrow> buf_find (s @ t) (x # needle) = map_option ((+) (length s)) (buf_find t (x # needle))"
proof (induction s)
  case Nil
  then show ?case by (simp add: option.map_id [unfolded id_def])
next
  case (Cons c s)
  then show ?case by (auto simp: option.map_comp comp_def)
qed

lemma find_head_SomeD:
  assumes "find_head s = Some n"
  shows "n \<le> length s" and "suffix crlf2 (take n s) \<or> suffix lf2 (take n s)"
proof -
  have key: "n = i + length needle \<Longrightarrow> n \<le> length s \<and> suffix needle (take n s)" if "buf_find s needle = Some i" for i needle
    using buf_find_SomeD [OF that] buf_find_length [OF that]
    by (auto simp: suffix_def prefix_def take_add)
  from assms show "n \<le> length s" "suffix crlf2 (take n s) \<or> suffix lf2 (take n s)"
    by (auto simp: find_head_def split: option.splits dest!: key)
qed

section \<open>Conservation of the stream\<close>

lemma read_head_SomeD:
  "read_head rb script pos t = Some (rb', script', n) \<Longrightarrow>
     rb_data rb' @ concat script' = rb_data rb @ concat script \<and> length (rb_data rb) \<le> length (rb_data rb') \<and>
     find_head (drop pos (rb_data rb')) = Some n"
proof (induction rb script pos t rule: read_head.induct)
  case (1 rb script pos t)
  show ?case
  proof (cases "find_head (drop pos (rb_data rb))")
    case None
    with "1.prems" obtain rb1 script1 k where a: "recv_append rb script = Some (rb1, script1, k)"
      and r: "read_head rb1 script1 pos (t + k) = Some (rb', script', n)"
      and t: "\<not> EDB_HTTP_MAX_HEADER_BYTES < t"
      by (subst (asm) read_head.simps) (auto split: if_splits option.splits)
    from "1.IH" [OF None t a refl refl] r recv_append_SomeD [OF a] show ?thesis by auto
  next
    case (Some m)
    with "1.prems" show ?thesis by (subst (asm) read_head.simps) auto
  qed
qed

lemma recv_until_SomeD:
  "recv_until rb script g = Some (rb', script') \<Longrightarrow>
     rb_data rb' @ concat script' = rb_data rb @ concat script \<and> length (rb_data rb) \<le> length (rb_data rb') \<and>
     g \<le> length (rb_data rb')"
proof (induction rb script g rule: recv_until.induct)
  case (1 rb script g)
  show ?case
  proof (cases "length (rb_data rb) < g")
    case True
    with "1.prems" obtain rb1 script1 k where a: "recv_append rb script = Some (rb1, script1, k)"
      and r: "recv_until rb1 script1 g = Some (rb', script')"
      by (subst (asm) recv_until.simps) (auto split: option.splits)
    from "1.IH" [OF True a refl refl] r recv_append_SomeD [OF a] show ?thesis by auto
  next
    case False
    with "1.prems" show ?thesis by (subst (asm) recv_until.simps) auto
  qed
qed

lemma scan_word_length: "scan_word n s = Some (w, r) \<Longrightarrow> Suc 0 \<le> length w \<and> length w + length r \<le> length s"
  using length_dropWhile_le [of is_space s] length_takeWhile_le [of "\<lambda>c. \<not> is_space c" "dropWhile is_space s"]
  by (auto simp: scan_word_def Let_def Suc_le_eq split: if_splits)

lemma parse_line_length: "parse_line line = Some r \<Longrightarrow> 2 \<le> length line"
  by (auto simp: parse_line_def split: option.splits prod.splits dest!: scan_word_length simp del: Suc_le_eq)

lemma parse_head_SomeD:
  assumes "parse_head s n = Some (req, cl)"
  shows "4 \<le> n" and "n \<le> EDB_HTTP_MAX_HEADER_BYTES" and "content_length (rq_headers req) = Some cl"
    and "edb_http_header req ''Transfer-Encoding'' = None"
proof -
  from assms obtain line cursor r where split: "strchr_split chr_lf (cstr (take (n - 1) s)) = Some (line, cursor)"
    and line: "parse_line line = Some r"
    by (auto simp: parse_head_def split: if_splits option.splits)
  have "length line + 1 \<le> length (cstr (take (n - 1) s))"
    using strchr_split_SomeD [OF split] by simp
  also have "\<dots> \<le> n - 1"
    using length_takeWhile_le [of "\<lambda>c. c \<noteq> chr_nul" "take (n - 1) s"] by (simp add: cstr_def)
  finally show "4 \<le> n" using parse_line_length [OF line] by linarith
  show "n \<le> EDB_HTTP_MAX_HEADER_BYTES" using assms by (simp add: parse_head_def split: if_splits)
  show "content_length (rq_headers req) = Some cl"
    using assms by (auto simp: parse_head_def Let_def split: if_splits option.splits prod.splits)
  show "edb_http_header req ''Transfer-Encoding'' = None"
    using assms by (auto simp: parse_head_def Let_def split: if_splits option.splits prod.splits)
qed

lemma parse_request_frame:
  assumes "parse_request_full rb script pos = Some (req, rb', script', pos')" and "pos \<le> length (rb_data rb)"
  obtains head where "drop pos (rb_data rb) @ concat script = head @ rq_body req @ drop pos' (rb_data rb') @ concat script'"
    and "rb_data rb' @ concat script' = rb_data rb @ concat script"
    and "pos' = pos + length head + length (rq_body req)" and "pos' \<le> length (rb_data rb')"
    and "4 \<le> length head" and "length head \<le> EDB_HTTP_MAX_HEADER_BYTES"
    and "suffix crlf2 head \<or> suffix lf2 head"
    and "content_length (rq_headers req) = Some (length (rq_body req))"
    and "edb_http_header req ''Transfer-Encoding'' = None"
proof -
  from assms(1) obtain rb1 s1 n req1 cl rb2 where
    h: "read_head rb script pos 0 = Some (rb1, s1, n)" and
    p: "parse_head (drop pos (rb_data rb1)) n = Some (req1, cl)" and
    r: "recv_reserve rb1 (pos + n + cl + 1) = Some rb2" and
    u: "recv_until rb2 s1 (pos + n + cl) = Some (rb', script')" and
    req: "req = req1\<lparr>rq_body := take cl (drop (pos + n) (rb_data rb'))\<rparr>" and pos': "pos' = pos + n + cl"
    by (auto simp: parse_request_full_def split: option.splits if_splits)
  note h = read_head_SomeD [OF h] and u = recv_until_SomeD [OF u] and r = recv_reserve_data [OF r]
  have all: "rb_data rb' @ concat script' = rb_data rb @ concat script" using h u r by simp
  have len: "pos + n + cl \<le> length (rb_data rb')" using u by simp
  have pre: "take (length (rb_data rb1)) (rb_data rb') = rb_data rb1"
    using u r by (metis append_eq_conv_conj append_take_drop_id append_assoc append_same_eq append_eq_append_conv_if)
  have n: "n \<le> length (rb_data rb1) - pos" using find_head_SomeD(1) h by fastforce
  have le: "pos \<le> length (rb_data rb1)" using h assms(2) by linarith
  define head where "head = take n (drop pos (rb_data rb'))"
  have head1: "head = take n (drop pos (rb_data rb1))"
    using n by (subst pre [symmetric]) (simp add: head_def drop_take min_def)
  have body: "rq_body req = take cl (drop (pos + n) (rb_data rb'))" "length (rq_body req) = cl"
    using len by (simp_all add: req)
  have "drop pos (rb_data rb @ concat script) = drop pos (rb_data rb' @ concat script')" using all by simp
  also have "\<dots> = drop pos (rb_data rb') @ concat script'" using len by simp
  also have "drop pos (rb_data rb') = head @ take cl (drop n (drop pos (rb_data rb'))) @ drop cl (drop n (drop pos (rb_data rb')))"
    by (simp only: head_def append_take_drop_id)
  finally have "drop pos (rb_data rb) @ concat script = head @ rq_body req @ drop pos' (rb_data rb') @ concat script'"
    using assms(2) by (simp add: body pos' add.commute add.left_commute)
  moreover have "length head = n" using len by (simp add: head_def)
  ultimately show thesis
    using that [of head] all len body pos' parse_head_SomeD [OF p] find_head_SomeD(2) [of "drop pos (rb_data rb1)" n] h head1
    by (simp add: req edb_http_header_def)
qed

section \<open>Printed requests\<close>

abbreviation crlf :: string where "crlf \<equiv> [chr_cr, chr_lf]"

text \<open>The lines of a head, each ended by CR LF, and the empty line.\<close>

definition print_lines :: "string list \<Rightarrow> string" where
  "print_lines ls = concat (map (\<lambda>l. l @ crlf) ls) @ crlf"

definition header_line :: "string \<times> string \<Rightarrow> string" where
  "header_line h = fst h @ '': '' @ snd h"

definition request_target :: "http_request \<Rightarrow> string" where
  "request_target req = rq_path req @ (if rq_query req = [] then [] else CHR ''?'' # rq_query req)"

definition request_line :: "http_request \<Rightarrow> string" where
  "request_line req = rq_method req @ '' '' @ request_target req @ '' HTTP/1.1''"

definition print_request_head :: "http_request \<Rightarrow> string" where
  "print_request_head req = print_lines (request_line req # map header_line (rq_headers req))"

definition print_request :: "http_request \<Rightarrow> string" where
  "print_request req = print_request_head req @ rq_body req"

definition clean_char :: "char \<Rightarrow> bool" where
  "clean_char c \<longleftrightarrow> c \<noteq> chr_nul \<and> c \<noteq> chr_cr \<and> c \<noteq> chr_lf"

definition word_char :: "char \<Rightarrow> bool" where
  "word_char c \<longleftrightarrow> c \<noteq> chr_nul \<and> \<not> is_space c"

definition trimmed :: "string \<Rightarrow> bool" where
  "trimmed s \<longleftrightarrow> s = [] \<or> hd s \<noteq> CHR '' '' \<and> hd s \<noteq> chr_tab \<and> last s \<noteq> CHR '' '' \<and> last s \<noteq> chr_tab"

definition wf_header :: "string \<times> string \<Rightarrow> bool" where
  "wf_header h \<longleftrightarrow>
     list_all clean_char (fst h) \<and> CHR '':'' \<notin> set (fst h) \<and> trimmed (fst h) \<and>
     list_all clean_char (snd h) \<and> trimmed (snd h)"

text \<open>The requests the parser reads back exactly.\<close>

definition wf_request :: "http_request \<Rightarrow> bool" where
  "wf_request req \<longleftrightarrow>
     rq_method req \<noteq> [] \<and> length (rq_method req) < 16 \<and> list_all word_char (rq_method req) \<and>
     rq_path req \<noteq> [] \<and> length (rq_path req) < 1024 \<and> list_all word_char (rq_path req) \<and>
     CHR ''?'' \<notin> set (rq_path req) \<and>
     length (rq_query req) < 2048 \<and> list_all word_char (rq_query req) \<and>
     length (rq_headers req) \<le> EDB_HTTP_MAX_HEADERS \<and> list_all wf_header (rq_headers req) \<and>
     content_length (rq_headers req) = Some (length (rq_body req)) \<and>
     edb_http_header req ''Transfer-Encoding'' = None \<and>
     length (print_request_head req) \<le> EDB_HTTP_MAX_HEADER_BYTES \<and>
     rq_peer_ip req = [] \<and> \<not> rq_trusted req"

subsection \<open>The end of a printed head\<close>

definition head_line :: "string \<Rightarrow> bool" where
  "head_line l \<longleftrightarrow> l \<noteq> [] \<and> list_all clean_char l"

lemma head_line_no: "head_line l \<Longrightarrow> chr_cr \<notin> set l \<and> chr_lf \<notin> set l"
  by (auto simp: head_line_def clean_char_def list_all_iff)

lemma print_lines_Cons: "print_lines (l # ls) = l @ chr_cr # chr_lf # print_lines ls"
  by (simp add: print_lines_def)

lemma hd_print_lines:
  assumes "list_all head_line ls" "ls \<noteq> []"
  obtains c r where "print_lines ls = c # r" "c \<noteq> chr_cr" "c \<noteq> chr_lf"
proof -
  from assms(2) obtain l ls' where ls: "ls = l # ls'" by (cases ls) auto
  with assms(1) obtain c l' where "l = c # l'" "c \<noteq> chr_cr" "c \<noteq> chr_lf"
    by (cases l) (auto simp: head_line_def clean_char_def)
  then show thesis using that by (simp add: ls print_lines_Cons)
qed

lemma buf_find_print_lines:
  "list_all head_line ls \<Longrightarrow> ls \<noteq> [] \<Longrightarrow>
     buf_find (print_lines ls @ rest) crlf2 = Some (length (print_lines ls) - 4)"
proof (induction ls)
  case (Cons l ls)
  then have l: "chr_cr \<notin> set l" by (simp add: head_line_no)
  show ?case
  proof (cases "ls = []")
    case True
    then show ?thesis by (simp add: print_lines_Cons buf_find_skip [OF l]) (simp add: print_lines_def)
  next
    case False
    from Cons.prems have "list_all head_line ls" by simp
    from this False obtain c r where r: "print_lines ls = c # r" "c \<noteq> chr_cr" "c \<noteq> chr_lf"
      by (rule hd_print_lines)
    have "2 \<le> length (print_lines ls) - 2"
      using False by (cases ls) (simp_all add: print_lines_def)
    moreover have "\<not> prefix crlf2 (chr_cr # chr_lf # print_lines ls @ rest)"
      "\<not> prefix crlf2 (chr_lf # print_lines ls @ rest)"
      using r(2) by (simp_all add: r(1) eq_commute)
    then have "buf_find (chr_cr # chr_lf # print_lines ls @ rest) crlf2 =
      map_option Suc (map_option Suc (buf_find (print_lines ls @ rest) crlf2))"
      by (simp only: buf_find.simps) simp
    ultimately show ?thesis
      using Cons False by (simp add: print_lines_Cons buf_find_skip [OF l])
  qed
qed simp

lemma buf_find_print_lines_lf: "list_all head_line ls \<Longrightarrow> buf_find (print_lines ls) lf2 = None"
proof (induction ls)
  case Nil
  then show ?case by (simp add: print_lines_def)
next
  case (Cons l ls)
  then have l: "chr_lf \<notin> set (l @ [chr_cr])" by (simp add: head_line_no)
  obtain c r where r: "print_lines ls = c # r" "c \<noteq> chr_lf"
    using Cons.prems by (cases "ls = []") (auto simp: print_lines_def [of "[]"] elim!: hd_print_lines [of ls])
  have "\<not> prefix lf2 (chr_lf # print_lines ls)" using r(2) by (simp add: r(1) eq_commute)
  then have "buf_find (chr_lf # print_lines ls) lf2 = map_option Suc (buf_find (print_lines ls) lf2)"
    by (simp only: buf_find.simps) simp
  with Cons buf_find_skip [OF l, of "chr_lf # print_lines ls" "[chr_lf]"] show ?case
    by (simp add: print_lines_Cons)
qed

lemma find_head_printed:
  assumes ls: "list_all head_line ls" "ls \<noteq> []" and p: "prefix p (print_lines ls @ rest)"
  shows "find_head p = (if length (print_lines ls) \<le> length p then Some (length (print_lines ls)) else None)"
proof (cases "length (print_lines ls) \<le> length p")
  case True
  then have "prefix (print_lines ls) p" using prefix_length_prefix [OF _ p, of "print_lines ls"] by simp
  then obtain t where "p = print_lines ls @ t" by (auto simp: prefix_def)
  moreover have "4 \<le> length (print_lines ls)" using ls(2) by (cases ls) (simp_all add: print_lines_def)
  ultimately show ?thesis using buf_find_print_lines [OF ls] by (simp add: find_head_def)
next
  case False
  have "buf_find p crlf2 = None"
  proof (rule ccontr)
    assume "buf_find p crlf2 \<noteq> None"
    then obtain j where j: "buf_find p crlf2 = Some j" by auto
    from buf_find_prefix [OF p j] buf_find_print_lines [OF ls] have "j = length (print_lines ls) - 4" by simp
    with buf_find_length [OF j] False show False by simp
  qed
  moreover have "prefix p (print_lines ls)"
    using False p prefix_length_prefix [of p "print_lines ls @ rest" "print_lines ls"] by simp
  then have "buf_find p lf2 = None"
    using buf_find_prefix [of p "print_lines ls" lf2] buf_find_print_lines_lf [OF ls(1)]
    by (cases "buf_find p lf2") auto
  ultimately show ?thesis using False by (simp add: find_head_def)
qed

subsection \<open>Receiving goes on while there is input\<close>

lemma grow_cap_Some:
  "0 < c \<Longrightarrow> need \<le> SIZE_MAX div 2 \<Longrightarrow> \<exists>d. grow_cap c need = Some d \<and> need \<le> d"
proof (induction c need rule: grow_cap.induct)
  case (1 c need)
  show ?case
  proof (cases "c < need")
    case True
    moreover from True "1.prems" have "\<not> (c = 0 \<or> SIZE_MAX div 2 < c)" by auto
    ultimately show ?thesis
      using "1.IH" "1.prems" by (subst grow_cap.simps) simp
  next
    case False
    then show ?thesis by (subst grow_cap.simps) simp
  qed
qed

lemma recv_reserve_Some: "need \<le> SIZE_MAX div 2 \<Longrightarrow> \<exists>rb'. recv_reserve rb need = Some rb' \<and> need \<le> rb_cap rb'"
  using grow_cap_Some [of "if rb_cap rb = 0 then 8192 else rb_cap rb" need]
  by (auto simp: recv_reserve_def)

lemma recv_append_progress:
  assumes script: "script \<noteq> []" "[] \<notin> set script" and room: "length (rb_data rb) + 4096 \<le> SIZE_MAX div 2"
  obtains rb' script' n where "recv_append rb script = Some (rb', script', n)" "[] \<notin> set script'"
proof -
  obtain rb1 where rb1: "recv_room rb = Some rb1" "4096 \<le> rb_cap rb1 - length (rb_data rb)"
  proof (cases "rb_cap rb - length (rb_data rb) < 4096")
    case True
    with recv_reserve_Some [OF room, of rb] show thesis using that by (auto simp: recv_room_def)
  next
    case False
    then show thesis using that [of rb] by (simp add: recv_room_def)
  qed
  obtain piece later where p: "script = piece # later" "piece \<noteq> []" "[] \<notin> set later"
    using script by (cases script) auto
  define n where "n = min (length piece) (rb_cap rb1 - length (rb_data rb1))"
  have "n \<noteq> 0" "n \<le> length piece" using rb1 p recv_room_data [OF rb1(1)] by (auto simp: n_def)
  then show thesis
    using that [of "rb1\<lparr>rb_data := rb_data rb1 @ take n piece\<rparr>" "if n = length piece then later else drop n piece # later" n]
      p by (auto simp: recv_append_def rb1 Let_def simp flip: n_def)
qed

text \<open>Sizes far below \<open>SIZE_MAX\<close>: the largest buffer a request needs is under 17 MiB.\<close>

definition small_pos :: "nat \<Rightarrow> bool" where
  "small_pos pos \<longleftrightarrow> pos \<le> 2 ^ 32"

lemma small_pos_room: "small_pos pos \<Longrightarrow> n \<le> pos + 2 ^ 25 \<Longrightarrow> n + 4096 \<le> SIZE_MAX div 2"
  by (simp add: small_pos_def SIZE_MAX_def)

lemma read_head_total:
  assumes "[] \<notin> set script" "small_pos pos" "n \<le> EDB_HTTP_MAX_HEADER_BYTES" "pos \<le> length (rb_data rb)"
    "t + pos \<le> length (rb_data rb)" "n \<le> length (drop pos (rb_data rb) @ concat script)"
    "\<And>p. prefix p (drop pos (rb_data rb) @ concat script) \<Longrightarrow> find_head p = (if n \<le> length p then Some n else None)"
  shows "\<exists>rb' script'. read_head rb script pos t = Some (rb', script', n) \<and> [] \<notin> set script'"
  using assms
proof (induction rb script pos t rule: read_head.induct)
  case (1 rb script pos t)
  let ?d = "drop pos (rb_data rb)"
  have find: "find_head ?d = (if n \<le> length ?d then Some n else None)"
    by (rule "1.prems"(7)) simp
  show ?case
  proof (cases "n \<le> length ?d")
    case True
    then show ?thesis using find "1.prems"(1) by (subst read_head.simps) simp
  next
    case False
    have t: "\<not> EDB_HTTP_MAX_HEADER_BYTES < t" using False "1.prems" by simp
    have "script \<noteq> []" using False "1.prems"(6) by auto
    moreover have "length (rb_data rb) + 4096 \<le> SIZE_MAX div 2"
      using False "1.prems"(2,3) by (intro small_pos_room [of pos]) (simp_all add: EDB_HTTP_MAX_HEADER_BYTES_def)
    ultimately obtain rb1 script1 k where a: "recv_append rb script = Some (rb1, script1, k)" "[] \<notin> set script1"
      using "1.prems"(1) by (elim recv_append_progress [of script rb]) auto
    note d = recv_append_SomeD [OF a(1)]
    have same: "drop pos (rb_data rb1) @ concat script1 = ?d @ concat script"
      using arg_cong [OF d(1), of "drop pos"] "1.prems"(4) d(2) by simp
    have "\<exists>rb' script'. read_head rb1 script1 pos (t + k) = Some (rb', script', n) \<and> [] \<notin> set script'"
    proof (rule "1.IH" [OF _ t a(1) refl refl a(2) "1.prems"(2,3)])
      show "find_head ?d = None" using find False by simp
      show "pos \<le> length (rb_data rb1)" "t + k + pos \<le> length (rb_data rb1)"
        using "1.prems"(4,5) d(2) by simp_all
      show "n \<le> length (drop pos (rb_data rb1) @ concat script1)" using "1.prems"(6) by (simp only: same)
      show "find_head p = (if n \<le> length p then Some n else None)"
        if "prefix p (drop pos (rb_data rb1) @ concat script1)" for p
        using "1.prems"(7) that by (simp only: same)
    qed
    then show ?thesis using False t a(1) find by (subst read_head.simps) simp
  qed
qed

lemma recv_until_total:
  assumes "[] \<notin> set script" "goal_len + 4096 \<le> SIZE_MAX div 2" "goal_len \<le> length (rb_data rb @ concat script)"
  shows "\<exists>rb' script'. recv_until rb script goal_len = Some (rb', script') \<and> [] \<notin> set script'"
  using assms
proof (induction rb script goal_len rule: recv_until.induct)
  case (1 rb script g)
  show ?case
  proof (cases "length (rb_data rb) < g")
    case True
    with "1.prems" have "script \<noteq> []" "length (rb_data rb) + 4096 \<le> SIZE_MAX div 2" by auto
    then obtain rb1 script1 k where a: "recv_append rb script = Some (rb1, script1, k)" "[] \<notin> set script1"
      using "1.prems"(1) by (elim recv_append_progress [of script rb]) auto
    have "\<exists>rb' script'. recv_until rb1 script1 g = Some (rb', script') \<and> [] \<notin> set script'"
      using "1.prems" a(2) recv_append_SomeD(1) [OF a(1)] by (intro "1.IH" [OF True a(1) refl refl]) simp_all
    then show ?thesis using True a(1) by (subst recv_until.simps) simp
  next
    case False
    then show ?thesis using "1.prems"(1) by (subst recv_until.simps) simp
  qed
qed

subsection \<open>The fields of a printed request\<close>

lemma dropWhile_id: "s = [] \<or> \<not> P (hd s) \<Longrightarrow> dropWhile P s = s"
  by (cases s) auto

lemma trim_trimmed: "trimmed s \<Longrightarrow> list_all clean_char s \<Longrightarrow> trim s = s"
  by (cases s rule: rev_cases)
    (auto simp: trim_def trimmed_def clean_char_def dropWhile_id hd_append split: if_splits)

lemma trim_value: "trimmed v \<Longrightarrow> list_all clean_char v \<Longrightarrow> trim (CHR '' '' # v @ [chr_cr]) = v"
proof (cases "v = []")
  case False
  assume v: "trimmed v" "list_all clean_char v"
  with False have "dropWhile (\<lambda>c. c = CHR '' '' \<or> c = chr_tab) (v @ [chr_cr]) = v @ [chr_cr]"
    by (intro dropWhile_id) (auto simp: trimmed_def)
  moreover have "trim v = v" by (rule trim_trimmed [OF v])
  moreover have "dropWhile (\<lambda>c. c = CHR '' '' \<or> c = chr_tab) v = v"
    using v False by (intro dropWhile_id) (auto simp: trimmed_def)
  ultimately show ?thesis by (simp add: trim_def)
qed (simp add: trim_def)

lemma is_space_simps [simp]:
  "is_space (CHR '' '')" "is_space chr_cr" "is_space chr_lf" "is_space chr_tab" "\<not> is_space (CHR ''?'')"
  by (simp_all add: is_space_def)

lemma scan_word_word:
  assumes "w \<noteq> []" "length w \<le> n" "list_all word_char w" "is_space c"
  shows "scan_word n (w @ c # r) = Some (w, c # r)"
proof -
  have w: "\<forall>x \<in> set w. \<not> is_space x" using assms(3) by (auto simp: word_char_def list_all_iff)
  have "dropWhile is_space (w @ c # r) = w @ c # r" using assms(1) w by (cases w) auto
  moreover have "takeWhile (\<lambda>x. \<not> is_space x) (w @ c # r) = w" using w assms(4) by simp
  moreover have "0 < n" using assms(1,2) by (cases w) auto
  ultimately show ?thesis using assms by (simp add: scan_word_def Let_def)
qed

lemma scan_word_space: "is_space c \<Longrightarrow> scan_word n (c # s) = scan_word n s"
  by (simp add: scan_word_def)

lemma parse_line_printed:
  assumes "wf_request req"
  shows "parse_line (request_line req @ [chr_cr]) = Some (rq_method req, rq_path req, rq_query req)"
proof -
  let ?t = "request_target req"
  have t: "?t \<noteq> []" "list_all word_char ?t" "length ?t \<le> 3071"
    using assms by (auto simp: request_target_def wf_request_def word_char_def)
  have m: "rq_method req \<noteq> []" "length (rq_method req) \<le> 15" "list_all word_char (rq_method req)"
    using assms by (auto simp: wf_request_def)
  have "scan_word 15 (request_line req @ [chr_cr]) =
      Some (rq_method req, CHR '' '' # ?t @ CHR '' '' # ''HTTP/1.1'' @ [chr_cr])"
    using scan_word_word [OF m, of "CHR '' ''" "?t @ CHR '' '' # ''HTTP/1.1'' @ [chr_cr]"]
    by (simp add: request_line_def)
  moreover have "scan_word 3071 (CHR '' '' # ?t @ CHR '' '' # ''HTTP/1.1'' @ [chr_cr]) =
      Some (?t, CHR '' '' # ''HTTP/1.1'' @ [chr_cr])"
    using scan_word_word [OF t(1,3,2), of "CHR '' ''"] by (simp add: scan_word_space)
  moreover have "CHR ''?'' \<notin> set (rq_path req)" using assms by (simp add: wf_request_def)
  ultimately show ?thesis
    using assms
    by (simp add: parse_line_def request_target_def strchr_split_None wf_request_def snprintf_s_id split: if_splits)
qed

lemma header_line_clean: "wf_header h \<Longrightarrow> head_line (header_line h)"
  by (auto simp: wf_header_def header_line_def head_line_def clean_char_def)

lemma parse_headers_printed:
  "list_all wf_header hs \<Longrightarrow> length acc + length hs \<le> EDB_HTTP_MAX_HEADERS \<Longrightarrow>
     parse_headers (concat (map (\<lambda>l. l @ crlf) (map header_line hs)) @ [chr_cr]) acc = Some (acc @ hs)"
proof (induction hs arbitrary: acc)
  case Nil
  then show ?case by (subst parse_headers.simps) (simp add: strchr_split_None)
next
  case (Cons h hs)
  obtain name v where h: "h = (name, v)" by (cases h)
  let ?r = "concat (map (\<lambda>l. l @ crlf) (map header_line hs)) @ [chr_cr]"
  from Cons.prems have wf: "wf_header h" by simp
  note no = head_line_no [OF header_line_clean [OF wf]]
  have ne: "header_line h \<noteq> []" by (simp add: header_line_def)
  have cursor: "concat (map (\<lambda>l. l @ crlf) (map header_line (h # hs))) @ [chr_cr] = (header_line h @ [chr_cr]) @ chr_lf # ?r"
    by simp
  have "strchr_split (CHR '':'') (header_line h @ [chr_cr]) = Some (name, CHR '' '' # v @ [chr_cr])"
    using wf strchr_split_append [of "CHR '':''" name "CHR '' '' # v @ [chr_cr]"]
    by (simp add: header_line_def h wf_header_def)
  moreover have "trim name = name" "trim (CHR '' '' # v @ [chr_cr]) = v"
    using wf by (simp_all add: wf_header_def h trim_trimmed trim_value)
  moreover have "hd (header_line h @ [chr_cr]) \<noteq> chr_cr \<and> hd (header_line h @ [chr_cr]) \<noteq> chr_lf"
    using no ne by (cases "header_line h") auto
  moreover have "strchr_split chr_lf ((header_line h @ [chr_cr]) @ chr_lf # ?r) = Some (header_line h @ [chr_cr], ?r)"
    using no by (intro strchr_split_append) simp
  ultimately have "parse_headers (concat (map (\<lambda>l. l @ crlf) (map header_line (h # hs))) @ [chr_cr]) acc =
      parse_headers ?r (acc @ [h])"
    unfolding cursor using Cons.prems ne by (subst parse_headers.simps) (simp add: h hd_append)
  also have "\<dots> = Some ((acc @ [h]) @ hs)"
    using Cons.prems by (intro Cons.IH) simp_all
  finally show ?case by simp
qed

lemma word_char_clean: "word_char c \<Longrightarrow> clean_char c"
  by (auto simp: word_char_def clean_char_def)

lemma request_line_clean:
  assumes "wf_request req"
  shows "head_line (request_line req)"
proof -
  have "list_all clean_char (rq_method req)" "list_all clean_char (rq_path req)" "list_all clean_char (rq_query req)"
    using assms by (auto simp: wf_request_def list_all_iff word_char_clean)
  then have "list_all clean_char (request_line req)"
    by (simp add: request_line_def request_target_def clean_char_def)
  then show ?thesis by (simp add: head_line_def request_line_def)
qed

lemma print_request_head_lines:
  assumes "wf_request req"
  shows "list_all head_line (request_line req # map header_line (rq_headers req))"
proof -
  have "list_all wf_header (rq_headers req)" using assms by (simp add: wf_request_def)
  then show ?thesis
    using request_line_clean [OF assms] by (simp add: list_all_iff header_line_clean)
qed

lemma drop_stream:
  assumes "a @ s = b @ t" "pos \<le> length a" "pos \<le> length b"
  shows "drop pos a @ s = drop pos b @ t"
  using arg_cong [OF assms(1), of "drop pos"] assms(2,3) by simp

lemma cstr_clean: "chr_nul \<notin> set s \<Longrightarrow> cstr s = s"
  by (auto simp: cstr_def takeWhile_eq_all_conv)

lemma print_lines_no_nul: "list_all head_line ls \<Longrightarrow> chr_nul \<notin> set (print_lines ls)"
  by (auto simp: print_lines_def head_line_def clean_char_def list_all_iff)

lemma parse_head_printed:
  assumes "wf_request req"
  shows "parse_head (print_request_head req @ rest) (length (print_request_head req)) =
    Some (req\<lparr>rq_body := []\<rparr>, length (rq_body req))"
proof -
  let ?ls = "request_line req # map header_line (rq_headers req)"
  let ?cursor = "concat (map (\<lambda>l. l @ crlf) (map header_line (rq_headers req))) @ [chr_cr]"
  note ls = print_request_head_lines [OF assms]
  have head: "print_request_head req = ((request_line req @ [chr_cr]) @ chr_lf # ?cursor) @ [chr_lf]"
    by (simp add: print_request_head_def print_lines_def)
  have cut: "take (length (a @ [c]) - 1) ((a @ [c]) @ r) = a" for a r and c :: char
    by simp
  have "chr_nul \<notin> set ((request_line req @ [chr_cr]) @ chr_lf # ?cursor)"
    using print_lines_no_nul [OF ls] head by (auto simp: print_request_head_def)
  then have "cstr (take (length (print_request_head req) - 1) (print_request_head req @ rest)) =
      (request_line req @ [chr_cr]) @ chr_lf # ?cursor"
    unfolding head cut by (rule cstr_clean)
  moreover have "chr_lf \<notin> set (request_line req @ [chr_cr])"
    using ls head_line_no [of "request_line req"] by simp
  ultimately have "strchr_split chr_lf (cstr (take (length (print_request_head req) - 1) (print_request_head req @ rest))) =
      Some (request_line req @ [chr_cr], ?cursor)"
    by (simp only: strchr_split_append not_False_eq_True)
  moreover have "parse_headers ?cursor [] = Some (rq_headers req)"
    using assms parse_headers_printed [of "rq_headers req" "[]"] by (simp add: wf_request_def)
  ultimately show ?thesis
    using assms parse_line_printed [OF assms]
    by (simp add: parse_head_def wf_request_def edb_http_header_def Let_def)
qed

text \<open>
  A printed request is read back from any pieces, and the parser stops right behind it.
\<close>

lemma parse_printed:
  assumes wf: "wf_request req" and script: "[] \<notin> set script" and pos: "small_pos pos" "pos \<le> length (rb_data rb)"
    and stream: "drop pos (rb_data rb) @ concat script = print_request req @ rest"
  obtains rb' script' where
    "parse_request_full rb script pos = Some (req, rb', script', pos + length (print_request req))"
    and "drop (pos + length (print_request req)) (rb_data rb') @ concat script' = rest"
    and "pos + length (print_request req) \<le> length (rb_data rb')"
    and "[] \<notin> set script'"
proof -
  let ?n = "length (print_request_head req)" and ?cl = "length (rq_body req)"
  let ?ls = "request_line req # map header_line (rq_headers req)"
  note ls = print_request_head_lines [OF wf]
  have nmax: "?n \<le> EDB_HTTP_MAX_HEADER_BYTES" using wf by (simp add: wf_request_def)
  have clmax: "?cl \<le> EDB_HTTP_MAX_BODY_BYTES"
    using wf by (auto simp: wf_request_def content_length_def Let_def split: list.splits if_splits prod.splits)
  have str: "drop pos (rb_data rb) @ concat script = print_lines ?ls @ rq_body req @ rest"
    using stream by (simp add: print_request_def print_request_head_def)
  have "find_head p = (if ?n \<le> length p then Some ?n else None)"
    if "prefix p (drop pos (rb_data rb) @ concat script)" for p
    using find_head_printed [OF ls] that by (simp add: str print_request_head_def)
  then obtain rb1 s1 where h: "read_head rb script pos 0 = Some (rb1, s1, ?n)" "[] \<notin> set s1"
    using read_head_total [OF script pos(1) nmax pos(2), of 0] pos(2) stream by (auto simp: print_request_def)
  note hd = read_head_SomeD [OF h(1)]
  have same: "drop pos (rb_data rb1) @ concat s1 = print_request_head req @ rq_body req @ rest"
    using drop_stream [OF conjunct1 [OF hd], of pos] pos(2) hd stream by (simp add: print_request_def)
  have "?n \<le> length (drop pos (rb_data rb1))" using find_head_SomeD(1) hd by blast
  then obtain t where t: "drop pos (rb_data rb1) = print_request_head req @ t"
    using same by (metis append_eq_append_conv_if append_eq_conv_conj append_take_drop_id)
  have ph: "parse_head (drop pos (rb_data rb1)) ?n = Some (req\<lparr>rq_body := []\<rparr>, ?cl)"
    unfolding t by (rule parse_head_printed [OF wf])
  have room: "pos + ?n + ?cl + 4096 \<le> SIZE_MAX div 2"
    using nmax clmax by (intro small_pos_room [OF pos(1)]) (simp add: EDB_HTTP_MAX_HEADER_BYTES_def EDB_HTTP_MAX_BODY_BYTES_def)
  then obtain rb2 where r: "recv_reserve rb1 (pos + ?n + ?cl + 1) = Some rb2"
    using recv_reserve_Some [of "pos + ?n + ?cl + 1" rb1] by auto
  note rd = recv_reserve_data [OF r]
  have enough: "pos + ?n + ?cl \<le> length (rb_data rb2 @ concat s1)"
    using arg_cong [OF stream, of length] arg_cong [OF conjunct1 [OF hd], of length] pos(2)
    by (simp add: rd print_request_def)
  obtain rb3 s3 where u: "recv_until rb2 s1 (pos + ?n + ?cl) = Some (rb3, s3)" "[] \<notin> set s3"
    using recv_until_total [OF h(2) room enough] by blast
  note ud = recv_until_SomeD [OF u(1)]
  have "drop pos (rb_data rb3) @ concat s3 = print_request_head req @ rq_body req @ rest"
    using drop_stream [OF conjunct1 [OF ud], of pos] pos(2) hd ud same by (simp add: rd)
  from arg_cong [OF this, of "drop ?n"] have fin: "drop (pos + ?n) (rb_data rb3) @ concat s3 = rq_body req @ rest"
    using ud by (simp add: add.commute)
  have body: "take ?cl (drop (pos + ?n) (rb_data rb3)) = rq_body req"
    using arg_cong [OF fin, of "take ?cl"] ud by simp
  have rest: "drop (pos + ?n + ?cl) (rb_data rb3) @ concat s3 = rest"
    using arg_cong [OF fin, of "drop ?cl"] ud by (simp add: add.commute add.left_commute)
  have nosize: "\<not> SIZE_MAX - (pos + ?n) < ?cl" using room by simp
  have "parse_request_full rb script pos = Some (req, rb3, s3, pos + ?n + ?cl)"
    using r by (simp add: parse_request_full_def h(1) ph u(1) nosize body)
  then show thesis
    using that [of rb3 s3] rest u(2) ud by (simp add: print_request_def add.assoc)
qed

end
