(* ===== verification/Http_Server.thy ===== *)
theory Http_Server
  imports Http_Frame
begin

text \<open>
  The HTTP server around the parser (httpd/epsilon_http.c): responses, the route table, static files,
  the loop of a connection worker, and the registry of workers that \<open>edb_http_stop\<close> waits for. The
  handlers are the functions that were registered; what they work on is a state of any type that is
  passed through. Parameters stand for the file system (the size \<open>ftell\<close> gives and the bytes
  \<open>fread\<close> gives for a path that can be opened) and for the results of socket and thread calls.
\<close>

section \<open>Responses\<close>

record http_response =
  rs_status :: int
  rs_content_type :: "string option"
  rs_body :: "string option"

definition status_text :: "int \<Rightarrow> string" where
  "status_text status =
     (if status = 200 then ''OK''
      else if status = 201 then ''Created''
      else if status = 204 then ''No Content''
      else if status = 400 then ''Bad Request''
      else if status = 401 then ''Unauthorized''
      else if status = 403 then ''Forbidden''
      else if status = 404 then ''Not Found''
      else if status = 405 then ''Method Not Allowed''
      else if status = 409 then ''Conflict''
      else if status = 500 then ''Internal Server Error''
      else ''Unknown'')"

definition response_body :: "http_response \<Rightarrow> string" where
  "response_body res = (case rs_body res of None \<Rightarrow> [] | Some b \<Rightarrow> b)"

text \<open>What \<open>snprintf\<close> formats into \<open>head[512]\<close>; its whole length is then sent from that array.\<close>

definition response_head :: "http_response \<Rightarrow> bool \<Rightarrow> string" where
  "response_head res keep_alive =
     ''HTTP/1.1 '' @ show_int (rs_status res) @ '' '' @ status_text (rs_status res) @ crlf @
     ''Content-Type: '' @ (case rs_content_type res of None \<Rightarrow> ''application/json'' | Some t \<Rightarrow> t) @ crlf @
     ''Content-Length: '' @ show_nat (length (response_body res)) @ crlf @
     ''Connection: '' @ (if keep_alive then ''keep-alive'' else ''close'') @ crlf @ crlf"

definition write_response :: "http_response \<Rightarrow> bool \<Rightarrow> string" where
  "write_response res keep_alive = response_head res keep_alive @ response_body res"

definition edb_http_set_json :: "http_response \<Rightarrow> int \<Rightarrow> string option \<Rightarrow> http_response" where
  "edb_http_set_json res status body =
     res\<lparr>rs_status := status, rs_content_type := Some ''application/json'',
         rs_body := Some (case body of None \<Rightarrow> [] | Some b \<Rightarrow> b)\<rparr>"

section \<open>State\<close>

definition EDB_HTTP_MAX_ROUTES :: nat where
  "EDB_HTTP_MAX_ROUTES = 64"

definition EDB_HTTP_MAX_WORKERS :: nat where
  "EDB_HTTP_MAX_WORKERS = 128"

type_synonym 'st handler = "http_request \<Rightarrow> http_response \<Rightarrow> 'st \<Rightarrow> bool \<times> http_response \<times> 'st"

record 'st http_route =
  rt_method :: string
  rt_prefix :: string
  rt_handler :: "'st handler option"

text \<open>Connections are numbers; \<open>workers\<close> is the linked list of the running ones.\<close>

record 'st http_server =
  sv_running :: bool
  sv_admin_path :: "string option"
  sv_naccept_threads :: nat
  sv_nworkers :: nat
  sv_workers :: "nat list"
  sv_routes :: "'st http_route list"
  sv_static_route :: "nat option"
  sv_static_root :: string

section \<open>Routing\<close>

fun best_route ::
  "http_request \<Rightarrow> nat option \<Rightarrow> nat \<Rightarrow> 'st http_route list \<Rightarrow> nat option \<Rightarrow> nat \<Rightarrow> nat option" where
  "best_route req static_route i [] best best_len = best"
| "best_route req static_route i (r # rs) best best_len =
     (if static_route \<noteq> Some i \<and> prefix (rt_prefix r) (rq_path req) \<and> rq_method req = rt_method r \<and>
         best_len \<le> length (rt_prefix r)
      then best_route req static_route (Suc i) rs (Some i) (length (rt_prefix r))
      else best_route req static_route (Suc i) rs best best_len)"

section \<open>Static files\<close>

definition strstr_found :: "string \<Rightarrow> string \<Rightarrow> bool" where
  "strstr_found s needle \<longleftrightarrow> buf_find s needle \<noteq> None"

definition path_is_safe :: "string \<Rightarrow> bool" where
  "path_is_safe rel \<longleftrightarrow> \<not> strstr_found rel ''..''"

definition guess_content_type :: "string \<Rightarrow> string" where
  "guess_content_type path =
     (if CHR ''.'' \<notin> set path then ''application/octet-stream''
      else
        let ext = lower_ascii (rev (takeWhile (\<lambda>c. c \<noteq> CHR ''.'') (rev path)))
        in if ext = ''html'' \<or> ext = ''htm'' then ''text/html''
           else if ext = ''js'' then ''text/javascript''
           else if ext = ''css'' then ''text/css''
           else if ext = ''json'' then ''application/json''
           else if ext = ''png'' then ''image/png''
           else if ext = ''jpg'' \<or> ext = ''jpeg'' then ''image/jpeg''
           else if ext = ''svg'' then ''image/svg+xml''
           else if ext = ''ico'' then ''image/x-icon''
           else ''application/octet-stream'')"

type_synonym file_system = "string \<Rightarrow> (int \<times> string) option"

definition static_rel :: "string \<Rightarrow> string \<Rightarrow> string" where
  "static_rel pre path =
     (let rel = drop (length pre) path;
          rel = (if rel \<noteq> [] \<and> hd rel = CHR ''/'' then tl rel else rel)
      in if rel = [] then ''index.html'' else rel)"

text \<open>The response and \<open>handled\<close>; the server has a static route.\<close>

definition serve_static_file ::
  "file_system \<Rightarrow> string \<Rightarrow> string \<Rightarrow> http_request \<Rightarrow> http_response \<Rightarrow> http_response \<times> bool" where
  "serve_static_file fs pre root req res =
     (if \<not> prefix pre (rq_path req) then (res, False)
      else
        let rel = static_rel pre (rq_path req)
        in if \<not> path_is_safe rel
           then (res\<lparr>rs_status := 404, rs_content_type := Some ''text/plain'', rs_body := None\<rparr>, True)
           else
             let full = snprintf_s 2048 (root @ ''/'' @ rel)
             in case fs full of
                  None \<Rightarrow>
                    (res\<lparr>rs_status := 404, rs_content_type := Some ''text/plain'', rs_body := Some (''not found'' @ [chr_lf])\<rparr>, True)
                | Some (sz, data) \<Rightarrow>
                    if sz < 0 \<or> int EDB_HTTP_MAX_BODY_BYTES < sz
                    then (res\<lparr>rs_status := (if sz < 0 then 500 else 404)\<rparr>, True)
                    else (res\<lparr>rs_status := 200, rs_content_type := Some (guess_content_type full),
                              rs_body := Some (take (nat sz) data)\<rparr>, True))"

section \<open>The connection worker\<close>

definition not_found_body :: "string \<Rightarrow> string" where
  "not_found_body path =
     [CHR ''{'', CHR 0x22] @ ''error'' @ [CHR 0x22, CHR '':'', CHR 0x22] @ ''not found'' @ [CHR 0x22, CHR '','', CHR 0x22] @
     ''path'' @ [CHR 0x22, CHR '':'', CHR 0x22] @ path @ [CHR 0x22, CHR ''}'']"

definition initial_response :: http_response where
  "initial_response = \<lparr>rs_status = 500, rs_content_type = Some ''application/json'', rs_body = None\<rparr>"

text \<open>The routed part: the response, \<open>handled\<close>, \<open>keep_alive\<close> and the new state.\<close>

definition dispatch ::
  "file_system \<Rightarrow> 'st http_server \<Rightarrow> http_request \<Rightarrow> 'st \<Rightarrow> http_response \<times> bool \<times> bool \<times> 'st" where
  "dispatch fs srv req st =
     (case best_route req (sv_static_route srv) 0 (sv_routes srv) None 0 of
        Some i \<Rightarrow>
          (case rt_handler (sv_routes srv ! i) of
             Some h \<Rightarrow> let (keep, res, st') = h req initial_response st in (res, True, keep, st')
           | None \<Rightarrow> (initial_response, False, True, st))
      | None \<Rightarrow>
          (case sv_static_route srv of
             Some s \<Rightarrow>
               let (res, handled) = serve_static_file fs (rt_prefix (sv_routes srv ! s)) (sv_static_root srv) req initial_response
               in (res, handled, True, st)
           | None \<Rightarrow> (initial_response, False, True, st)))"

definition answer ::
  "file_system \<Rightarrow> 'st http_server \<Rightarrow> http_request \<Rightarrow> 'st \<Rightarrow> http_response \<times> bool \<times> 'st" where
  "answer fs srv req st =
     (let (res, handled, keep, st') = dispatch fs srv req st;
          res = (if handled then res
                 else res\<lparr>rs_status := 404, rs_content_type := Some ''application/json'',
                          rs_body := Some (not_found_body (rq_path req))\<rparr>);
          keep = (case edb_http_header req ''Connection'' of
                    Some v \<Rightarrow> if strcasecmp_eq v ''close'' then False else keep
                  | None \<Rightarrow> keep)
      in (res, keep, st'))"

text \<open>What the worker knows of its connection.\<close>

record conn_ctx =
  cx_trusted :: bool
  cx_peer_ip :: string

definition stamp :: "conn_ctx \<Rightarrow> http_request \<Rightarrow> http_request" where
  "stamp ctx req = req\<lparr>rq_trusted := cx_trusted ctx, rq_peer_ip := snprintf_s 64 (cx_peer_ip ctx)\<rparr>"

lemma parse_request_consumes:
  assumes "parse_request_full rb script 0 = Some (req, rb', script', pos)"
  shows "length (drop pos (rb_data rb') @ concat script') + 4 \<le> length (rb_data rb @ concat script)"
proof -
  obtain head where "drop 0 (rb_data rb) @ concat script = head @ rq_body req @ drop pos (rb_data rb') @ concat script'"
    and "4 \<le> length head"
    using parse_request_frame [OF assms] by blast
  from arg_cong [OF this(1), of length] this(2) show ?thesis by simp
qed

text \<open>
  The worker loop; \<open>running i\<close> is what it reads of \<open>srv->running\<close> before its i-th request. The
  responses are listed as they are sent.
\<close>

function conn_main ::
  "file_system \<Rightarrow> 'st http_server \<Rightarrow> conn_ctx \<Rightarrow> (nat \<Rightarrow> bool) \<Rightarrow> nat \<Rightarrow> bool \<Rightarrow> recv_buf \<Rightarrow> string list \<Rightarrow> 'st \<Rightarrow>
     string list \<times> 'st" where
  "conn_main fs srv ctx running i keep_alive rb script st =
     (if \<not> keep_alive \<or> \<not> running i then ([], st)
      else
        case parse_request_full rb script 0 of
          None \<Rightarrow> ([], st)
        | Some (req, rb', script', pos) \<Rightarrow>
            let (res, keep, st') = answer fs srv (stamp ctx req) st;
                (out, st'') = conn_main fs srv ctx running (Suc i) keep (rb'\<lparr>rb_data := drop pos (rb_data rb')\<rparr>) script' st'
            in (write_response res keep # out, st''))"
  by pat_completeness auto
termination
  by (relation "measure (\<lambda>(fs, srv, ctx, running, i, keep_alive, rb, script, st). length (rb_data rb @ concat script))")
    (auto dest!: parse_request_consumes)

declare conn_main.simps [simp del]

section \<open>Registration, acceptors and workers\<close>

definition edb_http_add_handler ::
  "'st http_server \<Rightarrow> string \<Rightarrow> string \<Rightarrow> 'st handler option \<Rightarrow> 'st http_server \<times> bool" where
  "edb_http_add_handler srv method pre handler =
     (if Option.is_none handler \<or> EDB_HTTP_MAX_ROUTES \<le> length (sv_routes srv) then (srv, False)
      else (srv\<lparr>sv_routes := sv_routes srv @
                 [\<lparr>rt_method = snprintf_s 16 method, rt_prefix = snprintf_s 256 pre, rt_handler = handler\<rparr>]\<rparr>, True))"

definition edb_http_serve_static :: "'st http_server \<Rightarrow> string \<Rightarrow> string \<Rightarrow> 'st http_server \<times> bool" where
  "edb_http_serve_static srv pre root_dir =
     (if sv_static_route srv \<noteq> None \<or> 256 \<le> length pre \<or> 1024 \<le> length root_dir then (srv, False)
      else if EDB_HTTP_MAX_ROUTES \<le> length (sv_routes srv) then (srv, False)
      else (srv\<lparr>sv_static_route := Some (length (sv_routes srv)),
                sv_routes := sv_routes srv @ [\<lparr>rt_method = ''GET'', rt_prefix = snprintf_s 256 pre, rt_handler = None\<rparr>],
                sv_static_root := snprintf_s 1024 root_dir\<rparr>, True))"

definition spawn_acceptor :: "bool \<Rightarrow> 'st http_server \<Rightarrow> 'st http_server \<times> bool" where
  "spawn_acceptor thread_ok srv =
     (if 2 \<le> sv_naccept_threads srv \<or> \<not> thread_ok then (srv, False)
      else (srv\<lparr>sv_naccept_threads := Suc (sv_naccept_threads srv)\<rparr>, True))"

definition fresh_server :: "'st http_server" where
  "fresh_server =
     \<lparr>sv_running = True, sv_admin_path = None, sv_naccept_threads = 0, sv_nworkers = 0, sv_workers = [],
      sv_routes = [], sv_static_route = None, sv_static_root = []\<rparr>"

definition edb_http_start :: "bool \<Rightarrow> bool \<Rightarrow> bool \<Rightarrow> 'st http_server option" where
  "edb_http_start socket_ok bind_ok thread_ok =
     (if \<not> socket_ok \<or> \<not> bind_ok then None
      else let (srv, ok) = spawn_acceptor thread_ok fresh_server in if ok then Some srv else None)"

definition edb_http_start_admin :: "bool \<Rightarrow> bool \<Rightarrow> bool \<Rightarrow> 'st http_server \<Rightarrow> string \<Rightarrow> 'st http_server \<times> bool" where
  "edb_http_start_admin socket_ok bind_ok thread_ok srv sock_path =
     (if sock_path = [] \<or> sv_admin_path srv \<noteq> None \<or> 108 \<le> length sock_path \<or> \<not> socket_ok \<or> \<not> bind_ok then (srv, False)
      else
        let (srv, ok) = spawn_acceptor thread_ok srv
        in if ok then (srv\<lparr>sv_admin_path := Some (snprintf_s 108 sock_path)\<rparr>, True) else (srv, False))"

text \<open>One accepted connection: registered, or refused; then the worker thread is created.\<close>

definition accept_conn :: "'st http_server \<Rightarrow> nat \<Rightarrow> 'st http_server \<times> bool" where
  "accept_conn srv conn =
     (if \<not> sv_running srv \<or> EDB_HTTP_MAX_WORKERS \<le> sv_nworkers srv then (srv, False)
      else (srv\<lparr>sv_workers := conn # sv_workers srv, sv_nworkers := Suc (sv_nworkers srv)\<rparr>, True))"

definition create_failed :: "'st http_server \<Rightarrow> nat \<Rightarrow> 'st http_server" where
  "create_failed srv conn =
     srv\<lparr>sv_workers := remove1 conn (sv_workers srv), sv_nworkers := sv_nworkers srv - 1\<rparr>"

definition worker_end :: "'st http_server \<Rightarrow> nat \<Rightarrow> 'st http_server" where
  "worker_end srv conn =
     srv\<lparr>sv_workers := remove1 conn (sv_workers srv),
         sv_nworkers := (if 0 < sv_nworkers srv then sv_nworkers srv - 1 else sv_nworkers srv)\<rparr>"

definition stop_begin :: "'st http_server \<Rightarrow> 'st http_server" where
  "stop_begin srv = srv\<lparr>sv_running := False\<rparr>"

text \<open>The wait of \<open>edb_http_stop\<close> ends, and the server is freed.\<close>

definition stop_done :: "'st http_server \<Rightarrow> bool" where
  "stop_done srv \<longleftrightarrow> \<not> sv_running srv \<and> sv_nworkers srv = 0"

text \<open>
  The critical sections of the threads in any order: a new connection is an address that is not in
  use, and only a registered worker ends. Registering a route is one step here. In the code the tests
  of the number of routes and of the static route come before the lock is taken, so this is the
  program in which, as in this repository, one thread registers the routes.
\<close>

inductive http_step :: "'st http_server \<Rightarrow> 'st http_server \<Rightarrow> bool" where
  Accept: "conn \<notin> set (sv_workers srv) \<Longrightarrow> http_step srv (fst (accept_conn srv conn))"
| Create_Failed: "conn \<in> set (sv_workers srv) \<Longrightarrow> http_step srv (create_failed srv conn)"
| Worker_End: "conn \<in> set (sv_workers srv) \<Longrightarrow> http_step srv (worker_end srv conn)"
| Add_Handler: "http_step srv (fst (edb_http_add_handler srv method pre handler))"
| Serve_Static: "http_step srv (fst (edb_http_serve_static srv pre root_dir))"
| Start_Admin: "http_step srv (fst (edb_http_start_admin socket_ok bind_ok thread_ok srv sock_path))"
| Stop: "http_step srv (stop_begin srv)"

inductive_cases http_stepE: "http_step srv srv'"

definition http_reachable :: "'st http_server \<Rightarrow> bool" where
  "http_reachable srv \<longleftrightarrow> (\<exists>srv0. edb_http_start True True True = Some srv0 \<and> http_step\<^sup>*\<^sup>* srv0 srv)"

end
