(* ===== verification/Json.thy ===== *)
theory Json
  imports Prelude Complex_Main "HOL-Library.Option_ord"
begin

text \<open>
  JSON documents as the sources hold them: the tree of the vendored cJSON library with the
  accessors the modelled code calls. A number is the rational a double denotes (no rounding is
  modelled: the numbers the modelled code builds are integers below \<open>2 ^ 53\<close>). Printing and
  parsing are parameters of the operations that use them.
\<close>

datatype cJSON =
    JNull
  | JBool bool
  | JNumber rat
  | JString string
  | JArray "cJSON list"
  | JObject "(string \<times> cJSON) list"

section \<open>Type tests and accessors\<close>

fun cJSON_IsArray :: "cJSON \<Rightarrow> bool" where
  "cJSON_IsArray (JArray xs) = True"
| "cJSON_IsArray j = False"

fun cJSON_IsObject :: "cJSON \<Rightarrow> bool" where
  "cJSON_IsObject (JObject kvs) = True"
| "cJSON_IsObject j = False"

fun cJSON_IsNumber :: "cJSON option \<Rightarrow> bool" where
  "cJSON_IsNumber (Some (JNumber r)) = True"
| "cJSON_IsNumber j = False"

fun cJSON_IsTrue :: "cJSON option \<Rightarrow> bool" where
  "cJSON_IsTrue (Some (JBool b)) = b"
| "cJSON_IsTrue j = False"

text \<open>\<open>cJSON_IsString (j)\<close> together with \<open>j->valuestring\<close>.\<close>

fun json_str :: "cJSON option \<Rightarrow> string option" where
  "json_str (Some (JString s)) = Some s"
| "json_str j = None"

text \<open>\<open>cJSON_IsNumber (j)\<close> together with \<open>(long long)j->valuedouble\<close>: the cast truncates.\<close>

definition trunc_rat :: "rat \<Rightarrow> int" where
  "trunc_rat r = (if 0 \<le> r then \<lfloor>r\<rfloor> else \<lceil>r\<rceil>)"

fun json_num :: "cJSON option \<Rightarrow> int option" where
  "json_num (Some (JNumber r)) = Some (trunc_rat r)"
| "json_num j = None"

text \<open>The children a \<open>cJSON_ArrayForEach\<close> visits, with their member names.\<close>

fun json_members :: "cJSON option \<Rightarrow> (string \<times> cJSON) list" where
  "json_members (Some (JObject kvs)) = kvs"
| "json_members j = []"

fun json_items :: "cJSON option \<Rightarrow> cJSON list" where
  "json_items (Some (JArray xs)) = xs"
| "json_items (Some (JObject kvs)) = map snd kvs"
| "json_items j = []"

definition cJSON_GetObjectItemCaseSensitive :: "cJSON \<Rightarrow> string \<Rightarrow> cJSON option" where
  "cJSON_GetObjectItemCaseSensitive j key =
     (case j of JObject kvs \<Rightarrow> map_of kvs key | _ \<Rightarrow> None)"

text \<open>The accessor applied to the result of another one: NULL gives NULL.\<close>

definition json_get :: "cJSON option \<Rightarrow> string \<Rightarrow> cJSON option" where
  "json_get j key = (case j of None \<Rightarrow> None | Some o' \<Rightarrow> cJSON_GetObjectItemCaseSensitive o' key)"

definition json_int :: "int \<Rightarrow> cJSON" where
  "json_int i = JNumber (of_int i)"

lemma trunc_rat_of_int [simp]: "trunc_rat (of_int i) = i"
  by (simp add: trunc_rat_def)

lemma json_num_int [simp]: "json_num (Some (json_int i)) = Some i"
  by (simp add: json_int_def)

lemma json_int_inject [simp]: "json_int i = json_int j \<longleftrightarrow> i = j"
  by (simp add: json_int_def)

lemma cJSON_IsNumber_int [simp]: "cJSON_IsNumber (Some (json_int i))"
  by (simp add: json_int_def)

lemma get_object [simp]: "cJSON_GetObjectItemCaseSensitive (JObject kvs) k = map_of kvs k"
  by (simp add: cJSON_GetObjectItemCaseSensitive_def)

lemma json_get_object [simp]: "json_get (Some (JObject kvs)) k = map_of kvs k"
  by (simp add: json_get_def)

lemma json_get_None [simp]: "json_get None k = None"
  by (simp add: json_get_def)

lemma json_str_eq_SomeD: "json_str j = Some s \<Longrightarrow> j = Some (JString s)"
  by (cases j rule: json_str.cases) auto

end
