(* ===== verification/Filters.thy ===== *)
theory Filters
  imports Json
begin

text \<open>
  Structured filters (shard.c 51-181 and the query builder 511-610): validation of filter
  documents, the SQLite JSON path of a dotted key, the SQL text of a live query and the
  parameters bound to it. The path builder writes into a buffer of \<open>2 * strlen + 4\<close> bytes; the
  number of bytes it really writes is computed by \<open>json_path_length\<close>.
\<close>

section \<open>Validation\<close>

definition filter_count :: "cJSON option \<Rightarrow> nat" where
  "filter_count filters =
     (case filters of
        None \<Rightarrow> 0
      | Some (JArray xs) \<Rightarrow> length xs
      | Some _ \<Rightarrow> 1)"

definition filter_at :: "cJSON option \<Rightarrow> nat \<Rightarrow> cJSON option" where
  "filter_at filters i =
     (case filters of
        Some (JArray xs) \<Rightarrow> (if i < length xs then Some (xs ! i) else None)
      | _ \<Rightarrow> (if i = 0 then filters else None))"

definition filter_operators :: "string list" where
  "filter_operators = [''eq'', ''ne'', ''gt'', ''gte'', ''lt'', ''lte'']"

definition filter_operator_valid :: "string \<Rightarrow> bool" where
  "filter_operator_valid name \<longleftrightarrow> (\<exists>q \<in> set filter_operators. strcmp name q = 0)"

text \<open>The scan of \<open>filter_key_valid\<close>: \<open>segment\<close> says whether the current segment has a character.\<close>

fun filter_key_scan :: "bool \<Rightarrow> string \<Rightarrow> bool" where
  "filter_key_scan segment [] = segment"
| "filter_key_scan segment (c # cs) =
     (if c = CHR ''.'' then segment \<and> filter_key_scan False cs
      else \<not> (of_char c :: nat) < 32 \<and> filter_key_scan True cs)"

definition filter_key_valid :: "string \<Rightarrow> bool" where
  "filter_key_valid key \<longleftrightarrow>
     \<not> (key = [] \<or> 512 < length key \<or> hd key = CHR ''.'' \<or> last key = CHR ''.'') \<and>
     filter_key_scan False key"

definition filter_valid :: "cJSON option \<Rightarrow> bool" where
  "filter_valid f \<longleftrightarrow>
     (case f of
        Some (JObject kvs) \<Rightarrow>
          (case (json_str (map_of kvs ''key''), json_str (map_of kvs ''operator''),
                 map_of kvs ''value'') of
             (Some key, Some op, Some value) \<Rightarrow>
               filter_key_valid key \<and> filter_operator_valid op \<and>
               \<not> (strcmp op ''eq'' \<noteq> 0 \<and> strcmp op ''ne'' \<noteq> 0 \<and> \<not> cJSON_IsNumber (Some value))
           | _ \<Rightarrow> False)
      | _ \<Rightarrow> False)"

definition edb_filters_valid :: "cJSON option \<Rightarrow> bool" where
  "edb_filters_valid filters \<longleftrightarrow>
     (case filters of
        None \<Rightarrow> True
      | Some j \<Rightarrow>
          (cJSON_IsArray j \<or> cJSON_IsObject j) \<and>
          (\<forall>i \<in> set [0..<filter_count filters]. filter_valid (filter_at filters i)))"

section \<open>The JSON path of a key\<close>

definition json_path_escape :: "char \<Rightarrow> string" where
  "json_path_escape c = (if c = CHR 0x22 \<or> c = CHR 0x5C then [CHR 0x5C, c] else [c])"

function json_path_segments :: "string \<Rightarrow> string" where
  "json_path_segments segment =
     [CHR ''.'', CHR 0x22] @ concat (map json_path_escape (takeWhile (\<lambda>c. c \<noteq> CHR ''.'') segment))
     @ [CHR 0x22] @
     (case dropWhile (\<lambda>c. c \<noteq> CHR ''.'') segment of
        [] \<Rightarrow> []
      | dot # rest \<Rightarrow> json_path_segments rest)"
  by pat_completeness auto
termination
  by (relation "measure length") (auto dest: arg_cong [where f = length] simp: length_dropWhile_le
    intro: less_le_trans [OF _ length_dropWhile_le [where P = "\<lambda>c. c \<noteq> CHR ''.''"]])

declare json_path_segments.simps [simp del]

definition SIZE_MAX :: nat where
  "SIZE_MAX = 2 ^ 64 - 1"

definition json_path_capacity :: "string \<Rightarrow> nat" where
  "json_path_capacity key = length key * 2 + 4"

definition json_path_for_key :: "string \<Rightarrow> string option" where
  "json_path_for_key key =
     (if (SIZE_MAX - 4) div 2 < length key then None
      else Some (CHR 0x24 # json_path_segments key))"

section \<open>The SQL text of a live query\<close>

definition sql_operator :: "string \<Rightarrow> string" where
  "sql_operator name =
     (if strcmp name ''eq'' = 0 then ''=''
      else if strcmp name ''ne'' = 0 then ''<>''
      else if strcmp name ''gt'' = 0 then ''>''
      else if strcmp name ''gte'' = 0 then ''>=''
      else if strcmp name ''lt'' = 0 then ''<''
      else ''<='')"

definition q_dollar :: string where
  "q_dollar = [CHR 0x27, CHR 0x24, CHR 0x27]"

definition q_numeric :: string where
  "q_numeric = [CHR 0x27] @ ''integer'' @ [CHR 0x27, CHR 0x2C, CHR 0x27] @ ''real'' @ [CHR 0x27]"

definition filter_fragment :: "string \<Rightarrow> string" where
  "filter_fragment op =
     (if strcmp op ''eq'' = 0 then
        '' AND json_type(value, ?) IS json_type(?, '' @ q_dollar @ '')''
        @ '' AND json_extract(value, ?) IS json_extract(?, '' @ q_dollar @ '')''
      else if strcmp op ''ne'' = 0 then
        '' AND json_type(value, ?) IS NOT NULL''
        @ '' AND (json_type(value, ?) IS NOT json_type(?, '' @ q_dollar @ '')''
        @ '' OR json_extract(value, ?) IS NOT json_extract(?, '' @ q_dollar @ ''))''
      else snprintf_s 160
        ('' AND json_type(value, ?) IN ('' @ q_numeric @ '')''
         @ '' AND json_extract(value, ?) '' @ sql_operator op @ '' json_extract(?, '' @ q_dollar @ '')''))"

definition filter_op :: "cJSON option \<Rightarrow> string" where
  "filter_op f = (case json_str (json_get f ''operator'') of Some op \<Rightarrow> op | None \<Rightarrow> [])"

definition filter_key :: "cJSON option \<Rightarrow> string" where
  "filter_key f = (case json_str (json_get f ''key'') of Some key \<Rightarrow> key | None \<Rightarrow> [])"

text \<open>The loop over the filters appends each fragment after a check of the space left.\<close>

fun append_fragments :: "nat \<Rightarrow> string \<Rightarrow> cJSON option list \<Rightarrow> string option" where
  "append_fragments capacity sql [] = Some sql"
| "append_fragments capacity sql (f # fs) =
     (let fragment = filter_fragment (filter_op f)
      in if capacity - length sql \<le> length fragment then None
         else append_fragments capacity (sql @ fragment) fs)"

definition filter_list :: "cJSON option \<Rightarrow> cJSON option list" where
  "filter_list filters = map (filter_at filters) [0..<filter_count filters]"

definition live_query_sql :: "string \<Rightarrow> cJSON option \<Rightarrow> bool \<Rightarrow> string option" where
  "live_query_sql select filters order_by_timestamp =
     (if \<not> edb_filters_valid filters then None
      else if (SIZE_MAX - length select - 96) div 256 < filter_count filters then None
      else
        let capacity = length select + filter_count filters * 256 + 96;
            sql = snprintf_s capacity (select @ '' (ttl IS NULL OR ttl >= ?)'')
        in case append_fragments capacity sql (filter_list filters) of
             None \<Rightarrow> None
           | Some text \<Rightarrow>
               Some (if order_by_timestamp
                     then text @ snprintf_s (capacity - length text) '' ORDER BY timestamp ASC''
                     else text))"

text \<open>The parameters bound to the statement, in order: the current time, then those of each filter.\<close>

datatype sql_param = PInt int | PText string

definition filter_params :: "(cJSON \<Rightarrow> string option) \<Rightarrow> cJSON option \<Rightarrow> sql_param list option" where
  "filter_params print f =
     (case (json_path_for_key (filter_key f), json_get f ''value'') of
        (Some path, Some value) \<Rightarrow>
          (case print value of
             None \<Rightarrow> None
           | Some encoded \<Rightarrow>
               Some (if strcmp (filter_op f) ''eq'' = 0
                     then [PText path, PText encoded, PText path, PText encoded]
                     else if strcmp (filter_op f) ''ne'' = 0
                     then [PText path, PText path, PText encoded, PText path, PText encoded]
                     else [PText path, PText path, PText encoded]))
      | _ \<Rightarrow> None)"

fun bind_filters ::
  "(cJSON \<Rightarrow> string option) \<Rightarrow> sql_param list \<Rightarrow> cJSON option list \<Rightarrow> sql_param list option" where
  "bind_filters print bound [] = Some bound"
| "bind_filters print bound (f # fs) =
     (case filter_params print f of
        None \<Rightarrow> None
      | Some ps \<Rightarrow> bind_filters print (bound @ ps) fs)"

text \<open>
  \<open>prepare_live_query\<close>: the statement (its SQL text and its bound parameters), or \<open>None\<close>.
  \<open>prepare\<close> is the outcome of \<open>sqlite3_prepare_v2\<close> on the text.
\<close>

definition prepare_live_query ::
  "(string \<Rightarrow> bool) \<Rightarrow> (cJSON \<Rightarrow> string option) \<Rightarrow> int \<Rightarrow> string \<Rightarrow> cJSON option \<Rightarrow> bool
    \<Rightarrow> (string \<times> sql_param list) option" where
  "prepare_live_query prepare print now select filters order_by_timestamp =
     (case live_query_sql select filters order_by_timestamp of
        None \<Rightarrow> None
      | Some sql \<Rightarrow>
          if \<not> prepare sql then None
          else map_option (Pair sql) (bind_filters print [PInt now] (filter_list filters)))"

section \<open>Reference definitions\<close>

text \<open>The segments of a dotted key, and a reader of quoted SQLite paths.\<close>

fun split_dots :: "string \<Rightarrow> string list" where
  "split_dots [] = [[]]"
| "split_dots (c # cs) =
     (if c = CHR ''.'' then [] # split_dots cs
      else (c # hd (split_dots cs)) # tl (split_dots cs))"

fun read_quoted :: "string \<Rightarrow> (string \<times> string) option" where
  "read_quoted [] = None"
| "read_quoted (c # cs) =
     (if c = CHR 0x22 then Some ([], cs)
      else if c = CHR 0x5C then
        (case cs of [] \<Rightarrow> None | d # ds \<Rightarrow> map_option (apfst (Cons d)) (read_quoted ds))
      else map_option (apfst (Cons c)) (read_quoted cs))"

fun read_segments :: "nat \<Rightarrow> string \<Rightarrow> string list option" where
  "read_segments fuel [] = Some []"
| "read_segments 0 (c # cs) = None"
| "read_segments (Suc fuel) (c # cs) =
     (if c = CHR ''.'' \<and> cs \<noteq> [] \<and> hd cs = CHR 0x22
      then (case read_quoted (tl cs) of
              None \<Rightarrow> None
            | Some (seg, rest) \<Rightarrow> map_option (Cons seg) (read_segments fuel rest))
      else None)"

definition read_path :: "string \<Rightarrow> string list option" where
  "read_path p = (case p of c # cs \<Rightarrow> (if c = CHR 0x24 then read_segments (length cs) cs else None)
                          | [] \<Rightarrow> None)"

fun join_dots :: "string list \<Rightarrow> string" where
  "join_dots [] = []"
| "join_dots [s] = s"
| "join_dots (s # t # ss) = s @ CHR ''.'' # join_dots (t # ss)"

definition quote_segment :: "string \<Rightarrow> string" where
  "quote_segment s = [CHR ''.'', CHR 0x22] @ concat (map json_path_escape s) @ [CHR 0x22]"

definition dots :: "string \<Rightarrow> nat" where
  "dots key = length (filter (\<lambda>c. c = CHR ''.'') key)"

definition escapes :: "string \<Rightarrow> nat" where
  "escapes key = length (filter (\<lambda>c. c = CHR 0x22 \<or> c = CHR 0x5C) key)"

section \<open>Paths\<close>

lemma split_dots_ne [simp]: "split_dots s \<noteq> []"
  by (cases s) auto

lemma split_dots_unfold:
  "split_dots s = takeWhile (\<lambda>c. c \<noteq> CHR ''.'') s #
     (case dropWhile (\<lambda>c. c \<noteq> CHR ''.'') s of [] \<Rightarrow> [] | d # rest \<Rightarrow> split_dots rest)"
  by (induction s) (auto split: list.splits)

lemma json_path_segments_split:
  "json_path_segments s = concat (map quote_segment (split_dots s))"
proof (induction s rule: json_path_segments.induct)
  case (1 s)
  show ?case
  proof (cases "dropWhile (\<lambda>c. c \<noteq> CHR ''.'') s")
    case Nil
    show ?thesis
      unfolding json_path_segments.simps [of s] split_dots_unfold [of s] Nil
      by (simp add: quote_segment_def)
  next
    case (Cons d rest)
    show ?thesis
      unfolding json_path_segments.simps [of s] split_dots_unfold [of s] Cons
      using 1 [OF Cons] by (simp add: quote_segment_def)
  qed
qed

lemma join_split_dots: "join_dots (split_dots s) = s"
proof (induction s)
  case (Cons c cs)
  then show ?case
    by (cases "split_dots cs" rule: join_dots.cases) auto
qed simp

lemma read_quoted_escape:
  "read_quoted (concat (map json_path_escape s) @ CHR 0x22 # rest) = Some (s, rest)"
  by (induction s) (auto simp: json_path_escape_def)

lemma read_segments_quote:
  "length ss \<le> fuel \<Longrightarrow> read_segments fuel (concat (map quote_segment ss)) = Some ss"
proof (induction ss arbitrary: fuel)
  case (Cons s ss)
  then obtain n where n: "fuel = Suc n" "length ss \<le> n" by (cases fuel) auto
  have "concat (map quote_segment (s # ss)) =
      CHR ''.'' # CHR 0x22 # concat (map json_path_escape s) @ CHR 0x22 # concat (map quote_segment ss)"
    by (simp add: quote_segment_def)
  with n Cons.IH [OF n(2)] show ?case
    by (simp add: read_quoted_escape del: concat.simps list.map)
qed simp

lemma length_quoted_ge: "length ss \<le> length (concat (map quote_segment ss))"
  by (induction ss) (auto simp: quote_segment_def)

lemma read_path_of_key:
  "json_path_for_key key = Some path \<Longrightarrow> read_path path = Some (split_dots key)"
  by (auto simp: json_path_for_key_def read_path_def json_path_segments_split
      read_segments_quote length_quoted_ge split: if_splits)

lemma length_escape: "length (concat (map json_path_escape s)) = length s + escapes s"
  by (induction s) (auto simp: json_path_escape_def escapes_def)

lemma length_json_path_segments:
  "length (json_path_segments key) = 3 + 2 * dots key + length key + escapes key"
  unfolding json_path_segments_split
proof (induction key)
  case Nil
  show ?case by (simp add: quote_segment_def dots_def escapes_def)
next
  case (Cons c cs)
  obtain t ts where t: "split_dots cs = t # ts" by (cases "split_dots cs") auto
  with Cons show ?case
    by (auto simp: quote_segment_def dots_def escapes_def json_path_escape_def)
qed

text \<open>A valid key has more characters than twice its dots: segments are not empty.\<close>

lemma filter_key_scan_dots:
  "filter_key_scan segment s \<Longrightarrow> 2 * dots s + 1 \<le> length s + (if segment then 1 else 0)"
  by (induction segment s rule: filter_key_scan.induct) (auto simp: dots_def split: if_splits)

lemma filter_key_valid_dots: "filter_key_valid key \<Longrightarrow> 2 * dots key + 1 \<le> length key"
  using filter_key_scan_dots [of False key] by (simp add: filter_key_valid_def)

lemma filter_key_scan_iff:
  "filter_key_scan segment s \<longleftrightarrow>
     (segment \<or> hd (split_dots s) \<noteq> []) \<and> (\<forall>t \<in> set (tl (split_dots s)). t \<noteq> []) \<and>
     (\<forall>c \<in> set s. c \<noteq> CHR ''.'' \<longrightarrow> \<not> (of_char c :: nat) < 32)"
proof (induction s arbitrary: segment)
  case (Cons c cs)
  obtain t ts where t: "split_dots cs = t # ts" by (cases "split_dots cs") auto
  show ?case
  proof (cases "c = CHR ''.''")
    case True
    show ?thesis
      unfolding filter_key_scan.simps if_P [OF True] Cons.IH
      by (simp add: True t)
  next
    case False
    show ?thesis
      unfolding filter_key_scan.simps if_not_P [OF False] Cons.IH
      using False by (simp add: t conj_ac)
  qed
qed simp

lemma filter_key_scan_last: "filter_key_scan segment s \<Longrightarrow> s \<noteq> [] \<Longrightarrow> last s \<noteq> CHR ''.''"
  by (induction segment s rule: filter_key_scan.induct) (fastforce split: if_splits)+

text \<open>What \<open>filter_key_valid\<close> accepts, in terms of the segments of the key.\<close>

lemma filter_key_valid_iff:
  "filter_key_valid key \<longleftrightarrow> length key \<le> 512 \<and> (\<forall>t \<in> set (split_dots key). t \<noteq> []) \<and>
     (\<forall>c \<in> set key. c \<noteq> CHR ''.'' \<longrightarrow> \<not> (of_char c :: nat) < 32)"
proof -
  have scan: "filter_key_scan False key \<longleftrightarrow> (\<forall>t \<in> set (split_dots key). t \<noteq> []) \<and>
      (\<forall>c \<in> set key. c \<noteq> CHR ''.'' \<longrightarrow> \<not> (of_char c :: nat) < 32)"
    unfolding filter_key_scan_iff by (cases "split_dots key") auto
  have "filter_key_scan False key \<Longrightarrow> key \<noteq> [] \<and> hd key \<noteq> CHR ''.'' \<and> last key \<noteq> CHR ''.''"
    using filter_key_scan_last [of False key] by (cases key) (auto split: if_splits)
  then show ?thesis
    unfolding filter_key_valid_def scan [symmetric] by (auto simp: not_less)
qed

section \<open>The SQL text and its parameters\<close>

definition placeholders :: "string \<Rightarrow> nat" where
  "placeholders sql = length (filter (\<lambda>c. c = CHR ''?'') sql)"

lemma placeholders_append [simp]: "placeholders (a @ b) = placeholders a + placeholders b"
  by (simp add: placeholders_def)

lemma sql_operator_length: "length (sql_operator op) \<le> 2"
  by (simp add: sql_operator_def)

lemma sql_operator_placeholders: "placeholders (sql_operator op) = 0"
  by (simp add: sql_operator_def placeholders_def)

lemma filter_fragment_length: "length (filter_fragment op) < 256"
proof -
  have "length (snprintf_s 160 s) < 256" for s
    using snprintf_s_length [of 160 s] by simp
  then show ?thesis by (simp add: filter_fragment_def q_dollar_def)
qed

lemma filter_fragment_placeholders:
  "placeholders (filter_fragment op) =
     (if strcmp op ''eq'' = 0 then 4 else if strcmp op ''ne'' = 0 then 5 else 3)"
proof -
  let ?cmp = "'' AND json_type(value, ?) IN ('' @ q_numeric @ '')''
         @ '' AND json_extract(value, ?) '' @ sql_operator op @ '' json_extract(?, '' @ q_dollar @ '')''"
  have "length ?cmp < 160"
    using sql_operator_length [of op] by (simp add: q_numeric_def q_dollar_def)
  then have "snprintf_s 160 ?cmp = ?cmp" by (rule snprintf_s_id)
  moreover have "placeholders ?cmp = 3"
    using sql_operator_placeholders [of op]
    by (simp add: q_numeric_def q_dollar_def placeholders_def)
  moreover have "placeholders ('' AND json_type(value, ?) IS json_type(?, '' @ q_dollar @ '')''
        @ '' AND json_extract(value, ?) IS json_extract(?, '' @ q_dollar @ '')'') = 4"
    by (simp add: q_dollar_def placeholders_def)
  moreover have "placeholders ('' AND json_type(value, ?) IS NOT NULL''
        @ '' AND (json_type(value, ?) IS NOT json_type(?, '' @ q_dollar @ '')''
        @ '' OR json_extract(value, ?) IS NOT json_extract(?, '' @ q_dollar @ ''))'') = 5"
    by (simp add: q_dollar_def placeholders_def)
  ultimately show ?thesis
    unfolding filter_fragment_def by presburger
qed

lemma append_fragments_total:
  "length sql + 256 * length fs < capacity \<Longrightarrow>
    \<exists>text. append_fragments capacity sql fs = Some text \<and>
      length text \<le> length sql + 256 * length fs \<and>
      placeholders text = placeholders sql + (\<Sum>f\<leftarrow>fs. placeholders (filter_fragment (filter_op f)))"
proof (induction fs arbitrary: sql)
  case (Cons f fs)
  let ?q = "filter_fragment (filter_op f)"
  have "length ?q < 256" by (rule filter_fragment_length)
  with Cons.prems have "length (sql @ ?q) + 256 * length fs < capacity"
    "\<not> capacity - length sql \<le> length ?q" by auto
  with Cons.IH [of "sql @ ?q"] \<open>length ?q < 256\<close> show ?case by (auto simp: Let_def)
qed simp

lemma filter_validE:
  assumes "filter_valid f"
  obtains key op v where "json_str (json_get f ''key'') = Some key"
    "json_str (json_get f ''operator'') = Some op" "json_get f ''value'' = Some v"
    "filter_key_valid key" "filter_operator_valid op"
proof -
  obtain kvs where kvs: "f = Some (JObject kvs)"
    using assms by (auto simp: filter_valid_def split: option.splits cJSON.splits)
  show thesis
    by (cases "json_str (map_of kvs ''key'')"; cases "json_str (map_of kvs ''operator'')";
        cases "map_of kvs ''value''") (use assms that in \<open>auto simp: filter_valid_def kvs\<close>)
qed

lemma filter_valid_params:
  assumes "filter_valid f" and "\<And>v. print v \<noteq> None"
  shows "\<exists>ps. filter_params print f = Some ps \<and>
    length ps = placeholders (filter_fragment (filter_op f))"
proof -
  obtain key op val where f: "json_str (json_get f ''key'') = Some key"
    "json_str (json_get f ''operator'') = Some op" "json_get f ''value'' = Some val"
    "filter_key_valid key"
    using filter_validE [OF assms(1)] by metis
  have "length key \<le> 512" using f(4) by (simp add: filter_key_valid_def)
  then have "json_path_for_key key \<noteq> None" by (simp add: json_path_for_key_def SIZE_MAX_def)
  then obtain path encoded where "json_path_for_key key = Some path" "print val = Some encoded"
    using assms(2) [of val] by auto
  with f show ?thesis
    by (simp add: filter_params_def filter_key_def filter_op_def filter_fragment_placeholders)
qed

lemma bind_filters_total:
  "(\<And>v. print v \<noteq> None) \<Longrightarrow> (\<And>f. f \<in> set fs \<Longrightarrow> filter_valid f) \<Longrightarrow>
    \<exists>ps. bind_filters print bound fs = Some ps \<and>
      length ps = length bound + (\<Sum>f\<leftarrow>fs. placeholders (filter_fragment (filter_op f)))"
proof (induction fs arbitrary: bound)
  case (Cons f fs)
  obtain qs where qs: "filter_params print f = Some qs"
      "length qs = placeholders (filter_fragment (filter_op f))"
    using filter_valid_params [of f print] Cons.prems by auto
  obtain ps where "bind_filters print (bound @ qs) fs = Some ps" "length ps =
      length (bound @ qs) + (\<Sum>f\<leftarrow>fs. placeholders (filter_fragment (filter_op f)))"
    using Cons.IH [OF Cons.prems(1), of "bound @ qs"] Cons.prems(2) by auto
  with qs show ?case by simp
qed simp

lemma filter_list_valid: "edb_filters_valid filters \<Longrightarrow> f \<in> set (filter_list filters) \<Longrightarrow> filter_valid f"
  by (cases filters) (auto simp: edb_filters_valid_def filter_list_def filter_count_def)

lemma live_query_sql_total:
  assumes "edb_filters_valid filters" and "length select + 96 + 256 * filter_count filters \<le> SIZE_MAX"
  shows "\<exists>sql. live_query_sql select filters ord = Some sql \<and>
    length sql < length select + 256 * filter_count filters + 96 \<and>
    placeholders sql = placeholders select + 1 +
      (\<Sum>f\<leftarrow>filter_list filters. placeholders (filter_fragment (filter_op f)))"
proof -
  let ?n = "filter_count filters"
  let ?cap = "length select + ?n * 256 + 96"
  let ?base = "select @ '' (ttl IS NULL OR ttl >= ?)''"
  have fits: "snprintf_s ?cap ?base = ?base" by (rule snprintf_s_id) simp
  have n: "length (filter_list filters) = ?n" by (simp add: filter_list_def)
  have "length ?base + 256 * length (filter_list filters) < ?cap" by (simp add: n)
  from append_fragments_total [OF this] obtain body where
    body: "append_fragments ?cap ?base (filter_list filters) = Some body"
    "length body \<le> length ?base + 256 * ?n"
    "placeholders body = placeholders ?base +
      (\<Sum>f\<leftarrow>filter_list filters. placeholders (filter_fragment (filter_op f)))"
    by (auto simp only: n)
  have o: "snprintf_s (?cap - length body) '' ORDER BY timestamp ASC'' = '' ORDER BY timestamp ASC''"
    using body(2) by (intro snprintf_s_id) simp
  have small: "\<not> (SIZE_MAX - length select - 96) div 256 < ?n"
    using assms(2) by (simp add: not_less less_eq_div_iff_mult_less_eq)
  have eq: "live_query_sql select filters ord =
      Some (if ord then body @ '' ORDER BY timestamp ASC'' else body)"
    unfolding live_query_sql_def Let_def fits body(1) option.case o
    using assms(1) small by (simp only: if_False not_True_eq_False)
  have p: "placeholders '' ORDER BY timestamp ASC'' = 0"
    "placeholders '' (ttl IS NULL OR ttl >= ?)'' = 1"
    by (simp_all add: placeholders_def)
  show ?thesis
    using body(2,3) by (simp add: eq p)
qed

section \<open>Properties\<close>

text \<open>
  The JSON path of a filter key is unambiguous: a key that passes \<open>filter_key_valid\<close> always
  gets a path, a reader of quoted SQLite paths recovers exactly the dotted segments of the key
  from it, whatever quotes and backslashes they hold, and these segments determine the key. So
  no key can reach a member other than the one it names.
\<close>

theorem filter_path_roundtrip:
  assumes "filter_key_valid key"
  shows "\<exists>path. json_path_for_key key = Some path \<and> read_path path = Some (split_dots key) \<and>
    join_dots (split_dots key) = key \<and> (\<forall>seg \<in> set (split_dots key). seg \<noteq> [])"
proof -
  have "length key \<le> 512" using assms by (simp add: filter_key_valid_def)
  then obtain path where "json_path_for_key key = Some path"
    by (simp add: json_path_for_key_def SIZE_MAX_def)
  then show ?thesis
    using read_path_of_key join_split_dots assms filter_key_valid_iff by blast
qed

theorem filter_path_roundtrip_witness:
  "filter_key_valid ''manager.age'' \<and>
   (\<exists>path. json_path_for_key ''manager.age'' = Some path \<and>
      read_path path = Some (split_dots ''manager.age'') \<and>
      join_dots (split_dots ''manager.age'') = ''manager.age'' \<and>
      [] \<notin> set (split_dots ''manager.age''))"
proof -
  have v: "filter_key_valid ''manager.age''" by (simp add: filter_key_valid_def)
  show ?thesis using v filter_path_roundtrip [OF v] by blast
qed

text \<open>
  C32. The buffer of \<open>json_path_for_key\<close> is too small for some accepted keys: the string and its
  terminator fit the allocated \<open>2 * strlen + 4\<close> bytes exactly when the key has more characters
  than twice its dots plus its quotes and backslashes. Every valid key without those two
  characters fits, but the valid key made of one double quote needs one byte more than allocated.
\<close>

theorem json_path_buffer:
  "filter_key_valid key \<Longrightarrow> \<exists>path. json_path_for_key key = Some path \<and>
     (length path + 1 \<le> json_path_capacity key \<longleftrightarrow> 2 * dots key + escapes key < length key) \<and>
     (escapes key = 0 \<longrightarrow> length path + 1 \<le> json_path_capacity key) \<and>
     (key = [CHR 0x22] \<longrightarrow> length path + 1 = json_path_capacity key + 1)"
proof -
  assume v: "filter_key_valid key"
  then have "length key \<le> 512" by (simp add: filter_key_valid_def)
  then obtain path where p: "json_path_for_key key = Some path"
    by (simp add: json_path_for_key_def SIZE_MAX_def)
  then have len: "length path = 4 + 2 * dots key + length key + escapes key"
    by (auto simp: json_path_for_key_def length_json_path_segments split: if_splits)
  show ?thesis
    using p filter_key_valid_dots [OF v]
    by (intro exI [of _ path]) (auto simp: len json_path_capacity_def dots_def escapes_def)
qed

theorem json_path_buffer_witness:
  "filter_key_valid [CHR 0x22] \<and> (\<exists>path. json_path_for_key [CHR 0x22] = Some path \<and>
     json_path_capacity [CHR 0x22] < length path + 1)"
proof -
  have v: "filter_key_valid [CHR 0x22]" by (simp add: filter_key_valid_def)
  show ?thesis using v json_path_buffer [OF v] by auto
qed

text \<open>
  C31. The query builder is consistent: for valid filters (few enough for the size computation)
  the SQL text is always built, stays below its allocated capacity, and has exactly as many
  placeholders as parameters are bound to it.
\<close>

theorem live_query_params_match:
  assumes "edb_filters_valid filters" and "length select + 96 + 256 * filter_count filters \<le> SIZE_MAX"
    and "placeholders select = 0" and "\<And>sql. prepare sql" and "\<And>v. print v \<noteq> None"
  shows "\<exists>sql params. prepare_live_query prepare print now select filters ord = Some (sql, params) \<and>
    length sql < length select + 256 * filter_count filters + 96 \<and>
    placeholders sql = length params"
proof -
  obtain sql where sql: "live_query_sql select filters ord = Some sql"
    "length sql < length select + 256 * filter_count filters + 96"
    "placeholders sql = 1 +
      (\<Sum>f\<leftarrow>filter_list filters. placeholders (filter_fragment (filter_op f)))"
    using live_query_sql_total [OF assms(1,2), of ord] assms(3) by auto
  obtain ps where "bind_filters print [PInt now] (filter_list filters) = Some ps" "length ps =
      length [PInt now] + (\<Sum>f\<leftarrow>filter_list filters. placeholders (filter_fragment (filter_op f)))"
    using bind_filters_total [of print "filter_list filters" "[PInt now]"] assms(5)
      filter_list_valid [OF assms(1)] by blast
  with sql assms(4) show ?thesis by (simp add: prepare_live_query_def)
qed

definition demo_filter :: cJSON where
  "demo_filter = JObject [(''key'', JString ''age''), (''operator'', JString ''gte''),
     (''value'', JNumber 42)]"

theorem live_query_params_match_witness:
  "edb_filters_valid (Some demo_filter) \<and>
   (\<exists>sql params. prepare_live_query (\<lambda>sql. True) (\<lambda>v. Some ''42'') 1000 ''SELECT id FROM Data WHERE''
       (Some demo_filter) True = Some (sql, params) \<and>
     length sql < length ''SELECT id FROM Data WHERE'' + 256 * filter_count (Some demo_filter) + 96 \<and>
     placeholders sql = length params)"
proof -
  have v: "edb_filters_valid (Some demo_filter)"
    by (simp add: edb_filters_valid_def demo_filter_def filter_count_def filter_at_def
        filter_valid_def filter_key_valid_def filter_operator_valid_def filter_operators_def)
  have len: "length ''SELECT id FROM Data WHERE'' + 96 + 256 * filter_count (Some demo_filter) \<le> SIZE_MAX"
    by (simp add: filter_count_def demo_filter_def SIZE_MAX_def)
  have p: "placeholders ''SELECT id FROM Data WHERE'' = 0" by (simp add: placeholders_def)
  show ?thesis
    using v live_query_params_match [OF v len p, of "\<lambda>sql. True" "\<lambda>v. Some ''42''" 1000 True] by simp
qed

end
