(* ===== verification/Lww.thy ===== *)
theory Lww
  imports Prelude "HOL-Library.Multiset"
begin

text \<open>
  The contract of a last-write-wins store: operations carry a key, a version and the value they
  write; the store keeps a version with each value and an operation takes effect unless the
  stored version is greater. Whatever implements this contract converges: the order and the
  number of deliveries do not matter, and the greatest version wins.
\<close>

locale lww_register =
  fixes valid :: "'o \<Rightarrow> bool"
    and op_key :: "'o \<Rightarrow> 'k"
    and op_ver :: "'o \<Rightarrow> 'v::linorder"
    and op_val :: "'o \<Rightarrow> 'r"
    and val_ver :: "'r \<Rightarrow> 'v option"
    and app :: "'o \<Rightarrow> ('k \<rightharpoonup> 'r) \<Rightarrow> ('k \<rightharpoonup> 'r)"
  assumes val_ver: "valid a \<Longrightarrow> val_ver (op_val a) = Some (op_ver a)"
    and app_older: "m (op_key a) = Some r \<Longrightarrow> val_ver r = Some v \<Longrightarrow> op_ver a < v \<Longrightarrow> app a m = m"
    and app_newer: "(\<And>r v. m (op_key a) = Some r \<Longrightarrow> val_ver r = Some v \<Longrightarrow> v \<le> op_ver a) \<Longrightarrow>
      app a m = m(op_key a \<mapsto> op_val a)"
begin

text \<open>The version a store holds for a key, if any.\<close>

definition stored :: "('k \<rightharpoonup> 'r) \<Rightarrow> 'k \<Rightarrow> 'v option" where
  "stored m k = Option.bind (m k) val_ver"

definition beaten :: "'o \<Rightarrow> ('k \<rightharpoonup> 'r) \<Rightarrow> bool" where
  "beaten a m \<longleftrightarrow> (\<exists>v. stored m (op_key a) = Some v \<and> op_ver a < v)"

lemma app_eq: "app a m = (if beaten a m then m else m(op_key a \<mapsto> op_val a))"
proof (cases "beaten a m")
  case True
  then show ?thesis
    using app_older by (auto simp: beaten_def stored_def split: bind_splits)
next
  case False
  have "app a m = m(op_key a \<mapsto> op_val a)"
    by (rule app_newer) (use False in \<open>auto simp: beaten_def stored_def\<close>)
  with False show ?thesis by simp
qed

lemma app_other: "k \<noteq> op_key a \<Longrightarrow> app a m k = m k"
  by (simp add: app_eq)

lemma app_idem: "valid a \<Longrightarrow> app a (app a m) = app a m"
  by (simp add: app_eq)

lemma app_commute:
  assumes "valid a" "valid b" and "op_key a = op_key b \<Longrightarrow> op_ver a = op_ver b \<Longrightarrow> a = b"
  shows "app a (app b m) = app b (app a m)"
proof (cases "op_key a = op_key b")
  case False
  then have "beaten a (m(op_key b \<mapsto> x)) = beaten a m" "beaten b (m(op_key a \<mapsto> y)) = beaten b m" for x y
    by (simp_all add: beaten_def stored_def)
  with False show ?thesis by (simp add: app_eq fun_upd_twist)
next
  case True
  have a: "beaten a (m(op_key a \<mapsto> op_val b)) \<longleftrightarrow> op_ver a < op_ver b"
    "beaten b (m(op_key b \<mapsto> op_val a)) \<longleftrightarrow> op_ver b < op_ver a"
    using assms(1,2) by (simp_all add: beaten_def stored_def val_ver)
  have "beaten a m \<Longrightarrow> \<not> beaten b m \<Longrightarrow> op_ver a < op_ver b"
    "beaten b m \<Longrightarrow> \<not> beaten a m \<Longrightarrow> op_ver b < op_ver a"
    using True by (auto simp: beaten_def)
  moreover have "op_ver a < op_ver b \<or> op_ver b < op_ver a \<or> a = b"
    using assms(3) True by force
  ultimately show ?thesis
    using a True by (auto simp: app_eq)
qed

text \<open>Replicas that receive the same operations, in any order, end in the same state.\<close>

lemma converges:
  assumes "\<And>a. a \<in> set xs \<Longrightarrow> valid a"
    and "\<And>a b. a \<in> set xs \<Longrightarrow> b \<in> set xs \<Longrightarrow> op_key a = op_key b \<Longrightarrow> op_ver a = op_ver b \<Longrightarrow> a = b"
    and "mset xs = mset ys"
  shows "fold app xs m = fold app ys m"
proof -
  have "fold app xs = fold app ys"
  proof (rule fold_multiset_equiv [OF _ assms(3)])
    fix a b assume "a \<in> set xs" "b \<in> set xs"
    then show "app a \<circ> app b = app b \<circ> app a"
      using app_commute [of a b] assms(1,2) by (auto simp: fun_eq_iff)
  qed
  then show ?thesis by simp
qed

text \<open>The winner: once an operation was applied, the stored version is at least its own.\<close>

lemma stored_mono:
  "valid a \<Longrightarrow> stored m k = Some v \<Longrightarrow> \<exists>w. stored (app a m) k = Some w \<and> v \<le> w"
  by (auto simp: app_eq beaten_def stored_def val_ver not_less)

lemma stored_fold_mono:
  "(\<And>a. a \<in> set xs \<Longrightarrow> valid a) \<Longrightarrow> stored m k = Some v \<Longrightarrow>
    \<exists>w. stored (fold app xs m) k = Some w \<and> v \<le> w"
proof (induction xs arbitrary: m v)
  case (Cons a xs)
  obtain w where w: "stored (app a m) k = Some w" "v \<le> w"
    using stored_mono [of a m k v] Cons.prems by auto
  with Cons.IH [of "app a m" w] Cons.prems show ?case by fastforce
qed simp

lemma stored_app: "valid a \<Longrightarrow> \<exists>w. stored (app a m) (op_key a) = Some w \<and> op_ver a \<le> w"
  by (auto simp: app_eq beaten_def stored_def val_ver)

lemma fold_bound:
  "(\<And>a. a \<in> set xs \<Longrightarrow> valid a) \<Longrightarrow> a \<in> set xs \<Longrightarrow>
    \<exists>w. stored (fold app xs m) (op_key a) = Some w \<and> op_ver a \<le> w"
proof (induction xs arbitrary: m)
  case (Cons b xs)
  show ?case
  proof (cases "a = b")
    case True
    obtain w where w: "stored (app b m) (op_key a) = Some w" "op_ver a \<le> w"
      using stored_app [of b m] Cons.prems(1) [of b] True by auto
    have "valid c" if "c \<in> set xs" for c using Cons.prems(1) that by simp
    from stored_fold_mono [OF this w(1)] w(2) show ?thesis by fastforce
  next
    case False
    with Cons show ?thesis by simp
  qed
qed simp

lemma fold_source:
  "fold app xs m k = Some r \<Longrightarrow> m k = Some r \<or> (\<exists>a \<in> set xs. op_key a = k \<and> r = op_val a)"
proof (induction xs arbitrary: m)
  case (Cons a xs)
  from Cons.IH [of "app a m"] Cons.prems show ?case
    by (auto simp: app_eq split: if_splits)
qed simp

lemma winner:
  assumes valid: "\<And>a. a \<in> set xs \<Longrightarrow> valid a"
    and distinct: "\<And>a b. a \<in> set xs \<Longrightarrow> b \<in> set xs \<Longrightarrow> op_key a = op_key b \<Longrightarrow>
      op_ver a = op_ver b \<Longrightarrow> a = b"
    and a: "a \<in> set xs" "\<And>b. b \<in> set xs \<Longrightarrow> op_key b = op_key a \<Longrightarrow> op_ver b \<le> op_ver a"
    and fresh: "m (op_key a) = None"
  shows "fold app xs m (op_key a) = Some (op_val a)"
proof -
  obtain w where w: "stored (fold app xs m) (op_key a) = Some w" "op_ver a \<le> w"
    using fold_bound [OF valid a(1)] by blast
  then obtain r where r: "fold app xs m (op_key a) = Some r" "val_ver r = Some w"
    by (auto simp: stored_def split: bind_splits)
  then obtain b where b: "b \<in> set xs" "op_key b = op_key a" "r = op_val b"
    using fold_source [OF r(1)] fresh by auto
  with r(2) valid w(2) a(2) [OF b(1,2)] have "op_ver a = op_ver b" by (simp add: val_ver)
  with distinct [OF a(1) b(1)] b r(1) show ?thesis by simp
qed

end

end
