(* ===== verification/Shard.thy ===== *)
theory Shard
  imports Filters Lww "HOL-Library.Multiset" "HOL-Library.Product_Lexorder"
begin

text \<open>
  One shard (shard.c): the \<open>Data\<close> table of its SQLite file as a list of rows in rowid order, the
  cache of prepared statements, and the operations on documents. SQLite and the clock are a
  parameter, the record \<open>sqlite_env\<close>: whether a file opens, whether a statement text prepares, whether stepping it
  succeeds, whether a script given to \<open>sqlite3_exec\<close> succeeds, in which order a query without
  \<open>ORDER BY\<close> visits the rows, and the JSON functions of SQL and of cJSON. What the SQL
  statements of the source do to the table is written out here. Timestamps are unbounded
  integers; the C sums \<open>now + ttl\<close> and \<open>timestamp - 5\<close> are assumed not to overflow 64 bits.
  Memory allocation is assumed to succeed.
\<close>

section \<open>State\<close>

record row =
  r_id :: string
  r_value :: "string option"
  r_ttl :: "int option"
  r_timestamp :: "int option"
  r_origin :: "string option"

text \<open>SQL values: a number is an INTEGER or a REAL, which SQL compares by value.\<close>

datatype sqlval = SNull | SNum rat | SText string

record sqlite_env =
  now_epoch :: int
  open_ok :: "string \<Rightarrow> bool"
  prepare_ok :: "string \<Rightarrow> bool"
  step_ok :: "string \<Rightarrow> bool"
  exec_ok :: "string \<Rightarrow> bool"
  scan_rows :: "row list \<Rightarrow> row list"
  sql_json_type :: "string option \<Rightarrow> string \<Rightarrow> sqlval option"
  sql_json_extract :: "string option \<Rightarrow> string \<Rightarrow> sqlval option"
  cJSON_ParseWithLength :: "string \<Rightarrow> cJSON option"
  cJSON_PrintUnformatted :: "cJSON \<Rightarrow> string option"

text \<open>
  A cached statement: the text in its slot, the text the statement was prepared from, and
  whether it is active, i.e. its last \<open>sqlite3_step\<close> returned a row and it was not reset since.
\<close>

record edb_cached_stmt =
  c_sql :: string
  c_stmt :: string
  c_active :: bool

text \<open>\<open>sh_tx\<close>: a transaction begun with \<open>BEGIN IMMEDIATE\<close> is open on the connection.\<close>

record edb_shard =
  sh_path :: string
  sh_key :: string
  sh_partition :: string
  sh_keyspace :: string
  sh_rows :: "row list"
  sh_tx :: bool
  sh_cache :: "edb_cached_stmt list"
  sh_expired :: int

definition EDB_STMT_CACHE_SIZE :: nat where
  "EDB_STMT_CACHE_SIZE = 8"

definition EDB_CLEANUP_GRACE_SECONDS :: int where
  "EDB_CLEANUP_GRACE_SECONDS = 7200"

definition EDB_VACUUM_THRESHOLD :: int where
  "EDB_VACUUM_THRESHOLD = 10000"

section \<open>Statement texts\<close>

definition SQL_PUT :: string where
  "SQL_PUT = ''INSERT OR REPLACE INTO Data (id, value, ttl, timestamp, origin) VALUES (?, ?, ?, ?, ?)''"

definition SQL_VERSION :: string where
  "SQL_VERSION = ''SELECT timestamp, COALESCE(origin, '' @ [CHR 0x27, CHR 0x27] @ '') FROM Data WHERE id = ?''"

definition SQL_REPLICA_DELETE :: string where
  "SQL_REPLICA_DELETE = ''INSERT INTO Data (id,value,ttl,timestamp,origin) VALUES (?,NULL,?,?,?)''
     @ '' ON CONFLICT(id) DO UPDATE SET value=NULL,ttl=excluded.ttl, timestamp=excluded.timestamp,''
     @ '' origin=excluded.origin''"

definition SQL_GET_TS :: string where
  "SQL_GET_TS = ''SELECT value, timestamp FROM Data WHERE id = ? AND (ttl IS NULL OR ttl >= ?)''"

definition SQL_GET :: string where
  "SQL_GET = ''SELECT value FROM Data WHERE id = ? AND (ttl IS NULL OR ttl >= ?)''"

definition SQL_DELETE :: string where
  "SQL_DELETE = ''UPDATE Data SET ttl = ?, timestamp = ? WHERE id = ?''"

definition SQL_CLEANUP :: string where
  "SQL_CLEANUP = ''DELETE FROM Data WHERE ttl IS NOT NULL AND ttl < ?''"

section \<open>The statement cache\<close>

text \<open>
  \<open>stmt_for\<close>: the shard with its cache updated, and whether a statement is available. A cached
  statement is reset; a full cache drops its oldest entry before the text is prepared.
\<close>

definition stmt_for :: "sqlite_env \<Rightarrow> edb_shard \<Rightarrow> string \<Rightarrow> edb_shard \<times> bool" where
  "stmt_for e sh sql =
     (if \<exists>c \<in> set (sh_cache sh). strcmp (c_sql c) sql = 0 then
        (sh\<lparr>sh_cache := update_first (\<lambda>c. strcmp (c_sql c) sql = 0)
              (\<lambda>c. c\<lparr>c_active := False\<rparr>) (sh_cache sh)\<rparr>, True)
      else
        let kept = (if length (sh_cache sh) = EDB_STMT_CACHE_SIZE then tl (sh_cache sh)
                    else sh_cache sh)
        in if \<not> prepare_ok e sql then (sh\<lparr>sh_cache := kept\<rparr>, False)
           else (sh\<lparr>sh_cache := kept @ [\<lparr>c_sql = snprintf_s 192 sql, c_stmt = sql, c_active = False\<rparr>]\<rparr>,
                 True))"

text \<open>A \<open>sqlite3_step\<close> of the statement for \<open>sql\<close> that returns a row leaves it active.\<close>

definition set_active :: "string \<Rightarrow> bool \<Rightarrow> edb_shard \<Rightarrow> edb_shard" where
  "set_active sql active sh =
     sh\<lparr>sh_cache := update_first (\<lambda>c. strcmp (c_sql c) sql = 0)
          (\<lambda>c. c\<lparr>c_active := active\<rparr>) (sh_cache sh)\<rparr>"

text \<open>
  \<open>sqlite3_exec\<close> refuses \<open>VACUUM\<close> while a statement of the connection is active or a
  transaction is open, and \<open>BEGIN\<close> inside a transaction.
\<close>

definition shard_exec :: "sqlite_env \<Rightarrow> edb_shard \<Rightarrow> string \<Rightarrow> bool" where
  "shard_exec e sh sql \<longleftrightarrow> exec_ok e sql \<and>
     (sql = ''VACUUM'' \<longrightarrow> \<not> sh_tx sh \<and> (\<forall>c \<in> set (sh_cache sh). \<not> c_active c)) \<and>
     (sql = ''BEGIN IMMEDIATE'' \<longrightarrow> \<not> sh_tx sh)"

section \<open>The Data table\<close>

definition find_row :: "string \<Rightarrow> row list \<Rightarrow> row option" where
  "find_row doc rows = first_match (\<lambda>r. r_id r = doc) rows"

text \<open>\<open>INSERT OR REPLACE\<close> removes the conflicting row and appends the new one.\<close>

definition insert_or_replace :: "row \<Rightarrow> row list \<Rightarrow> row list" where
  "insert_or_replace r rows = filter (\<lambda>s. r_id s \<noteq> r_id r) rows @ [r]"

text \<open>\<open>INSERT ... ON CONFLICT (id) DO UPDATE\<close> of every other column.\<close>

definition upsert :: "row \<Rightarrow> row list \<Rightarrow> row list" where
  "upsert r rows =
     (if find_row (r_id r) rows = None then rows @ [r]
      else map (\<lambda>s. if r_id s = r_id r then r else s) rows)"

text \<open>\<open>ttl IS NULL OR ttl >= ?\<close>\<close>

definition row_live :: "int \<Rightarrow> row \<Rightarrow> bool" where
  "row_live now r \<longleftrightarrow> (case r_ttl r of None \<Rightarrow> True | Some ttl \<Rightarrow> now \<le> ttl)"

definition or_empty :: "string option \<Rightarrow> string" where
  "or_empty s = (case s of None \<Rightarrow> [] | Some t \<Rightarrow> t)"

section \<open>Writes\<close>

definition do_put_locked ::
  "sqlite_env \<Rightarrow> edb_shard \<Rightarrow> string \<Rightarrow> string \<Rightarrow> int \<Rightarrow> int \<Rightarrow> string option \<Rightarrow> edb_shard \<times> bool" where
  "do_put_locked e sh doc json_value ttl_absolute timestamp origin =
     (let (sh, ok) = stmt_for e sh SQL_PUT
      in if \<not> ok then (sh, False)
         else if \<not> step_ok e SQL_PUT then (sh, False)
         else (sh\<lparr>sh_rows := insert_or_replace
                   \<lparr>r_id = doc, r_value = Some json_value,
                    r_ttl = (if 0 \<le> ttl_absolute then Some ttl_absolute else None),
                    r_timestamp = Some timestamp, r_origin = Some (or_empty origin)\<rparr>
                   (sh_rows sh)\<rparr>, True))"

definition stored_version_locked ::
  "sqlite_env \<Rightarrow> edb_shard \<Rightarrow> string \<Rightarrow> edb_shard \<times> (int \<times> string) option" where
  "stored_version_locked e sh doc =
     (let (sh, ok) = stmt_for e sh SQL_VERSION
      in if \<not> ok then (sh, None)
         else if \<not> step_ok e SQL_VERSION then (sh, None)
         else case find_row doc (sh_rows sh) of
                None \<Rightarrow> (sh, None)
              | Some r \<Rightarrow>
                  (set_active SQL_VERSION True sh,
                   case r_timestamp r of
                     None \<Rightarrow> None
                   | Some ts \<Rightarrow> Some (ts, snprintf_s 64 (or_empty (r_origin r)))))"

definition edb_shard_put ::
  "sqlite_env \<Rightarrow> edb_shard \<Rightarrow> string \<Rightarrow> string \<Rightarrow> int \<Rightarrow> edb_shard \<times> bool" where
  "edb_shard_put e sh doc json_value ttl_seconds =
     (let now = now_epoch e;
          absolute_ttl = (if 0 \<le> ttl_seconds then now + ttl_seconds else - 1)
      in do_put_locked e sh doc json_value absolute_ttl now (Some []))"

text \<open>The stored version wins over an incoming one when it is newer, or equally old from a
  greater origin.\<close>

definition stored_wins :: "(int \<times> string) option \<Rightarrow> int \<Rightarrow> string option \<Rightarrow> bool" where
  "stored_wins stored timestamp origin \<longleftrightarrow>
     (case stored of
        None \<Rightarrow> False
      | Some (stored_ts, stored_origin) \<Rightarrow>
          timestamp < stored_ts \<or>
          (stored_ts = timestamp \<and> 0 < strcmp stored_origin (or_empty origin)))"

definition edb_shard_replica_put ::
  "sqlite_env \<Rightarrow> edb_shard \<Rightarrow> string \<Rightarrow> string \<Rightarrow> int \<Rightarrow> int \<Rightarrow> string option \<Rightarrow> edb_shard \<times> bool" where
  "edb_shard_replica_put e sh doc json_value ttl_absolute timestamp origin =
     (let (sh, stored) = stored_version_locked e sh doc
      in if stored_wins stored timestamp origin then (sh, True)
         else do_put_locked e sh doc json_value ttl_absolute timestamp origin)"

definition edb_shard_replica_delete ::
  "sqlite_env \<Rightarrow> edb_shard \<Rightarrow> string \<Rightarrow> int \<Rightarrow> string option \<Rightarrow> edb_shard \<times> bool" where
  "edb_shard_replica_delete e sh doc timestamp origin =
     (let (sh, stored) = stored_version_locked e sh doc
      in if stored_wins stored timestamp origin then (sh, True)
         else
           let (sh, ok) = stmt_for e sh SQL_REPLICA_DELETE
           in if \<not> ok then (sh, False)
              else if \<not> step_ok e SQL_REPLICA_DELETE then (sh, False)
              else (sh\<lparr>sh_rows := upsert
                        \<lparr>r_id = doc, r_value = None, r_ttl = Some (timestamp - 5),
                         r_timestamp = Some timestamp, r_origin = Some (or_empty origin)\<rparr>
                        (sh_rows sh)\<rparr>, True))"

definition edb_shard_delete :: "sqlite_env \<Rightarrow> edb_shard \<Rightarrow> string \<Rightarrow> edb_shard \<times> bool" where
  "edb_shard_delete e sh doc =
     (let (sh, ok) = stmt_for e sh SQL_DELETE
      in if \<not> ok then (sh, False)
         else if \<not> step_ok e SQL_DELETE then (sh, False)
         else (sh\<lparr>sh_rows := map (\<lambda>r. if r_id r = doc
                     then r\<lparr>r_ttl := Some (now_epoch e - 5), r_timestamp := Some (now_epoch e)\<rparr>
                     else r) (sh_rows sh)\<rparr>, True))"

section \<open>Reads\<close>

text \<open>\<open>json && len > 0 ? cJSON_ParseWithLength (json, len) : NULL\<close>\<close>

definition parse_value :: "sqlite_env \<Rightarrow> row \<Rightarrow> cJSON option" where
  "parse_value e r =
     (case r_value r of
        None \<Rightarrow> None
      | Some json \<Rightarrow> if json = [] then None else cJSON_ParseWithLength e json)"

text \<open>\<open>edb_shard_get_ts\<close>: the document and the new value of \<open>*timestamp_out\<close>, if it is written.\<close>

definition edb_shard_get_ts ::
  "sqlite_env \<Rightarrow> edb_shard \<Rightarrow> string \<Rightarrow> edb_shard \<times> cJSON option \<times> int option" where
  "edb_shard_get_ts e sh doc =
     (let (sh, ok) = stmt_for e sh SQL_GET_TS
      in if \<not> ok \<or> \<not> step_ok e SQL_GET_TS then (sh, None, None)
         else case find_row doc (sh_rows sh) of
                None \<Rightarrow> (sh, None, None)
              | Some r \<Rightarrow>
                  if \<not> row_live (now_epoch e) r then (sh, None, None)
                  else (set_active SQL_GET_TS True sh, parse_value e r,
                        if r_value r = None \<or> r_value r = Some [] then None else r_timestamp r))"

definition edb_shard_get :: "sqlite_env \<Rightarrow> edb_shard \<Rightarrow> string \<Rightarrow> edb_shard \<times> cJSON option" where
  "edb_shard_get e sh doc =
     (let (sh, ok) = stmt_for e sh SQL_GET
      in if \<not> ok \<or> \<not> step_ok e SQL_GET then (sh, None)
         else case find_row doc (sh_rows sh) of
                None \<Rightarrow> (sh, None)
              | Some r \<Rightarrow>
                  if \<not> row_live (now_epoch e) r then (sh, None)
                  else (set_active SQL_GET True sh, parse_value e r))"

section \<open>Live queries\<close>

definition sql_is :: "sqlval \<Rightarrow> sqlval \<Rightarrow> bool" where
  "sql_is a b \<longleftrightarrow> a = b"

text \<open>The comparison operators: not true when a side is NULL; numbers sort before text.\<close>

fun sql_less :: "sqlval \<Rightarrow> sqlval \<Rightarrow> bool" where
  "sql_less (SNum a) (SNum b) = (a < b)"
| "sql_less (SNum a) (SText t) = True"
| "sql_less (SText s) (SText t) = (strcmp s t < 0)"
| "sql_less a b = False"

definition sql_compare :: "string \<Rightarrow> sqlval \<Rightarrow> sqlval \<Rightarrow> bool" where
  "sql_compare opr a b \<longleftrightarrow> a \<noteq> SNull \<and> b \<noteq> SNull \<and>
     (if opr = ''>'' then sql_less b a
      else if opr = ''>='' then sql_less b a \<or> a = b
      else if opr = ''<'' then sql_less a b
      else sql_less a b \<or> a = b)"

text \<open>
  The conjunct a filter adds to the WHERE clause, on the value column of a row; \<open>None\<close> when an
  SQL function raises an error (malformed JSON).
\<close>

definition filter_eval :: "sqlite_env \<Rightarrow> string option \<Rightarrow> cJSON option \<Rightarrow> bool option" where
  "filter_eval e val f =
     (case (json_path_for_key (filter_key f), Option.bind (json_get f ''value'') (cJSON_PrintUnformatted e)) of
        (Some path, Some encoded) \<Rightarrow>
          Option.bind (sql_json_type e val path) (\<lambda>t.
          Option.bind (sql_json_type e (Some encoded) (''$'')) (\<lambda>ft.
          Option.bind (sql_json_extract e val path) (\<lambda>x.
          Option.bind (sql_json_extract e (Some encoded) (''$'')) (\<lambda>fx.
            Some (if strcmp (filter_op f) ''eq'' = 0 then sql_is t ft \<and> sql_is x fx
                  else if strcmp (filter_op f) ''ne'' = 0
                  then t \<noteq> SNull \<and> (\<not> sql_is t ft \<or> \<not> sql_is x fx)
                  else (t = SText ''integer'' \<or> t = SText ''real'') \<and>
                       sql_compare (sql_operator (filter_op f)) x fx)))))
      | _ \<Rightarrow> None)"

fun filters_eval :: "sqlite_env \<Rightarrow> string option \<Rightarrow> cJSON option list \<Rightarrow> bool option" where
  "filters_eval e val [] = Some True"
| "filters_eval e val (f # fs) =
     (case filter_eval e val f of
        None \<Rightarrow> None
      | Some b \<Rightarrow> if b then filters_eval e val fs else Some False)"

text \<open>
  Stepping the query row by row: the rows delivered before it is done or raises an error, and
  whether it ended without one.
\<close>

fun step_rows :: "sqlite_env \<Rightarrow> cJSON option list \<Rightarrow> row list \<Rightarrow> row list \<times> bool" where
  "step_rows e fs [] = ([], True)"
| "step_rows e fs (r # rs) =
     (if \<not> row_live (now_epoch e) r then step_rows e fs rs
      else case filters_eval e (r_value r) fs of
             None \<Rightarrow> ([], False)
           | Some b \<Rightarrow> let (out, ok) = step_rows e fs rs in (if b then r # out else out, ok))"

text \<open>With \<open>ORDER BY\<close> the rows are sorted before the first one is delivered.\<close>

definition live_rows ::
  "sqlite_env \<Rightarrow> edb_shard \<Rightarrow> string \<Rightarrow> cJSON option \<Rightarrow> bool \<Rightarrow> row list option" where
  "live_rows e sh select filters order_by_timestamp =
     (case prepare_live_query (prepare_ok e) (cJSON_PrintUnformatted e) (now_epoch e) select filters
             order_by_timestamp of
        None \<Rightarrow> None
      | Some stmt \<Rightarrow>
          let (out, ok) = step_rows e (filter_list filters) (scan_rows e (sh_rows sh))
          in Some (if order_by_timestamp then (if ok then sort_key r_timestamp out else []) else out))"

definition edb_shard_ids :: "sqlite_env \<Rightarrow> edb_shard \<Rightarrow> cJSON option \<Rightarrow> string list option" where
  "edb_shard_ids e sh filters =
     map_option (map r_id) (live_rows e sh ''SELECT id FROM Data WHERE'' filters True)"

definition collect_values :: "sqlite_env \<Rightarrow> edb_shard \<Rightarrow> cJSON option \<Rightarrow> bool \<Rightarrow> cJSON option" where
  "collect_values e sh filters meta =
     map_option
       (\<lambda>rows. JArray (List.map_filter (\<lambda>r.
          case parse_value e r of
            None \<Rightarrow> None
          | Some document \<Rightarrow>
              Some (if meta
                    then JObject [(''id'', JString (r_id r)),
                                  (''timestamp'', json_int (case r_timestamp r of None \<Rightarrow> 0 | Some t \<Rightarrow> t)),
                                  (''value'', document)]
                    else document)) rows))
       (live_rows e sh (if meta then ''SELECT id, value, timestamp FROM Data WHERE''
                        else ''SELECT value FROM Data WHERE'') filters False)"

definition edb_shard_all :: "sqlite_env \<Rightarrow> edb_shard \<Rightarrow> cJSON option \<Rightarrow> cJSON option" where
  "edb_shard_all e sh filters = collect_values e sh filters False"

definition edb_shard_query :: "sqlite_env \<Rightarrow> edb_shard \<Rightarrow> cJSON option \<Rightarrow> cJSON option" where
  "edb_shard_query e sh filters = collect_values e sh filters False"

definition edb_shard_all_ts :: "sqlite_env \<Rightarrow> edb_shard \<Rightarrow> cJSON option \<Rightarrow> cJSON option" where
  "edb_shard_all_ts e sh filters = collect_values e sh filters True"

definition edb_shard_query_ts :: "sqlite_env \<Rightarrow> edb_shard \<Rightarrow> cJSON option \<Rightarrow> cJSON option" where
  "edb_shard_query_ts e sh filters = collect_values e sh filters True"

section \<open>Maintenance and opening\<close>

definition expired_before :: "int \<Rightarrow> row \<Rightarrow> bool" where
  "expired_before t r \<longleftrightarrow> (case r_ttl r of None \<Rightarrow> False | Some ttl \<Rightarrow> ttl < t)"

text \<open>The transaction of \<open>edb_shard_cleanup\<close>: begin, delete, commit or roll back.\<close>

definition cleanup_tx :: "sqlite_env \<Rightarrow> edb_shard \<Rightarrow> edb_shard \<times> bool" where
  "cleanup_tx e sh =
     (let (sh, ok) = stmt_for e (sh\<lparr>sh_tx := True\<rparr>) SQL_CLEANUP
      in if \<not> ok \<or> \<not> step_ok e SQL_CLEANUP then (sh\<lparr>sh_tx := False\<rparr>, False)
         else
           let gone = filter (expired_before (now_epoch e - EDB_CLEANUP_GRACE_SECONDS)) (sh_rows sh);
               sh = sh\<lparr>sh_rows := filter (\<lambda>r. \<not> expired_before
                          (now_epoch e - EDB_CLEANUP_GRACE_SECONDS) r) (sh_rows sh),
                       sh_expired := sh_expired sh + int (length gone)\<rparr>
           in if shard_exec e sh ''COMMIT'' then (sh\<lparr>sh_tx := False\<rparr>, True) else (sh, False))"

definition edb_shard_cleanup :: "sqlite_env \<Rightarrow> edb_shard \<Rightarrow> edb_shard \<times> bool" where
  "edb_shard_cleanup e sh =
     (if \<not> shard_exec e sh ''BEGIN IMMEDIATE'' then (sh, False)
      else
        let (sh, ok) = cleanup_tx e sh
        in if ok \<and> EDB_VACUUM_THRESHOLD \<le> sh_expired sh \<and> shard_exec e sh ''VACUUM''
           then (sh\<lparr>sh_expired := 0\<rparr>, ok)
           else (sh, ok))"

definition edb_shard_vacuum :: "sqlite_env \<Rightarrow> edb_shard \<Rightarrow> edb_shard \<times> bool" where
  "edb_shard_vacuum e sh =
     (if sh_partition sh = [] then (sh, False)
      else if shard_exec e sh ''VACUUM'' then (sh\<lparr>sh_expired := 0\<rparr>, True) else (sh, False))"

definition edb_shard_reindex :: "sqlite_env \<Rightarrow> edb_shard \<Rightarrow> edb_shard \<times> bool" where
  "edb_shard_reindex e sh =
     (if sh_partition sh = [] then (sh, False) else (sh, shard_exec e sh ''REINDEX''))"

definition SQL_SYNC :: string where
  "SQL_SYNC = ''PRAGMA synchronous=FULL;''"

definition SQL_SCHEMA :: string where
  "SQL_SCHEMA = ''CREATE TABLE IF NOT EXISTS Data ( id TEXT PRIMARY KEY, value BLOB, ttl INTEGER,''
     @ '' timestamp INT, origin TEXT);CREATE INDEX IF NOT EXISTS idx_ttl ON Data (ttl);''
     @ ''DROP TABLE IF EXISTS DataFilter;''"

text \<open>
  \<open>edb_shard_open\<close>: \<open>rows\<close> is what the Data table of the file at the path holds (nothing for a
  new file). The migrations of older schemas do not touch the columns modelled here.
\<close>

definition edb_shard_open ::
  "sqlite_env \<Rightarrow> row list \<Rightarrow> string \<Rightarrow> string \<Rightarrow> string option \<Rightarrow> string option \<Rightarrow> edb_shard option" where
  "edb_shard_open e rows path key part keyspace =
     (if \<not> open_ok e path then None
      else if \<not> exec_ok e SQL_SYNC \<or> \<not> exec_ok e SQL_SCHEMA then None
      else Some \<lparr>sh_path = path, sh_key = snprintf_s 33 key,
                 sh_partition = snprintf_s 256 (or_empty part),
                 sh_keyspace = snprintf_s 128 (or_empty keyspace),
                 sh_rows = rows, sh_tx = False, sh_cache = [], sh_expired = 0\<rparr>)"

section \<open>Operation sequences and the invariant\<close>

datatype shard_op =
    OpPut string string int
  | OpReplicaPut string string int int "string option"
  | OpReplicaDelete string int "string option"
  | OpDelete string
  | OpGet string
  | OpGetTs string
  | OpCleanup
  | OpVacuum
  | OpReindex

fun run_shard_op :: "sqlite_env \<Rightarrow> shard_op \<Rightarrow> edb_shard \<Rightarrow> edb_shard" where
  "run_shard_op e (OpPut doc v ttl) sh = fst (edb_shard_put e sh doc v ttl)"
| "run_shard_op e (OpReplicaPut doc v ttl ts origin) sh = fst (edb_shard_replica_put e sh doc v ttl ts origin)"
| "run_shard_op e (OpReplicaDelete doc ts origin) sh = fst (edb_shard_replica_delete e sh doc ts origin)"
| "run_shard_op e (OpDelete doc) sh = fst (edb_shard_delete e sh doc)"
| "run_shard_op e (OpGet doc) sh = fst (edb_shard_get e sh doc)"
| "run_shard_op e (OpGetTs doc) sh = fst (edb_shard_get_ts e sh doc)"
| "run_shard_op e OpCleanup sh = fst (edb_shard_cleanup e sh)"
| "run_shard_op e OpVacuum sh = fst (edb_shard_vacuum e sh)"
| "run_shard_op e OpReindex sh = fst (edb_shard_reindex e sh)"

text \<open>The states of an open shard: SQLite may fail at any step, in any way.\<close>

inductive shard_reachable :: "edb_shard \<Rightarrow> bool" where
  opened: "edb_shard_open e rows path key part keyspace = Some sh \<Longrightarrow>
    distinct (map r_id rows) \<Longrightarrow> shard_reachable sh"
| step: "shard_reachable sh \<Longrightarrow> shard_reachable (run_shard_op e a sh)"

definition shard_sqls :: "string list" where
  "shard_sqls = [SQL_PUT, SQL_VERSION, SQL_REPLICA_DELETE, SQL_GET_TS, SQL_GET, SQL_DELETE, SQL_CLEANUP]"

definition cache_ok :: "edb_cached_stmt list \<Rightarrow> bool" where
  "cache_ok cache \<longleftrightarrow> distinct (map c_sql cache) \<and> set (map c_sql cache) \<subseteq> set shard_sqls \<and>
     (\<forall>c \<in> set cache. c_stmt c = c_sql c)"

definition shard_inv :: "edb_shard \<Rightarrow> bool" where
  "shard_inv sh \<longleftrightarrow> distinct (map r_id (sh_rows sh)) \<and> cache_ok (sh_cache sh) \<and>
     length (sh_key sh) \<le> 32 \<and> length (sh_partition sh) \<le> 255 \<and> length (sh_keyspace sh) \<le> 127"

definition shard_map :: "edb_shard \<Rightarrow> string \<rightharpoonup> row" where
  "shard_map sh doc = find_row doc (sh_rows sh)"

definition sqlite_works :: "sqlite_env \<Rightarrow> bool" where
  "sqlite_works e \<longleftrightarrow> (\<forall>q \<in> set shard_sqls. prepare_ok e q \<and> step_ok e q)"

section \<open>Rows\<close>

lemma find_row_Nil [simp]: "find_row d [] = None"
  by (simp add: find_row_def first_match_def)

lemma find_row_Cons [simp]: "find_row d (r # rs) = (if r_id r = d then Some r else find_row d rs)"
  by (simp add: find_row_def first_match_def)

lemma find_row_append: "find_row d (xs @ ys) = (case find_row d xs of None \<Rightarrow> find_row d ys | Some r \<Rightarrow> Some r)"
  by (induction xs) auto

lemma find_row_None_iff: "find_row d rs = None \<longleftrightarrow> (\<forall>r \<in> set rs. r_id r \<noteq> d)"
  by (induction rs) auto

lemma find_row_id: "find_row d rs = Some r \<Longrightarrow> r_id r = d \<and> r \<in> set rs"
  by (induction rs) (auto split: if_splits)

lemma find_row_distinct: "distinct (map r_id rs) \<Longrightarrow> r \<in> set rs \<Longrightarrow> find_row (r_id r) rs = Some r"
  by (induction rs) force+

lemma find_row_filter_ne: "find_row d (filter (\<lambda>s. r_id s \<noteq> d') rs) = (if d = d' then None else find_row d rs)"
  by (induction rs) auto

lemma find_row_filter:
  "distinct (map r_id rs) \<Longrightarrow>
    find_row d (filter P rs) = (case find_row d rs of None \<Rightarrow> None | Some r \<Rightarrow> if P r then Some r else None)"
proof (induction rs)
  case (Cons r rs)
  then have "find_row (r_id r) (filter P rs) = None" "find_row (r_id r) rs = None"
    by (force simp: find_row_None_iff image_iff)+
  with Cons show ?case by auto
qed simp

lemma find_row_map:
  "(\<And>r. r_id (f r) = r_id r) \<Longrightarrow> find_row d (map f rs) = map_option f (find_row d rs)"
  by (induction rs) auto

lemma find_row_insert [simp]:
  "find_row d (insert_or_replace r rs) = (if d = r_id r then Some r else find_row d rs)"
  by (simp add: insert_or_replace_def find_row_append find_row_filter_ne split: option.splits)

lemma find_row_upsert [simp]:
  "find_row d (upsert r rs) = (if d = r_id r then Some r else find_row d rs)"
proof (cases "find_row (r_id r) rs")
  case None
  then show ?thesis by (simp add: upsert_def find_row_append split: option.splits)
next
  case (Some s)
  have "find_row d (map (\<lambda>s. if r_id s = r_id r then r else s) rs) =
      map_option (\<lambda>s. if r_id s = r_id r then r else s) (find_row d rs)"
    by (rule find_row_map) simp
  with Some find_row_id [of d rs] show ?thesis
    by (cases "find_row d rs") (auto simp: upsert_def)
qed

lemma distinct_insert_or_replace:
  "distinct (map r_id rs) \<Longrightarrow> distinct (map r_id (insert_or_replace r rs))"
  by (auto simp: insert_or_replace_def distinct_map_filter)

lemma distinct_upsert: "distinct (map r_id rs) \<Longrightarrow> distinct (map r_id (upsert r rs))"
proof -
  have "map r_id (map (\<lambda>s. if r_id s = r_id r then r else s) rs) = map r_id rs" by simp
  then show "distinct (map r_id rs) \<Longrightarrow> distinct (map r_id (upsert r rs))"
    by (auto simp: upsert_def find_row_None_iff simp del: map_map)
qed

section \<open>The statement cache\<close>

lemma shard_sqls_short: "q \<in> set shard_sqls \<Longrightarrow> snprintf_s 192 q = q"
  by (auto simp: shard_sqls_def SQL_PUT_def SQL_VERSION_def SQL_REPLICA_DELETE_def SQL_GET_TS_def
      SQL_GET_def SQL_DELETE_def SQL_CLEANUP_def snprintf_s_def)

lemma cache_small: "cache_ok cache \<Longrightarrow> length cache \<le> 7"
proof -
  assume c: "cache_ok cache"
  then have "card (set (map c_sql cache)) \<le> card (set shard_sqls)"
    by (intro card_mono) (auto simp: cache_ok_def)
  also have "\<dots> \<le> length shard_sqls" by (rule card_length)
  also have "\<dots> = 7" by (simp add: shard_sqls_def)
  finally show ?thesis using c distinct_card [of "map c_sql cache"] by (simp add: cache_ok_def)
qed

lemma stmt_for_fields [simp]:
  "sh_rows (fst (stmt_for e sh q)) = sh_rows sh" "sh_tx (fst (stmt_for e sh q)) = sh_tx sh"
  "sh_key (fst (stmt_for e sh q)) = sh_key sh" "sh_partition (fst (stmt_for e sh q)) = sh_partition sh"
  "sh_keyspace (fst (stmt_for e sh q)) = sh_keyspace sh" "sh_path (fst (stmt_for e sh q)) = sh_path sh"
  "sh_expired (fst (stmt_for e sh q)) = sh_expired sh"
  by (simp_all add: stmt_for_def Let_def)

lemma set_active_fields [simp]:
  "sh_rows (set_active q b sh) = sh_rows sh" "sh_tx (set_active q b sh) = sh_tx sh"
  "sh_key (set_active q b sh) = sh_key sh" "sh_partition (set_active q b sh) = sh_partition sh"
  "sh_keyspace (set_active q b sh) = sh_keyspace sh" "sh_expired (set_active q b sh) = sh_expired sh"
  by (simp_all add: set_active_def)

lemma stmt_for_ok [simp]: "prepare_ok e q \<Longrightarrow> snd (stmt_for e sh q)"
  by (simp add: stmt_for_def Let_def)

lemma cache_ok_activity:
  "cache_ok cache \<Longrightarrow> cache_ok (update_first P (\<lambda>c. c\<lparr>c_active := b\<rparr>) cache)"
proof -
  assume c: "cache_ok cache"
  have sql: "map c_sql (update_first P (\<lambda>c. c\<lparr>c_active := b\<rparr>) cache) = map c_sql cache"
    by (rule map_update_first_same) simp
  have "\<forall>c \<in> set (update_first P (\<lambda>c. c\<lparr>c_active := b\<rparr>) cache). c_stmt c = c_sql c"
    using c set_update_first [of P "\<lambda>c. c\<lparr>c_active := b\<rparr>" cache] by (auto simp: cache_ok_def)
  then show ?thesis using c unfolding cache_ok_def sql by blast
qed

lemma stmt_for_cache_ok:
  "cache_ok (sh_cache sh) \<Longrightarrow> q \<in> set shard_sqls \<Longrightarrow> cache_ok (sh_cache (fst (stmt_for e sh q)))"
  using cache_small [of "sh_cache sh"]
  by (auto simp: stmt_for_def Let_def EDB_STMT_CACHE_SIZE_def cache_ok_activity shard_sqls_short)
    (auto simp: cache_ok_def)

lemma set_active_cache_ok: "cache_ok (sh_cache sh) \<Longrightarrow> cache_ok (sh_cache (set_active q b sh))"
  by (simp add: set_active_def cache_ok_activity)

text \<open>The statement \<open>stmt_for\<close> leaves for a text was prepared from that text.\<close>

lemma sql_members [simp]:
  "SQL_PUT \<in> set shard_sqls" "SQL_VERSION \<in> set shard_sqls" "SQL_REPLICA_DELETE \<in> set shard_sqls"
  "SQL_GET_TS \<in> set shard_sqls" "SQL_GET \<in> set shard_sqls" "SQL_DELETE \<in> set shard_sqls"
  "SQL_CLEANUP \<in> set shard_sqls"
  by (simp_all add: shard_sqls_def)

lemma sqlite_works_simps [simp]:
  "sqlite_works e \<Longrightarrow> q \<in> set shard_sqls \<Longrightarrow> prepare_ok e q"
  "sqlite_works e \<Longrightarrow> q \<in> set shard_sqls \<Longrightarrow> step_ok e q"
  by (simp_all add: sqlite_works_def)

section \<open>The invariant\<close>

lemma shard_inv_stmt_for [wf_intros]:
  "shard_inv sh \<Longrightarrow> q \<in> set shard_sqls \<Longrightarrow> shard_inv (fst (stmt_for e sh q))"
  by (simp add: shard_inv_def stmt_for_cache_ok)

lemma shard_inv_set_active [wf_intros]: "shard_inv sh \<Longrightarrow> shard_inv (set_active q b sh)"
  by (simp add: shard_inv_def set_active_cache_ok)

lemma shard_inv_rows [wf_intros]:
  "shard_inv sh \<Longrightarrow> distinct (map r_id rows) \<Longrightarrow> shard_inv (sh\<lparr>sh_rows := rows\<rparr>)"
  by (simp add: shard_inv_def)

lemma shard_inv_distinct [wf_intros]: "shard_inv sh \<Longrightarrow> distinct (map r_id (sh_rows sh))"
  by (simp add: shard_inv_def)

lemma shard_inv_do_put [wf_intros]: "shard_inv sh \<Longrightarrow> shard_inv (fst (do_put_locked e sh d v ttl ts o'))"
  by (auto simp: do_put_locked_def Let_def split_beta
      intro!: shard_inv_stmt_for shard_inv_rows distinct_insert_or_replace shard_inv_distinct)

lemma shard_inv_version [wf_intros]: "shard_inv sh \<Longrightarrow> shard_inv (fst (stored_version_locked e sh d))"
  by (auto simp: stored_version_locked_def Let_def split_beta
      intro!: shard_inv_stmt_for shard_inv_set_active split: option.splits)

lemma shard_inv_replica_delete [wf_intros]:
  "shard_inv sh \<Longrightarrow> shard_inv (fst (edb_shard_replica_delete e sh d ts o'))"
  by (auto simp: edb_shard_replica_delete_def Let_def split_beta
      intro!: shard_inv_stmt_for shard_inv_rows distinct_upsert shard_inv_distinct shard_inv_version)

lemma shard_inv_delete [wf_intros]: "shard_inv sh \<Longrightarrow> shard_inv (fst (edb_shard_delete e sh d))"
proof -
  assume i: "shard_inv sh"
  have "map r_id (map (\<lambda>r. if r_id r = d then r\<lparr>r_ttl := t, r_timestamp := u\<rparr> else r) rs) = map r_id rs"
    for rs t u by (induction rs) auto
  then have "distinct (map r_id (map (\<lambda>r. if r_id r = d then r\<lparr>r_ttl := t, r_timestamp := u\<rparr> else r)
      (sh_rows sh)))" for t u
    using shard_inv_distinct [OF i] by metis
  with i show ?thesis
    by (auto simp: edb_shard_delete_def Let_def split_beta simp del: map_map
        intro!: shard_inv_stmt_for shard_inv_rows)
qed

lemma shard_inv_cleanup [wf_intros]: "shard_inv sh \<Longrightarrow> shard_inv (fst (edb_shard_cleanup e sh))"
proof -
  assume i: "shard_inv sh"
  have tx: "shard_inv (s\<lparr>sh_tx := b\<rparr>)" "shard_inv (s\<lparr>sh_expired := n\<rparr>)" if "shard_inv s" for s b n
    using that by (simp_all add: shard_inv_def)
  have "shard_inv (fst (cleanup_tx e sh))"
    using shard_inv_stmt_for [OF tx(1) [OF i], of SQL_CLEANUP e True]
    by (auto simp: cleanup_tx_def Let_def split_beta shard_inv_def distinct_map_filter)
  with i tx(2) show ?thesis
    by (auto simp: edb_shard_cleanup_def Let_def split_beta)
qed

lemma shard_inv_expired [wf_intros]: "shard_inv sh \<Longrightarrow> shard_inv (sh\<lparr>sh_expired := n\<rparr>)"
  by (simp add: shard_inv_def)

lemma shard_inv_run: "shard_inv sh \<Longrightarrow> shard_inv (run_shard_op e a sh)"
  by (cases a)
    (auto simp: edb_shard_put_def edb_shard_replica_put_def edb_shard_get_def edb_shard_get_ts_def
      edb_shard_vacuum_def edb_shard_reindex_def Let_def split_beta
      intro!: wf_intros split: option.splits)

lemma reachable_inv: "shard_reachable sh \<Longrightarrow> shard_inv sh"
proof (induction rule: shard_reachable.induct)
  case (opened e rows path key part keyspace sh)
  then show ?case
    by (auto simp: edb_shard_open_def shard_inv_def cache_ok_def snprintf_s_def split: if_splits)
qed (rule shard_inv_run)

end
