(* ===== verification/Shard_Props.thy ===== *)
theory Shard_Props
  imports Shard
begin

text \<open>
  What the shard operations promise: document reads see the last local write within its lifetime,
  deletes hide documents, replicated changes converge (the shard implements the last-write-wins
  contract of theory \<open>Lww\<close>), cleanup removes only what no read can see, and live queries
  return exactly the live rows their filters select.
\<close>

section \<open>Replicated changes as last-write-wins operations\<close>

datatype replica_op =
    RPut string string int int "string option"
  | RDel string int "string option"

fun apply_replica :: "sqlite_env \<Rightarrow> replica_op \<Rightarrow> edb_shard \<Rightarrow> edb_shard \<times> bool" where
  "apply_replica e (RPut doc v ttl ts origin) sh = edb_shard_replica_put e sh doc v ttl ts origin"
| "apply_replica e (RDel doc ts origin) sh = edb_shard_replica_delete e sh doc ts origin"

fun rop_key :: "replica_op \<Rightarrow> string" where
  "rop_key (RPut doc v ttl ts origin) = doc"
| "rop_key (RDel doc ts origin) = doc"

fun rop_time :: "replica_op \<Rightarrow> int" where
  "rop_time (RPut doc v ttl ts origin) = ts"
| "rop_time (RDel doc ts origin) = ts"

fun rop_origin :: "replica_op \<Rightarrow> string option" where
  "rop_origin (RPut doc v ttl ts origin) = origin"
| "rop_origin (RDel doc ts origin) = origin"

definition rop_ver :: "replica_op \<Rightarrow> int \<times> string" where
  "rop_ver a = (rop_time a, or_empty (rop_origin a))"

fun rop_val :: "replica_op \<Rightarrow> row" where
  "rop_val (RPut doc v ttl ts origin) =
     \<lparr>r_id = doc, r_value = Some v, r_ttl = (if 0 \<le> ttl then Some ttl else None),
      r_timestamp = Some ts, r_origin = Some (or_empty origin)\<rparr>"
| "rop_val (RDel doc ts origin) =
     \<lparr>r_id = doc, r_value = None, r_ttl = Some (ts - 5),
      r_timestamp = Some ts, r_origin = Some (or_empty origin)\<rparr>"

text \<open>Origins are node ids; \<open>stored_version_locked\<close> reads back at most 63 characters of one.\<close>

definition rop_valid :: "replica_op \<Rightarrow> bool" where
  "rop_valid a \<longleftrightarrow> length (or_empty (rop_origin a)) < 64"

definition row_ver :: "row \<Rightarrow> (int \<times> string) option" where
  "row_ver r = map_option (\<lambda>ts. (ts, snprintf_s 64 (or_empty (r_origin r)))) (r_timestamp r)"

definition lww_apply :: "replica_op \<Rightarrow> (string \<rightharpoonup> row) \<Rightarrow> (string \<rightharpoonup> row)" where
  "lww_apply a m =
     (if stored_wins (Option.bind (m (rop_key a)) row_ver) (rop_time a) (rop_origin a) then m
      else m(rop_key a \<mapsto> rop_val a))"

lemma stored_wins_less:
  "stored_wins (Some v) (rop_time a) (rop_origin a) \<longleftrightarrow> rop_ver a < v"
  by (cases v) (auto simp: stored_wins_def rop_ver_def less_prod_def strcmp_pos_iff)

lemma stored_wins_None [simp]: "\<not> stored_wins None ts origin"
  by (simp add: stored_wins_def)

lemma row_ver_rop_val: "rop_valid a \<Longrightarrow> row_ver (rop_val a) = Some (rop_ver a)"
  by (cases a) (auto simp: row_ver_def rop_ver_def rop_valid_def snprintf_s_id or_empty_def split: option.splits)

interpretation lww: lww_register rop_valid rop_key rop_ver rop_val row_ver lww_apply
proof
  fix a :: replica_op
  show "rop_valid a \<Longrightarrow> row_ver (rop_val a) = Some (rop_ver a)" by (rule row_ver_rop_val)
next
  fix m a r v
  assume "m (rop_key a) = Some r" "row_ver r = Some v" "rop_ver a < v"
  then show "lww_apply a m = m" by (simp add: lww_apply_def stored_wins_less)
next
  fix m :: "string \<rightharpoonup> row" and a
  assume *: "\<And>r v. m (rop_key a) = Some r \<Longrightarrow> row_ver r = Some v \<Longrightarrow> v \<le> rop_ver a"
  have "\<not> stored_wins (Option.bind (m (rop_key a)) row_ver) (rop_time a) (rop_origin a)"
    using * by (cases "Option.bind (m (rop_key a)) row_ver")
      (auto simp: stored_wins_less not_less split: bind_splits)
  then show "lww_apply a m = m(rop_key a \<mapsto> rop_val a)" by (simp add: lww_apply_def)
qed

section \<open>The shard implements the contract\<close>

lemma stored_version_fields [simp]:
  "sh_rows (fst (stored_version_locked e sh d)) = sh_rows sh"
  by (auto simp: stored_version_locked_def Let_def split_beta split: option.splits)

lemma stored_version_value:
  "sqlite_works e \<Longrightarrow> snd (stored_version_locked e sh d) = Option.bind (shard_map sh d) row_ver"
  by (auto simp: stored_version_locked_def Let_def split_beta shard_map_def row_ver_def
      split: option.splits)

lemma do_put_rows:
  "sqlite_works e \<Longrightarrow> sh_rows (fst (do_put_locked e sh d v ttl ts origin)) =
     insert_or_replace (rop_val (RPut d v ttl ts origin)) (sh_rows sh) \<and>
     snd (do_put_locked e sh d v ttl ts origin)"
  by (simp add: do_put_locked_def Let_def split_beta)

lemma apply_replica_refines:
  assumes "sqlite_works e"
  shows "shard_map (fst (apply_replica e a sh)) = lww_apply a (shard_map sh) \<and> snd (apply_replica e a sh)"
proof (cases a)
  case (RPut d v ttl ts origin)
  let ?st = "stored_version_locked e sh d"
  show ?thesis
  proof (cases "stored_wins (snd ?st) ts origin")
    case True
    with assms RPut show ?thesis
      by (simp add: edb_shard_replica_put_def split_beta stored_version_value lww_apply_def
          shard_map_def fun_eq_iff)
  next
    case False
    with assms RPut do_put_rows [OF assms, of "fst ?st" d v ttl ts origin] show ?thesis
      by (simp add: edb_shard_replica_put_def split_beta stored_version_value lww_apply_def
          shard_map_def fun_eq_iff)
  qed
next
  case (RDel d ts origin)
  with assms show ?thesis
    by (simp add: edb_shard_replica_delete_def split_beta stored_version_value lww_apply_def
        shard_map_def fun_eq_iff Let_def)
qed

definition apply_all :: "(sqlite_env \<times> replica_op) list \<Rightarrow> edb_shard \<Rightarrow> edb_shard" where
  "apply_all xs sh = fold (\<lambda>(e, a) sh. fst (apply_replica e a sh)) xs sh"

lemma apply_all_refines:
  "\<forall>x \<in> set xs. sqlite_works (fst x) \<Longrightarrow>
    shard_map (apply_all xs sh) = fold lww_apply (map snd xs) (shard_map sh)"
proof (induction xs arbitrary: sh)
  case (Cons x xs)
  obtain e a where x: "x = (e, a)" by (cases x)
  have "sqlite_works e" using Cons.prems x by simp
  moreover have "shard_map (apply_all xs (fst (apply_replica e a sh))) =
      fold lww_apply (map snd xs) (shard_map (fst (apply_replica e a sh)))"
    by (rule Cons.IH) (use Cons.prems in auto)
  ultimately show ?case
    using apply_replica_refines by (simp add: apply_all_def x)
qed (simp add: apply_all_def)

section \<open>Reads\<close>

lemma get_value:
  "sqlite_works e \<Longrightarrow> snd (edb_shard_get e sh d) =
     (case shard_map sh d of
        None \<Rightarrow> None
      | Some r \<Rightarrow> if row_live (now_epoch e) r then parse_value e r else None)"
  by (auto simp: edb_shard_get_def Let_def split_beta shard_map_def split: option.splits)

lemma put_map:
  "sqlite_works e \<Longrightarrow> shard_map (fst (edb_shard_put e sh d v ttl)) = (shard_map sh)
     (d \<mapsto> rop_val (RPut d v (if 0 \<le> ttl then now_epoch e + ttl else - 1) (now_epoch e) (Some [])))"
  by (simp add: edb_shard_put_def Let_def shard_map_def fun_eq_iff do_put_rows)

lemma delete_map:
  assumes "sqlite_works e"
  shows "shard_map (fst (edb_shard_delete e sh d)) = (shard_map sh)
     (d := map_option (\<lambda>r. r\<lparr>r_ttl := Some (now_epoch e - 5), r_timestamp := Some (now_epoch e)\<rparr>)
             (shard_map sh d))"
proof
  fix i
  have "find_row i (map (\<lambda>r. if r_id r = d then r\<lparr>r_ttl := t, r_timestamp := u\<rparr> else r) rs) =
      map_option (\<lambda>r. if r_id r = d then r\<lparr>r_ttl := t, r_timestamp := u\<rparr> else r) (find_row i rs)" for rs t u
    by (rule find_row_map) simp
  with assms find_row_id [of i "sh_rows sh"]
  show "shard_map (fst (edb_shard_delete e sh d)) i = ((shard_map sh)
     (d := map_option (\<lambda>r. r\<lparr>r_ttl := Some (now_epoch e - 5), r_timestamp := Some (now_epoch e)\<rparr>)
             (shard_map sh d))) i"
    by (cases "find_row i (sh_rows sh)")
      (auto simp: edb_shard_delete_def Let_def split_beta shard_map_def)
qed

section \<open>Cleanup\<close>

lemma cleanup_rows:
  assumes "snd (edb_shard_cleanup e sh)"
  shows "sh_rows (fst (edb_shard_cleanup e sh)) =
    filter (\<lambda>r. \<not> expired_before (now_epoch e - EDB_CLEANUP_GRACE_SECONDS) r) (sh_rows sh)"
  using assms
  by (auto simp: edb_shard_cleanup_def cleanup_tx_def Let_def split_beta split: if_splits)

lemma cleanup_keeps_live:
  "row_live t r \<Longrightarrow> t' \<le> t \<Longrightarrow> \<not> expired_before t' r"
  by (auto simp: row_live_def expired_before_def split: option.splits)

section \<open>Live queries\<close>

lemma step_rows_exact:
  assumes "\<And>r. r \<in> set rs \<Longrightarrow> row_live (now_epoch e) r \<Longrightarrow> filters_eval e (r_value r) fs \<noteq> None"
  shows "step_rows e fs rs =
    (filter (\<lambda>r. row_live (now_epoch e) r \<and> filters_eval e (r_value r) fs = Some True) rs, True)"
  using assms
proof (induction rs)
  case (Cons r rs)
  show ?case
  proof (cases "row_live (now_epoch e) r")
    case False
    with Cons show ?thesis by simp
  next
    case True
    with Cons.prems obtain b where "filters_eval e (r_value r) fs = Some b" by fastforce
    with Cons True show ?thesis by simp
  qed
qed simp

section \<open>Maintenance\<close>

lemma run_keeps_tx: "sh_tx sh \<Longrightarrow> sh_tx (run_shard_op e a sh)"
proof (cases a)
  case OpCleanup
  then show "sh_tx sh \<Longrightarrow> sh_tx (run_shard_op e a sh)"
    by (simp add: edb_shard_cleanup_def shard_exec_def)
qed (auto simp: edb_shard_put_def edb_shard_replica_put_def edb_shard_replica_delete_def
    edb_shard_delete_def edb_shard_get_def edb_shard_get_ts_def edb_shard_vacuum_def
    edb_shard_reindex_def do_put_locked_def stored_version_locked_def Let_def split_beta
    split: option.splits)

lemma fold_keeps_tx: "sh_tx sh \<Longrightarrow> sh_tx (fold (\<lambda>(e, a). run_shard_op e a) ops sh)"
  by (induction ops arbitrary: sh) (auto simp: run_keeps_tx)

section \<open>A working environment\<close>

text \<open>An environment in which nothing fails, for concrete runs.\<close>

definition env_at :: "int \<Rightarrow> sqlite_env" where
  "env_at now = \<lparr>now_epoch = now, open_ok = (\<lambda>p. True), prepare_ok = (\<lambda>q. True), step_ok = (\<lambda>q. True), exec_ok = (\<lambda>q. True),
     scan_rows = (\<lambda>rows. rows), sql_json_type = (\<lambda>v p. Some SNull), sql_json_extract = (\<lambda>v p. Some SNull),
     cJSON_ParseWithLength = (\<lambda>s. Some (JString s)), cJSON_PrintUnformatted = (\<lambda>j. Some ''null'')\<rparr>"

definition empty_shard :: edb_shard where
  "empty_shard = \<lparr>sh_path = ''p'', sh_key = ''k'', sh_partition = ''pt'', sh_keyspace = ''ks'',
     sh_rows = [], sh_tx = False, sh_cache = [], sh_expired = 0\<rparr>"

lemma env_at_works [simp]: "sqlite_works (env_at t)"
  by (simp add: env_at_def sqlite_works_def)

lemma env_at_simps [simp]:
  "now_epoch (env_at t) = t" "open_ok (env_at t) p" "scan_rows (env_at t) = (\<lambda>rows. rows)" "exec_ok (env_at t) q"
  "prepare_ok (env_at t) q" "cJSON_ParseWithLength (env_at t) s = Some (JString s)"
  "step_ok (env_at t) q" "cJSON_PrintUnformatted (env_at t) j = Some ''null''"
  by (simp_all add: env_at_def)

lemma empty_shard_map: "shard_map empty_shard d = None"
  by (simp add: shard_map_def empty_shard_def)

lemma empty_shard_inv: "shard_inv empty_shard"
  by (simp add: empty_shard_def shard_inv_def cache_ok_def)

section \<open>Properties\<close>

text \<open>
  C1. Convergence of replicas: two shards that agree on every document and then receive the same
  replicated puts and deletes, each in its own order and with any repetitions kept, agree on
  every document again, provided no two different changes to a document carry the same timestamp and
  origin. Timestamps are in seconds, so the condition excludes two changes that one node makes to a
  document within a second; for those the last one applied wins and the replicas can end apart
  (\<open>replica_tie_order_dependent\<close>).
\<close>

theorem replica_convergence:
  assumes "shard_map sh1 = shard_map sh2" and "mset (map snd xs) = mset (map snd ys)"
    and "\<And>e a. (e, a) \<in> set xs \<union> set ys \<Longrightarrow> sqlite_works e"
    and "\<And>e a. (e, a) \<in> set xs \<Longrightarrow> rop_valid a"
    and "\<And>e a e' b. (e, a) \<in> set xs \<Longrightarrow> (e', b) \<in> set xs \<Longrightarrow> rop_key a = rop_key b \<Longrightarrow>
      rop_ver a = rop_ver b \<Longrightarrow> a = b"
  shows "shard_map (apply_all xs sh1) = shard_map (apply_all ys sh2)"
proof -
  have "fold lww_apply (map snd xs) (shard_map sh1) = fold lww_apply (map snd ys) (shard_map sh1)"
    by (rule lww.converges [OF _ _ assms(2)]) (use assms(4,5) in \<open>force+\<close>)
  moreover have "sqlite_works (fst x)" if "x \<in> set xs \<union> set ys" for x
    using assms(3) [of "fst x" "snd x"] that by simp
  ultimately show ?thesis
    using assms(1) by (simp add: apply_all_refines)
qed

theorem replica_convergence_witness:
  "shard_map (apply_all [(env_at 10, RPut ''a'' ''1'' (- 1) 5 (Some ''n1'')), (env_at 11, RDel ''a'' 5 (Some ''n2''))]
      empty_shard)
   = shard_map (apply_all [(env_at 20, RDel ''a'' 5 (Some ''n2'')), (env_at 21, RPut ''a'' ''1'' (- 1) 5 (Some ''n1''))]
      empty_shard)"
proof (rule replica_convergence)
  show "mset (map snd [(env_at 10, RPut ''a'' ''1'' (- 1) 5 (Some ''n1'')), (env_at 11, RDel ''a'' 5 (Some ''n2''))])
    = mset (map snd [(env_at 20, RDel ''a'' 5 (Some ''n2'')), (env_at 21, RPut ''a'' ''1'' (- 1) 5 (Some ''n1''))])"
    by simp
qed (auto simp: rop_valid_def rop_ver_def or_empty_def)

text \<open>
  The last write wins: after any sequence of replicated changes, the document holds the
  effect of the change with the greatest timestamp (the greatest origin among equals), a
  tombstone if that change is a delete, whatever order the changes arrived in.
\<close>

theorem replica_last_write_wins:
  assumes "shard_map sh (rop_key a) = None" and "a \<in> set (map snd xs)"
    and "\<And>e b. (e, b) \<in> set xs \<Longrightarrow> sqlite_works e \<and> rop_valid b"
    and "\<And>b. b \<in> set (map snd xs) \<Longrightarrow> rop_key b = rop_key a \<Longrightarrow> rop_ver b \<le> rop_ver a"
    and "\<And>b c. b \<in> set (map snd xs) \<Longrightarrow> c \<in> set (map snd xs) \<Longrightarrow> rop_key b = rop_key c \<Longrightarrow>
      rop_ver b = rop_ver c \<Longrightarrow> b = c"
  shows "shard_map (apply_all xs sh) (rop_key a) = Some (rop_val a)"
proof -
  have valid: "rop_valid b" if "b \<in> set (map snd xs)" for b using that assms(3) by force
  have "fold lww_apply (map snd xs) (shard_map sh) (rop_key a) = Some (rop_val a)"
    by (rule lww.winner [OF valid _ assms(2)]) (use assms(1,4,5) in auto)
  moreover have "\<forall>x \<in> set xs. sqlite_works (fst x)" using assms(3) by auto
  ultimately show ?thesis by (simp add: apply_all_refines)
qed

theorem replica_last_write_wins_witness:
  "shard_map (apply_all [(env_at 9, RDel ''a'' 7 None), (env_at 9, RPut ''a'' ''1'' (- 1) 5 (Some ''n1''))] empty_shard)
     (rop_key (RDel ''a'' 7 None)) = Some (rop_val (RDel ''a'' 7 None))"
  by (rule replica_last_write_wins)
    (auto simp: empty_shard_map rop_valid_def rop_ver_def or_empty_def)

text \<open>
  Ties are decided by arrival: two different writes of one document with the same timestamp
  and the same origin (two local writes of one node within a second) leave two replicas that
  received them in opposite orders with different documents.
\<close>

theorem replica_tie_order_dependent:
  "shard_map (apply_all [(env_at 10, RPut ''a'' ''1'' (- 1) 5 (Some ''n'')), (env_at 10, RPut ''a'' ''2'' (- 1) 5 (Some ''n''))]
      empty_shard) ''a''
   \<noteq> shard_map (apply_all [(env_at 10, RPut ''a'' ''2'' (- 1) 5 (Some ''n'')), (env_at 10, RPut ''a'' ''1'' (- 1) 5 (Some ''n''))]
      empty_shard) ''a''"
  by (simp add: apply_all_refines lww_apply_def empty_shard_map stored_wins_def row_ver_def
      or_empty_def snprintf_s_def)

text \<open>
  Read your write: after \<open>edb_shard_put\<close>, \<open>edb_shard_get\<close> of the document returns the parsed
  value exactly until its lifetime is over (for ever without one), and every other document reads
  as before.
\<close>

theorem put_then_get:
  assumes "sqlite_works e" "sqlite_works e'" and "0 \<le> now_epoch e"
  shows "snd (edb_shard_get e' (fst (edb_shard_put e sh d v ttl)) d) =
      (if v = [] \<or> 0 \<le> ttl \<and> now_epoch e + ttl < now_epoch e' then None
       else cJSON_ParseWithLength e' v) \<and>
    (d' \<noteq> d \<longrightarrow>
      snd (edb_shard_get e' (fst (edb_shard_put e sh d v ttl)) d') = snd (edb_shard_get e' sh d')) \<and>
    snd (edb_shard_put e sh d v ttl)"
proof -
  have "snd (edb_shard_put e sh d v ttl)"
    using do_put_rows [OF assms(1)] by (simp add: edb_shard_put_def Let_def)
  with assms show ?thesis
    by (auto simp: get_value put_map row_live_def parse_value_def)
qed

theorem put_then_get_witness:
  "snd (edb_shard_get (env_at 15) (fst (edb_shard_put (env_at 10) empty_shard ''a'' ''1'' 5)) ''a'') = Some (JString ''1'') \<and>
   snd (edb_shard_get (env_at 16) (fst (edb_shard_put (env_at 10) empty_shard ''a'' ''1'' 5)) ''a'') = None"
  using put_then_get [of "env_at 10" "env_at 15" empty_shard "''a''" "''1''" 5 "''b''"]
    put_then_get [of "env_at 10" "env_at 16" empty_shard "''a''" "''1''" 5 "''b''"]
  by simp

text \<open>
  C28. Delete hides the document and keeps a tombstone: from the moment of \<open>edb_shard_delete\<close> no
  \<open>edb_shard_get\<close> returns the document, other documents read as before, and the row survives
  with the time of the delete, so that a replicated write older than the delete does not bring
  the document back.
\<close>

theorem delete_then_get:
  assumes "sqlite_works e" "sqlite_works e'" and "now_epoch e \<le> now_epoch e'"
  shows "snd (edb_shard_get e' (fst (edb_shard_delete e sh d)) d) = None \<and>
    (d' \<noteq> d \<longrightarrow> snd (edb_shard_get e' (fst (edb_shard_delete e sh d)) d') = snd (edb_shard_get e' sh d')) \<and>
    (ts < now_epoch e \<longrightarrow> shard_map sh d \<noteq> None \<longrightarrow>
      shard_map (fst (edb_shard_replica_put e' (fst (edb_shard_delete e sh d)) d v ttl ts origin))
        = shard_map (fst (edb_shard_delete e sh d)))"
proof -
  let ?sh = "fst (edb_shard_delete e sh d)"
  have "shard_map (fst (apply_replica e' (RPut d v ttl ts origin) ?sh)) = shard_map ?sh"
    if "ts < now_epoch e" "shard_map sh d \<noteq> None"
    using apply_replica_refines [OF assms(2), of "RPut d v ttl ts origin" ?sh] that assms(1)
    by (auto simp: lww_apply_def delete_map row_ver_def stored_wins_def)
  with assms show ?thesis
    by (auto simp: get_value delete_map row_live_def split: option.splits)
qed

theorem delete_then_get_witness:
  "snd (edb_shard_get (env_at 12) (fst (edb_shard_delete (env_at 11)
     (fst (edb_shard_put (env_at 10) empty_shard ''a'' ''1'' (- 1))) ''a'')) ''a'') = None"
  using delete_then_get [of "env_at 11" "env_at 12"
      "fst (edb_shard_put (env_at 10) empty_shard ''a'' ''1'' (- 1))" "''a''"] by simp

text \<open>
  Cleanup is invisible: a successful \<open>edb_shard_cleanup\<close> removes exactly the rows that
  expired more than the grace period of 7200 seconds ago, so that every \<open>edb_shard_get\<close> made at
  any time from 7200 seconds before the cleanup on answers as it would have without it.
\<close>

theorem cleanup_invisible:
  assumes "shard_inv sh" and "snd (edb_shard_cleanup e sh)"
    and "sqlite_works e'" and "now_epoch e - 7200 \<le> now_epoch e'"
  shows "sh_rows (fst (edb_shard_cleanup e sh)) =
      filter (\<lambda>r. \<not> (\<exists>ttl. r_ttl r = Some ttl \<and> ttl < now_epoch e - 7200)) (sh_rows sh) \<and>
    snd (edb_shard_get e' (fst (edb_shard_cleanup e sh)) d) = snd (edb_shard_get e' sh d)"
proof -
  have rows: "sh_rows (fst (edb_shard_cleanup e sh)) =
      filter (\<lambda>r. \<not> expired_before (now_epoch e - 7200) r) (sh_rows sh)"
    using cleanup_rows [OF assms(2)] by (simp add: EDB_CLEANUP_GRACE_SECONDS_def)
  have eq: "expired_before t r \<longleftrightarrow> (\<exists>ttl. r_ttl r = Some ttl \<and> ttl < t)" for t r
    by (auto simp: expired_before_def split: option.splits)
  have "shard_map (fst (edb_shard_cleanup e sh)) d = (case shard_map sh d of None \<Rightarrow> None
      | Some r \<Rightarrow> if \<not> expired_before (now_epoch e - 7200) r then Some r else None)"
    using assms(1) by (simp add: shard_map_def rows find_row_filter shard_inv_distinct)
  with rows cleanup_keeps_live [OF _ assms(4)] show ?thesis
    by (auto simp: get_value [OF assms(3)] eq split: option.splits)
qed

theorem cleanup_invisible_witness:
  "snd (edb_shard_cleanup (env_at 9000) empty_shard) \<and>
   snd (edb_shard_get (env_at 9000) (fst (edb_shard_cleanup (env_at 9000) empty_shard)) ''a'')
     = snd (edb_shard_get (env_at 9000) empty_shard ''a'')"
proof -
  have c: "snd (edb_shard_cleanup (env_at 9000) empty_shard)"
    by (simp add: edb_shard_cleanup_def cleanup_tx_def shard_exec_def Let_def split_beta empty_shard_def)
  show ?thesis using c cleanup_invisible [OF empty_shard_inv c, of "env_at 9000"] by simp
qed

text \<open>
  C29. Live queries are exact: when no filter expression raises an SQL error on a live row,
  \<open>edb_shard_ids\<close> lists, ordered by timestamp, the ids of exactly the live rows all filters
  select, each once, whatever order SQLite visits the table in.
\<close>

theorem shard_ids_exact:
  assumes "shard_inv sh" and "mset (scan_rows e (sh_rows sh)) = mset (sh_rows sh)"
    and "\<And>r. r \<in> set (sh_rows sh) \<Longrightarrow> row_live (now_epoch e) r \<Longrightarrow>
      filters_eval e (r_value r) (filter_list filters) \<noteq> None"
    and "edb_shard_ids e sh filters = Some ids"
  shows "set ids = {r_id r | r. r \<in> set (sh_rows sh) \<and> row_live (now_epoch e) r \<and>
      filters_eval e (r_value r) (filter_list filters) = Some True} \<and>
    distinct ids \<and> sorted (map (\<lambda>d. r_timestamp (the (shard_map sh d))) ids)"
proof -
  let ?P = "\<lambda>r. row_live (now_epoch e) r \<and> filters_eval e (r_value r) (filter_list filters) = Some True"
  let ?rows = "scan_rows e (sh_rows sh)"
  have set: "set ?rows = set (sh_rows sh)" using assms(2) by (rule mset_eq_setD)
  have "step_rows e (filter_list filters) ?rows = (filter ?P ?rows, True)"
    by (rule step_rows_exact) (use assms(3) set in auto)
  with assms(4) have ids: "ids = map r_id (sort_key r_timestamp (filter ?P ?rows))"
    by (auto simp: edb_shard_ids_def live_rows_def split: option.splits)
  have dist: "distinct (map r_id ?rows)"
    using shard_inv_distinct [OF assms(1)] mset_eq_imp_distinct_iff [of "map r_id ?rows" "map r_id (sh_rows sh)"]
      assms(2) by simp
  have "mset ids = mset (map r_id (filter ?P ?rows))" by (simp add: ids)
  then have d: "distinct ids"
    using distinct_map_filter [OF dist] by (rule mset_eq_imp_distinct_iff [THEN iffD2])
  have look: "shard_map sh (r_id r) = Some r" if "r \<in> set ?rows" for r
    using that set find_row_distinct [OF shard_inv_distinct [OF assms(1)]] by (simp add: shard_map_def)
  have "map (\<lambda>d. r_timestamp (the (shard_map sh d))) ids =
      map r_timestamp (sort_key r_timestamp (filter ?P ?rows))"
    unfolding ids by (simp add: look)
  moreover have "set ids = {r_id r | r. r \<in> set (sh_rows sh) \<and> ?P r}"
    using set by (auto simp: ids)
  ultimately show ?thesis using d by simp
qed

theorem shard_ids_exact_witness:
  "\<exists>sh ids. shard_inv sh \<and> edb_shard_ids (env_at 12) sh None = Some ids \<and> set ids = {''a''} \<and> distinct ids"
proof -
  define sh where "sh = fst (edb_shard_put (env_at 10) empty_shard ''a'' ''1'' 5)"
  have inv: "shard_inv sh"
    unfolding sh_def using shard_inv_run [OF empty_shard_inv, of "env_at 10" "OpPut ''a'' ''1'' 5"] by simp
  have rows: "sh_rows sh = [\<lparr>r_id = ''a'', r_value = Some ''1'', r_ttl = Some 15, r_timestamp = Some 10, r_origin = Some []\<rparr>]"
    by (simp add: sh_def edb_shard_put_def do_put_locked_def insert_or_replace_def empty_shard_def or_empty_def
        Let_def split_beta)
  have fs: "filter_list None = []" by (simp add: filter_list_def filter_count_def)
  obtain ids where ids: "edb_shard_ids (env_at 12) sh None = Some ids"
    by (simp add: edb_shard_ids_def live_rows_def prepare_live_query_def live_query_sql_def
        edb_filters_valid_def filter_count_def fs Let_def SIZE_MAX_def split_beta)
  have m: "mset (scan_rows (env_at 12) (sh_rows sh)) = mset (sh_rows sh)" by simp
  have ev: "filters_eval (env_at 12) v (filter_list None) = Some True" for v by (simp add: fs)
  show ?thesis
    using inv ids shard_ids_exact [OF inv m _ ids] by (auto simp: ev rows row_live_def)
qed

text \<open>
  C30. The shard invariant: in every state an open shard reaches, whatever SQLite calls fail, the
  table has one row per document, the statement cache holds at most seven statements, each
  prepared from the text it is filed under (so \<open>stmt_for\<close> never evicts one), and the identifying
  strings fit their buffers.
\<close>

theorem shard_reachable_inv:
  assumes "shard_reachable sh"
  shows "distinct (map r_id (sh_rows sh)) \<and> length (sh_cache sh) \<le> 7 \<and>
    distinct (map c_sql (sh_cache sh)) \<and> (\<forall>c \<in> set (sh_cache sh). c_stmt c = c_sql c) \<and>
    length (sh_key sh) \<le> 32 \<and> length (sh_partition sh) \<le> 255 \<and> length (sh_keyspace sh) \<le> 127"
  using reachable_inv [OF assms] cache_small by (auto simp: shard_inv_def cache_ok_def)

theorem shard_reachable_inv_witness:
  "\<exists>sh. shard_reachable sh \<and> distinct (map r_id (sh_rows sh)) \<and> length (sh_cache sh) \<le> 7"
proof -
  have r: "shard_reachable empty_shard"
    by (rule opened [of "env_at 0" "[]" "''p''" "''k''" "Some ''pt''" "Some ''ks''"])
      (simp_all add: edb_shard_open_def empty_shard_def snprintf_s_def or_empty_def)
  show ?thesis using r shard_reachable_inv [OF r] by blast
qed

text \<open>
  C36. A document read blocks VACUUM: \<open>edb_shard_get\<close> leaves its statement active when it found a
  live row, and SQLite refuses VACUUM while a statement is active, so \<open>edb_shard_vacuum\<close> right
  after such a read always fails.
\<close>

theorem get_blocks_vacuum:
  assumes "shard_inv sh" and "sqlite_works e" and "shard_map sh d = Some r" and "row_live (now_epoch e) r"
  shows "\<not> snd (edb_shard_vacuum e' (fst (edb_shard_get e sh d)))"
proof -
  let ?sh = "fst (stmt_for e sh SQL_GET)"
  have "\<exists>c \<in> set (sh_cache ?sh). strcmp (c_sql c) SQL_GET = 0"
  proof (cases "\<exists>c \<in> set (sh_cache sh). strcmp (c_sql c) SQL_GET = 0")
    case True
    have "map c_sql (sh_cache ?sh) = map c_sql (sh_cache sh)"
      using True by (simp add: stmt_for_def map_update_first_same)
    with True show ?thesis by (metis list.set_map image_iff)
  next
    case False
    with assms(2) show ?thesis by (auto simp: stmt_for_def Let_def shard_sqls_short)
  qed
  from update_first_hit [OF this, of "\<lambda>c. c\<lparr>c_active := True\<rparr>"] obtain x where
    "x\<lparr>c_active := True\<rparr> \<in> set (sh_cache (set_active SQL_GET True ?sh))"
    by (auto simp: set_active_def)
  then have "\<exists>c \<in> set (sh_cache (set_active SQL_GET True ?sh)). c_active c"
    by (rule bexI [rotated]) simp
  moreover have "fst (edb_shard_get e sh d) = set_active SQL_GET True ?sh"
    using assms(2-4) by (simp add: edb_shard_get_def Let_def split_beta shard_map_def)
  ultimately show ?thesis
    by (auto simp: edb_shard_vacuum_def shard_exec_def)
qed

theorem get_blocks_vacuum_witness:
  "snd (edb_shard_vacuum (env_at 12) (fst (edb_shard_put (env_at 10) empty_shard ''a'' ''1'' 5))) \<and>
   \<not> snd (edb_shard_vacuum (env_at 12)
      (fst (edb_shard_get (env_at 11) (fst (edb_shard_put (env_at 10) empty_shard ''a'' ''1'' 5)) ''a'')))"
proof -
  let ?sh = "fst (edb_shard_put (env_at 10) empty_shard ''a'' ''1'' 5)"
  have inv: "shard_inv ?sh"
    using shard_inv_run [OF empty_shard_inv, of "env_at 10" "OpPut ''a'' ''1'' 5"] by simp
  have "shard_map ?sh ''a'' = Some (rop_val (RPut ''a'' ''1'' 15 10 (Some [])))" by (simp add: put_map)
  from get_blocks_vacuum [OF inv env_at_works this, of 11] show ?thesis
    by (simp add: row_live_def edb_shard_vacuum_def shard_exec_def edb_shard_put_def do_put_locked_def
        stmt_for_def empty_shard_def EDB_STMT_CACHE_SIZE_def)
qed

text \<open>
  A failed COMMIT disables cleanup: \<open>edb_shard_cleanup\<close> does not roll back when its COMMIT
  fails, the transaction stays open, and then no later cleanup of the shard succeeds, whatever
  operations come in between.
\<close>

theorem failed_commit_blocks_cleanup:
  assumes "shard_exec e sh ''BEGIN IMMEDIATE''" and "sqlite_works e" and "\<not> exec_ok e ''COMMIT''"
  shows "\<not> snd (edb_shard_cleanup e' (fold (\<lambda>(e, a). run_shard_op e a) ops (fst (edb_shard_cleanup e sh))))"
proof -
  have "sh_tx (fst (edb_shard_cleanup e sh))"
    using assms by (simp add: edb_shard_cleanup_def cleanup_tx_def Let_def split_beta shard_exec_def)
  from fold_keeps_tx [OF this, of ops] show ?thesis
    by (simp add: edb_shard_cleanup_def shard_exec_def)
qed

theorem failed_commit_blocks_cleanup_witness:
  "\<not> snd (edb_shard_cleanup (env_at 20) (fst (edb_shard_cleanup
      ((env_at 10)\<lparr>exec_ok := (\<lambda>q. q \<noteq> ''COMMIT'')\<rparr>) empty_shard)))"
  using failed_commit_blocks_cleanup [of "(env_at 10)\<lparr>exec_ok := (\<lambda>q. q \<noteq> ''COMMIT'')\<rparr>" empty_shard "env_at 20" "[]"]
  by (simp add: shard_exec_def empty_shard_def sqlite_works_def)

end
