(* ===== verification/Block_Stream.thy ===== *)
theory Block_Stream
  imports Prelude
begin

text \<open>
  The contract shared by the two digests of the engine (\<open>src/src/engine/md5.c\<close> and
  \<open>src/src/engine/sha256.c\<close>): a context collects bytes in a 64-byte buffer and feeds
  each full block to a compression function. The locale states what one call of the update
  routine does to the context, and derives, once for both, that any sequence of updates
  followed by the padding computes the compression function folded over the padded message,
  whatever the buffer held before.
\<close>

section \<open>Folding a compression function over 64-byte blocks\<close>

function absorb_blocks :: "('s \<Rightarrow> byte list \<Rightarrow> 's) \<Rightarrow> 's \<Rightarrow> byte list \<Rightarrow> 's" where
  "absorb_blocks f s bs =
     (if length bs < 64 then s else absorb_blocks f (f s (take 64 bs)) (drop 64 bs))"
  by pat_completeness auto
termination
  by (relation "measure (\<lambda>(f, s, bs). length bs)") auto

function rest_block :: "byte list \<Rightarrow> byte list" where
  "rest_block bs = (if length bs < 64 then bs else rest_block (drop 64 bs))"
  by pat_completeness auto
termination
  by (relation "measure length") auto

declare absorb_blocks.simps [simp del] rest_block.simps [simp del]

lemma absorb_blocks_short [simp]: "length bs < 64 \<Longrightarrow> absorb_blocks f s bs = s"
  by (simp add: absorb_blocks.simps [of f s bs])

lemma rest_block_short [simp]: "length bs < 64 \<Longrightarrow> rest_block bs = bs"
  by (simp add: rest_block.simps [of bs])

lemma absorb_blocks_full:
  "length b = 64 \<Longrightarrow> absorb_blocks f s (b @ bs) = absorb_blocks f (f s b) bs"
  by (simp add: absorb_blocks.simps [of f s "b @ bs"])

lemma rest_block_full: "length b = 64 \<Longrightarrow> rest_block (b @ bs) = rest_block bs"
  by (simp add: rest_block.simps [of "b @ bs"])

lemma length_rest_block: "length (rest_block bs) = length bs mod 64"
proof (induction bs rule: rest_block.induct)
  case (1 bs)
  show ?case
  proof (cases "length bs < 64")
    case False
    with 1 show ?thesis
      by (simp add: rest_block.simps [of bs] le_mod_geq)
  qed simp
qed

lemma absorb_blocks_append:
  "absorb_blocks f s (xs @ ys) = absorb_blocks f (absorb_blocks f s xs) (rest_block xs @ ys)"
proof (induction f s xs rule: absorb_blocks.induct)
  case (1 f s xs)
  show ?case
  proof (cases "length xs < 64")
    case False
    then have split: "xs = take 64 xs @ drop 64 xs" and len: "length (take 64 xs) = 64"
      by simp_all
    have "absorb_blocks f s (xs @ ys)
        = absorb_blocks f (f s (take 64 xs)) (drop 64 xs @ ys)"
      using absorb_blocks_full [OF len, of f s "drop 64 xs @ ys"]
      by (simp only: append_assoc [symmetric] append_take_drop_id)
    also have "\<dots> = absorb_blocks f (absorb_blocks f (f s (take 64 xs)) (drop 64 xs))
                      (rest_block (drop 64 xs) @ ys)"
      using False by (rule 1)
    finally show ?thesis
      using False by (simp add: absorb_blocks.simps [of f s xs] rest_block.simps [of xs])
  qed simp
qed

lemma rest_block_append: "rest_block (xs @ ys) = rest_block (rest_block xs @ ys)"
proof (induction xs rule: rest_block.induct)
  case (1 xs)
  show ?case
  proof (cases "length xs < 64")
    case False
    then have len: "length (take 64 xs) = 64" by simp
    from rest_block_full [OF len, of "drop 64 xs @ ys"]
    have "rest_block (xs @ ys) = rest_block (drop 64 xs @ ys)"
      by (simp only: append_assoc [symmetric] append_take_drop_id)
    also have "\<dots> = rest_block (rest_block (drop 64 xs) @ ys)"
      using False by (rule 1)
    finally show ?thesis
      using False by (simp add: rest_block.simps [of xs])
  qed simp
qed

section \<open>Padding\<close>

text \<open>
  The message as the final routines extend it: a byte \<open>0x80\<close>, the least number of zero
  bytes that leaves room for the length in the last block, and the length bytes.
\<close>

definition pad_zeros :: "nat \<Rightarrow> nat" where
  "pad_zeros n = (if n mod 64 \<le> 55 then 55 - n mod 64 else 119 - n mod 64)"

definition padded :: "(u64 \<Rightarrow> byte list) \<Rightarrow> byte list \<Rightarrow> byte list" where
  "padded enc msg =
     msg @ 0x80 # replicate (pad_zeros (length msg)) 0 @ enc (of_nat (length msg) * 8)"

lemma mod_Suc_64: "n mod 64 = r \<Longrightarrow> Suc n mod 64 = (if r = 63 then 0 else Suc r)"
  by (auto simp: mod_Suc)

lemma pad_zeros_mod: "(n + 1 + pad_zeros n) mod 64 = 56"
proof -
  define q r where "q = n div 64" and "r = n mod 64"
  then have n: "n = 64 * q + r" and r: "r < 64" by simp_all
  have "n + 1 + pad_zeros n = 56 + 64 * q \<or> n + 1 + pad_zeros n = 56 + 64 * (q + 1)"
    using r unfolding pad_zeros_def r_def [symmetric] n by auto
  then show ?thesis by (metis mod_less mod_mult_self2 numeral_less_iff semiring_norm(78,80,77,76,81,75))
qed

lemma padded_multiple_of_64:
  assumes enc: "\<And>w. length (enc w) = 8"
  shows "length (padded enc msg) mod 64 = 0"
proof -
  have "length (padded enc msg) = (length msg + 1 + pad_zeros (length msg)) + 8"
    by (simp add: padded_def enc)
  also have "\<dots> mod 64 = ((length msg + 1 + pad_zeros (length msg)) mod 64 + 8) mod 64"
    by (simp only: mod_add_left_eq)
  finally show ?thesis by (simp only: pad_zeros_mod) simp
qed

section \<open>The contract of a streaming digest context\<close>

locale block_stream =
  fixes st :: "'c \<Rightarrow> 's"
    and buf :: "'c \<Rightarrow> byte list"
    and blen :: "'c \<Rightarrow> nat"
    and cnt :: "'c \<Rightarrow> u64"
    and compress :: "'s \<Rightarrow> byte list \<Rightarrow> 's"
    and upd :: "'c \<Rightarrow> byte list \<Rightarrow> 'c"
    and zero_pad :: "'c \<Rightarrow> 'c"
  assumes upd_wf: "blen c < 64 \<Longrightarrow> length (buf c) = 64 \<Longrightarrow>
      blen (upd c d) < 64 \<and> length (buf (upd c d)) = 64"
    and upd_st: "blen c < 64 \<Longrightarrow> length (buf c) = 64 \<Longrightarrow>
      st (upd c d) = absorb_blocks compress (st c) (take (blen c) (buf c) @ d)"
    and upd_pending: "blen c < 64 \<Longrightarrow> length (buf c) = 64 \<Longrightarrow>
      take (blen (upd c d)) (buf (upd c d)) = rest_block (take (blen c) (buf c) @ d)"
    and upd_cnt: "blen c < 64 \<Longrightarrow> length (buf c) = 64 \<Longrightarrow>
      cnt (upd c d) = cnt c + of_nat (length d) * 8"
    and zero_pad_step: "blen c < 64 \<Longrightarrow> length (buf c) = 64 \<Longrightarrow>
      zero_pad c = (if blen c = 56 then c else zero_pad (upd c [0]))"
begin

definition ready :: "'c \<Rightarrow> bool" where
  "ready c \<longleftrightarrow> blen c < 64 \<and> length (buf c) = 64"

definition pending :: "'c \<Rightarrow> byte list" where
  "pending c = take (blen c) (buf c)"

lemma ready_upd: "ready c \<Longrightarrow> ready (upd c d)"
  by (simp add: ready_def upd_wf)

lemma length_pending: "ready c \<Longrightarrow> length (pending c) = blen c"
  by (simp add: ready_def pending_def)

lemma upd_laws:
  assumes "ready c"
  shows "st (upd c d) = absorb_blocks compress (st c) (pending c @ d)"
    and "pending (upd c d) = rest_block (pending c @ d)"
  using assms by (simp_all add: ready_def pending_def upd_st upd_pending)

text \<open>Splitting the data over several updates makes no difference.\<close>

lemma upd_twice:
  assumes "ready c"
  shows "st (upd (upd c d) e) = st (upd c (d @ e))"
    and "pending (upd (upd c d) e) = pending (upd c (d @ e))"
  using assms absorb_blocks_append [of compress "st c" "pending c @ d" e]
    rest_block_append [of "pending c @ d" e]
  by (simp_all add: ready_upd upd_laws)

text \<open>The zero-padding loop ends, after as many zero bytes as block alignment needs.\<close>

lemma zero_pad_spec:
  assumes "ready c" and "(if blen c \<le> 56 then 56 - blen c else 120 - blen c) = k"
  shows "ready (zero_pad c) \<and> blen (zero_pad c) = 56 \<and>
     st (zero_pad c) = st (upd c (replicate k 0)) \<and>
     pending (zero_pad c) = pending (upd c (replicate k 0))"
  using assms
proof (induction k arbitrary: c)
  case 0
  then have b: "blen c = 56" by (auto simp: ready_def split: if_splits)
  with 0(1) have z: "zero_pad c = c"
    by (simp add: ready_def zero_pad_step)
  have "absorb_blocks compress (st c) (pending c) = st c" "rest_block (pending c) = pending c"
    using b 0(1) by (simp_all add: length_pending)
  with z b 0(1) show ?case by (simp add: upd_laws)
next
  case (Suc k)
  then have b: "blen c \<noteq> 56" by auto
  with Suc.prems(1) have z: "zero_pad c = zero_pad (upd c [0])"
    by (simp add: ready_def zero_pad_step [of c])
  have r: "ready (upd c [0])" by (rule ready_upd) (rule Suc.prems(1))
  have bl: "blen (upd c [0]) = (blen c + 1) mod 64"
    using length_pending [OF r] Suc.prems(1)
    by (simp add: upd_laws length_rest_block length_pending)
  have "blen c < 64" using Suc.prems(1) by (simp add: ready_def)
  with Suc.prems(2) b
  have "(if blen (upd c [0]) \<le> 56 then 56 - blen (upd c [0]) else 120 - blen (upd c [0])) = k"
    unfolding bl by (cases "blen c = 63") (auto split: if_splits)
  note ih = Suc.IH [OF r this]
  show ?case
    using ih unfolding z by (simp add: upd_twice [OF Suc.prems(1)])
qed

text \<open>
  Hashing: from a fresh context (empty buffer, zero count), absorb the message, the
  terminator, the zeros and the length bytes; the resulting state is the compression function
  folded over the padded message. Nothing depends on the buffer's previous contents.
\<close>

lemma hash_spec:
  assumes "blen c = 0" and "length (buf c) = 64" and enc: "\<And>w. length (enc w) = 8"
    and bits: "bits = of_nat (length msg) * 8"
  shows "st (upd (zero_pad (upd (upd c msg) [0x80])) (enc bits))
       = absorb_blocks compress (st c) (padded enc msg)"
proof -
  let ?c2 = "upd (upd c msg) [0x80]"
  have r: "ready c" and p: "pending c = []" using assms by (simp_all add: ready_def pending_def)
  have r2: "ready ?c2" using r by (simp add: ready_upd)
  have p2: "pending ?c2 = rest_block (msg @ [0x80])"
    using r p by (simp add: upd_twice upd_laws)
  have "blen ?c2 = Suc (length msg) mod 64"
    using length_pending [OF r2] by (simp add: p2 length_rest_block)
  then have "blen ?c2 = (if length msg mod 64 = 63 then 0 else Suc (length msg mod 64))"
    by (simp only: mod_Suc_64 [OF refl])
  then have k: "(if blen ?c2 \<le> 56 then 56 - blen ?c2 else 120 - blen ?c2) = pad_zeros (length msg)"
    unfolding pad_zeros_def by (auto split: if_splits)
  note z = zero_pad_spec [OF r2 k]
  let ?m = "msg @ 0x80 # replicate (pad_zeros (length msg)) 0"
  have "st (upd ?c2 (replicate (pad_zeros (length msg)) 0)) = absorb_blocks compress (st c) ?m"
    and "pending (upd ?c2 (replicate (pad_zeros (length msg)) 0)) = rest_block ?m"
    using r p by (simp_all add: ready_upd upd_laws absorb_blocks_append [symmetric]
        rest_block_append [symmetric])
  with z have zs: "ready (zero_pad ?c2)" "st (zero_pad ?c2) = absorb_blocks compress (st c) ?m"
    "pending (zero_pad ?c2) = rest_block ?m"
    by simp_all
  have "st (upd (zero_pad ?c2) (enc bits))
      = absorb_blocks compress (absorb_blocks compress (st c) ?m) (rest_block ?m @ enc bits)"
    by (simp only: upd_laws(1) [OF zs(1)] zs(2,3))
  also have "\<dots> = absorb_blocks compress (st c) (?m @ enc bits)"
    by (rule absorb_blocks_append [symmetric])
  finally show ?thesis by (simp add: padded_def bits)
qed

end

section \<open>The contract of one update loop\<close>

text \<open>
  What the two C update loops do in one iteration: copy as much as fits behind the pending
  bytes and, when the buffer is full, compress it and start over. The contract of the whole
  update follows by induction on the data.
\<close>

locale block_loop =
  fixes st :: "'c \<Rightarrow> 's"
    and buf :: "'c \<Rightarrow> byte list"
    and blen :: "'c \<Rightarrow> nat"
    and cnt :: "'c \<Rightarrow> u64"
    and compress :: "'s \<Rightarrow> byte list \<Rightarrow> 's"
    and loop :: "'c \<Rightarrow> byte list \<Rightarrow> 'c"
    and upd :: "'c \<Rightarrow> byte list \<Rightarrow> 'c"
    and zero_pad :: "'c \<Rightarrow> 'c"
  assumes loop_part: "blen c < 64 \<Longrightarrow> length (buf c) = 64 \<Longrightarrow> length d < 64 - blen c \<Longrightarrow>
      st (loop c d) = st c \<and> buf (loop c d) = memcpy (buf c) (blen c) d \<and>
      blen (loop c d) = blen c + length d \<and> cnt (loop c d) = cnt c"
    and loop_full: "blen c < 64 \<Longrightarrow> length (buf c) = 64 \<Longrightarrow> 64 - blen c \<le> length d \<Longrightarrow>
      \<exists>c'. loop c d = loop c' (drop (64 - blen c) d) \<and>
        st c' = compress (st c) (take (blen c) (buf c) @ take (64 - blen c) d) \<and>
        blen c' = 0 \<and> length (buf c') = 64 \<and> cnt c' = cnt c"
    and upd_loop: "\<exists>c'. upd c d = loop c' d \<and> st c' = st c \<and> buf c' = buf c \<and>
      blen c' = blen c \<and> cnt c' = cnt c + of_nat (length d) * 8"
    and pad_step: "blen c < 64 \<Longrightarrow> length (buf c) = 64 \<Longrightarrow>
      zero_pad c = (if blen c = 56 then c else zero_pad (upd c [0]))"
begin

lemma loop_spec:
  assumes "blen c < 64" and "length (buf c) = 64"
  shows "blen (loop c d) < 64 \<and> length (buf (loop c d)) = 64 \<and>
    st (loop c d) = absorb_blocks compress (st c) (take (blen c) (buf c) @ d) \<and>
    take (blen (loop c d)) (buf (loop c d)) = rest_block (take (blen c) (buf c) @ d) \<and>
    cnt (loop c d) = cnt c"
  using assms
proof (induction d arbitrary: c rule: length_induct)
  case (1 d)
  show ?case
  proof (cases "length d < 64 - blen c")
    case True
    with 1(2,3) loop_part [OF 1(2,3) True] show ?thesis
      by (simp add: memcpy_def)
  next
    case False
    then have le: "64 - blen c \<le> length d" by simp
    from loop_full [OF 1(2,3) le] obtain c' where
      c': "loop c d = loop c' (drop (64 - blen c) d)"
        "st c' = compress (st c) (take (blen c) (buf c) @ take (64 - blen c) d)"
        "blen c' = 0" "length (buf c') = 64" "cnt c' = cnt c"
      by blast
    have "length (drop (64 - blen c) d) < length d" using 1(2) le by simp
    then have ih: "blen (loop c' (drop (64 - blen c) d)) < 64 \<and>
        length (buf (loop c' (drop (64 - blen c) d))) = 64 \<and>
        st (loop c' (drop (64 - blen c) d)) =
          absorb_blocks compress (st c') (take (blen c') (buf c') @ drop (64 - blen c) d) \<and>
        take (blen (loop c' (drop (64 - blen c) d))) (buf (loop c' (drop (64 - blen c) d))) =
          rest_block (take (blen c') (buf c') @ drop (64 - blen c) d) \<and>
        cnt (loop c' (drop (64 - blen c) d)) = cnt c'"
      using 1(1) c'(3,4) by simp
    let ?b = "take (blen c) (buf c) @ take (64 - blen c) d"
    have b: "length ?b = 64" using 1(2,3) le by simp
    have split: "take (blen c) (buf c) @ d = ?b @ drop (64 - blen c) d" by simp
    show ?thesis
      using ih unfolding split absorb_blocks_full [OF b] rest_block_full [OF b] c'(1)
      by (simp add: c')
  qed
qed

lemma upd_spec:
  assumes "blen c < 64" and "length (buf c) = 64"
  shows "blen (upd c d) < 64 \<and> length (buf (upd c d)) = 64 \<and>
    st (upd c d) = absorb_blocks compress (st c) (take (blen c) (buf c) @ d) \<and>
    take (blen (upd c d)) (buf (upd c d)) = rest_block (take (blen c) (buf c) @ d) \<and>
    cnt (upd c d) = cnt c + of_nat (length d) * 8"
proof -
  obtain c' where c': "upd c d = loop c' d" "st c' = st c" "buf c' = buf c"
      "blen c' = blen c" "cnt c' = cnt c + of_nat (length d) * 8"
    using upd_loop [of c d] by blast
  show ?thesis using loop_spec [of c' d] assms by (simp add: c')
qed

end

sublocale block_loop \<subseteq> stream: block_stream st buf blen cnt compress upd zero_pad
  by unfold_locales (use upd_spec pad_step in blast)+

end
