(* ===== verification/Md5.thy ===== *)
theory Md5
  imports Block_Stream
begin

unbundle bit_operations_syntax

text \<open>
  The MD5 digest of \<open>src/src/engine/md5.c\<close>, which names shards and fingerprints
  values. The context's buffer starts out as whatever the stack held: \<open>md5_init\<close> does
  not write it. The streaming computation is shown equal to folding the block function over
  the padded message, so the digest depends on the data only.
\<close>

section \<open>Definitions\<close>

record md5_ctx =
  md5_state :: "u32 list"
  md5_bitlen :: u64
  md5_buffer :: "byte list"
  md5_buflen :: nat

definition md5_K :: "u32 list" where
  "md5_K = [
    0xd76aa478, 0xe8c7b756, 0x242070db, 0xc1bdceee,
    0xf57c0faf, 0x4787c62a, 0xa8304613, 0xfd469501,
    0x698098d8, 0x8b44f7af, 0xffff5bb1, 0x895cd7be,
    0x6b901122, 0xfd987193, 0xa679438e, 0x49b40821,
    0xf61e2562, 0xc040b340, 0x265e5a51, 0xe9b6c7aa,
    0xd62f105d, 0x02441453, 0xd8a1e681, 0xe7d3fbc8,
    0x21e1cde6, 0xc33707d6, 0xf4d50d87, 0x455a14ed,
    0xa9e3e905, 0xfcefa3f8, 0x676f02d9, 0x8d2a4c8a,
    0xfffa3942, 0x8771f681, 0x6d9d6122, 0xfde5380c,
    0xa4beea44, 0x4bdecfa9, 0xf6bb4b60, 0xbebfbc70,
    0x289b7ec6, 0xeaa127fa, 0xd4ef3085, 0x04881d05,
    0xd9d4d039, 0xe6db99e5, 0x1fa27cf8, 0xc4ac5665,
    0xf4292244, 0x432aff97, 0xab9423a7, 0xfc93a039,
    0x655b59c3, 0x8f0ccc92, 0xffeff47d, 0x85845dd1,
    0x6fa87e4f, 0xfe2ce6e0, 0xa3014314, 0x4e0811a1,
    0xf7537e82, 0xbd3af235, 0x2ad7d2bb, 0xeb86d391]"

definition md5_S :: "nat list" where
  "md5_S = [
    7, 12, 17, 22, 7, 12, 17, 22, 7, 12, 17, 22, 7, 12, 17, 22,
    5,  9, 14, 20, 5,  9, 14, 20, 5,  9, 14, 20, 5,  9, 14, 20,
    4, 11, 16, 23, 4, 11, 16, 23, 4, 11, 16, 23, 4, 11, 16, 23,
    6, 10, 15, 21, 6, 10, 15, 21, 6, 10, 15, 21, 6, 10, 15, 21]"

definition md5_ROTL :: "u32 \<Rightarrow> nat \<Rightarrow> u32" where
  "md5_ROTL x c = push_bit c x OR drop_bit (32 - c) x"

definition md5_word :: "byte list \<Rightarrow> nat \<Rightarrow> u32" where
  "md5_word p i = ucast (p ! (i * 4)) OR push_bit 8 (ucast (p ! (i * 4 + 1)))
     OR push_bit 16 (ucast (p ! (i * 4 + 2))) OR push_bit 24 (ucast (p ! (i * 4 + 3)))"

fun md5_mix :: "u32 list \<Rightarrow> nat \<Rightarrow> nat \<Rightarrow> u32 \<Rightarrow> u32 \<times> u32 \<times> u32 \<times> u32
    \<Rightarrow> u32 \<times> u32 \<times> u32 \<times> u32" where
  "md5_mix m i g f (a, b, c, d) =
     (d, b + md5_ROTL (a + f + md5_K ! i + m ! g) (md5_S ! i), b, c)"

fun md5_round :: "u32 list \<Rightarrow> nat \<Rightarrow> u32 \<times> u32 \<times> u32 \<times> u32 \<Rightarrow> u32 \<times> u32 \<times> u32 \<times> u32" where
  "md5_round m i (a, b, c, d) =
     (if i < 16 then md5_mix m i i ((b AND c) OR (NOT b AND d)) (a, b, c, d)
      else if i < 32 then md5_mix m i ((5 * i + 1) mod 16) ((d AND b) OR (NOT d AND c)) (a, b, c, d)
      else if i < 48 then md5_mix m i ((3 * i + 5) mod 16) (b XOR c XOR d) (a, b, c, d)
      else md5_mix m i ((7 * i) mod 16) (c XOR (b OR NOT d)) (a, b, c, d))"

fun md5_add :: "u32 list \<Rightarrow> u32 \<times> u32 \<times> u32 \<times> u32 \<Rightarrow> u32 list" where
  "md5_add s (a, b, c, d) = [s ! 0 + a, s ! 1 + b, s ! 2 + c, s ! 3 + d]"

definition md5_block :: "u32 list \<Rightarrow> byte list \<Rightarrow> u32 list" where
  "md5_block s p =
     md5_add s (fold (md5_round (map (md5_word p) [0..<16])) [0..<64] (s ! 0, s ! 1, s ! 2, s ! 3))"

definition md5_init :: "md5_ctx \<Rightarrow> md5_ctx" where
  "md5_init ctx = ctx\<lparr>md5_state := [0x67452301, 0xefcdab89, 0x98badcfe, 0x10325476],
     md5_bitlen := 0, md5_buflen := 0\<rparr>"

text \<open>
  One pass of the copy loop of \<open>md5_update\<close>. The loop only runs with room in the buffer
  (\<open>buflen < 64\<close>, an invariant shown below); without room the C loop would not move.
\<close>

definition md5_flush :: "md5_ctx \<Rightarrow> md5_ctx" where
  "md5_flush ctx =
     (if md5_buflen ctx = 64
      then ctx\<lparr>md5_state := md5_block (md5_state ctx) (md5_buffer ctx), md5_buflen := 0\<rparr>
      else ctx)"

definition md5_take_in :: "md5_ctx \<Rightarrow> byte list \<Rightarrow> md5_ctx" where
  "md5_take_in ctx d =
     md5_flush (ctx\<lparr>md5_buffer := memcpy (md5_buffer ctx) (md5_buflen ctx) d,
                    md5_buflen := md5_buflen ctx + length d\<rparr>)"

function md5_update_loop :: "md5_ctx \<Rightarrow> byte list \<Rightarrow> md5_ctx" where
  "md5_update_loop ctx data =
     (if data = [] \<or> 64 \<le> md5_buflen ctx then ctx
      else md5_update_loop (md5_take_in ctx (take (min (64 - md5_buflen ctx) (length data)) data))
             (drop (min (64 - md5_buflen ctx) (length data)) data))"
  by pat_completeness auto
termination
  by (relation "measure (\<lambda>(ctx, data). length data)") auto

definition md5_update :: "md5_ctx \<Rightarrow> byte list \<Rightarrow> md5_ctx" where
  "md5_update ctx data =
     md5_update_loop (ctx\<lparr>md5_bitlen := md5_bitlen ctx + of_nat (length data) * 8\<rparr>) data"

declare md5_update_loop.simps [simp del]

lemma md5_update_loop_part:
  assumes "md5_buflen c < 64" "length d < 64 - md5_buflen c"
  shows "md5_update_loop c d = (if d = [] then c else
    c\<lparr>md5_buffer := memcpy (md5_buffer c) (md5_buflen c) d, md5_buflen := md5_buflen c + length d\<rparr>)"
  using assms
  by (simp add: md5_update_loop.simps [of c d] md5_update_loop.simps [of _ "[]"] md5_take_in_def md5_flush_def Let_def)

lemma md5_update_zero_buflen:
  "md5_buflen c < 64 \<Longrightarrow> md5_buflen (md5_update c [0]) = (if md5_buflen c = 63 then 0 else Suc (md5_buflen c))"
  by (simp add: md5_update_def md5_update_loop.simps [of _ "[0]"] md5_update_loop.simps [of _ "[]"]
      md5_take_in_def md5_flush_def Let_def)

text \<open>The zero-byte loop of \<open>md5_final\<close>.\<close>

function md5_pad :: "md5_ctx \<Rightarrow> md5_ctx" where
  "md5_pad ctx =
     (if md5_buflen ctx = 56 \<or> 64 \<le> md5_buflen ctx then ctx else md5_pad (md5_update ctx [0]))"
  by pat_completeness auto
termination
  by (relation "measure (\<lambda>ctx. if md5_buflen ctx \<le> 56 then 56 - md5_buflen ctx else 120 - md5_buflen ctx)")
    (auto simp: md5_update_zero_buflen)

declare md5_pad.simps [simp del]

definition md5_lenbuf :: "u64 \<Rightarrow> byte list" where
  "md5_lenbuf bitlen = map (\<lambda>i. ucast (drop_bit (8 * i) bitlen)) [0..<8]"

definition md5_output :: "u32 list \<Rightarrow> byte list" where
  "md5_output s = concat (map (\<lambda>i. [ucast (s ! i), ucast (drop_bit 8 (s ! i)),
     ucast (drop_bit 16 (s ! i)), ucast (drop_bit 24 (s ! i))]) [0..<4])"

definition md5_final :: "md5_ctx \<Rightarrow> byte list" where
  "md5_final ctx =
     md5_output (md5_state
       (md5_update (md5_pad (md5_update ctx [0x80])) (md5_lenbuf (md5_bitlen ctx))))"

text \<open>\<open>edb_md5_hex\<close> with the stack contents of its uninitialised context as an argument.\<close>

definition edb_md5_hex_on :: "md5_ctx \<Rightarrow> byte list \<Rightarrow> string" where
  "edb_md5_hex_on stack data = hex_of_bytes (md5_final (md5_update (md5_init stack) data))"

definition md5_stack0 :: md5_ctx where
  "md5_stack0 = \<lparr>md5_state = [0, 0, 0, 0], md5_bitlen = 0, md5_buffer = replicate 64 0, md5_buflen = 0\<rparr>"

definition edb_md5_hex :: "string \<Rightarrow> string" where
  "edb_md5_hex s = edb_md5_hex_on md5_stack0 (bytes_of_string s)"

text \<open>The reference: the block function folded over the padded message.\<close>

definition md5_reference :: "byte list \<Rightarrow> string" where
  "md5_reference data = hex_of_bytes (md5_output
     (absorb_blocks md5_block [0x67452301, 0xefcdab89, 0x98badcfe, 0x10325476] (padded md5_lenbuf data)))"

section \<open>Correctness of the streaming computation\<close>

interpretation md5: block_loop md5_state md5_buffer md5_buflen md5_bitlen md5_block
  md5_update_loop md5_update md5_pad
proof unfold_locales
  fix c :: md5_ctx and d :: "byte list"
  assume b: "md5_buflen c < 64" "length (md5_buffer c) = 64"
  show "md5_pad c = (if md5_buflen c = 56 then c else md5_pad (md5_update c [0]))"
    using b by (simp add: md5_pad.simps [of c])
  {
    assume "length d < 64 - md5_buflen c"
    with b show "md5_state (md5_update_loop c d) = md5_state c \<and>
        md5_buffer (md5_update_loop c d) = memcpy (md5_buffer c) (md5_buflen c) d \<and>
        md5_buflen (md5_update_loop c d) = md5_buflen c + length d \<and>
        md5_bitlen (md5_update_loop c d) = md5_bitlen c"
      by (simp add: md5_update_loop_part memcpy_def)
  }
  assume le: "64 - md5_buflen c \<le> length d"
  show "\<exists>c'. md5_update_loop c d = md5_update_loop c' (drop (64 - md5_buflen c) d) \<and>
        md5_state c' = md5_block (md5_state c)
          (take (md5_buflen c) (md5_buffer c) @ take (64 - md5_buflen c) d) \<and>
        md5_buflen c' = 0 \<and> length (md5_buffer c') = 64 \<and> md5_bitlen c' = md5_bitlen c"
    by (rule exI [of _ "md5_take_in c (take (64 - md5_buflen c) d)"])
      (use b le in \<open>simp add: md5_update_loop.simps [of c d] md5_take_in_def md5_flush_def min_def memcpy_def Let_def,
        auto\<close>)
next
  fix c :: md5_ctx and d :: "byte list"
  show "\<exists>c'. md5_update c d = md5_update_loop c' d \<and> md5_state c' = md5_state c \<and>
        md5_buffer c' = md5_buffer c \<and> md5_buflen c' = md5_buflen c \<and>
        md5_bitlen c' = md5_bitlen c + of_nat (length d) * 8"
    by (rule exI [of _ "c\<lparr>md5_bitlen := md5_bitlen c + of_nat (length d) * 8\<rparr>"])
      (simp add: md5_update_def)
qed

lemma length_md5_lenbuf [simp]: "length (md5_lenbuf w) = 8"
  by (simp add: md5_lenbuf_def)

lemma length_md5_output [simp]: "length (md5_output s) = 16"
  by (simp add: md5_output_def upt_rec)

lemma md5_init_sel [simp]:
  "md5_state (md5_init c) = [0x67452301, 0xefcdab89, 0x98badcfe, 0x10325476]"
  "md5_bitlen (md5_init c) = 0" "md5_buffer (md5_init c) = md5_buffer c" "md5_buflen (md5_init c) = 0"
  by (simp_all add: md5_init_def)

lemma md5_hex_on_reference:
  assumes "length (md5_buffer stack) = 64"
  shows "edb_md5_hex_on stack data = md5_reference data"
proof -
  let ?c = "md5_init stack"
  have bits: "md5_bitlen (md5_update ?c data) = of_nat (length data) * 8"
    using md5.upd_spec [of ?c data] assms by simp
  have "md5_state (md5_update (md5_pad (md5_update (md5_update ?c data) [0x80]))
          (md5_lenbuf (of_nat (length data) * 8)))
      = absorb_blocks md5_block (md5_state ?c) (padded md5_lenbuf data)"
    using assms by (intro md5.stream.hash_spec) simp_all
  then show ?thesis
    by (simp add: edb_md5_hex_on_def md5_final_def md5_reference_def Let_def bits)
qed

lemma md5_stack0_buffer [simp]: "length (md5_buffer md5_stack0) = 64"
  by (simp add: md5_stack0_def)

lemma length_edb_md5_hex [simp]: "length (edb_md5_hex s) = 32"
  by (simp add: edb_md5_hex_def md5_hex_on_reference md5_reference_def)

lemma edb_md5_hex_chars: "c \<in> set (edb_md5_hex s) \<Longrightarrow> is_hex_char c"
  unfolding edb_md5_hex_def edb_md5_hex_on_def by (rule hex_of_bytes_hex)

section \<open>Properties\<close>

text \<open>
  C34. MD5 streams correctly: whatever the uninitialised context on the stack holds, and however
  the 64-byte buffer fills up, \<open>edb_md5_hex\<close> computes the block-wise definition of MD5 (the
  padded message absorbed block by block, the state printed in hexadecimal), 32 digits long.
\<close>

theorem md5_matches_reference:
  assumes "length (md5_buffer stack) = 64"
  shows "edb_md5_hex_on stack data = md5_reference data \<and> length (edb_md5_hex_on stack data) = 32"
  using md5_hex_on_reference [OF assms] by (simp add: md5_reference_def)

theorem md5_matches_reference_witness:
  "length (md5_buffer md5_stack0) = 64 \<and>
   edb_md5_hex_on md5_stack0 [] = md5_reference [] \<and> length (edb_md5_hex_on md5_stack0 []) = 32"
  using md5_stack0_buffer md5_matches_reference [OF md5_stack0_buffer, of "[]"] by blast

end
