(* ===== verification/Manager.thy ===== *)
theory Manager
  imports Shard_Props Md5
begin

text \<open>
  The shard manager (manager.c): a hash table of open shard handles over a directory of SQLite
  files. A handle is an object of a heap with a reference count and a retired flag; the file a
  handle has open is an inode, so that a file can be removed or replaced underneath it. The
  functions below are the critical sections of the source under the manager lock
  (\<open>acquire_cached\<close>, \<open>insert_shard\<close>, \<open>shard_release\<close>, \<open>gc_retire\<close>, \<open>ref_shards\<close>) and the operations
  composed of them. Allocation failures, and the wake-up timing of the cleanup thread, are not
  modelled.
\<close>

section \<open>Names\<close>

definition EDB_SHARD_BUCKETS :: nat where
  "EDB_SHARD_BUCKETS = 512"

text \<open>The value of a plain \<open>char\<close>, which is signed.\<close>

definition c_char :: "char \<Rightarrow> int" where
  "c_char c = sint (of_char c :: byte)"

definition hex_fold :: "char \<Rightarrow> u32" where
  "hex_fold c = (if c_char c \<le> 57 then word_of_int (c_char c - 48) else word_of_int (c_char c - 97 + 10))"

definition bucket_for :: "string \<Rightarrow> nat" where
  "bucket_for key = unat (((push_bit 4 (hex_fold (key ! 0))) OR hex_fold (key ! 1)) AND 511)"

definition shard_key :: "string \<Rightarrow> string \<Rightarrow> string" where
  "shard_key part keyspace =
     (let framed = snprintf_s 66 (edb_md5_hex part @ '':'' @ edb_md5_hex keyspace)
      in edb_md5_hex framed)"

definition shard_file :: "string \<Rightarrow> string \<Rightarrow> string" where
  "shard_file dir key = dir @ ''/'' @ key @ ''.sqlite''"

section \<open>State\<close>

record filesystem =
  fs_files :: "string \<rightharpoonup> nat"
  fs_disk :: "nat \<Rightarrow> row list"
  fs_next :: nat

record shard_obj =
  obj_shard :: edb_shard
  obj_inode :: nat
  obj_refs :: nat
  obj_retired :: bool

record edb_engine =
  en_path :: string
  en_buckets :: "nat list list"
  en_heap :: "nat \<rightharpoonup> shard_obj"
  en_next :: nat
  en_fs :: filesystem

definition table :: "edb_engine \<Rightarrow> nat list" where
  "table en = concat (en_buckets en)"

definition obj_key :: "shard_obj \<Rightarrow> string" where
  "obj_key ob = sh_key (obj_shard ob)"

definition heap_key :: "edb_engine \<Rightarrow> nat \<Rightarrow> string" where
  "heap_key en a = (case en_heap en a of None \<Rightarrow> [] | Some ob \<Rightarrow> obj_key ob)"

definition upd_obj :: "nat \<Rightarrow> (shard_obj \<Rightarrow> shard_obj) \<Rightarrow> edb_engine \<Rightarrow> edb_engine" where
  "upd_obj a f en = en\<lparr>en_heap := (en_heap en)(a := map_option f (en_heap en a))\<rparr>"

section \<open>Critical sections\<close>

definition find_locked :: "edb_engine \<Rightarrow> string \<Rightarrow> nat option" where
  "find_locked en key =
     first_match (\<lambda>a. strcmp (heap_key en a) key = 0) (en_buckets en ! bucket_for key)"

definition acquire_cached :: "edb_engine \<Rightarrow> string \<Rightarrow> edb_engine \<times> nat option" where
  "acquire_cached en key =
     (case find_locked en key of
        None \<Rightarrow> (en, None)
      | Some a \<Rightarrow> (upd_obj a (\<lambda>ob. ob\<lparr>obj_refs := obj_refs ob + 1\<rparr>) en, Some a))"

text \<open>\<open>insert_shard\<close>: a handle another thread inserted first is used instead, and ours is closed.\<close>

definition insert_shard :: "edb_engine \<Rightarrow> edb_shard \<Rightarrow> nat \<Rightarrow> bool \<Rightarrow> edb_engine \<times> nat" where
  "insert_shard en sh inode acquire =
     (case find_locked en (sh_key sh) of
        Some a \<Rightarrow> (if acquire then upd_obj a (\<lambda>ob. ob\<lparr>obj_refs := obj_refs ob + 1\<rparr>) en else en, a)
      | None \<Rightarrow>
          let a = en_next en; b = bucket_for (sh_key sh)
          in (en\<lparr>en_heap := (en_heap en)(a \<mapsto> \<lparr>obj_shard = sh, obj_inode = inode,
                    obj_refs = (if acquire then 1 else 0), obj_retired = False\<rparr>),
                 en_next := Suc a,
                 en_buckets := (en_buckets en)[b := a # en_buckets en ! b]\<rparr>, a))"

definition shard_release :: "edb_engine \<Rightarrow> nat \<Rightarrow> edb_engine" where
  "shard_release en a =
     (case en_heap en a of
        None \<Rightarrow> en
      | Some ob \<Rightarrow>
          let ob = (if 0 < obj_refs ob then ob\<lparr>obj_refs := obj_refs ob - 1\<rparr> else ob)
          in if obj_retired ob \<and> obj_refs ob = 0
             then en\<lparr>en_heap := (en_heap en)(a := None)\<rparr>
             else en\<lparr>en_heap := (en_heap en)(a \<mapsto> ob)\<rparr>)"

text \<open>The first half of \<open>edb_shard_gc\<close>: unlink the handle from the table and retire it.\<close>

definition gc_retire :: "edb_engine \<Rightarrow> string \<Rightarrow> edb_engine \<times> nat option" where
  "gc_retire en key =
     (case find_locked en key of
        None \<Rightarrow> (en, None)
      | Some a \<Rightarrow>
          let b = bucket_for key
          in (upd_obj a (\<lambda>ob. ob\<lparr>obj_retired := True, obj_refs := obj_refs ob + 1\<rparr>)
               (en\<lparr>en_buckets := (en_buckets en)[b := remove1 a (en_buckets en ! b)]\<rparr>), Some a))"

definition ref_shards :: "edb_engine \<Rightarrow> nat list \<Rightarrow> edb_engine" where
  "ref_shards en as = fold (\<lambda>a. upd_obj a (\<lambda>ob. ob\<lparr>obj_refs := obj_refs ob + 1\<rparr>)) as en"

section \<open>Files\<close>

text \<open>Opening a path yields its inode; a new file gets a fresh one.\<close>

definition open_inode :: "filesystem \<Rightarrow> string \<Rightarrow> filesystem \<times> nat" where
  "open_inode fs path =
     (case fs_files fs path of
        Some i \<Rightarrow> (fs, i)
      | None \<Rightarrow>
          let i = fs_next fs
          in (fs\<lparr>fs_files := (fs_files fs)(path \<mapsto> i), fs_disk := (fs_disk fs)(i := []), fs_next := Suc i\<rparr>, i))"

definition unlink :: "filesystem \<Rightarrow> string \<Rightarrow> filesystem" where
  "unlink fs path = fs\<lparr>fs_files := (fs_files fs)(path := None)\<rparr>"

text \<open>A snapshot installs a new file over the path.\<close>

definition replace_file :: "filesystem \<Rightarrow> string \<Rightarrow> row list \<Rightarrow> filesystem" where
  "replace_file fs path rows =
     fs\<lparr>fs_files := (fs_files fs)(path \<mapsto> fs_next fs), fs_disk := (fs_disk fs)(fs_next fs := rows),
        fs_next := Suc (fs_next fs)\<rparr>"

text \<open>\<open>edb_shard_open\<close> on a path of the file system.\<close>

definition open_file ::
  "sqlite_env \<Rightarrow> filesystem \<Rightarrow> string \<Rightarrow> string \<Rightarrow> string \<Rightarrow> string \<Rightarrow> filesystem \<times> (edb_shard \<times> nat) option" where
  "open_file e fs path key part keyspace =
     (if \<not> open_ok e path then (fs, None)
      else
        let (fs, i) = open_inode fs path
        in (fs, map_option (\<lambda>sh. (sh, i)) (edb_shard_open e (fs_disk fs i) path key (Some part) (Some keyspace))))"

text \<open>
  Running an operation on a handle: SQLite reads the file's current rows and writes them back,
  unless a transaction is still open on the connection. \<open>None\<close> is a use of a freed handle.
\<close>

definition use_shard :: "edb_engine \<Rightarrow> nat \<Rightarrow> (edb_shard \<Rightarrow> edb_shard \<times> 'r) \<Rightarrow> edb_engine \<times> 'r option" where
  "use_shard en a f =
     (case en_heap en a of
        None \<Rightarrow> (en, None)
      | Some ob \<Rightarrow>
          let fs = en_fs en;
              sh = (if sh_tx (obj_shard ob) then obj_shard ob
                    else (obj_shard ob)\<lparr>sh_rows := fs_disk fs (obj_inode ob)\<rparr>);
              (sh, r) = f sh
          in (en\<lparr>en_heap := (en_heap en)(a \<mapsto> ob\<lparr>obj_shard := sh\<rparr>),
                 en_fs := (if sh_tx sh then fs
                           else fs\<lparr>fs_disk := (fs_disk fs)(obj_inode ob := sh_rows sh)\<rparr>)\<rparr>, Some r))"

section \<open>Acquiring a handle\<close>

definition adopt_names :: "string \<Rightarrow> string \<Rightarrow> edb_shard \<Rightarrow> edb_shard" where
  "adopt_names part keyspace sh =
     (if sh_partition sh = []
      then sh\<lparr>sh_partition := snprintf_s 256 part, sh_keyspace := snprintf_s 128 keyspace\<rparr>
      else sh)"

definition shard_for ::
  "sqlite_env \<Rightarrow> edb_engine \<Rightarrow> string \<Rightarrow> string \<Rightarrow> edb_engine \<times> nat option" where
  "shard_for e en part keyspace =
     (let key = shard_key part keyspace
      in case acquire_cached en key of
           (en, Some a) \<Rightarrow> (upd_obj a (\<lambda>ob. ob\<lparr>obj_shard := adopt_names part keyspace (obj_shard ob)\<rparr>) en, Some a)
         | (en, None) \<Rightarrow>
             (case open_file e (en_fs en) (shard_file (en_path en) key) key part keyspace of
                (fs, None) \<Rightarrow> (en\<lparr>en_fs := fs\<rparr>, None)
              | (fs, Some (sh, i)) \<Rightarrow>
                  let (en, a) = insert_shard (en\<lparr>en_fs := fs\<rparr>) sh i True in (en, Some a)))"

definition with_shard ::
  "sqlite_env \<Rightarrow> edb_engine \<Rightarrow> string \<Rightarrow> string \<Rightarrow> 'r \<Rightarrow> (edb_shard \<Rightarrow> edb_shard \<times> 'r) \<Rightarrow> edb_engine \<times> 'r" where
  "with_shard e en part keyspace missing f =
     (case shard_for e en part keyspace of
        (en, None) \<Rightarrow> (en, missing)
      | (en, Some a) \<Rightarrow>
          let (en, r) = use_shard en a f
          in (shard_release en a, case r of None \<Rightarrow> missing | Some x \<Rightarrow> x))"

section \<open>Document operations\<close>

definition edb_put ::
  "sqlite_env \<Rightarrow> edb_engine \<Rightarrow> string \<Rightarrow> string \<Rightarrow> string \<Rightarrow> string \<Rightarrow> int \<Rightarrow> edb_engine \<times> bool" where
  "edb_put e en part keyspace doc json_value ttl =
     with_shard e en part keyspace False (\<lambda>sh. edb_shard_put e sh doc json_value ttl)"

definition edb_get ::
  "sqlite_env \<Rightarrow> edb_engine \<Rightarrow> string \<Rightarrow> string \<Rightarrow> string \<Rightarrow> edb_engine \<times> cJSON option" where
  "edb_get e en part keyspace doc = with_shard e en part keyspace None (\<lambda>sh. edb_shard_get e sh doc)"

definition edb_delete ::
  "sqlite_env \<Rightarrow> edb_engine \<Rightarrow> string \<Rightarrow> string \<Rightarrow> string \<Rightarrow> edb_engine \<times> bool" where
  "edb_delete e en part keyspace doc = with_shard e en part keyspace False (\<lambda>sh. edb_shard_delete e sh doc)"

definition edb_ids ::
  "sqlite_env \<Rightarrow> edb_engine \<Rightarrow> string \<Rightarrow> string \<Rightarrow> cJSON option \<Rightarrow> edb_engine \<times> string list option" where
  "edb_ids e en part keyspace filters =
     with_shard e en part keyspace None (\<lambda>sh. (sh, edb_shard_ids e sh filters))"

definition edb_all ::
  "sqlite_env \<Rightarrow> edb_engine \<Rightarrow> string \<Rightarrow> string \<Rightarrow> cJSON option \<Rightarrow> edb_engine \<times> cJSON option" where
  "edb_all e en part keyspace filters =
     with_shard e en part keyspace None (\<lambda>sh. (sh, edb_shard_all e sh filters))"

definition edb_query ::
  "sqlite_env \<Rightarrow> edb_engine \<Rightarrow> string \<Rightarrow> string \<Rightarrow> cJSON option \<Rightarrow> edb_engine \<times> cJSON option" where
  "edb_query e en part keyspace filters =
     with_shard e en part keyspace None (\<lambda>sh. (sh, edb_shard_query e sh filters))"

definition edb_force_cleanup :: "sqlite_env \<Rightarrow> edb_engine \<Rightarrow> string \<Rightarrow> string \<Rightarrow> edb_engine \<times> bool" where
  "edb_force_cleanup e en part keyspace = with_shard e en part keyspace False (edb_shard_cleanup e)"

definition edb_replica_put_origin ::
  "sqlite_env \<Rightarrow> edb_engine \<Rightarrow> string \<Rightarrow> string \<Rightarrow> string \<Rightarrow> string \<Rightarrow> int \<Rightarrow> int \<Rightarrow> string option \<Rightarrow>
    edb_engine \<times> bool" where
  "edb_replica_put_origin e en part keyspace doc json_value ttl timestamp origin =
     with_shard e en part keyspace False
       (\<lambda>sh. edb_shard_replica_put e sh doc json_value ttl timestamp origin)"

definition edb_replica_put ::
  "sqlite_env \<Rightarrow> edb_engine \<Rightarrow> string \<Rightarrow> string \<Rightarrow> string \<Rightarrow> string \<Rightarrow> int \<Rightarrow> int \<Rightarrow> edb_engine \<times> bool" where
  "edb_replica_put e en part keyspace doc json_value ttl timestamp =
     edb_replica_put_origin e en part keyspace doc json_value ttl timestamp (Some [])"

definition edb_replica_delete_origin ::
  "sqlite_env \<Rightarrow> edb_engine \<Rightarrow> string \<Rightarrow> string \<Rightarrow> string \<Rightarrow> int \<Rightarrow> string option \<Rightarrow> edb_engine \<times> bool" where
  "edb_replica_delete_origin e en part keyspace doc timestamp origin =
     with_shard e en part keyspace False (\<lambda>sh. edb_shard_replica_delete e sh doc timestamp origin)"

definition edb_replica_delete ::
  "sqlite_env \<Rightarrow> edb_engine \<Rightarrow> string \<Rightarrow> string \<Rightarrow> string \<Rightarrow> int \<Rightarrow> edb_engine \<times> bool" where
  "edb_replica_delete e en part keyspace doc timestamp =
     edb_replica_delete_origin e en part keyspace doc timestamp (Some [])"

definition edb_get_ts ::
  "sqlite_env \<Rightarrow> edb_engine \<Rightarrow> string \<Rightarrow> string \<Rightarrow> string \<Rightarrow> edb_engine \<times> cJSON option \<times> int option" where
  "edb_get_ts e en part keyspace doc =
     with_shard e en part keyspace (None, None) (\<lambda>sh. edb_shard_get_ts e sh doc)"

definition edb_all_ts ::
  "sqlite_env \<Rightarrow> edb_engine \<Rightarrow> string \<Rightarrow> string \<Rightarrow> cJSON option \<Rightarrow> edb_engine \<times> cJSON option" where
  "edb_all_ts e en part keyspace filters =
     with_shard e en part keyspace None (\<lambda>sh. (sh, edb_shard_all_ts e sh filters))"

definition edb_query_ts ::
  "sqlite_env \<Rightarrow> edb_engine \<Rightarrow> string \<Rightarrow> string \<Rightarrow> cJSON option \<Rightarrow> edb_engine \<times> cJSON option" where
  "edb_query_ts e en part keyspace filters =
     with_shard e en part keyspace None (\<lambda>sh. (sh, edb_shard_query_ts e sh filters))"

section \<open>Maintenance\<close>

fun run_on_shards ::
  "(edb_shard \<Rightarrow> edb_shard \<times> bool) \<Rightarrow> edb_engine \<Rightarrow> nat list \<Rightarrow> edb_engine \<times> nat" where
  "run_on_shards f en [] = (en, 0)"
| "run_on_shards f en (a # as) =
     (let (en, r) = use_shard en a f;
          (en, n) = run_on_shards f (shard_release en a) as
      in (en, if r = Some True then Suc n else n))"

definition cleanup_all_shards :: "sqlite_env \<Rightarrow> edb_engine \<Rightarrow> edb_engine" where
  "cleanup_all_shards e en =
     fst (run_on_shards (edb_shard_cleanup e) (ref_shards en (table en)) (table en))"

definition partition_shards :: "edb_engine \<Rightarrow> string \<Rightarrow> nat list" where
  "partition_shards en part =
     filter (\<lambda>a. case en_heap en a of
                   None \<Rightarrow> False
                 | Some ob \<Rightarrow> strcmp (sh_partition (obj_shard ob)) part = 0 \<and> sh_partition (obj_shard ob) \<noteq> [])
       (table en)"

definition maintain_partition ::
  "edb_engine \<Rightarrow> string \<Rightarrow> (edb_shard \<Rightarrow> edb_shard \<times> bool) \<Rightarrow> edb_engine \<times> int" where
  "maintain_partition en part f =
     (if part = [] then (en, - 1)
      else
        let shards = partition_shards en part;
            (en, n) = run_on_shards f (ref_shards en shards) shards
        in (en, int n))"

definition edb_engine_vacuum_partition :: "sqlite_env \<Rightarrow> edb_engine \<Rightarrow> string \<Rightarrow> edb_engine \<times> int" where
  "edb_engine_vacuum_partition e en part = maintain_partition en part (edb_shard_vacuum e)"

definition edb_engine_reindex_partition :: "sqlite_env \<Rightarrow> edb_engine \<Rightarrow> string \<Rightarrow> edb_engine \<times> int" where
  "edb_engine_reindex_partition e en part = maintain_partition en part (edb_shard_reindex e)"

section \<open>Files of shards\<close>

definition edb_shard_path :: "edb_engine \<Rightarrow> string \<Rightarrow> string \<Rightarrow> nat \<Rightarrow> (string \<times> string) option" where
  "edb_shard_path en part keyspace cap =
     (if cap = 0 then None
      else
        let key = shard_key part keyspace; path = shard_file (en_path en) key
        in if cap \<le> length path then None else Some (path, key))"

text \<open>The directory entries that are shard files, by name, and the keys in them.\<close>

definition is_shard_name :: "string \<Rightarrow> bool" where
  "is_shard_name name \<longleftrightarrow> length name = 39 \<and> strcmp (drop 32 name) ''.sqlite'' = 0"

fun edb_engine_shard_keys :: "string list \<Rightarrow> nat \<Rightarrow> string list" where
  "edb_engine_shard_keys [] cap = []"
| "edb_engine_shard_keys (name # names) cap =
     (if cap = 0 then []
      else if \<not> is_shard_name name then edb_engine_shard_keys names cap
      else take 32 name # edb_engine_shard_keys names (cap - 1))"

text \<open>The second half of \<open>edb_shard_gc\<close>: \<open>unlink_ok\<close> says whether removing an existing file succeeds.\<close>

definition gc_unlink :: "bool \<Rightarrow> edb_engine \<Rightarrow> string \<Rightarrow> edb_engine \<times> bool" where
  "gc_unlink unlink_ok en key =
     (let path = snprintf_s 1024 (shard_file (en_path en) key);
          fs = en_fs en;
          rc = (fs_files fs path = None \<or> unlink_ok);
          fs = (if unlink_ok then unlink fs path else fs);
          fs = unlink (unlink (unlink fs (snprintf_s 1060 (path @ ''-wal''))) (snprintf_s 1060 (path @ ''-shm'')))
                 (snprintf_s 1060 (path @ ''-journal''))
      in (en\<lparr>en_fs := fs\<rparr>, rc))"

definition edb_shard_gc :: "bool \<Rightarrow> edb_engine \<Rightarrow> string \<Rightarrow> edb_engine \<times> bool" where
  "edb_shard_gc unlink_ok en key =
     (if length key \<noteq> 32 then (en, False)
      else
        let (en, handle) = gc_retire en key;
            (en, ok) = gc_unlink unlink_ok en key
        in (case handle of None \<Rightarrow> en | Some a \<Rightarrow> shard_release en a, ok))"

text \<open>
  \<open>edb_shard_invalidate\<close>: reopen the file and swap the new connection into the cached handle.
\<close>

definition edb_shard_invalidate ::
  "sqlite_env \<Rightarrow> edb_engine \<Rightarrow> string \<Rightarrow> string \<Rightarrow> edb_engine \<times> bool" where
  "edb_shard_invalidate e en part keyspace =
     (let key = shard_key part keyspace; path = shard_file (en_path en) key
      in if 1024 \<le> length path then (en, False)
         else
           let handle = find_locked en key;
               fs = unlink (unlink (en_fs en) (path @ ''-wal'')) (path @ ''-shm'');
               (fs, opened) = open_file e fs path key part keyspace;
               en = en\<lparr>en_fs := fs\<rparr>;
               ok = (opened \<noteq> None \<and> exec_ok e ''PRAGMA integrity_check;'')
           in case (opened, handle) of
                (Some (fresh, i), Some a) \<Rightarrow>
                  (if ok
                   then upd_obj a (\<lambda>ob. ob\<lparr>obj_inode := i, obj_shard := (obj_shard ob)
                          \<lparr>sh_cache := [], sh_tx := False, sh_partition := snprintf_s 256 part,
                           sh_keyspace := snprintf_s 128 keyspace, sh_expired := 0\<rparr>\<rparr>) en
                   else en, ok)
              | _ \<Rightarrow> (en, ok))"

definition edb_shard_is_open :: "edb_engine \<Rightarrow> string \<Rightarrow> string \<Rightarrow> bool" where
  "edb_shard_is_open en part keyspace \<longleftrightarrow> find_locked en (shard_key part keyspace) \<noteq> None"

section \<open>Opening and closing the engine\<close>

fun open_existing :: "sqlite_env \<Rightarrow> edb_engine \<Rightarrow> string list \<Rightarrow> edb_engine" where
  "open_existing e en [] = en"
| "open_existing e en (name # names) =
     (if \<not> is_shard_name name then open_existing e en names
      else
        case open_file e (en_fs en) (en_path en @ ''/'' @ name) (take 32 name) [] [] of
          (fs, None) \<Rightarrow> open_existing e (en\<lparr>en_fs := fs\<rparr>) names
        | (fs, Some (sh, i)) \<Rightarrow> open_existing e (fst (insert_shard (en\<lparr>en_fs := fs\<rparr>) sh i False)) names)"

definition empty_engine :: "string \<Rightarrow> filesystem \<Rightarrow> edb_engine" where
  "empty_engine path fs =
     \<lparr>en_path = path, en_buckets = replicate EDB_SHARD_BUCKETS [], en_heap = Map.empty, en_next = 0, en_fs = fs\<rparr>"

text \<open>
  \<open>edb_engine_open\<close>: \<open>mkdir_ok\<close> includes the directory existing, \<open>entries\<close> are the directory's
  entries or \<open>None\<close> when it cannot be read, \<open>thread_ok\<close> says that the cleanup thread started.
\<close>

definition edb_engine_open ::
  "sqlite_env \<Rightarrow> bool \<Rightarrow> string list option \<Rightarrow> bool \<Rightarrow> string \<Rightarrow> filesystem \<Rightarrow> edb_engine option" where
  "edb_engine_open e mkdir_ok entries thread_ok path fs =
     (if path = [] \<or> \<not> mkdir_ok then None
      else case entries of
             None \<Rightarrow> None
           | Some names \<Rightarrow>
               if \<not> thread_ok then None else Some (open_existing e (empty_engine path fs) names))"

definition edb_engine_close :: "edb_engine \<Rightarrow> filesystem" where
  "edb_engine_close en = en_fs en"

end
