(* ===== verification/Manager_Inv.thy ===== *)
theory Manager_Inv
  imports Manager
begin

text \<open>
  Reference counting in the shard manager: any interleaving of the critical sections of
  manager.c by any number of threads. A ghost multiset records the handles the threads hold; the
  invariant ties it to the reference counts, so that no handle is freed while it is held and
  none is leaked.
\<close>

section \<open>Interleavings\<close>

text \<open>
  One step of one thread. A thread uses and releases only handles it holds; an opened shard may
  be inserted at any time after the file was opened, so another thread may have been first. In
  \<open>use\<close> the function is the effect of a shard operation on the shard.
\<close>

inductive engine_step :: "edb_engine \<times> nat multiset \<Rightarrow> edb_engine \<times> nat multiset \<Rightarrow> bool" where
  acquire: "acquire_cached en key = (en', Some a) \<Longrightarrow> engine_step (en, h) (en', add_mset a h)"
| insert: "insert_shard en sh i acq = (en', a) \<Longrightarrow>
    engine_step (en, h) (en', if acq then add_mset a h else h)"
| use: "a \<in># h \<Longrightarrow> use_shard en a (\<lambda>sh. (f sh, ())) = (en', r) \<Longrightarrow> (\<And>sh. sh_key (f sh) = sh_key sh) \<Longrightarrow>
    engine_step (en, h) (en', h)"
| adopt: "a \<in># h \<Longrightarrow>
    engine_step (en, h) (upd_obj a (\<lambda>ob. ob\<lparr>obj_shard := adopt_names part ks (obj_shard ob)\<rparr>) en, h)"
| release: "a \<in># h \<Longrightarrow> engine_step (en, h) (shard_release en a, h - {#a#})"
| retire: "gc_retire en key = (en', Some a) \<Longrightarrow> engine_step (en, h) (en', add_mset a h)"
| ref_all: "engine_step (en, h) (ref_shards en (table en), mset (table en) + h)"
| ref_some: "engine_step (en, h) (ref_shards en (filter P (table en)), mset (filter P (table en)) + h)"
| files: "engine_step (en, h) (en\<lparr>en_fs := fs\<rparr>, h)"

inductive engine_reachable :: "edb_engine \<times> nat multiset \<Rightarrow> bool" where
  start: "engine_reachable (empty_engine path fs, {#})"
| more: "engine_reachable s \<Longrightarrow> engine_step s t \<Longrightarrow> engine_reachable t"

definition engine_inv :: "edb_engine \<Rightarrow> nat multiset \<Rightarrow> bool" where
  "engine_inv en held \<longleftrightarrow>
     length (en_buckets en) = EDB_SHARD_BUCKETS \<and>
     (\<forall>b < EDB_SHARD_BUCKETS. \<forall>a \<in> set (en_buckets en ! b).
        \<exists>ob. en_heap en a = Some ob \<and> \<not> obj_retired ob \<and> bucket_for (obj_key ob) = b) \<and>
     distinct (map (heap_key en) (table en)) \<and>
     (\<forall>a ob. en_heap en a = Some ob \<longrightarrow> obj_refs ob = count held a \<and>
        (a \<in> set (table en) \<or> obj_retired ob \<and> 0 < obj_refs ob)) \<and>
     (\<forall>a. a \<in># held \<longrightarrow> en_heap en a \<noteq> None) \<and>
     (\<forall>a. en_heap en a \<noteq> None \<longrightarrow> a < en_next en)"

lemma engine_invI:
  assumes "length (en_buckets en) = EDB_SHARD_BUCKETS"
    and "\<And>b a. b < EDB_SHARD_BUCKETS \<Longrightarrow> a \<in> set (en_buckets en ! b) \<Longrightarrow>
      \<exists>ob. en_heap en a = Some ob \<and> \<not> obj_retired ob \<and> bucket_for (obj_key ob) = b"
    and "distinct (map (heap_key en) (table en))"
    and "\<And>a ob. en_heap en a = Some ob \<Longrightarrow> obj_refs ob = count held a"
    and "\<And>a ob. en_heap en a = Some ob \<Longrightarrow> a \<notin> set (table en) \<Longrightarrow> obj_retired ob \<and> 0 < obj_refs ob"
    and "\<And>a. a \<in># held \<Longrightarrow> en_heap en a \<noteq> None"
    and "\<And>a. en_heap en a \<noteq> None \<Longrightarrow> a < en_next en"
  shows "engine_inv en held"
  using assms unfolding engine_inv_def by blast

lemma engine_invD:
  assumes "engine_inv en held"
  shows "length (en_buckets en) = EDB_SHARD_BUCKETS"
    and "b < EDB_SHARD_BUCKETS \<Longrightarrow> a \<in> set (en_buckets en ! b) \<Longrightarrow>
      \<exists>ob. en_heap en a = Some ob \<and> \<not> obj_retired ob \<and> bucket_for (obj_key ob) = b"
    and "distinct (map (heap_key en) (table en))"
    and "en_heap en a = Some ob \<Longrightarrow> obj_refs ob = count held a"
    and "en_heap en a = Some ob \<Longrightarrow> a \<notin> set (table en) \<Longrightarrow> obj_retired ob \<and> 0 < obj_refs ob"
    and "a \<in># held \<Longrightarrow> en_heap en a \<noteq> None"
    and "en_heap en a \<noteq> None \<Longrightarrow> a < en_next en"
  using assms unfolding engine_inv_def by blast+

section \<open>Buckets\<close>

lemma bucket_for_bound: "bucket_for key < EDB_SHARD_BUCKETS"
proof -
  have "unat (w AND 511 :: u32) \<le> unat (511 :: u32)" for w
    by (rule word_and_le1 [THEN word_le_nat_alt [THEN iffD1]])
  then have le: "unat (w AND 511 :: u32) \<le> 511" for w by simp
  show ?thesis
    using le [of "push_bit 4 (hex_fold (key ! 0)) OR hex_fold (key ! 1)"]
    unfolding bucket_for_def EDB_SHARD_BUCKETS_def by linarith
qed

lemma mset_concat_update:
  "b < length bs \<Longrightarrow> mset (concat (bs[b := ys])) + mset (bs ! b) = mset (concat bs) + mset ys"
proof (induction bs arbitrary: b)
  case (Cons c cs)
  show ?case
  proof (cases b)
    case 0
    then show ?thesis by simp
  next
    case (Suc b')
    with Cons show ?thesis by (simp add: add.assoc add.left_commute)
  qed
qed simp

lemma table_member: "a \<in> set (table en) \<longleftrightarrow> (\<exists>b < length (en_buckets en). a \<in> set (en_buckets en ! b))"
  by (simp add: table_def) (metis in_set_conv_nth)

lemma engine_inv_table:
  assumes "engine_inv en h" and "a \<in> set (table en)"
  obtains ob where "en_heap en a = Some ob" "\<not> obj_retired ob" "a \<in> set (en_buckets en ! bucket_for (obj_key ob))"
  using assms unfolding engine_inv_def table_member by metis

lemma find_locked_Some:
  assumes "engine_inv en h"
  shows "find_locked en key = Some a \<longleftrightarrow> a \<in> set (table en) \<and> heap_key en a = key"
proof
  assume "find_locked en key = Some a"
  then have "a \<in> set (en_buckets en ! bucket_for key)" "heap_key en a = key"
    by (auto simp: find_locked_def first_match_def find_Some_iff)
  moreover have "bucket_for key < length (en_buckets en)"
    using assms bucket_for_bound by (simp add: engine_inv_def)
  ultimately show "a \<in> set (table en) \<and> heap_key en a = key" by (auto simp: table_member)
next
  assume a: "a \<in> set (table en) \<and> heap_key en a = key"
  then obtain ob where "en_heap en a = Some ob" "a \<in> set (en_buckets en ! bucket_for (obj_key ob))"
    using engine_inv_table [OF assms] by blast
  with a have mem: "a \<in> set (en_buckets en ! bucket_for key)" by (auto simp: heap_key_def)
  then obtain c where c: "find_locked en key = Some c"
    using a by (cases "find_locked en key") (auto simp: find_locked_def first_match_def find_None_iff)
  then have "c \<in> set (en_buckets en ! bucket_for key)" "heap_key en c = key"
    by (auto simp: find_locked_def first_match_def find_Some_iff)
  moreover have "bucket_for key < length (en_buckets en)"
    using assms bucket_for_bound by (simp add: engine_inv_def)
  ultimately have "c \<in> set (table en)" "heap_key en c = heap_key en a"
    using a by (auto simp: table_member)
  with a assms have "c = a" by (auto simp: engine_inv_def distinct_map inj_on_def)
  with c show "find_locked en key = Some a" by simp
qed

lemma find_locked_None:
  "engine_inv en h \<Longrightarrow> find_locked en key = None \<longleftrightarrow> key \<notin> heap_key en ` set (table en)"
  using find_locked_Some [of en h key] by (metis image_iff not_None_eq)

section \<open>Preservation\<close>

lemma upd_obj_fields [simp]:
  "en_buckets (upd_obj a f en) = en_buckets en" "en_next (upd_obj a f en) = en_next en"
  "en_path (upd_obj a f en) = en_path en" "en_fs (upd_obj a f en) = en_fs en"
  "table (upd_obj a f en) = table en"
  by (simp_all add: upd_obj_def table_def)

lemma heap_upd_obj: "en_heap (upd_obj a f en) c = (if c = a then map_option f (en_heap en a) else en_heap en c)"
  by (simp add: upd_obj_def)

lemma heap_key_upd_obj:
  "(\<And>ob. obj_key (f ob) = obj_key ob) \<Longrightarrow> heap_key (upd_obj a f en) = heap_key en"
  by (auto simp: fun_eq_iff heap_key_def heap_upd_obj split: option.splits)

text \<open>An update of an object that keeps its key and retired flag, with its references counted.\<close>

lemma engine_inv_upd_obj:
  assumes "engine_inv en h" and "\<And>ob. obj_key (f ob) = obj_key ob \<and> obj_retired (f ob) = obj_retired ob \<and>
      obj_refs (f ob) = obj_refs ob + k"
    and "en_heap en a \<noteq> None"
  shows "engine_inv (upd_obj a f en) (replicate_mset k a + h)"
proof -
  have key: "heap_key (upd_obj a f en) = heap_key en" using assms(2) by (intro heap_key_upd_obj) simp
  have bucket: "\<exists>ob. en_heap (upd_obj a f en) c = Some ob \<and> \<not> obj_retired ob \<and> bucket_for (obj_key ob) = b"
    if "b < EDB_SHARD_BUCKETS" "c \<in> set (en_buckets en ! b)" for b c
  proof -
    obtain ob where "en_heap en c = Some ob" "\<not> obj_retired ob" "bucket_for (obj_key ob) = b"
      using assms(1) \<open>b < _\<close> \<open>c \<in> _\<close> unfolding engine_inv_def by blast
    then show ?thesis using assms(2) by (auto simp: heap_upd_obj)
  qed
  note I = engine_invD [OF assms(1)]
  let ?en = "upd_obj a f en" and ?h = "replicate_mset k a + h"
  show ?thesis
  proof (rule engine_invI)
    show "length (en_buckets ?en) = EDB_SHARD_BUCKETS" using I(1) by simp
    show "\<exists>ob. en_heap ?en c = Some ob \<and> \<not> obj_retired ob \<and> bucket_for (obj_key ob) = b"
      if "b < EDB_SHARD_BUCKETS" "c \<in> set (en_buckets ?en ! b)" for b c
      using that bucket by simp
    show "distinct (map (heap_key ?en) (table ?en))" using I(3) by (simp add: key)
    show "obj_refs ob = count ?h c" if "en_heap ?en c = Some ob" for c ob
      using that I(4) assms(2) by (auto simp: heap_upd_obj split: if_splits)
    show "obj_retired ob \<and> 0 < obj_refs ob" if "en_heap ?en c = Some ob" "c \<notin> set (table ?en)" for c ob
    proof (cases "c = a")
      case True
      with that obtain ob0 where "en_heap en a = Some ob0" "ob = f ob0" by (auto simp: heap_upd_obj)
      with that True I(5) [of a ob0] assms(2) [of ob0] show ?thesis by simp
    next
      case False
      with that I(5) [of c ob] show ?thesis by (simp add: heap_upd_obj)
    qed
    show "en_heap ?en c \<noteq> None" if "c \<in># ?h" for c
      using that I(6) [of c] assms(3) by (auto simp: heap_upd_obj split: if_splits)
    show "c < en_next ?en" if "en_heap ?en c \<noteq> None" for c
      using that I(7) [of c] by (auto simp: heap_upd_obj split: if_splits)
  qed
qed

lemma engine_inv_ref:
  "engine_inv en h \<Longrightarrow> en_heap en a \<noteq> None \<Longrightarrow>
    engine_inv (upd_obj a (\<lambda>ob. ob\<lparr>obj_refs := Suc (obj_refs ob)\<rparr>) en) (add_mset a h)"
  using engine_inv_upd_obj [of en h "\<lambda>ob. ob\<lparr>obj_refs := obj_refs ob + 1\<rparr>" 1 a]
  by (simp add: obj_key_def)

lemma engine_inv_ref_shards:
  "engine_inv en h \<Longrightarrow> (\<And>a. a \<in> set as \<Longrightarrow> en_heap en a \<noteq> None) \<Longrightarrow> engine_inv (ref_shards en as) (mset as + h)"
proof (induction as arbitrary: en h)
  case (Cons a as)
  let ?en = "upd_obj a (\<lambda>ob. ob\<lparr>obj_refs := obj_refs ob + 1\<rparr>) en"
  have "engine_inv (ref_shards ?en as) (mset as + add_mset a h)"
    by (rule Cons.IH) (use Cons.prems in \<open>auto simp: engine_inv_ref heap_upd_obj\<close>)
  then show ?case by (simp add: ref_shards_def)
qed (simp add: ref_shards_def)

lemma table_heap: "engine_inv en h \<Longrightarrow> a \<in> set (table en) \<Longrightarrow> en_heap en a \<noteq> None"
  using engine_inv_table by (metis option.distinct(1))

lemma engine_inv_ref_table:
  "engine_inv en h \<Longrightarrow> a \<in> set (table en) \<Longrightarrow>
    engine_inv (upd_obj a (\<lambda>ob. ob\<lparr>obj_refs := Suc (obj_refs ob)\<rparr>) en) (add_mset a h)"
  by (rule engine_inv_ref [OF _ table_heap])

lemma engine_inv_cong:
  "en_buckets en' = en_buckets en \<Longrightarrow> en_heap en' = en_heap en \<Longrightarrow> en_next en' = en_next en \<Longrightarrow>
    engine_inv en' h = engine_inv en h"
  by (simp add: engine_inv_def table_def heap_key_def [abs_def])

lemma engine_inv_acquire:
  "engine_inv en h \<Longrightarrow> acquire_cached en key = (en', Some a) \<Longrightarrow> engine_inv en' (add_mset a h)"
  by (auto simp: acquire_cached_def find_locked_Some split: option.splits intro: engine_inv_ref_table)


lemma engine_inv_insert:
  assumes inv: "engine_inv en h" and ins: "insert_shard en sh i acq = (en', a)"
  shows "engine_inv en' (if acq then add_mset a h else h)"
proof (cases "find_locked en (sh_key sh)")
  case (Some c)
  with ins inv show ?thesis
    by (auto simp: insert_shard_def find_locked_Some intro: engine_inv_ref_table split: if_splits)
next
  case None
  let ?b = "bucket_for (sh_key sh)"
  let ?ob = "\<lparr>obj_shard = sh, obj_inode = i, obj_refs = (if acq then 1 else 0), obj_retired = False\<rparr>"
  from ins None have a: "a = en_next en" and en': "en' = en\<lparr>en_heap := (en_heap en)(a \<mapsto> ?ob),
      en_next := Suc a, en_buckets := (en_buckets en)[?b := a # en_buckets en ! ?b]\<rparr>"
    by (auto simp: insert_shard_def Let_def)
  have fresh: "en_heap en a = None" using inv a by (auto simp: engine_inv_def)
  have b: "?b < length (en_buckets en)" using inv bucket_for_bound by (simp add: engine_inv_def)
  have notin: "a \<notin> set (table en)" using table_heap [OF inv] fresh by blast
  have tab: "mset (table en') = add_mset a (mset (table en))"
    using mset_concat_update [OF b, of "a # en_buckets en ! ?b"] by (simp add: en' table_def)
  then have set': "set (table en') = insert a (set (table en))"
    by (metis set_mset_add_mset_insert set_mset_mset)
  have held: "count h a = 0" using inv fresh by (auto simp: engine_inv_def count_eq_zero_iff)
  have keys: "heap_key en' c = (if c = a then sh_key sh else heap_key en c)" for c
    by (simp add: heap_key_def en' obj_key_def)
  have "sh_key sh \<notin> heap_key en ` set (table en)" using None find_locked_None [OF inv] by simp
  then have "distinct (map (heap_key en') (a # table en))"
    using inv notin by (auto simp: engine_inv_def distinct_map inj_on_def keys image_iff)
  moreover have "mset (map (heap_key en') (table en')) = mset (map (heap_key en') (a # table en))"
    using tab by simp
  ultimately have dist: "distinct (map (heap_key en') (table en'))"
    using mset_eq_imp_distinct_iff by blast
  have bucket: "\<exists>ob. en_heap en' c = Some ob \<and> \<not> obj_retired ob \<and> bucket_for (obj_key ob) = k"
    if "k < EDB_SHARD_BUCKETS" "c \<in> set (en_buckets en' ! k)" for k c
  proof (cases "c = a")
    case True
    have "a \<notin> set (en_buckets en ! k)"
      using notin that(1) inv by (auto simp: table_member engine_inv_def)
    with that True b have "k = ?b" by (auto simp: en' nth_list_update split: if_splits)
    with True show ?thesis by (simp add: en' obj_key_def)
  next
    case False
    with that b have "c \<in> set (en_buckets en ! k)" by (auto simp: en' nth_list_update split: if_splits)
    with that(1) inv False show ?thesis by (simp add: en' engine_inv_def)
  qed
  note I = engine_invD [OF inv]
  have heap: "en_heap en' c = (if c = a then Some ?ob else en_heap en c)" for c by (simp add: en')
  show ?thesis
  proof (rule engine_invI [OF _ bucket dist])
    show "length (en_buckets en') = EDB_SHARD_BUCKETS" using I(1) by (simp add: en')
    show "obj_refs ob = count (if acq then add_mset a h else h) c" if "en_heap en' c = Some ob" for c ob
      using that I(4) [of c ob] held by (auto simp: heap split: if_splits)
    show "obj_retired ob \<and> 0 < obj_refs ob" if "en_heap en' c = Some ob" "c \<notin> set (table en')" for c ob
      using that I(5) [of c ob] by (auto simp: heap set' split: if_splits)
    show "en_heap en' c \<noteq> None" if "c \<in># (if acq then add_mset a h else h)" for c
      using that I(6) [of c] by (auto simp: heap split: if_splits)
    show "c < en_next en'" if "en_heap en' c \<noteq> None" for c
      using that I(7) [of c] a by (auto simp: heap en' less_Suc_eq split: if_splits)
  qed
qed

lemma engine_inv_use:
  assumes "engine_inv en h" "use_shard en a f = (en', r)" "\<And>sh. sh_key (fst (f sh)) = sh_key sh"
  shows "engine_inv en' h"
proof (cases "en_heap en a")
  case None
  with assms show ?thesis by (simp add: use_shard_def)
next
  case (Some ob)
  define sh where "sh = (if sh_tx (obj_shard ob) then obj_shard ob
                    else (obj_shard ob)\<lparr>sh_rows := fs_disk (en_fs en) (obj_inode ob)\<rparr>)"
  let ?en = "upd_obj a (\<lambda>ob'. ob'\<lparr>obj_shard := if obj_key ob' = obj_key ob then fst (f sh) else obj_shard ob'\<rparr>) en"
  have k: "sh_key (fst (f sh)) = obj_key ob" using assms(3) by (simp add: sh_def obj_key_def)
  have "engine_inv ?en (replicate_mset 0 a + h)"
    by (rule engine_inv_upd_obj) (use assms(1) Some k in \<open>auto simp: obj_key_def\<close>)
  moreover have "en_buckets en' = en_buckets ?en" "en_heap en' = en_heap ?en" "en_next en' = en_next ?en"
    using assms(2) Some
    by (auto simp: use_shard_def Let_def split_beta upd_obj_def sh_def split: if_splits)
  ultimately show ?thesis using engine_inv_cong [of en' ?en h] by simp
qed

lemma engine_inv_release:
  assumes "engine_inv en h" and "a \<in># h"
  shows "engine_inv (shard_release en a) (h - {#a#})"
proof -
  obtain ob where ob: "en_heap en a = Some ob" using assms by (auto simp: engine_inv_def)
  with assms have refs: "obj_refs ob = count h a" "0 < count h a" by (auto simp: engine_inv_def)
  let ?ob = "ob\<lparr>obj_refs := obj_refs ob - 1\<rparr>"
  note I = engine_invD [OF assms(1)]
  have tab: "table (shard_release en a) = table en" "en_buckets (shard_release en a) = en_buckets en"
    "en_next (shard_release en a) = en_next en"
    by (auto simp: shard_release_def table_def Let_def split: option.splits)
  show ?thesis
  proof (cases "obj_retired ob \<and> obj_refs ob = 1")
    case True
    then have heap: "en_heap (shard_release en a) = (en_heap en)(a := None)"
      using ob refs by (simp add: shard_release_def Let_def)
    have notin: "a \<notin> set (table en)"
      using engine_inv_table [OF assms(1), of a thesis] True ob by (metis engine_inv_table assms(1) option.inject)
    then have keys: "map (heap_key (shard_release en a)) (table en) = map (heap_key en) (table en)"
      by (auto simp: heap_key_def heap)
    have "c \<noteq> a" if "b < EDB_SHARD_BUCKETS" "c \<in> set (en_buckets en ! b)" for b c
      using that notin assms(1) by (auto simp: engine_inv_def table_member)
    moreover have "c \<noteq> a" if "c \<in># h - {#a#}" for c
      using that True refs by (auto simp: count_greater_zero_iff [symmetric] simp del: count_greater_zero_iff)
    note nota = calculation this
    have h': "en_heap (shard_release en a) c = (if c = a then None else en_heap en c)" for c
      by (simp add: heap)
    show ?thesis
    proof (rule engine_invI, unfold tab)
      show "length (en_buckets en) = EDB_SHARD_BUCKETS" by (rule I(1))
      show "\<exists>ob. en_heap (shard_release en a) c = Some ob \<and> \<not> obj_retired ob \<and> bucket_for (obj_key ob) = b"
        if "b < EDB_SHARD_BUCKETS" "c \<in> set (en_buckets en ! b)" for b c
        using that I(2) [of b c] nota(1) [of b c] by (simp add: h')
      show "distinct (map (heap_key (shard_release en a)) (table en))" unfolding keys by (rule I(3))
      show "obj_refs ob' = count (h - {#a#}) c" if "en_heap (shard_release en a) c = Some ob'" for c ob'
        using that I(4) [of c ob'] by (auto simp: h' split: if_splits)
      show "obj_retired ob' \<and> 0 < obj_refs ob'"
        if "en_heap (shard_release en a) c = Some ob'" "c \<notin> set (table en)" for c ob'
        using that I(5) [of c ob'] by (auto simp: h' split: if_splits)
      show "en_heap (shard_release en a) c \<noteq> None" if "c \<in># h - {#a#}" for c
        using that I(6) [of c] nota(2) [of c] by (auto simp: h' dest: in_diffD)
      show "c < en_next en" if "en_heap (shard_release en a) c \<noteq> None" for c
        using that I(7) [of c] by (auto simp: h' split: if_splits)
    qed
  next
    case False
    then have big: "obj_retired ob \<Longrightarrow> Suc 0 < count h a"
      using refs by (cases "count h a") auto
    have "\<not> (obj_retired ?ob \<and> obj_refs ?ob = 0)"
      using refs(1) big by auto
    then have heap: "en_heap (shard_release en a) = (en_heap en)(a \<mapsto> ?ob)"
      using ob refs by (auto simp: shard_release_def Let_def)
    have keys: "heap_key (shard_release en a) = heap_key en"
      using ob by (auto simp: fun_eq_iff heap_key_def heap obj_key_def)
    have bucket: "\<exists>ob. ((en_heap en)(a \<mapsto> ?ob)) c = Some ob \<and> \<not> obj_retired ob \<and> bucket_for (obj_key ob) = b"
      if "b < EDB_SHARD_BUCKETS" "c \<in> set (en_buckets en ! b)" for b c
      using I(2) [OF that] ob by (auto simp: obj_key_def)
    show ?thesis
    proof (rule engine_invI, unfold tab keys heap)
      show "length (en_buckets en) = EDB_SHARD_BUCKETS" by (rule I(1))
      show "\<exists>ob. ((en_heap en)(a \<mapsto> ?ob)) c = Some ob \<and> \<not> obj_retired ob \<and> bucket_for (obj_key ob) = b"
        if "b < EDB_SHARD_BUCKETS" "c \<in> set (en_buckets en ! b)" for b c
        by (rule bucket [OF that])
      show "distinct (map (heap_key en) (table en))" by (rule I(3))
      show "obj_refs ob' = count (h - {#a#}) c" if "((en_heap en)(a \<mapsto> ?ob)) c = Some ob'" for c ob'
        using that I(4) [of c ob'] refs by (auto split: if_splits)
      show "obj_retired ob' \<and> 0 < obj_refs ob'"
        if "((en_heap en)(a \<mapsto> ?ob)) c = Some ob'" "c \<notin> set (table en)" for c ob'
        using that I(5) [of c ob'] I(5) [of a ob] ob refs(1) big by (auto split: if_splits)
      show "((en_heap en)(a \<mapsto> ?ob)) c \<noteq> None" if "c \<in># h - {#a#}" for c
        using that I(6) [of c] by (auto dest: in_diffD)
      show "c < en_next en" if "((en_heap en)(a \<mapsto> ?ob)) c \<noteq> None" for c
        using that I(7) [of c] I(7) [of a] ob by (auto split: if_splits)
    qed
  qed
qed

lemma retire_table:
  assumes inv: "engine_inv en h" and r: "gc_retire en key = (en', Some a)"
  shows "add_mset a (mset (table en')) = mset (table en)"
proof -
  let ?b = "bucket_for key"
  from r have f: "find_locked en key = Some a"
    and bs: "en_buckets en' = (en_buckets en)[?b := remove1 a (en_buckets en ! ?b)]"
    by (auto simp: gc_retire_def Let_def split: option.splits)
  have a: "a \<in> set (en_buckets en ! ?b)"
    using f by (auto simp: find_locked_def first_match_def find_Some_iff)
  have b: "?b < length (en_buckets en)" using inv bucket_for_bound by (simp add: engine_inv_def)
  let ?B = "mset (en_buckets en ! ?b)"
  have B: "?B = add_mset a (?B - {#a#})" using a by simp
  have "mset (table en') + ?B = mset (table en) + (?B - {#a#})"
    using mset_concat_update [OF b, of "remove1 a (en_buckets en ! ?b)"] by (simp add: bs table_def)
  then have "mset (table en') + add_mset a (?B - {#a#}) = mset (table en) + (?B - {#a#})"
    using B by argo
  then show ?thesis by simp
qed

lemma engine_inv_retire:
  assumes inv: "engine_inv en h" and r: "gc_retire en key = (en', Some a)"
  shows "engine_inv en' (add_mset a h)"
proof -
  let ?b = "bucket_for key"
  let ?f = "\<lambda>ob. ob\<lparr>obj_retired := True, obj_refs := obj_refs ob + 1\<rparr>"
  from r have f: "find_locked en key = Some a"
    and en': "en' = upd_obj a ?f (en\<lparr>en_buckets := (en_buckets en)[?b := remove1 a (en_buckets en ! ?b)]\<rparr>)"
    by (auto simp: gc_retire_def Let_def split: option.splits)
  have a: "a \<in> set (table en)" "heap_key en a = key" using f find_locked_Some [OF inv] by auto
  then obtain ob where ob: "en_heap en a = Some ob" "a \<in> set (en_buckets en ! ?b)"
    using engine_inv_table [OF inv] by (metis heap_key_def option.simps(5))
  have b: "?b < length (en_buckets en)" using inv bucket_for_bound by (simp add: engine_inv_def)
  have tab: "add_mset a (mset (table en')) = mset (table en)" by (rule retire_table [OF inv r])
  have keys: "heap_key en' = heap_key en"
    unfolding en' by (subst heap_key_upd_obj) (auto simp: obj_key_def heap_key_def fun_eq_iff)
  have "distinct (map (heap_key en) (a # table en'))"
  proof -
    have "mset (map (heap_key en) (a # table en')) = mset (map (heap_key en) (table en))"
      using tab by (metis mset.simps(2) mset_map)
    then show ?thesis using inv mset_eq_imp_distinct_iff by (metis engine_inv_def)
  qed
  then have dist: "distinct (map (heap_key en) (table en'))" and notin: "a \<notin> set (table en')"
    by auto
  have set': "set (table en) = insert a (set (table en'))"
    using tab by (metis set_mset_add_mset_insert set_mset_mset)
  have heap: "en_heap en' = (en_heap en)(a \<mapsto> ?f ob)" by (auto simp: en' upd_obj_def ob)
  have len: "length (en_buckets en') = length (en_buckets en)" by (simp add: en')
  have bucket: "\<exists>ob. en_heap en' c = Some ob \<and> \<not> obj_retired ob \<and> bucket_for (obj_key ob) = k"
    if "k < EDB_SHARD_BUCKETS" "c \<in> set (en_buckets en' ! k)" for k c
  proof -
    have "c \<in> set (table en')" using that len inv by (auto simp: table_member engine_inv_def)
    then have "c \<noteq> a" using notin by auto
    moreover have "c \<in> set (en_buckets en ! k)"
      using that b by (auto simp: en' nth_list_update split: if_splits dest: set_remove1_subset [THEN subsetD])
    ultimately show ?thesis using that(1) inv by (simp add: heap engine_inv_def)
  qed
  note I = engine_invD [OF inv]
  show ?thesis
  proof (rule engine_invI [OF _ bucket], unfold keys heap)
    show "length (en_buckets en') = EDB_SHARD_BUCKETS" using len I(1) by simp
    show "distinct (map (heap_key en) (table en'))" by (rule dist)
    show "obj_refs ob' = count (add_mset a h) c" if "((en_heap en)(a \<mapsto> ?f ob)) c = Some ob'" for c ob'
      using that I(4) [of c ob'] I(4) [OF ob(1)] by (auto split: if_splits)
    show "obj_retired ob' \<and> 0 < obj_refs ob'"
      if "((en_heap en)(a \<mapsto> ?f ob)) c = Some ob'" "c \<notin> set (table en')" for c ob'
      using that I(5) [of c ob'] set' by (auto split: if_splits)
    show "((en_heap en)(a \<mapsto> ?f ob)) c \<noteq> None" if "c \<in># add_mset a h" for c
      using that I(6) [of c] by auto
    show "c < en_next en'" if "((en_heap en)(a \<mapsto> ?f ob)) c \<noteq> None" for c
      using that I(7) [of c] I(7) [of a] ob(1) by (auto simp: en' split: if_splits)
  qed
qed

lemma engine_inv_step: "engine_step (en, h) (en', h') \<Longrightarrow> engine_inv en h \<Longrightarrow> engine_inv en' h'"
proof (induction "(en, h)" "(en', h')" rule: engine_step.induct)
  case (use a f r)
  then show ?case by (auto intro: engine_inv_use)
next
  case (adopt a part ks)
  let ?f = "\<lambda>ob. ob\<lparr>obj_shard := adopt_names part ks (obj_shard ob)\<rparr>"
  have "engine_inv (upd_obj a ?f en) (replicate_mset 0 a + h)"
    by (rule engine_inv_upd_obj)
      (use adopt engine_invD(6) in \<open>auto simp: obj_key_def adopt_names_def\<close>)
  with adopt show ?case by simp
next
  case ref_all
  have "engine_inv (ref_shards en (table en)) (mset (table en) + h)"
    by (rule engine_inv_ref_shards [OF ref_all(3)]) (use ref_all(3) table_heap in auto)
  with ref_all show ?case by simp
next
  case (ref_some P)
  have "engine_inv (ref_shards en (filter P (table en))) (mset (filter P (table en)) + h)"
    by (rule engine_inv_ref_shards [OF ref_some(3)]) (use ref_some(3) table_heap in auto)
  with ref_some show ?case by simp
next
  case (files fs)
  have "engine_inv (en\<lparr>en_fs := fs\<rparr>) h = engine_inv en h" by (rule engine_inv_cong) simp_all
  with files show ?case by auto
qed (auto intro: engine_inv_acquire engine_inv_insert engine_inv_release engine_inv_retire)

lemma empty_engine_inv: "engine_inv (empty_engine path fs) {#}"
  by (rule engine_invI) (auto simp: empty_engine_def table_def EDB_SHARD_BUCKETS_def heap_key_def)

lemma reachable_engine_inv: "engine_reachable s \<Longrightarrow> engine_inv (fst s) (snd s)"
proof (induction rule: engine_reachable.induct)
  case (more s t)
  then show ?case using engine_inv_step [of "fst s" "snd s" "fst t" "snd t"] by simp
qed (simp add: empty_engine_inv)

end
