(* ===== verification/Manager_Props.thy ===== *)
theory Manager_Props
  imports Manager_Inv
begin

text \<open>
  What the manager operations promise, seen through the rows each shard key stands for
  (\<open>shard_view\<close>): document operations act on the rows of their own shard and on no other, the
  view survives closing and reopening the engine, garbage collection empties it, a snapshot
  installed under an open handle becomes visible after invalidation.
\<close>

section \<open>The rows a key stands for\<close>

definition handle_rows :: "edb_engine \<Rightarrow> shard_obj \<Rightarrow> row list" where
  "handle_rows en ob =
     (if sh_tx (obj_shard ob) then sh_rows (obj_shard ob) else fs_disk (en_fs en) (obj_inode ob))"

definition file_rows :: "filesystem \<Rightarrow> string \<Rightarrow> row list" where
  "file_rows fs path = (case fs_files fs path of None \<Rightarrow> [] | Some i \<Rightarrow> fs_disk fs i)"

definition shard_view :: "edb_engine \<Rightarrow> string \<Rightarrow> row list" where
  "shard_view en key =
     (case Option.bind (find_locked en key) (en_heap en) of
        Some ob \<Rightarrow> handle_rows en ob
      | None \<Rightarrow> file_rows (en_fs en) (shard_file (en_path en) key))"

text \<open>Files and handles share no inode unless they belong to the same key.\<close>

definition fs_ok :: "edb_engine \<Rightarrow> bool" where
  "fs_ok en \<longleftrightarrow>
     (\<forall>p q i. fs_files (en_fs en) p = Some i \<longrightarrow> fs_files (en_fs en) q = Some i \<longrightarrow> p = q) \<and>
     (\<forall>p i. fs_files (en_fs en) p = Some i \<longrightarrow> i < fs_next (en_fs en)) \<and>
     (\<forall>a ob. a \<in> set (table en) \<longrightarrow> en_heap en a = Some ob \<longrightarrow> obj_inode ob < fs_next (en_fs en) \<and>
        (\<forall>p. fs_files (en_fs en) p = Some (obj_inode ob) \<longrightarrow> p = shard_file (en_path en) (obj_key ob))) \<and>
     (\<forall>a b ob ob'. a \<in> set (table en) \<longrightarrow> b \<in> set (table en) \<longrightarrow> en_heap en a = Some ob \<longrightarrow>
        en_heap en b = Some ob' \<longrightarrow> obj_inode ob = obj_inode ob' \<longrightarrow> a = b)"

text \<open>Every open handle has the file of its key open, and no transaction left open on it.\<close>

definition synced :: "edb_engine \<Rightarrow> bool" where
  "synced en \<longleftrightarrow> (\<forall>a ob. a \<in> set (table en) \<longrightarrow> en_heap en a = Some ob \<longrightarrow> \<not> sh_tx (obj_shard ob) \<and>
     fs_files (en_fs en) (shard_file (en_path en) (obj_key ob)) = Some (obj_inode ob))"

definition engine_ok :: "edb_engine \<Rightarrow> bool" where
  "engine_ok en \<longleftrightarrow> engine_inv en {#} \<and> fs_ok en"

definition env_ok :: "sqlite_env \<Rightarrow> bool" where
  "env_ok e \<longleftrightarrow> sqlite_works e \<and> (\<forall>p. open_ok e p) \<and> (\<forall>q. exec_ok e q)"

lemma shard_file_inject [simp]: "shard_file p k = shard_file p k' \<longleftrightarrow> k = k'"
  by (simp add: shard_file_def)

lemma length_shard_key [simp]: "length (shard_key p k) = 32"
  by (simp add: shard_key_def Let_def length_edb_md5_hex)

section \<open>Views under updates\<close>

lemma view_handle:
  assumes "engine_inv en h" "a \<in> set (table en)" "en_heap en a = Some ob" "obj_key ob = k"
  shows "shard_view en k = handle_rows en ob"
proof -
  have "find_locked en k = Some a"
    using assms find_locked_Some [OF assms(1)] by (simp add: heap_key_def)
  with assms(3) show ?thesis by (simp add: shard_view_def)
qed

lemma view_file:
  "find_locked en k = None \<Longrightarrow> shard_view en k = file_rows (en_fs en) (shard_file (en_path en) k)"
  by (simp add: shard_view_def)

lemma find_handle:
  assumes "engine_inv en h" "find_locked en k = Some a"
  obtains ob where "a \<in> set (table en)" "en_heap en a = Some ob" "obj_key ob = k"
proof -
  have "a \<in> set (table en)" "heap_key en a = k" using find_locked_Some [OF assms(1)] assms(2) by auto
  moreover from this obtain ob where "en_heap en a = Some ob" using table_heap [OF assms(1)] by auto
  ultimately show thesis using that by (simp add: heap_key_def)
qed

lemma find_locked_upd_obj:
  "(\<And>ob. obj_key (f ob) = obj_key ob) \<Longrightarrow> find_locked (upd_obj a f en) = find_locked en"
  by (simp add: fun_eq_iff find_locked_def heap_key_upd_obj)

definition same_content :: "(shard_obj \<Rightarrow> shard_obj) \<Rightarrow> bool" where
  "same_content f \<longleftrightarrow> (\<forall>ob. obj_key (f ob) = obj_key ob \<and> obj_inode (f ob) = obj_inode ob \<and>
     sh_rows (obj_shard (f ob)) = sh_rows (obj_shard ob) \<and> sh_tx (obj_shard (f ob)) = sh_tx (obj_shard ob))"

lemma view_upd_obj:
  assumes "same_content f"
  shows "shard_view (upd_obj a f en) = shard_view en"
proof
  fix k
  have "handle_rows (upd_obj a f en) (f ob) = handle_rows en ob"
    "handle_rows (upd_obj a f en) ob = handle_rows en ob" for ob
    using assms by (simp_all add: same_content_def handle_rows_def)
  with assms show "shard_view (upd_obj a f en) k = shard_view en k"
    by (auto simp: shard_view_def find_locked_upd_obj same_content_def heap_upd_obj
        split: option.splits bind_splits)
qed

lemma fs_ok_upd_obj:
  assumes "same_content f" and "fs_ok en"
  shows "fs_ok (upd_obj a f en)"
proof -
  have inode: "\<exists>ob0. en_heap en c = Some ob0 \<and> obj_inode ob = obj_inode ob0 \<and> obj_key ob = obj_key ob0"
    if "en_heap (upd_obj a f en) c = Some ob" for c ob
    using that assms(1) by (auto simp: heap_upd_obj same_content_def split: if_splits)
  show ?thesis
    unfolding fs_ok_def upd_obj_fields
  proof (intro conjI allI impI)
    fix b c ob ob'
    assume *: "b \<in> set (table en)" "c \<in> set (table en)" "en_heap (upd_obj a f en) b = Some ob"
      "en_heap (upd_obj a f en) c = Some ob'" "obj_inode ob = obj_inode ob'"
    then show "b = c" using inode [OF *(3)] inode [OF *(4)] assms(2) unfolding fs_ok_def by metis
  next
    fix c ob assume *: "c \<in> set (table en)" "en_heap (upd_obj a f en) c = Some ob"
    then show "obj_inode ob < fs_next (en_fs en)"
      using inode [OF *(2)] assms(2) unfolding fs_ok_def by metis
    fix p assume "fs_files (en_fs en) p = Some (obj_inode ob)"
    then show "p = shard_file (en_path en) (obj_key ob)"
      using * inode [OF *(2)] assms(2) unfolding fs_ok_def by metis
  qed (use assms(2) in \<open>auto simp: fs_ok_def\<close>)
qed

lemma synced_upd_obj:
  assumes "same_content f" and "synced en"
  shows "synced (upd_obj a f en)"
proof -
  have "\<exists>ob0. en_heap en c = Some ob0 \<and> obj_inode ob = obj_inode ob0 \<and> obj_key ob = obj_key ob0 \<and>
      sh_tx (obj_shard ob) = sh_tx (obj_shard ob0)"
    if "en_heap (upd_obj a f en) c = Some ob" for c ob
    using that assms(1) by (auto simp: heap_upd_obj same_content_def split: if_splits)
  with assms(2) show ?thesis unfolding synced_def upd_obj_fields by metis
qed

lemma adopt_names_key [simp]: "sh_key (adopt_names p k sh) = sh_key sh"
  by (simp add: adopt_names_def)

lemma same_content_intros [simp]:
  "same_content (\<lambda>ob. ob\<lparr>obj_refs := g ob\<rparr>)"
  "same_content (\<lambda>ob. ob\<lparr>obj_shard := adopt_names p k (obj_shard ob)\<rparr>)"
  by (simp_all add: same_content_def obj_key_def adopt_names_def)

section \<open>Opening a shard\<close>

lemma insert_new:
  assumes inv: "engine_inv en h" and none: "find_locked en (sh_key sh) = None"
    and ins: "insert_shard en sh i acq = (en', a)"
  shows "engine_inv en' (if acq then add_mset a h else h)"
    and "a \<notin> set (table en)" and "set (table en') = insert a (set (table en))"
    and "en_heap en' = (en_heap en)(a \<mapsto> \<lparr>obj_shard = sh, obj_inode = i,
      obj_refs = (if acq then 1 else 0), obj_retired = False\<rparr>)"
    and "en_fs en' = en_fs en" and "en_path en' = en_path en"
proof -
  have b: "bucket_for (sh_key sh) < length (en_buckets en)"
    using inv bucket_for_bound by (simp add: engine_inv_def)
  show "engine_inv en' (if acq then add_mset a h else h)" by (rule engine_inv_insert [OF inv ins])
  show "en_heap en' = (en_heap en)(a \<mapsto> \<lparr>obj_shard = sh, obj_inode = i,
      obj_refs = (if acq then 1 else 0), obj_retired = False\<rparr>)"
    and "en_fs en' = en_fs en" and "en_path en' = en_path en"
    using ins none by (auto simp: insert_shard_def Let_def)
  have a: "a = en_next en" using ins none by (auto simp: insert_shard_def Let_def)
  then show "a \<notin> set (table en)" using engine_invD(7) [OF inv] table_heap [OF inv] by blast
  have bs: "en_buckets en' = (en_buckets en)[bucket_for (sh_key sh) := a # en_buckets en ! bucket_for (sh_key sh)]"
    using ins none by (auto simp: insert_shard_def Let_def)
  have "mset (table en') = add_mset a (mset (table en))"
    using mset_concat_update [OF b, of "a # en_buckets en ! bucket_for (sh_key sh)"]
    unfolding table_def bs by simp
  then show "set (table en') = insert a (set (table en))"
    by (metis set_mset_add_mset_insert set_mset_mset)
qed

text \<open>Opening the file of a key and inserting the handle changes no view.\<close>

lemma open_insert:
  assumes inv: "engine_inv en h" and fs: "fs_ok en" and none: "find_locked en key = None"
    and key: "length key = 32"
    and opened: "open_file e (en_fs en) (shard_file (en_path en) key) key part ks = (fs', Some (sh, i))"
    and ins: "insert_shard (en\<lparr>en_fs := fs'\<rparr>) sh i acq = (en', a)"
  shows "engine_inv en' (if acq then add_mset a h else h) \<and> fs_ok en' \<and> shard_view en' = shard_view en \<and>
    a \<in> set (table en') \<and> (\<exists>ob. en_heap en' a = Some ob \<and> obj_key ob = key) \<and> en_path en' = en_path en \<and>
    (synced en \<longrightarrow> synced en')"
proof -
  let ?p = "shard_file (en_path en) key"
  obtain fs1 i' where oi: "open_inode (en_fs en) ?p = (fs1, i')" by (cases "open_inode (en_fs en) ?p")
  have "fs1 = fs'" and sh: "edb_shard_open e (fs_disk fs' i') ?p key (Some part) (Some ks) = Some sh"
    and ii: "i = i'"
    using opened by (auto simp: open_file_def oi split: if_splits)
  with oi have i': "open_inode (en_fs en) ?p = (fs', i')" by simp
  have shk: "sh_key sh = key" "sh_tx sh = False" "sh_rows sh = fs_disk fs' i"
    using sh key ii by (auto simp: edb_shard_open_def snprintf_s_def split: if_splits)
  let ?en = "en\<lparr>en_fs := fs'\<rparr>"
  have inv': "engine_inv ?en h" using inv engine_inv_cong [of ?en en h] by simp
  have tab: "table ?en = table en" and hk: "heap_key ?en = heap_key en"
    by (simp_all add: table_def heap_key_def fun_eq_iff)
  have none': "find_locked ?en (sh_key sh) = None" using none shk by (simp add: find_locked_def hk)
  note I = insert_new [OF inv' none' ins]
  have fsf: "fs_files fs' q = (if q = ?p then Some i else fs_files (en_fs en) q)" for q
    using i' ii by (auto simp: open_inode_def Let_def split: option.splits)
  have only: "q = ?p" if "fs_files (en_fs en) q = Some i" for q
  proof (cases "fs_files (en_fs en) ?p")
    case None
    with i' ii have "i = fs_next (en_fs en)" by (auto simp: open_inode_def Let_def)
    with that fs show ?thesis by (auto simp: fs_ok_def)
  next
    case (Some j)
    with i' ii have "j = i" by (simp add: open_inode_def)
    with that Some fs show ?thesis by (simp add: fs_ok_def)
  qed
  have nexts: "fs_next (en_fs en) \<le> fs_next fs'" "i < fs_next fs'"
    using i' ii fs by (auto simp: open_inode_def Let_def fs_ok_def split: option.splits)
  have disk: "j < fs_next (en_fs en) \<Longrightarrow> fs_disk fs' j = fs_disk (en_fs en) j" for j
    using i' by (auto simp: open_inode_def Let_def split: option.splits)
  have rows: "fs_disk fs' i = file_rows (en_fs en) ?p"
    using i' ii by (auto simp: open_inode_def Let_def file_rows_def split: option.splits)
  have other: "obj_inode ob < fs_next (en_fs en)" "obj_inode ob \<noteq> i" "obj_key ob \<noteq> key"
    "fs_files (en_fs en) q = Some (obj_inode ob) \<Longrightarrow> q = shard_file (en_path en) (obj_key ob)"
    if "c \<in> set (table en)" "en_heap en c = Some ob" for c ob q
  proof -
    show lt: "obj_inode ob < fs_next (en_fs en)"
      and q: "fs_files (en_fs en) q = Some (obj_inode ob) \<Longrightarrow> q = shard_file (en_path en) (obj_key ob)" for q
      using fs that by (auto simp: fs_ok_def)
    show k: "obj_key ob \<noteq> key"
      using that none find_locked_None [OF inv] by (auto simp: heap_key_def image_iff)
    show "obj_inode ob \<noteq> i"
    proof
      assume eq: "obj_inode ob = i"
      then have "fs_files (en_fs en) ?p = Some i"
        using i' ii lt by (auto simp: open_inode_def Let_def split: option.splits)
      with q [of ?p] eq k show False by simp
    qed
  qed
  have heap: "en_heap en' c = (if c = a then Some \<lparr>obj_shard = sh, obj_inode = i,
      obj_refs = (if acq then 1 else 0), obj_retired = False\<rparr> else en_heap en c)" for c
    using I(4) by simp
  have "fs_ok en'"
    unfolding fs_ok_def
  proof (intro conjI allI impI)
    fix p q j assume *: "fs_files (en_fs en') p = Some j" "fs_files (en_fs en') q = Some j"
    then show "p = q"
      using fs only [of p] only [of q] by (auto simp: I(5) fsf fs_ok_def split: if_splits)
  next
    fix p j assume "fs_files (en_fs en') p = Some j"
    then show "j < fs_next (en_fs en')"
      using fs nexts(2) less_le_trans [OF _ nexts(1), of j]
      by (auto simp: I(5) fsf fs_ok_def split: if_splits)
  next
    fix c ob assume c: "c \<in> set (table en')" "en_heap en' c = Some ob"
    show "obj_inode ob < fs_next (en_fs en')"
      using c nexts(2) less_le_trans [OF other(1) [of c ob] nexts(1)]
      by (auto simp: I(3,5) tab heap split: if_splits)
    fix p assume p: "fs_files (en_fs en') p = Some (obj_inode ob)"
    show "p = shard_file (en_path en') (obj_key ob)"
    proof (cases "c = a")
      case True
      with c have "obj_inode ob = i" "obj_key ob = key" by (auto simp: heap obj_key_def shk)
      with p only [of p] show ?thesis by (auto simp: I(5,6) fsf split: if_splits)
    next
      case False
      with c p other(2,4) [of c ob] show ?thesis
        by (auto simp: I(3,5,6) tab heap fsf split: if_splits)
    qed
  next
    fix b c ob ob' assume *: "b \<in> set (table en')" "c \<in> set (table en')" "en_heap en' b = Some ob"
      "en_heap en' c = Some ob'" "obj_inode ob = obj_inode ob'"
    then show "b = c"
      using other(2) [of b ob] other(2) [of c ob'] fs
      by (auto simp: I(3) tab heap fs_ok_def split: if_splits)
  qed
  moreover have "shard_view en' k = shard_view en k" for k
  proof (cases "k = key")
    case True
    have "shard_view en' key = handle_rows en' \<lparr>obj_shard = sh, obj_inode = i,
        obj_refs = (if acq then 1 else 0), obj_retired = False\<rparr>"
      by (rule view_handle [OF I(1), of a]) (simp_all add: I(3,4) obj_key_def shk)
    also have "\<dots> = shard_view en key"
      using rows by (simp add: handle_rows_def shk I(5) view_file [OF none])
    finally show ?thesis using True by simp
  next
    case False
    show ?thesis
    proof (cases "find_locked en k")
      case (Some c)
      from find_handle [OF inv Some] obtain ob where
        c: "c \<in> set (table en)" "en_heap en c = Some ob" "obj_key ob = k" .
      have "c \<noteq> a" using c I(2) tab by auto
      then have "shard_view en' k = handle_rows en' ob"
        using c by (intro view_handle [OF I(1), of c]) (auto simp: I(3) tab heap)
      also have "\<dots> = handle_rows en ob"
        using other(1) [OF c(1,2)] disk by (simp add: handle_rows_def I(5))
      finally show ?thesis using view_handle [OF inv c] by simp
    next
      case None
      have "k \<notin> heap_key en' ` set (table en')"
        using None find_locked_None [OF inv, of k] False I(2)
        by (auto simp: I(3) tab heap_key_def heap obj_key_def shk image_iff split: if_splits)
      then have "find_locked en' k = None" using find_locked_None [OF I(1)] by simp
      with None False fs show ?thesis
        by (auto simp: view_file I(5,6) file_rows_def fsf disk fs_ok_def split: option.splits)
    qed
  qed
  moreover have "synced en'" if sy: "synced en"
    unfolding synced_def
  proof (intro allI impI)
    fix c ob assume c: "c \<in> set (table en')" "en_heap en' c = Some ob"
    show "\<not> sh_tx (obj_shard ob) \<and>
        fs_files (en_fs en') (shard_file (en_path en') (obj_key ob)) = Some (obj_inode ob)"
    proof (cases "c = a")
      case True
      with c show ?thesis by (auto simp: heap obj_key_def shk I(5,6) fsf)
    next
      case False
      with c have "c \<in> set (table en)" "en_heap en c = Some ob" by (auto simp: I(3) tab heap)
      with sy other(3) show ?thesis by (auto simp: synced_def I(5,6) fsf)
    qed
  qed
  ultimately show ?thesis
    using I(1) by (auto simp: I(3,4,6) obj_key_def shk fun_eq_iff)
qed

section \<open>Acquire, use, release\<close>

lemma shard_for_spec:
  assumes inv: "engine_inv en h" and fs: "fs_ok en" and env: "env_ok e"
  obtains en' a ob where "shard_for e en part ks = (en', Some a)" "engine_inv en' (add_mset a h)" "fs_ok en'"
    "shard_view en' = shard_view en" "a \<in> set (table en')" "en_heap en' a = Some ob"
    "obj_key ob = shard_key part ks" "en_path en' = en_path en" "synced en \<longrightarrow> synced en'"
proof (cases "find_locked en (shard_key part ks)")
  case (Some a)
  from find_handle [OF inv Some] obtain ob where
    a: "a \<in> set (table en)" "en_heap en a = Some ob" "obj_key ob = shard_key part ks" .
  let ?r = "\<lambda>ob. ob\<lparr>obj_refs := Suc (obj_refs ob)\<rparr>"
  let ?ad = "\<lambda>ob. ob\<lparr>obj_shard := adopt_names part ks (obj_shard ob)\<rparr>"
  let ?en = "upd_obj a ?ad (upd_obj a ?r en)"
  have "shard_for e en part ks = (?en, Some a)"
    by (simp add: shard_for_def acquire_cached_def Some)
  moreover have "engine_inv ?en (replicate_mset 0 a + add_mset a h)"
    by (rule engine_inv_upd_obj)
      (use engine_inv_ref_table [OF inv a(1)] a in \<open>auto simp: obj_key_def heap_upd_obj\<close>)
  ultimately show thesis
    using that [of ?en a "?ad (?r ob)"] a fs
    by (simp add: view_upd_obj fs_ok_upd_obj heap_upd_obj obj_key_def synced_upd_obj)
next
  case None
  let ?p = "shard_file (en_path en) (shard_key part ks)"
  obtain fs' sh i where o: "open_file e (en_fs en) ?p (shard_key part ks) part ks = (fs', Some (sh, i))"
    using env by (auto simp: open_file_def edb_shard_open_def env_ok_def Let_def split_beta)
  obtain en' a where ins: "insert_shard (en\<lparr>en_fs := fs'\<rparr>) sh i True = (en', a)"
    by (cases "insert_shard (en\<lparr>en_fs := fs'\<rparr>) sh i True")
  have "shard_for e en part ks = (en', Some a)"
    by (simp add: shard_for_def acquire_cached_def None o ins)
  with open_insert [OF inv fs None length_shard_key o ins] show thesis
    using that by auto
qed

lemma use_shard_spec:
  assumes inv: "engine_inv en h" and fs: "fs_ok en" and a: "a \<in> set (table en)" "en_heap en a = Some ob"
    and f: "\<And>sh. sh_key (fst (f sh)) = sh_key sh"
  shows "\<exists>sh en'. use_shard en a f = (en', Some (snd (f sh))) \<and> sh_rows sh = shard_view en (obj_key ob) \<and>
    sh_partition sh = sh_partition (obj_shard ob) \<and> sh_cache sh = sh_cache (obj_shard ob) \<and>
    engine_inv en' h \<and> fs_ok en' \<and>
    shard_view en' = (shard_view en)(obj_key ob := sh_rows (fst (f sh))) \<and> table en' = table en \<and>
    (\<exists>ob'. en_heap en' a = Some ob' \<and> obj_key ob' = obj_key ob) \<and> en_path en' = en_path en \<and>
    (synced en \<longrightarrow> sh_tx sh = sh_tx (fst (f sh)) \<longrightarrow> synced en')"
proof -
  define sh where "sh = (if sh_tx (obj_shard ob) then obj_shard ob
                    else (obj_shard ob)\<lparr>sh_rows := fs_disk (en_fs en) (obj_inode ob)\<rparr>)"
  define en' where "en' = en\<lparr>en_heap := (en_heap en)(a \<mapsto> ob\<lparr>obj_shard := fst (f sh)\<rparr>),
     en_fs := (if sh_tx (fst (f sh)) then en_fs en
       else (en_fs en)\<lparr>fs_disk := (fs_disk (en_fs en))(obj_inode ob := sh_rows (fst (f sh)))\<rparr>)\<rparr>"
  have use: "use_shard en a f = (en', Some (snd (f sh)))"
    by (simp add: use_shard_def a(2) Let_def split_beta sh_def [symmetric] en'_def)
  have rows: "sh_rows sh = shard_view en (obj_key ob)"
    using view_handle [OF inv a refl] by (simp add: sh_def handle_rows_def)
  have key: "sh_key (fst (f sh)) = obj_key ob" using f by (simp add: sh_def obj_key_def)
  have inv': "engine_inv en' h" by (rule engine_inv_use [OF inv use f])
  have tab: "table en' = table en" and path: "en_path en' = en_path en" by (simp_all add: en'_def table_def)
  have heap: "en_heap en' c = (if c = a then Some (ob\<lparr>obj_shard := fst (f sh)\<rparr>) else en_heap en c)" for c
    by (simp add: en'_def)
  have files: "fs_files (en_fs en') = fs_files (en_fs en)" "fs_next (en_fs en') = fs_next (en_fs en)"
    by (simp_all add: en'_def)
  have disk: "j \<noteq> obj_inode ob \<Longrightarrow> fs_disk (en_fs en') j = fs_disk (en_fs en) j" for j by (simp add: en'_def)
  have "fs_ok en'"
    using fs a unfolding fs_ok_def tab files path heap
    by (auto simp: obj_key_def key split: if_splits)
  moreover have "shard_view en' k = ((shard_view en)(obj_key ob := sh_rows (fst (f sh)))) k" for k
  proof (cases "k = obj_key ob")
    case True
    have "shard_view en' (obj_key ob) = handle_rows en' (ob\<lparr>obj_shard := fst (f sh)\<rparr>)"
      by (rule view_handle [OF inv', of a]) (use a in \<open>auto simp: tab heap obj_key_def key\<close>)
    then show ?thesis using True by (simp add: handle_rows_def en'_def)
  next
    case False
    show ?thesis
    proof (cases "find_locked en k")
      case (Some c)
      from find_handle [OF inv Some] obtain ob2 where
        c: "c \<in> set (table en)" "en_heap en c = Some ob2" "obj_key ob2 = k" .
      have "c \<noteq> a" using c False a by auto
      then have "obj_inode ob2 \<noteq> obj_inode ob" using fs a c unfolding fs_ok_def by blast
      moreover have "shard_view en' k = handle_rows en' ob2"
        by (rule view_handle [OF inv', of c]) (use c \<open>c \<noteq> a\<close> in \<open>auto simp: tab heap\<close>)
      ultimately show ?thesis
        using False view_handle [OF inv c] by (simp add: handle_rows_def disk)
    next
      case None
      have "heap_key en' c = heap_key en c" for c
        using a by (simp add: heap_key_def heap obj_key_def key)
      then have "find_locked en' k = None"
        using None find_locked_None [OF inv] find_locked_None [OF inv'] by (simp add: tab)
      moreover have "file_rows (en_fs en') (shard_file (en_path en) k) = file_rows (en_fs en) (shard_file (en_path en) k)"
      proof (cases "fs_files (en_fs en) (shard_file (en_path en) k)")
        case (Some j)
        have "j \<noteq> obj_inode ob"
        proof
          assume "j = obj_inode ob"
          with Some fs a have "shard_file (en_path en) k = shard_file (en_path en) (obj_key ob)"
            unfolding fs_ok_def by blast
          with False show False by simp
        qed
        then show ?thesis by (simp add: file_rows_def files Some disk)
      qed (simp add: file_rows_def files)
      ultimately show ?thesis using False None by (simp add: view_file path)
    qed
  qed
  moreover have "synced en \<longrightarrow> sh_tx sh = sh_tx (fst (f sh)) \<longrightarrow> synced en'"
    using a unfolding synced_def tab files path heap
    by (auto simp: sh_def obj_key_def f split: if_splits)
  ultimately show ?thesis
    using use rows inv' tab path heap key
    by (intro exI [of _ sh] exI [of _ en']) (auto simp: fun_eq_iff sh_def obj_key_def)
qed

lemma release_spec:
  assumes "engine_inv en (add_mset a h)" "fs_ok en" "a \<in> set (table en)"
  shows "engine_inv (shard_release en a) h \<and> fs_ok (shard_release en a) \<and>
    shard_view (shard_release en a) = shard_view en \<and> en_path (shard_release en a) = en_path en \<and>
    find_locked (shard_release en a) = find_locked en \<and> (synced en \<longrightarrow> synced (shard_release en a))"
proof -
  obtain ob where ob: "en_heap en a = Some ob" "\<not> obj_retired ob"
    using engine_inv_table [OF assms(1,3)] by metis
  have "0 < obj_refs ob" using engine_invD(4) [OF assms(1) ob(1)] by simp
  let ?f = "\<lambda>ob. ob\<lparr>obj_refs := obj_refs ob - 1\<rparr>"
  have "shard_release en a = upd_obj a ?f en"
    using ob \<open>0 < obj_refs ob\<close> by (auto simp: shard_release_def Let_def upd_obj_def)
  moreover have "engine_inv (shard_release en a) h"
    using engine_inv_release [OF assms(1), of a] by simp
  moreover have "find_locked (upd_obj a ?f en) = find_locked en" by (rule find_locked_upd_obj) (simp add: obj_key_def)
  ultimately show ?thesis using assms(2) by (simp add: view_upd_obj fs_ok_upd_obj synced_upd_obj)
qed

text \<open>
  The contract of \<open>with_shard\<close>: the operation runs on the rows of the named shard, its rows become
  the shard's, and no other shard changes.
\<close>

lemma with_shard_held:
  assumes inv: "engine_inv en h" "fs_ok en" and "env_ok e" and f: "\<And>sh. sh_key (fst (f sh)) = sh_key sh"
  shows "\<exists>sh. sh_rows sh = shard_view en (shard_key part ks) \<and>
    snd (with_shard e en part ks missing f) = snd (f sh) \<and>
    shard_view (fst (with_shard e en part ks missing f)) =
      (shard_view en)(shard_key part ks := sh_rows (fst (f sh))) \<and>
    engine_inv (fst (with_shard e en part ks missing f)) h \<and> fs_ok (fst (with_shard e en part ks missing f)) \<and>
    en_path (fst (with_shard e en part ks missing f)) = en_path en \<and>
    find_locked (fst (with_shard e en part ks missing f)) (shard_key part ks) \<noteq> None \<and>
    (synced en \<longrightarrow> sh_tx sh = sh_tx (fst (f sh)) \<longrightarrow> synced (fst (with_shard e en part ks missing f)))"
proof -
  obtain en1 a ob where 1: "shard_for e en part ks = (en1, Some a)" "engine_inv en1 (add_mset a h)" "fs_ok en1"
    "shard_view en1 = shard_view en" "a \<in> set (table en1)" "en_heap en1 a = Some ob"
    "obj_key ob = shard_key part ks" "en_path en1 = en_path en" "synced en \<longrightarrow> synced en1"
    by (rule shard_for_spec [OF inv assms(3)])
  from use_shard_spec [OF 1(2,3,5,6) f] obtain sh en2 ob' where
    2: "use_shard en1 a f = (en2, Some (snd (f sh)))" "sh_rows sh = shard_view en1 (obj_key ob)"
      "engine_inv en2 (add_mset a h)" "fs_ok en2"
      "shard_view en2 = (shard_view en1)(obj_key ob := sh_rows (fst (f sh)))" "table en2 = table en1"
      "en_path en2 = en_path en1" "synced en1 \<longrightarrow> sh_tx sh = sh_tx (fst (f sh)) \<longrightarrow> synced en2"
      "en_heap en2 a = Some ob'" "obj_key ob' = obj_key ob"
    by blast
  have 3: "with_shard e en part ks missing f = (shard_release en2 a, snd (f sh))"
    by (simp add: with_shard_def 1(1) 2(1))
  have "find_locked en2 (shard_key part ks) \<noteq> None"
    using find_locked_Some [OF 2(3), of "shard_key part ks" a] 1(5,7) 2(6,9,10) by (simp add: heap_key_def)
  then show ?thesis
    using release_spec [OF 2(3,4)] 1 2 3 by auto
qed

lemma with_shard_spec:
  assumes "engine_ok en" "env_ok e" and f: "\<And>sh. sh_key (fst (f sh)) = sh_key sh"
  shows "\<exists>sh. sh_rows sh = shard_view en (shard_key part ks) \<and>
    snd (with_shard e en part ks missing f) = snd (f sh) \<and>
    shard_view (fst (with_shard e en part ks missing f)) =
      (shard_view en)(shard_key part ks := sh_rows (fst (f sh))) \<and>
    engine_ok (fst (with_shard e en part ks missing f)) \<and>
    en_path (fst (with_shard e en part ks missing f)) = en_path en \<and>
    (synced en \<longrightarrow> sh_tx sh = sh_tx (fst (f sh)) \<longrightarrow> synced (fst (with_shard e en part ks missing f)))"
  using with_shard_held [of en "{#}" e f part ks missing] assms unfolding engine_ok_def by blast

section \<open>Document operations on views\<close>

lemma shard_ops_keep [simp]:
  "sh_key (fst (edb_shard_put e sh d v ttl)) = sh_key sh" "sh_tx (fst (edb_shard_put e sh d v ttl)) = sh_tx sh"
  "sh_key (fst (edb_shard_get e sh d)) = sh_key sh" "sh_tx (fst (edb_shard_get e sh d)) = sh_tx sh"
  "sh_rows (fst (edb_shard_get e sh d)) = sh_rows sh"
  by (auto simp: edb_shard_put_def do_put_locked_def edb_shard_get_def Let_def split_beta split: option.splits)

definition get_rows :: "sqlite_env \<Rightarrow> row list \<Rightarrow> string \<Rightarrow> cJSON option" where
  "get_rows e rows d =
     (case find_row d rows of
        None \<Rightarrow> None
      | Some r \<Rightarrow> if row_live (now_epoch e) r then parse_value e r else None)"

lemma engine_get:
  assumes "engine_ok en" "env_ok e"
  shows "snd (edb_get e en p k d) = get_rows e (shard_view en (shard_key p k)) d"
proof -
  obtain sh where "sh_rows sh = shard_view en (shard_key p k)"
    "snd (edb_get e en p k d) = snd (edb_shard_get e sh d)"
    using with_shard_spec [OF assms, of "\<lambda>sh. edb_shard_get e sh d" p k None]
    unfolding edb_get_def by auto
  moreover have "sqlite_works e" using assms(2) by (simp add: env_ok_def)
  ultimately show ?thesis
    by (auto simp: get_value get_rows_def shard_map_def split: option.splits)
qed

definition put_row :: "sqlite_env \<Rightarrow> string \<Rightarrow> string \<Rightarrow> int \<Rightarrow> row" where
  "put_row e d v ttl = rop_val (RPut d v (if 0 \<le> ttl then now_epoch e + ttl else - 1) (now_epoch e) (Some []))"

lemma engine_put_held:
  assumes "engine_inv en h" "fs_ok en" "env_ok e"
  shows "shard_view (fst (edb_put e en p k d v ttl)) =
      (shard_view en)(shard_key p k := insert_or_replace (put_row e d v ttl) (shard_view en (shard_key p k))) \<and>
    snd (edb_put e en p k d v ttl) \<and> engine_inv (fst (edb_put e en p k d v ttl)) h \<and>
    fs_ok (fst (edb_put e en p k d v ttl)) \<and> en_path (fst (edb_put e en p k d v ttl)) = en_path en \<and>
    find_locked (fst (edb_put e en p k d v ttl)) (shard_key p k) \<noteq> None \<and>
    (synced en \<longrightarrow> synced (fst (edb_put e en p k d v ttl)))"
proof -
  let ?f = "\<lambda>sh. edb_shard_put e sh d v ttl"
  have w: "sqlite_works e" using assms(3) by (simp add: env_ok_def)
  have put: "snd (?f sh)" "sh_rows (fst (?f sh)) = insert_or_replace (put_row e d v ttl) (sh_rows sh)" for sh
    using do_put_rows [OF w] by (simp_all add: edb_shard_put_def Let_def put_row_def)
  have tx: "sh_tx (fst (?f sh)) = sh_tx sh" for sh by simp
  have "sh_key (fst (?f sh)) = sh_key sh" for sh by simp
  from with_shard_held [OF assms, of ?f, OF this, of p k False] obtain sh where
    "snd (edb_put e en p k d v ttl) = snd (?f sh)" "sh_rows sh = shard_view en (shard_key p k)"
    "shard_view (fst (edb_put e en p k d v ttl)) = (shard_view en)(shard_key p k := sh_rows (fst (?f sh)))"
    "engine_inv (fst (edb_put e en p k d v ttl)) h" "fs_ok (fst (edb_put e en p k d v ttl))"
    "en_path (fst (edb_put e en p k d v ttl)) = en_path en"
    "find_locked (fst (edb_put e en p k d v ttl)) (shard_key p k) \<noteq> None"
    "synced en \<longrightarrow> sh_tx sh = sh_tx (fst (?f sh)) \<longrightarrow> synced (fst (edb_put e en p k d v ttl))"
    unfolding edb_put_def by blast
  with tx put show ?thesis by simp
qed

lemma engine_put:
  assumes "engine_ok en" "env_ok e"
  shows "shard_view (fst (edb_put e en p k d v ttl)) =
      (shard_view en)(shard_key p k := insert_or_replace (put_row e d v ttl) (shard_view en (shard_key p k))) \<and>
    snd (edb_put e en p k d v ttl) \<and> engine_ok (fst (edb_put e en p k d v ttl)) \<and>
    en_path (fst (edb_put e en p k d v ttl)) = en_path en \<and>
    (synced en \<longrightarrow> synced (fst (edb_put e en p k d v ttl)))"
  using engine_put_held [of en "{#}" e] assms by (simp add: engine_ok_def)

lemma get_put_rows:
  "0 \<le> now_epoch e \<Longrightarrow> get_rows e' (insert_or_replace (put_row e d v ttl) rows) d' =
    (if d' = d
     then (if v = [] \<or> 0 \<le> ttl \<and> now_epoch e + ttl < now_epoch e' then None else cJSON_ParseWithLength e' v)
     else get_rows e' rows d')"
  by (auto simp: get_rows_def put_row_def row_live_def parse_value_def)

section \<open>Reopening\<close>

lemma open_file_existing:
  "fs_files fs path \<noteq> None \<Longrightarrow> fst (open_file e fs path key part ks) = fs"
  by (auto simp: open_file_def open_inode_def Let_def)

lemma open_existing_spec:
  assumes "engine_inv en {#}" "fs_ok en" "synced en"
    and "\<And>name. name \<in> set names \<Longrightarrow> is_shard_name name \<Longrightarrow> fs_files (en_fs en) (en_path en @ ''/'' @ name) \<noteq> None"
  shows "engine_inv (open_existing e en names) {#} \<and> fs_ok (open_existing e en names) \<and>
    synced (open_existing e en names) \<and> shard_view (open_existing e en names) = shard_view en"
  using assms
proof (induction names arbitrary: en)
  case (Cons name names)
  show ?case
  proof (cases "is_shard_name name")
    case False
    with Cons show ?thesis by simp
  next
    case True
    let ?key = "take 32 name"
    have path: "en_path en @ ''/'' @ name = shard_file (en_path en) ?key"
      using True append_take_drop_id [of 32 name] by (auto simp: is_shard_name_def shard_file_def)
    have ex: "fs_files (en_fs en) (shard_file (en_path en) ?key) \<noteq> None"
      using Cons.prems(4) [of name] True path by simp
    have rest: "fs_files (en_fs en) (en_path en @ ''/'' @ n) \<noteq> None" if "n \<in> set names" "is_shard_name n" for n
      using Cons.prems(4) [of n] that by simp
    obtain fs' r where o: "open_file e (en_fs en) (shard_file (en_path en) ?key) ?key [] [] = (fs', r)"
      by (cases "open_file e (en_fs en) (shard_file (en_path en) ?key) ?key [] []")
    with open_file_existing [OF ex, of e ?key "[]" "[]"] have fs': "fs' = en_fs en" by simp
    have same: "en\<lparr>en_fs := en_fs en\<rparr> = en" by simp
    show ?thesis
    proof (cases r)
      case None
      with Cons.IH [OF Cons.prems(1-3) rest] show ?thesis
        by (simp add: True path o fs' same del: append.simps append_assoc)
    next
      case (Some shi)
      obtain sh i where shi: "shi = (sh, i)" by (cases shi)
      obtain en' a where ins: "insert_shard en sh i False = (en', a)" by (cases "insert_shard en sh i False")
      have len: "length ?key = 32" using True by (simp add: is_shard_name_def)
      have key: "sh_key sh = ?key"
        using o Some shi len
        by (auto simp: open_file_def edb_shard_open_def snprintf_s_def Let_def split_beta split: if_splits)
      have en': "engine_inv en' {#} \<and> fs_ok en' \<and> synced en' \<and> shard_view en' = shard_view en \<and>
          en_fs en' = en_fs en \<and> en_path en' = en_path en"
      proof (cases "find_locked en ?key")
        case None
        have e: "en_fs en' = en_fs en"
          using insert_new(5) [OF Cons.prems(1) _ ins] None key by simp
        have "insert_shard (en\<lparr>en_fs := fs'\<rparr>) sh i False = (en', a)" using ins by (simp add: fs' same)
        from open_insert [OF Cons.prems(1,2) None len o [unfolded Some shi] this] e Cons.prems(3)
        show ?thesis by simp
      next
        case (Some b)
        with ins key have "en' = en" by (simp add: insert_shard_def)
        with Cons.prems show ?thesis by simp
      qed
      have "fs_files (en_fs en') (en_path en' @ ''/'' @ n) \<noteq> None" if "n \<in> set names" "is_shard_name n" for n
        using en' rest that by simp
      from Cons.IH [OF _ _ _ this] en' show ?thesis
        by (simp add: True path o fs' same Some shi ins del: append.simps append_assoc)
    qed
  qed
qed simp

lemma empty_engine_ok:
  assumes "\<And>p q i. fs_files fs p = Some i \<Longrightarrow> fs_files fs q = Some i \<Longrightarrow> p = q"
    and "\<And>p i. fs_files fs p = Some i \<Longrightarrow> i < fs_next fs"
  shows "engine_inv (empty_engine path fs) {#} \<and> fs_ok (empty_engine path fs) \<and> synced (empty_engine path fs) \<and>
    shard_view (empty_engine path fs) k = file_rows fs (shard_file path k)"
proof -
  have "find_locked (empty_engine path fs) k = None"
    using bucket_for_bound by (simp add: find_locked_def empty_engine_def first_match_def)
  moreover have "table (empty_engine path fs) = []" by (simp add: empty_engine_def table_def)
  ultimately show ?thesis
    using assms empty_engine_inv
    by (auto simp: fs_ok_def synced_def view_file) (simp_all add: empty_engine_def)
qed

lemma synced_view:
  assumes "engine_inv en h" "synced en"
  shows "shard_view en k = file_rows (en_fs en) (shard_file (en_path en) k)"
proof (cases "find_locked en k")
  case None
  then show ?thesis by (rule view_file)
next
  case (Some a)
  from find_handle [OF assms(1) Some] obtain ob where
    a: "a \<in> set (table en)" "en_heap en a = Some ob" "obj_key ob = k" .
  with assms(2) have "\<not> sh_tx (obj_shard ob)" "fs_files (en_fs en) (shard_file (en_path en) k) = Some (obj_inode ob)"
    unfolding synced_def by blast+
  with view_handle [OF assms(1) a] show ?thesis by (simp add: handle_rows_def file_rows_def)
qed

section \<open>Garbage collection and snapshots\<close>

lemma shard_file_last: "last (shard_file d k) = CHR ''e''"
  by (simp add: shard_file_def)

lemma shard_file_sides [simp]:
  "shard_file d k \<noteq> p @ ''-wal''" "shard_file d k \<noteq> p @ ''-shm''" "shard_file d k \<noteq> p @ ''-journal''"
  by (auto dest!: arg_cong [where f = last] simp: shard_file_last)

text \<open>Rows depend on the files of the shards only.\<close>

lemma view_fs_cong:
  assumes "engine_inv en h"
    and "\<And>k. find_locked en k = None \<Longrightarrow>
      file_rows fs (shard_file (en_path en) k) = file_rows (en_fs en) (shard_file (en_path en) k)"
    and "fs_disk fs = fs_disk (en_fs en)"
  shows "shard_view (en\<lparr>en_fs := fs\<rparr>) = shard_view en"
proof
  fix k
  have "find_locked (en\<lparr>en_fs := fs\<rparr>) k = find_locked en k"
    by (simp add: find_locked_def heap_key_def [abs_def])
  with assms show "shard_view (en\<lparr>en_fs := fs\<rparr>) k = shard_view en k"
    by (auto simp: shard_view_def handle_rows_def split: option.splits bind_splits)
      (metis find_handle option.distinct(1))
qed

lemma retire_spec:
  assumes inv: "engine_inv en h" and fs: "fs_ok en" and r: "gc_retire en key = (en', Some a)"
  shows "engine_inv en' (add_mset a h) \<and> fs_ok en' \<and> find_locked en' key = None \<and> a \<notin> set (table en') \<and>
    en_fs en' = en_fs en \<and> en_path en' = en_path en \<and>
    (\<forall>k. k \<noteq> key \<longrightarrow> shard_view en' k = shard_view en k)"
proof -
  have inv': "engine_inv en' (add_mset a h)" by (rule engine_inv_retire [OF inv r])
  from r have f: "find_locked en key = Some a" by (auto simp: gc_retire_def Let_def split: option.splits)
  from find_handle [OF inv f] obtain ob where
    a: "a \<in> set (table en)" "en_heap en a = Some ob" "obj_key ob = key" .
  have fields: "en_fs en' = en_fs en" "en_path en' = en_path en"
    "en_heap en' c = (if c = a then Some (ob\<lparr>obj_retired := True, obj_refs := Suc (obj_refs ob)\<rparr>) else en_heap en c)" for c
    using r f a(2) by (auto simp: gc_retire_def Let_def heap_upd_obj)
  have keys: "heap_key en' = heap_key en" using a by (auto simp: fun_eq_iff heap_key_def fields obj_key_def)
  have out: "a \<notin> set (table en')"
    using engine_inv_table [OF inv', of a] fields(3) [of a] by (metis option.inject shard_obj.select_convs(4)
        shard_obj.simps(8) shard_obj.surjective shard_obj.update_convs(4))
  have "set (table en) = insert a (set (table en'))"
    using retire_table [OF inv r] by (metis set_mset_add_mset_insert set_mset_mset)
  then have sub: "set (table en') = set (table en) - {a}" using out by auto
  have none: "find_locked en' key = None"
  proof -
    have "key \<notin> heap_key en' ` set (table en')"
    proof
      assume "key \<in> heap_key en' ` set (table en')"
      then obtain c where c: "c \<in> set (table en)" "c \<noteq> a" "heap_key en c = key" by (auto simp: sub keys)
      with a engine_invD(3) [OF inv] show False
        by (auto simp: distinct_map inj_on_def heap_key_def)
    qed
    then show ?thesis using find_locked_None [OF inv'] by simp
  qed
  have "shard_view en' k = shard_view en k" if "k \<noteq> key" for k
  proof (cases "find_locked en k")
    case (Some c)
    from find_handle [OF inv Some] obtain ob2 where
      c: "c \<in> set (table en)" "en_heap en c = Some ob2" "obj_key ob2 = k" .
    have "c \<noteq> a" using c a that by auto
    then have "shard_view en' k = handle_rows en' ob2"
      using c by (intro view_handle [OF inv', of c]) (auto simp: sub fields)
    with view_handle [OF inv c] show ?thesis by (simp add: handle_rows_def fields)
  next
    case None
    then have "find_locked en' k = None"
      using find_locked_None [OF inv] find_locked_None [OF inv'] by (auto simp: sub keys)
    with None show ?thesis by (simp add: view_file fields)
  qed
  moreover have "fs_ok en'"
    using fs unfolding fs_ok_def fields sub by auto
  ultimately show ?thesis using inv' none out fields by simp
qed

lemma fs_ok_subset:
  assumes "fs_ok en" and "table en' = table en" "en_heap en' = en_heap en" "en_path en' = en_path en"
    "fs_next (en_fs en') = fs_next (en_fs en)"
    and sub: "\<And>p i. fs_files (en_fs en') p = Some i \<Longrightarrow> fs_files (en_fs en) p = Some i"
  shows "fs_ok en'"
  unfolding fs_ok_def assms(2-5)
proof (intro conjI allI impI)
  fix p q i assume "fs_files (en_fs en') p = Some i" "fs_files (en_fs en') q = Some i"
  from this [THEN sub] show "p = q" using assms(1) by (simp add: fs_ok_def)
next
  fix p i assume "fs_files (en_fs en') p = Some i"
  from sub [OF this] show "i < fs_next (en_fs en)" using assms(1) by (simp add: fs_ok_def)
next
  fix a ob p assume "a \<in> set (table en)" "en_heap en a = Some ob" "fs_files (en_fs en') p = Some (obj_inode ob)"
  with sub [OF this(3)] show "p = shard_file (en_path en) (obj_key ob)" using assms(1) by (simp add: fs_ok_def)
qed (use assms(1) in \<open>auto simp: fs_ok_def\<close>)

lemma gc_unlink_files:
  assumes "length (shard_file (en_path en) key) < 1024"
  shows "fs_files (en_fs (fst (gc_unlink b en key))) (shard_file (en_path en) k) =
      (if b \<and> k = key then None else fs_files (en_fs en) (shard_file (en_path en) k))"
    and "fs_files (en_fs (fst (gc_unlink b en key))) p = Some i \<Longrightarrow> fs_files (en_fs en) p = Some i"
    and "fs_disk (en_fs (fst (gc_unlink b en key))) = fs_disk (en_fs en)"
    and "fs_next (en_fs (fst (gc_unlink b en key))) = fs_next (en_fs en)"
    and "fst (gc_unlink b en key) = en\<lparr>en_fs := en_fs (fst (gc_unlink b en key))\<rparr>"
    and "snd (gc_unlink b en key) \<longleftrightarrow> b \<or> fs_files (en_fs en) (shard_file (en_path en) key) = None"
  using assms
  by (auto simp: gc_unlink_def Let_def unlink_def snprintf_s_id shard_file_sides [symmetric] split: if_splits)

text \<open>
  The second half of a collection: the path goes away, but a shard that is open keeps its rows.
\<close>

lemma unlink_spec:
  fixes b :: bool
  assumes inv: "engine_inv en h" and fs: "fs_ok en" and path: "length (shard_file (en_path en) key) < 1024"
  defines "en2 \<equiv> fst (gc_unlink b en key)"
  shows "engine_inv en2 h" "fs_ok en2" "table en2 = table en" "find_locked en2 = find_locked en" "en_path en2 = en_path en"
    "shard_view en2 k = (if b \<and> k = key \<and> find_locked en k = None then [] else shard_view en k)"
proof -
  note U = gc_unlink_files [OF path, where b = b, folded en2_def]
  show tab: "table en2 = table en" and pth: "en_path en2 = en_path en" by (subst U(5), simp add: table_def)+
  have heap: "en_heap en2 = en_heap en" and b: "en_buckets en2 = en_buckets en" "en_next en2 = en_next en"
    by (subst U(5), simp)+
  show inv2: "engine_inv en2 h" using b heap inv engine_inv_cong [of en2 en h] by simp
  have keys: "heap_key en2 = heap_key en" by (simp add: fun_eq_iff heap_key_def heap)
  show find: "find_locked en2 = find_locked en" by (simp add: fun_eq_iff find_locked_def b keys)
  show "fs_ok en2" by (rule fs_ok_subset [of en]) (use fs U(2,4) tab heap pth in auto)
  show "shard_view en2 k = (if b \<and> k = key \<and> find_locked en k = None then [] else shard_view en k)"
  proof (cases "find_locked en k")
    case None
    then show ?thesis using U(1) U(3) find by (simp add: view_file file_rows_def pth split: option.splits)
  next
    case (Some c)
    from find_handle [OF inv Some] obtain ob where
      c: "c \<in> set (table en)" "en_heap en c = Some ob" "obj_key ob = k" .
    have "shard_view en2 k = handle_rows en2 ob"
      by (rule view_handle [OF inv2, of c]) (use c in \<open>simp_all add: tab heap\<close>)
    with view_handle [OF inv c] Some show ?thesis by (simp add: handle_rows_def U(3))
  qed
qed

text \<open>Letting go of a retired handle frees it and changes nothing else.\<close>

lemma release_retired:
  assumes inv: "engine_inv en (add_mset a h)" and fs: "fs_ok en" and a: "a \<notin> set (table en)"
  defines "en2 \<equiv> shard_release en a"
  shows "engine_inv en2 h" "fs_ok en2" "shard_view en2 = shard_view en" "find_locked en2 = find_locked en"
    "en_fs en2 = en_fs en" "en_path en2 = en_path en"
proof -
  show rel: "engine_inv en2 h" using engine_inv_release [OF inv, of a] by (simp add: en2_def)
  have b: "en_buckets en2 = en_buckets en" and heap: "c \<noteq> a \<Longrightarrow> en_heap en2 c = en_heap en c" for c
    by (auto simp: en2_def shard_release_def Let_def split: option.splits)
  show fld: "en_fs en2 = en_fs en" "en_path en2 = en_path en"
    by (auto simp: en2_def shard_release_def Let_def split: option.splits)
  have tab: "table en2 = table en" by (simp add: table_def b)
  have nota: "c \<noteq> a" if "c \<in> set (table en)" for c using that a by auto
  have find: "find_locked en2 k = find_locked en k" for k
  proof (cases "find_locked en k")
    case None
    have "heap_key en2 ` set (table en) = heap_key en ` set (table en)"
      using nota by (intro image_cong) (auto simp: heap_key_def heap)
    with None find_locked_None [OF inv, of k] have "find_locked en2 k = None"
      using find_locked_None [OF rel, of k] by (simp add: tab)
    with None show ?thesis by simp
  next
    case (Some c)
    then have c: "c \<in> set (table en)" "heap_key en c = k" using find_locked_Some [OF inv] by auto
    then have "heap_key en2 c = k" using nota by (simp add: heap_key_def heap)
    with c have "find_locked en2 k = Some c" using find_locked_Some [OF rel, of k c] by (simp add: tab)
    with Some show ?thesis by simp
  qed
  then show "find_locked en2 = find_locked en" by (simp add: fun_eq_iff)
  have "shard_view en2 k = shard_view en k" for k
  proof (cases "find_locked en k")
    case None
    with find show ?thesis by (simp add: view_file fld)
  next
    case (Some c)
    from find_handle [OF inv Some] obtain ob where
      c: "c \<in> set (table en)" "en_heap en c = Some ob" "obj_key ob = k" .
    have "shard_view en2 k = handle_rows en2 ob"
      by (rule view_handle [OF rel, of c]) (use c nota [OF c(1)] in \<open>simp_all add: tab heap\<close>)
    with view_handle [OF inv c] show ?thesis by (simp add: handle_rows_def fld)
  qed
  then show "shard_view en2 = shard_view en" by (simp add: fun_eq_iff)
  have "c \<in> set (table en) \<Longrightarrow> en_heap en2 c = en_heap en c" for c using nota heap by blast
  then show "fs_ok en2" using fs unfolding fs_ok_def tab fld by simp
qed

text \<open>The first half, whether the shard was open or not.\<close>

lemma retire_any:
  assumes "engine_inv en {#}" "fs_ok en"
  shows "\<exists>h. engine_inv (fst (gc_retire en key)) h \<and> (h = (case snd (gc_retire en key) of None \<Rightarrow> {#} | Some a \<Rightarrow> {#a#})) \<and>
    fs_ok (fst (gc_retire en key)) \<and> find_locked (fst (gc_retire en key)) key = None \<and>
    en_fs (fst (gc_retire en key)) = en_fs en \<and> en_path (fst (gc_retire en key)) = en_path en \<and>
    (\<forall>k. k \<noteq> key \<longrightarrow> shard_view (fst (gc_retire en key)) k = shard_view en k) \<and>
    snd (gc_retire en key) = find_locked en key \<and>
    (\<forall>a. snd (gc_retire en key) = Some a \<longrightarrow> a \<notin> set (table (fst (gc_retire en key))))"
proof (cases "snd (gc_retire en key)")
  case None
  then show ?thesis using assms by (auto simp: gc_retire_def Let_def split: option.splits)
next
  case (Some a)
  then have r: "gc_retire en key = (fst (gc_retire en key), Some a)" by (metis prod.collapse)
  moreover have "find_locked en key = Some a" using Some by (auto simp: gc_retire_def Let_def split: option.splits)
  ultimately show ?thesis using retire_spec [OF assms r] Some by simp
qed

lemma gc_any:
  assumes "engine_ok en" "length key = 32" and path: "length (shard_file (en_path en) key) < 1024"
  shows "(snd (edb_shard_gc b en key) \<longleftrightarrow> b \<or> fs_files (en_fs en) (shard_file (en_path en) key) = None) \<and>
    engine_ok (fst (edb_shard_gc b en key)) \<and> en_path (fst (edb_shard_gc b en key)) = en_path en \<and>
    (\<forall>k. k \<noteq> key \<longrightarrow> shard_view (fst (edb_shard_gc b en key)) k = shard_view en k) \<and>
    (b \<longrightarrow> shard_view (fst (edb_shard_gc b en key)) key = []) \<and>
    find_locked (fst (edb_shard_gc b en key)) key = None"
proof -
  have ok: "engine_inv en {#}" "fs_ok en" using assms(1) by (auto simp: engine_ok_def)
  obtain en1 r where r: "gc_retire en key = (en1, r)" by (cases "gc_retire en key")
  define h where "h = (case r of None \<Rightarrow> {#} | Some a \<Rightarrow> {#a#})"
  have 1: "engine_inv en1 h" "fs_ok en1" "find_locked en1 key = None" "en_fs en1 = en_fs en" "en_path en1 = en_path en"
    "k \<noteq> key \<Longrightarrow> shard_view en1 k = shard_view en k" "r = Some a \<Longrightarrow> a \<notin> set (table en1)" for k a
    using retire_any [OF ok, of key] r by (auto simp: h_def)
  have p1: "length (shard_file (en_path en1) key) < 1024" using 1 path by simp
  note U = unlink_spec [OF 1(1,2) p1, where b = b]
  let ?en2 = "fst (gc_unlink b en1 key)"
  let ?en3 = "case r of None \<Rightarrow> ?en2 | Some a \<Rightarrow> shard_release ?en2 a"
  have gc: "edb_shard_gc b en key = (?en3, b \<or> fs_files (en_fs en) (shard_file (en_path en) key) = None)"
    using assms(2) gc_unlink_files(6) [OF p1, of b] 1(4,5) by (cases r) (simp_all add: edb_shard_gc_def r split_beta)
  have 3: "engine_inv ?en3 {#} \<and> fs_ok ?en3 \<and> shard_view ?en3 = shard_view ?en2 \<and>
      find_locked ?en3 = find_locked ?en2 \<and> en_path ?en3 = en_path ?en2"
  proof (cases r)
    case None
    then show ?thesis using U(1,2) by (simp add: h_def)
  next
    case (Some a)
    have "engine_inv ?en2 (add_mset a {#})" "a \<notin> set (table ?en2)" using U(1,3) 1(7) Some by (simp_all add: h_def)
    from release_retired [OF this(1) U(2) this(2)] Some show ?thesis by simp
  qed
  then show ?thesis
    using gc U(4-6) 1(3,5,6) by (auto simp: engine_ok_def)
qed

lemma gc_spec:
  assumes "engine_ok en" "length key = 32" and path: "length (shard_file (en_path en) key) < 1024"
  shows "snd (edb_shard_gc True en key) \<and> engine_ok (fst (edb_shard_gc True en key)) \<and>
    shard_view (fst (edb_shard_gc True en key)) = (shard_view en)(key := []) \<and>
    find_locked (fst (edb_shard_gc True en key)) key = None"
  using gc_any [OF assms, of True] by (auto simp: fun_eq_iff)

lemma invalidate_spec:
  fixes rows :: "row list"
  assumes ok: "engine_ok en" and env: "env_ok e" and path: "length (shard_file (en_path en) (shard_key p k)) < 1024"
  defines "key \<equiv> shard_key p k"
  defines "en1 \<equiv> en\<lparr>en_fs := replace_file (en_fs en) (shard_file (en_path en) key) rows\<rparr>"
  shows "snd (edb_shard_invalidate e en1 p k) \<and>
    shard_view (fst (edb_shard_invalidate e en1 p k)) = (shard_view en)(key := rows)"
proof -
  let ?p = "shard_file (en_path en) key" and ?i = "fs_next (en_fs en)"
  have inv: "engine_inv en {#}" and fs: "fs_ok en" using ok by (auto simp: engine_ok_def)
  define fs2 where "fs2 = unlink (unlink (en_fs en1) (?p @ ''-wal'')) (?p @ ''-shm'')"
  have files2: "fs_files fs2 (shard_file (en_path en) j) =
      (if j = key then Some ?i else fs_files (en_fs en) (shard_file (en_path en) j))" for j
    by (simp add: fs2_def en1_def unlink_def replace_file_def)
  have disk2: "fs_disk fs2 j = (if j = ?i then rows else fs_disk (en_fs en) j)" for j
    by (simp add: fs2_def en1_def unlink_def replace_file_def)
  obtain sh where open2: "open_file e fs2 ?p key p k = (fs2, Some (sh, ?i))"
    using env files2 [of key] by (auto simp: open_file_def open_inode_def edb_shard_open_def env_ok_def)
  let ?up = "\<lambda>ob. ob\<lparr>obj_inode := ?i, obj_shard := (obj_shard ob)
      \<lparr>sh_cache := [], sh_tx := False, sh_partition := snprintf_s 256 p,
       sh_keyspace := snprintf_s 128 k, sh_expired := 0\<rparr>\<rparr>"
  let ?en2 = "en\<lparr>en_fs := fs2\<rparr>"
  have find1: "find_locked en1 j = find_locked en j" "find_locked ?en2 j = find_locked en j" for j
    by (simp_all add: find_locked_def heap_key_def [abs_def] en1_def)
  have p1: "en_path en1 = en_path en" "en1\<lparr>en_fs := x\<rparr> = en\<lparr>en_fs := x\<rparr>" for x
    by (simp_all add: en1_def)
  have res: "edb_shard_invalidate e en1 p k =
      (case find_locked en key of None \<Rightarrow> ?en2 | Some a \<Rightarrow> upd_obj a ?up ?en2, True)"
    unfolding edb_shard_invalidate_def Let_def key_def [symmetric] p1 fs2_def [symmetric] find1 open2
    using path env by (auto simp: env_ok_def key_def split: option.splits)
  have old: "obj_inode ob \<noteq> ?i" if "c \<in> set (table en)" "en_heap en c = Some ob" for c ob
    using fs that unfolding fs_ok_def by fastforce
  have "shard_view (fst (edb_shard_invalidate e en1 p k)) j = ((shard_view en)(key := rows)) j" for j
  proof (cases "find_locked en key")
    case None
    have "shard_view ?en2 j = (if j = key then rows else shard_view en j)"
    proof (cases "find_locked en j")
      case None
      with fs show ?thesis
        by (auto simp: view_file find1 file_rows_def files2 disk2 fs_ok_def split: option.splits)
    next
      case (Some c)
      from find_handle [OF inv Some] obtain ob where
        c: "c \<in> set (table en)" "en_heap en c = Some ob" "obj_key ob = j" .
      with Some None old [OF c(1,2)] show ?thesis
        by (auto simp: shard_view_def find1 handle_rows_def disk2)
    qed
    with None res show ?thesis by simp
  next
    case (Some a)
    from find_handle [OF inv Some] obtain oa where
      a: "a \<in> set (table en)" "en_heap en a = Some oa" "obj_key oa = key" .
    let ?en3 = "upd_obj a ?up ?en2"
    have find3: "find_locked ?en3 j = find_locked en j" for j
      using find_locked_upd_obj [of ?up a ?en2] find1 by (simp add: obj_key_def)
    have "shard_view ?en3 j = (if j = key then rows else shard_view en j)"
    proof (cases "find_locked en j")
      case None
      with Some fs show ?thesis
        by (auto simp: view_file find3 file_rows_def files2 disk2 fs_ok_def split: option.splits)
    next
      case (Some c)
      from find_handle [OF inv Some] obtain ob where
        c: "c \<in> set (table en)" "en_heap en c = Some ob" "obj_key ob = j" .
      show ?thesis
      proof (cases "c = a")
        case True
        with c a Some show ?thesis
          by (auto simp: shard_view_def find3 handle_rows_def disk2 heap_upd_obj)
      next
        case False
        have "j \<noteq> key" using False Some \<open>find_locked en key = Some a\<close> by auto
        with False c Some old [OF c(1,2)] show ?thesis
          by (simp add: shard_view_def find3 handle_rows_def disk2 heap_upd_obj)
      qed
    qed
    with Some res show ?thesis by simp
  qed
  then show ?thesis using res by (auto simp: fun_eq_iff)
qed

section \<open>Buckets of hexadecimal keys\<close>

definition hex_words :: "u32 list" where
  "hex_words = [0, 1, 2, 3, 4, 5, 6, 7, 8, 9, 10, 11, 12, 13, 14, 15]"

lemma hex_words_fold:
  "\<forall>a \<in> set hex_words. \<forall>b \<in> set hex_words. unat ((push_bit 4 a OR b) AND 511) < 256"
  by (simp add: hex_words_def)

definition shard_key_join :: "string \<Rightarrow> string \<Rightarrow> string" where
  "shard_key_join p k = edb_md5_hex p @ '':'' @ edb_md5_hex k"

section \<open>Properties\<close>

text \<open>
  Shard keys are 32 lowercase hexadecimal digits, and separate shards up to MD5 collisions:
  if two partition/keyspace pairs get the same shard key, they are the same pair, or the two
  computations exhibit an MD5 collision: of the partitions, of the keyspaces, or of the joined digests.
\<close>

theorem shard_key_separates:
  "length (shard_key p k) = 32 \<and> (\<forall>c \<in> set (shard_key p k). is_hex_char c) \<and>
   (shard_key p k = shard_key p' k' \<longrightarrow>
     p = p' \<and> k = k' \<or>
     p \<noteq> p' \<and> edb_md5_hex p = edb_md5_hex p' \<or>
     k \<noteq> k' \<and> edb_md5_hex k = edb_md5_hex k' \<or>
     shard_key_join p k \<noteq> shard_key_join p' k' \<and>
       edb_md5_hex (shard_key_join p k) = edb_md5_hex (shard_key_join p' k'))"
proof -
  have key: "shard_key a b = edb_md5_hex (shard_key_join a b)" for a b
    by (simp add: shard_key_def shard_key_join_def Let_def snprintf_s_id)
  have parts: "shard_key_join p k = shard_key_join p' k' \<Longrightarrow>
      edb_md5_hex p = edb_md5_hex p' \<and> edb_md5_hex k = edb_md5_hex k'"
    by (simp add: shard_key_join_def)
  show ?thesis
    using edb_md5_hex_chars parts by (cases "shard_key_join p k = shard_key_join p' k'") (auto simp: key)
qed

theorem shard_key_separates_witness:
  "shard_key ''p'' ''k'' = shard_key ''p'' ''k'' \<and> ''p'' = ''p'' \<and> length (shard_key ''p'' ''k'') = 32"
  using shard_key_separates [of "''p''" "''k''" "''p''" "''k''"] by simp

text \<open>
  The hash table is never indexed out of range: \<open>bucket_for\<close> of any string is below 512. For
  the hexadecimal keys shards have, it is even below 256, so that half of the buckets stay empty.
\<close>

theorem bucket_for_range:
  "bucket_for key < 512 \<and> (is_hex_char (key ! 0) \<longrightarrow> is_hex_char (key ! 1) \<longrightarrow> bucket_for key < 256)"
proof -
  have hex: "hex_fold c \<in> set hex_words" if "is_hex_char c" for c
    using that by (auto simp: is_hex_char_def hex_digits_def hex_fold_def c_char_def hex_words_def)
  have "bucket_for key < 256" if "is_hex_char (key ! 0)" "is_hex_char (key ! 1)"
  proof -
    have "hex_fold (key ! 0) \<in> set hex_words" "hex_fold (key ! 1) \<in> set hex_words"
      using hex that by auto
    then show ?thesis using hex_words_fold by (simp add: bucket_for_def)
  qed
  then show ?thesis using bucket_for_bound [of key] by (simp add: EDB_SHARD_BUCKETS_def)
qed

theorem bucket_for_range_witness:
  "is_hex_char (''0f'' ! 0) \<and> is_hex_char (''0f'' ! 1) \<and> bucket_for ''0f'' < 256"
  using bucket_for_range [of "''0f''"] by (simp add: is_hex_char_def hex_digits_def)

text \<open>
  C2. Reference counting is safe under every interleaving of the manager's critical sections by
  any number of threads: a handle a thread holds is never freed, its count is the number of
  references held, and a handle outside the table that nobody holds is freed (none leaks).
\<close>

theorem handles_never_freed_while_held:
  assumes "engine_reachable (en, held)"
  shows "(\<forall>a. a \<in># held \<longrightarrow> (\<exists>ob. en_heap en a = Some ob \<and> obj_refs ob = count held a)) \<and>
    (\<forall>a. a \<notin># held \<longrightarrow> a \<notin> set (table en) \<longrightarrow> en_heap en a = None) \<and>
    distinct (map (heap_key en) (table en))"
proof -
  have inv: "engine_inv en held" using reachable_engine_inv [OF assms] by simp
  have "\<exists>ob. en_heap en a = Some ob \<and> obj_refs ob = count held a" if "a \<in># held" for a
    using engine_invD(4,6) [OF inv, of a] that by blast
  moreover have "en_heap en a = None" if "a \<notin># held" "a \<notin> set (table en)" for a
    using engine_invD(4,5) [OF inv, of a] that by (cases "en_heap en a") (auto simp: not_in_iff)
  ultimately show ?thesis using engine_invD(3) [OF inv] by blast
qed

definition no_files :: filesystem where
  "no_files = \<lparr>fs_files = Map.empty, fs_disk = (\<lambda>i. []), fs_next = 0\<rparr>"

lemma no_files_ok: "engine_ok (empty_engine d no_files) \<and> synced (empty_engine d no_files)"
  using empty_engine_ok [of no_files d] by (simp add: engine_ok_def no_files_def)

lemma env_at_ok [simp]: "env_ok (env_at t)"
  by (simp add: env_ok_def)

theorem handles_never_freed_while_held_witness:
  "\<exists>en a. engine_reachable (en, {#a#}) \<and> (\<exists>ob. en_heap en a = Some ob \<and> obj_refs ob = count {#a#} a)"
proof -
  obtain en a where ins: "insert_shard (empty_engine ''d'' no_files) empty_shard 0 True = (en, a)"
    by (cases "insert_shard (empty_engine ''d'' no_files) empty_shard 0 True")
  have r: "engine_reachable (en, {#a#})"
    using more [OF start engine_step.insert [OF ins, of "{#}"]] by simp
  show ?thesis using r handles_never_freed_while_held [OF r] by auto
qed

text \<open>
  C3. The engine as a key-value store: after \<open>edb_put\<close>, \<open>edb_get\<close> with the same partition,
  keyspace and id returns the parsed document until its lifetime is over, every other document
  of the same shard and every document of any other shard reads as before, and the engine stays
  well-formed.
\<close>

theorem engine_put_get:
  assumes "engine_ok en" "env_ok e" "env_ok e'" and "0 \<le> now_epoch e"
  shows "snd (edb_get e' (fst (edb_put e en p k d v ttl)) p k d) =
      (if v = [] \<or> 0 \<le> ttl \<and> now_epoch e + ttl < now_epoch e' then None else cJSON_ParseWithLength e' v) \<and>
    (shard_key p' k' \<noteq> shard_key p k \<or> d' \<noteq> d \<longrightarrow>
      snd (edb_get e' (fst (edb_put e en p k d v ttl)) p' k' d') = snd (edb_get e' en p' k' d')) \<and>
    snd (edb_put e en p k d v ttl) \<and> engine_ok (fst (edb_put e en p k d v ttl))"
  using engine_put [OF assms(1,2)] get_put_rows [OF assms(4)] engine_get [OF assms(1,3)]
    engine_get [OF _ assms(3)] by auto

theorem engine_put_get_witness:
  "snd (edb_get (env_at 12) (fst (edb_put (env_at 10) (empty_engine ''d'' no_files) ''p'' ''k'' ''a'' ''1'' 5)) ''p'' ''k'' ''a'')
     = Some (JString ''1'')"
  using engine_put_get [of "empty_engine ''d'' no_files" "env_at 10" "env_at 12" "''p''" "''k''" "''a''" "''1''" 5]
    no_files_ok by simp

text \<open>
  C26. Durability: a document written with \<open>edb_put\<close> is still there after the engine is closed and
  opened again on the same directory, whatever other shard files the directory lists.
\<close>

theorem put_survives_reopen:
  assumes "engine_ok en" "synced en" "env_ok e" "env_ok e'" and "0 \<le> now_epoch e" "en_path en \<noteq> []"
    and "\<And>name. name \<in> set names \<Longrightarrow> is_shard_name name \<Longrightarrow>
      fs_files (edb_engine_close (fst (edb_put e en p k d v ttl))) (en_path en @ ''/'' @ name) \<noteq> None"
  shows "\<exists>en'. edb_engine_open e'' True (Some names) True (en_path en)
        (edb_engine_close (fst (edb_put e en p k d v ttl))) = Some en' \<and>
      snd (edb_get e' en' p k d) = snd (edb_get e' (fst (edb_put e en p k d v ttl)) p k d)"
proof -
  let ?en = "fst (edb_put e en p k d v ttl)"
  let ?en' = "open_existing e'' (empty_engine (en_path en) (en_fs ?en)) names"
  have put: "engine_ok ?en" "synced ?en" "en_path ?en = en_path en"
    using engine_put [OF assms(1,3)] assms(2) by auto
  have fs: "fs_files (en_fs ?en) p = Some i \<Longrightarrow> fs_files (en_fs ?en) q = Some i \<Longrightarrow> p = q"
    "fs_files (en_fs ?en) p = Some i \<Longrightarrow> i < fs_next (en_fs ?en)" for p q i
    using put(1) by (auto simp: engine_ok_def fs_ok_def)
  note E = empty_engine_ok [of "en_fs ?en", OF fs]
  have fields: "en_fs (empty_engine d f) = f" "en_path (empty_engine d f) = d" for d f
    by (simp_all add: empty_engine_def)
  have ex: "fs_files (en_fs ?en) (en_path en @ ''/'' @ name) \<noteq> None"
    if "name \<in> set names" "is_shard_name name" for name
    using assms(7) [OF that] by (simp add: edb_engine_close_def)
  have new: "engine_inv ?en' {#} \<and> fs_ok ?en' \<and> synced ?en' \<and>
      shard_view ?en' = shard_view (empty_engine (en_path en) (en_fs ?en))"
    by (rule open_existing_spec) (use E ex in \<open>auto simp: fields\<close>)
  have "shard_view ?en' j = shard_view ?en j" for j
    using new E synced_view [of ?en "{#}" j] put by (simp add: engine_ok_def)
  moreover have "edb_engine_open e'' True (Some names) True (en_path en) (edb_engine_close ?en) = Some ?en'"
    using assms(6) by (simp add: edb_engine_open_def edb_engine_close_def)
  ultimately show ?thesis
    using engine_get [of ?en' e'] engine_get [OF put(1) assms(4)] new assms(4) by (simp add: engine_ok_def)
qed

theorem put_survives_reopen_witness:
  "\<exists>en'. edb_engine_open (env_at 20) True (Some []) True ''d''
        (edb_engine_close (fst (edb_put (env_at 10) (empty_engine ''d'' no_files) ''p'' ''k'' ''a'' ''1'' (- 1)))) = Some en' \<and>
      snd (edb_get (env_at 30) en' ''p'' ''k'' ''a'') =
      snd (edb_get (env_at 30) (fst (edb_put (env_at 10) (empty_engine ''d'' no_files) ''p'' ''k'' ''a'' ''1'' (- 1))) ''p'' ''k'' ''a'')"
proof -
  have "en_path (empty_engine ''d'' no_files) = ''d''" by (simp add: empty_engine_def)
  then show ?thesis
    using put_survives_reopen [of "empty_engine ''d'' no_files" "env_at 10" "env_at 30" "[]" "''p''" "''k''" "''a''" "''1''"
        "- 1" "env_at 20"] no_files_ok by simp
qed

text \<open>
  Garbage collection of a shard: \<open>edb_shard_gc\<close> closes the handle and removes the file, so the
  shard reads as empty and is no longer open, and every other shard is untouched.
\<close>

theorem gc_removes_shard:
  assumes "engine_ok en" "env_ok e" and "length (shard_file (en_path en) (shard_key p k)) < 1024"
  shows "snd (edb_shard_gc True en (shard_key p k)) \<and> \<not> edb_shard_is_open (fst (edb_shard_gc True en (shard_key p k))) p k \<and>
    snd (edb_get e (fst (edb_shard_gc True en (shard_key p k))) p k d) = None \<and>
    (shard_key p' k' \<noteq> shard_key p k \<longrightarrow>
      snd (edb_get e (fst (edb_shard_gc True en (shard_key p k))) p' k' d') = snd (edb_get e en p' k' d'))"
  using gc_spec [OF assms(1) length_shard_key assms(3)] engine_get [OF _ assms(2)] assms(1)
  by (auto simp: edb_shard_is_open_def get_rows_def)

theorem gc_removes_shard_witness:
  "snd (edb_get (env_at 20) (fst (edb_shard_gc True
      (fst (edb_put (env_at 10) (empty_engine ''d'' no_files) ''p'' ''k'' ''a'' ''1'' 50)) (shard_key ''p'' ''k''))) ''p'' ''k'' ''a'') = None"
proof -
  let ?en = "fst (edb_put (env_at 10) (empty_engine ''d'' no_files) ''p'' ''k'' ''a'' ''1'' 50)"
  have "engine_ok ?en" "en_path ?en = ''d''"
    using engine_put [of "empty_engine ''d'' no_files" "env_at 10"] no_files_ok by (simp_all add: empty_engine_def)
  then show ?thesis using gc_removes_shard [of ?en "env_at 20" "''p''" "''k''"] by (simp add: shard_file_def)
qed

text \<open>
  Installing a snapshot: when a new file is put in place of a shard's file while the engine
  may have it open, \<open>edb_shard_invalidate\<close> makes every later read see the new file's documents,
  and leaves the other shards alone.
\<close>

theorem invalidate_shows_snapshot:
  assumes "engine_ok en" "env_ok e" and "length (shard_file (en_path en) (shard_key p k)) < 1024"
  shows "snd (edb_shard_invalidate e
        (en\<lparr>en_fs := replace_file (en_fs en) (shard_file (en_path en) (shard_key p k)) rows\<rparr>) p k) \<and>
    shard_view (fst (edb_shard_invalidate e
        (en\<lparr>en_fs := replace_file (en_fs en) (shard_file (en_path en) (shard_key p k)) rows\<rparr>) p k))
      = (shard_view en)(shard_key p k := rows)"
  by (rule invalidate_spec [OF assms])

theorem invalidate_shows_snapshot_witness:
  "\<exists>en. engine_ok en \<and> shard_view (fst (edb_shard_invalidate (env_at 1)
        (en\<lparr>en_fs := replace_file (en_fs en) (shard_file (en_path en) (shard_key ''p'' ''k''))
           [put_row (env_at 1) ''a'' ''2'' 9]\<rparr>) ''p'' ''k'')) (shard_key ''p'' ''k'') = [put_row (env_at 1) ''a'' ''2'' 9]"
proof -
  let ?en = "fst (edb_put (env_at 10) (empty_engine ''d'' no_files) ''p'' ''k'' ''a'' ''1'' 50)"
  have "engine_ok ?en" "en_path ?en = ''d''"
    using engine_put [of "empty_engine ''d'' no_files" "env_at 10"] no_files_ok by (simp_all add: empty_engine_def)
  then show ?thesis
    using invalidate_shows_snapshot [of ?en "env_at 1" "''p''" "''k''" "[put_row (env_at 1) ''a'' ''2'' 9]"]
    by (intro exI [of _ ?en]) (simp add: shard_file_def)
qed

text \<open>The second half of \<open>edb_shard_gc\<close> with the release of the handle the first half retired.\<close>

definition gc_finish :: "edb_engine \<Rightarrow> string \<Rightarrow> nat option \<Rightarrow> edb_engine" where
  "gc_finish en key handle =
     (let en = fst (gc_unlink True en key) in case handle of None \<Rightarrow> en | Some a \<Rightarrow> shard_release en a)"

lemma gc_halves:
  "length key = 32 \<Longrightarrow>
    fst (edb_shard_gc True en key) = gc_finish (fst (gc_retire en key)) key (snd (gc_retire en key))"
  by (simp add: edb_shard_gc_def gc_finish_def split_beta split: option.split)

lemma gc_finish_spec:
  assumes "engine_inv en h" "fs_ok en" "length (shard_file (en_path en) key) < 1024" "find_locked en key \<noteq> None"
    and "h = (case handle of None \<Rightarrow> {#} | Some a \<Rightarrow> {#a#})"
  shows "engine_ok (gc_finish en key handle)" "shard_view (gc_finish en key handle) = shard_view en"
    "fs_files (en_fs (gc_finish en key handle)) (shard_file (en_path en) key) = None"
proof -
  note U = unlink_spec [OF assms(1-3), where b = True]
  let ?en2 = "fst (gc_unlink True en key)"
  have v: "shard_view ?en2 = shard_view en" using U(6) assms(4) by (auto simp: fun_eq_iff)
  have f: "fs_files (en_fs ?en2) (shard_file (en_path en) key) = None" using gc_unlink_files(1) [OF assms(3)] by simp
  have "engine_ok (gc_finish en key handle) \<and> shard_view (gc_finish en key handle) = shard_view ?en2 \<and>
    en_fs (gc_finish en key handle) = en_fs ?en2"
  proof (cases handle)
    case None
    then show ?thesis using U(1,2) assms(5) by (simp add: gc_finish_def Let_def engine_ok_def)
  next
    case (Some a)
    have inv: "engine_inv ?en2 (add_mset a {#})" using U(1) assms(5) Some by simp
    have "en_fs (shard_release ?en2 a) = en_fs ?en2" by (auto simp: shard_release_def Let_def split: option.splits)
    with release_spec [OF inv U(2)] release_retired [OF inv U(2)] Some show ?thesis
      by (cases "a \<in> set (table ?en2)") (simp_all add: gc_finish_def Let_def engine_ok_def)
  qed
  then show "engine_ok (gc_finish en key handle)" "shard_view (gc_finish en key handle) = shard_view en"
    "fs_files (en_fs (gc_finish en key handle)) (shard_file (en_path en) key) = None" using v f by simp_all
qed

text \<open>
  C37. Garbage collection races with writers: \<open>edb_shard_gc\<close> takes the handle of the shard out of the
  table and then unlinks the file with the manager lock released. Whether or not the shard was open,
  it is not in the table after the first half, so a put that runs between the two halves opens the
  old file once more and is acknowledged. After the second half the new handle still answers reads
  of the document, but its file is gone from the directory: once the engine is closed and opened
  again the document, like the whole shard, is lost. Had the put come after the second half, the
  document would be in the file (C26).
\<close>

theorem gc_race_loses_write:
  fixes p k d v :: string and ttl :: int and en :: edb_engine and e e' :: sqlite_env
  assumes "engine_ok en" "env_ok e" "env_ok e'" "0 \<le> now_epoch e"
    and "length (shard_file (en_path en) (shard_key p k)) < 1024"
  defines "halfway \<equiv> fst (gc_retire en (shard_key p k))"
  defines "finished \<equiv> gc_finish (fst (edb_put e halfway p k d v ttl)) (shard_key p k) (snd (gc_retire en (shard_key p k)))"
  shows "snd (gc_retire en (shard_key p k)) = find_locked en (shard_key p k) \<and> find_locked halfway (shard_key p k) = None \<and>
    snd (edb_put e halfway p k d v ttl) \<and>
    snd (edb_get e' finished p k d) =
      (if v = [] \<or> 0 \<le> ttl \<and> now_epoch e + ttl < now_epoch e' then None else cJSON_ParseWithLength e' v) \<and>
    fs_files (edb_engine_close finished) (shard_file (en_path en) (shard_key p k)) = None \<and>
    snd (edb_get e' (empty_engine (en_path en) (edb_engine_close finished)) p k d) = None"
proof -
  let ?key = "shard_key p k" and ?en2 = "fst (edb_put e halfway p k d v ttl)"
  have ok: "engine_inv en {#}" "fs_ok en" using assms(1) by (auto simp: engine_ok_def)
  from retire_any [OF ok, of ?key] obtain h where
    r: "engine_inv halfway h" "h = (case snd (gc_retire en ?key) of None \<Rightarrow> {#} | Some a \<Rightarrow> {#a#})" "fs_ok halfway"
      "find_locked halfway ?key = None" "en_path halfway = en_path en" "snd (gc_retire en ?key) = find_locked en ?key"
    unfolding halfway_def by blast
  note put = engine_put_held [OF r(1,3) assms(2), of p k d v ttl]
  have len: "length (shard_file (en_path ?en2) ?key) < 1024" using put r(5) assms(5) by simp
  have "engine_inv ?en2 h" "fs_ok ?en2" "find_locked ?en2 ?key \<noteq> None" using put by simp_all
  note fin = gc_finish_spec [OF this(1,2) len this(3) r(2), folded finished_def]
  have fs: "fs_files (en_fs finished) a = Some i \<Longrightarrow> fs_files (en_fs finished) b = Some i \<Longrightarrow> a = b"
    "fs_files (en_fs finished) a = Some i \<Longrightarrow> i < fs_next (en_fs finished)" for a b i
    using fin(1) unfolding engine_ok_def fs_ok_def by blast+
  note E = empty_engine_ok [of "en_fs finished" "en_path en", OF fs]
  have "snd (edb_get e' (empty_engine (en_path en) (en_fs finished)) p k d) = None"
    using engine_get [of "empty_engine (en_path en) (en_fs finished)" e' p k d] E fin(3) put r(5) assms(3)
    by (simp add: engine_ok_def file_rows_def get_rows_def)
  then show ?thesis
    using r(4,6) put fin engine_get [OF fin(1) assms(3)] get_put_rows [OF assms(4)] r(5)
    by (simp add: edb_engine_close_def)
qed

text \<open>An engine that has the shard open, with a document in its file.\<close>

definition demo_open :: edb_engine where
  "demo_open = fst (edb_put (env_at 10) (empty_engine ''d'' no_files) ''p'' ''k'' ''a'' ''1'' (- 1))"

lemma demo_open_ok: "engine_ok demo_open" "en_path demo_open = ''d''" "find_locked demo_open (shard_key ''p'' ''k'') \<noteq> None"
  using engine_put_held [of "empty_engine ''d'' no_files" "{#}" "env_at 10" "''p''" "''k''" "''a''" "''1''" "- 1"] no_files_ok
  by (simp_all add: demo_open_def engine_ok_def empty_engine_def)

theorem gc_race_loses_write_witness:
  "\<exists>a en2. gc_retire demo_open (shard_key ''p'' ''k'') = (fst (gc_retire demo_open (shard_key ''p'' ''k'')), Some a) \<and>
     edb_put (env_at 20) (fst (gc_retire demo_open (shard_key ''p'' ''k''))) ''p'' ''k'' ''b'' ''2'' (- 1) = (en2, True) \<and>
     snd (edb_get (env_at 30) (gc_finish en2 (shard_key ''p'' ''k'') (Some a)) ''p'' ''k'' ''b'') = Some (JString ''2'') \<and>
     snd (edb_get (env_at 30) (empty_engine ''d'' (edb_engine_close (gc_finish en2 (shard_key ''p'' ''k'') (Some a)))) ''p'' ''k'' ''b'') = None"
proof -
  have "length (shard_file (en_path demo_open) (shard_key ''p'' ''k'')) < 1024"
    by (simp add: demo_open_ok(2) shard_file_def)
  note r = gc_race_loses_write [OF demo_open_ok(1) _ _ _ this, of "env_at 20" "env_at 30" "''b''" "''2''" "- 1"]
  obtain a where a: "snd (gc_retire demo_open (shard_key ''p'' ''k'')) = Some a" using r demo_open_ok(3) by auto
  note ra = r [unfolded a]
  have f: "find_locked demo_open (shard_key ''p'' ''k'') = Some a" using ra by simp
  show ?thesis
    using ra by (intro exI [of _ a] exI [of _ "fst (edb_put (env_at 20) (fst (gc_retire demo_open (shard_key ''p'' ''k''))) ''p'' ''k'' ''b'' ''2'' (- 1))"])
      (simp add: prod_eq_iff a f demo_open_ok(2))
qed

end
