(* ===== verification/Sha256.thy ===== *)
theory Sha256
  imports Block_Stream
begin

unbundle bit_operations_syntax

text \<open>
  The SHA-256 digest of \<open>src/src/engine/sha256.c\<close>, which the mesh encryption is built
  on. The same streaming contract as MD5 (theory \<open>Block_Stream\<close>), interpreted on this
  context and its update loop.
\<close>

section \<open>Definitions\<close>

record sha256_ctx =
  sha256_state :: "u32 list"
  sha256_bitlen :: u64
  sha256_buffer :: "byte list"
  sha256_buflen :: nat

text \<open>The round constants of \<open>sha256.c\<close>, in decimal; the comment gives the hexadecimal words of the source.\<close>

(* The same words in hexadecimal, as sha256.c writes them:
     428a2f98 71374491 b5c0fbcf e9b5dba5
     3956c25b 59f111f1 923f82a4 ab1c5ed5
     d807aa98 12835b01 243185be 550c7dc3
     72be5d74 80deb1fe 9bdc06a7 c19bf174
     e49b69c1 efbe4786 0fc19dc6 240ca1cc
     2de92c6f 4a7484aa 5cb0a9dc 76f988da
     983e5152 a831c66d b00327c8 bf597fc7
     c6e00bf3 d5a79147 06ca6351 14292967
     27b70a85 2e1b2138 4d2c6dfc 53380d13
     650a7354 766a0abb 81c2c92e 92722c85
     a2bfe8a1 a81a664b c24b8b70 c76c51a3
     d192e819 d6990624 f40e3585 106aa070
     19a4c116 1e376c08 2748774c 34b0bcb5
     391c0cb3 4ed8aa4a 5b9cca4f 682e6ff3
     748f82ee 78a5636f 84c87814 8cc70208
     90befffa a4506ceb bef9a3f7 c67178f2 *)

definition sha256_K :: "u32 list" where
  "sha256_K = [
    1116352408, 1899447441, 3049323471, 3921009573,
    961987163, 1508970993, 2453635748, 2870763221,
    3624381080, 310598401, 607225278, 1426881987,
    1925078388, 2162078206, 2614888103, 3248222580,
    3835390401, 4022224774, 264347078, 604807628,
    770255983, 1249150122, 1555081692, 1996064986,
    2554220882, 2821834349, 2952996808, 3210313671,
    3336571891, 3584528711, 113926993, 338241895,
    666307205, 773529912, 1294757372, 1396182291,
    1695183700, 1986661051, 2177026350, 2456956037,
    2730485921, 2820302411, 3259730800, 3345764771,
    3516065817, 3600352804, 4094571909, 275423344,
    430227734, 506948616, 659060556, 883997877,
    958139571, 1322822218, 1537002063, 1747873779,
    1955562222, 2024104815, 2227730452, 2361852424,
    2428436474, 2756734187, 3204031479, 3329325298]"

definition ROTR :: "u32 \<Rightarrow> nat \<Rightarrow> u32" where
  "ROTR x n = drop_bit n x OR push_bit (32 - n) x"

definition sha256_word :: "byte list \<Rightarrow> nat \<Rightarrow> u32" where
  "sha256_word p i = push_bit 24 (ucast (p ! (i * 4))) OR push_bit 16 (ucast (p ! (i * 4 + 1)))
     OR push_bit 8 (ucast (p ! (i * 4 + 2))) OR ucast (p ! (i * 4 + 3))"

definition sha256_sched_s0 :: "u32 \<Rightarrow> u32" where
  "sha256_sched_s0 x = ROTR x 7 XOR ROTR x 18 XOR drop_bit 3 x"

definition sha256_sched_s1 :: "u32 \<Rightarrow> u32" where
  "sha256_sched_s1 x = ROTR x 17 XOR ROTR x 19 XOR drop_bit 10 x"

text \<open>One step of the message schedule: the word at index \<open>i = length w\<close>.\<close>

definition sha256_extend :: "u32 list \<Rightarrow> u32 list" where
  "sha256_extend w = w @ [w ! (length w - 16) + sha256_sched_s0 (w ! (length w - 15))
     + w ! (length w - 7) + sha256_sched_s1 (w ! (length w - 2))]"

definition sha256_t1 :: "u32 \<Rightarrow> u32 \<Rightarrow> u32 \<Rightarrow> u32 \<Rightarrow> u32 \<Rightarrow> u32 \<Rightarrow> u32" where
  "sha256_t1 e f g h k w =
     h + (ROTR e 6 XOR ROTR e 11 XOR ROTR e 25) + ((e AND f) XOR (NOT e AND g)) + k + w"

definition sha256_t2 :: "u32 \<Rightarrow> u32 \<Rightarrow> u32 \<Rightarrow> u32" where
  "sha256_t2 a b c =
     (ROTR a 2 XOR ROTR a 13 XOR ROTR a 22) + ((a AND b) XOR (a AND c) XOR (b AND c))"

fun sha256_shift :: "u32 \<Rightarrow> u32 \<Rightarrow> u32 \<times> u32 \<times> u32 \<times> u32 \<times> u32 \<times> u32 \<times> u32 \<times> u32
    \<Rightarrow> u32 \<times> u32 \<times> u32 \<times> u32 \<times> u32 \<times> u32 \<times> u32 \<times> u32" where
  "sha256_shift t1 t2 (a, b, c, d, e, f, g, h) = (t1 + t2, a, b, c, d + t1, e, f, g)"

fun sha256_round :: "u32 list \<Rightarrow> nat \<Rightarrow> u32 \<times> u32 \<times> u32 \<times> u32 \<times> u32 \<times> u32 \<times> u32 \<times> u32
    \<Rightarrow> u32 \<times> u32 \<times> u32 \<times> u32 \<times> u32 \<times> u32 \<times> u32 \<times> u32" where
  "sha256_round w i (a, b, c, d, e, f, g, h) =
     sha256_shift (sha256_t1 e f g h (sha256_K ! i) (w ! i)) (sha256_t2 a b c) (a, b, c, d, e, f, g, h)"

fun sha256_add :: "u32 list \<Rightarrow> u32 \<times> u32 \<times> u32 \<times> u32 \<times> u32 \<times> u32 \<times> u32 \<times> u32 \<Rightarrow> u32 list" where
  "sha256_add s (a, b, c, d, e, f, g, h) =
     [s ! 0 + a, s ! 1 + b, s ! 2 + c, s ! 3 + d, s ! 4 + e, s ! 5 + f, s ! 6 + g, s ! 7 + h]"

definition sha256_block :: "u32 list \<Rightarrow> byte list \<Rightarrow> u32 list" where
  "sha256_block s p =
     sha256_add s (fold (sha256_round (fold (\<lambda>_. sha256_extend) [16..<64] (map (sha256_word p) [0..<16]))) [0..<64]
       (s ! 0, s ! 1, s ! 2, s ! 3, s ! 4, s ! 5, s ! 6, s ! 7))"

definition sha256_H0 :: "u32 list" where
  "sha256_H0 = [0x6a09e667, 0xbb67ae85, 0x3c6ef372, 0xa54ff53a,
     0x510e527f, 0x9b05688c, 0x1f83d9ab, 0x5be0cd19]"

definition sha256_init :: "sha256_ctx \<Rightarrow> sha256_ctx" where
  "sha256_init ctx = ctx\<lparr>sha256_state := sha256_H0, sha256_bitlen := 0, sha256_buflen := 0\<rparr>"

text \<open>
  One pass of the copy loop of \<open>sha256_update\<close>. The loop only runs with room in the buffer
  (\<open>buflen < 64\<close>, an invariant shown below); without room the C loop would not move.
\<close>

definition sha256_flush :: "sha256_ctx \<Rightarrow> sha256_ctx" where
  "sha256_flush ctx =
     (if sha256_buflen ctx = 64
      then ctx\<lparr>sha256_state := sha256_block (sha256_state ctx) (sha256_buffer ctx), sha256_buflen := 0\<rparr>
      else ctx)"

definition sha256_take_in :: "sha256_ctx \<Rightarrow> byte list \<Rightarrow> sha256_ctx" where
  "sha256_take_in ctx d =
     sha256_flush (ctx\<lparr>sha256_buffer := memcpy (sha256_buffer ctx) (sha256_buflen ctx) d,
                    sha256_buflen := sha256_buflen ctx + length d\<rparr>)"

function sha256_update_loop :: "sha256_ctx \<Rightarrow> byte list \<Rightarrow> sha256_ctx" where
  "sha256_update_loop ctx data =
     (if data = [] \<or> 64 \<le> sha256_buflen ctx then ctx
      else sha256_update_loop
             (sha256_take_in ctx (take (min (64 - sha256_buflen ctx) (length data)) data))
             (drop (min (64 - sha256_buflen ctx) (length data)) data))"
  by pat_completeness auto
termination
  by (relation "measure (\<lambda>(ctx, data). length data)") auto

definition sha256_update :: "sha256_ctx \<Rightarrow> byte list \<Rightarrow> sha256_ctx" where
  "sha256_update ctx data =
     sha256_update_loop (ctx\<lparr>sha256_bitlen := sha256_bitlen ctx + of_nat (length data) * 8\<rparr>) data"

declare sha256_update_loop.simps [simp del]

lemma sha256_update_loop_part:
  assumes "sha256_buflen c < 64" "length d < 64 - sha256_buflen c"
  shows "sha256_update_loop c d = (if d = [] then c else
    c\<lparr>sha256_buffer := memcpy (sha256_buffer c) (sha256_buflen c) d, sha256_buflen := sha256_buflen c + length d\<rparr>)"
  using assms
  by (simp add: sha256_update_loop.simps [of c d] sha256_update_loop.simps [of _ "[]"] sha256_take_in_def sha256_flush_def Let_def)

lemma sha256_update_zero_buflen:
  "sha256_buflen c < 64 \<Longrightarrow> sha256_buflen (sha256_update c [0]) = (if sha256_buflen c = 63 then 0 else Suc (sha256_buflen c))"
  by (simp add: sha256_update_def sha256_update_loop.simps [of _ "[0]"] sha256_update_loop.simps [of _ "[]"]
      sha256_take_in_def sha256_flush_def Let_def)

text \<open>The zero-byte loop of \<open>sha256_final\<close>.\<close>

function sha256_pad :: "sha256_ctx \<Rightarrow> sha256_ctx" where
  "sha256_pad ctx =
     (if sha256_buflen ctx = 56 \<or> 64 \<le> sha256_buflen ctx then ctx else sha256_pad (sha256_update ctx [0]))"
  by pat_completeness auto
termination
  by (relation "measure (\<lambda>ctx. if sha256_buflen ctx \<le> 56 then 56 - sha256_buflen ctx else 120 - sha256_buflen ctx)")
    (auto simp: sha256_update_zero_buflen)

declare sha256_pad.simps [simp del]

definition sha256_lenbuf :: "u64 \<Rightarrow> byte list" where
  "sha256_lenbuf bitlen = map (\<lambda>i. ucast (drop_bit (8 * (7 - i)) bitlen)) [0..<8]"

definition sha256_output :: "u32 list \<Rightarrow> byte list" where
  "sha256_output s = concat (map (\<lambda>i. [ucast (drop_bit 24 (s ! i)), ucast (drop_bit 16 (s ! i)),
     ucast (drop_bit 8 (s ! i)), ucast (s ! i)]) [0..<8])"

definition sha256_final :: "sha256_ctx \<Rightarrow> byte list" where
  "sha256_final ctx =
     sha256_output (sha256_state
       (sha256_update (sha256_pad (sha256_update ctx [0x80])) (sha256_lenbuf (sha256_bitlen ctx))))"

text \<open>\<open>edb_sha256\<close> with the stack contents of its uninitialised context as an argument.\<close>

definition edb_sha256_on :: "sha256_ctx \<Rightarrow> byte list \<Rightarrow> byte list" where
  "edb_sha256_on stack data = sha256_final (sha256_update (sha256_init stack) data)"

definition sha256_stack0 :: sha256_ctx where
  "sha256_stack0 = \<lparr>sha256_state = replicate 8 0, sha256_bitlen = 0,
     sha256_buffer = replicate 64 0, sha256_buflen = 0\<rparr>"

definition edb_sha256 :: "byte list \<Rightarrow> byte list" where
  "edb_sha256 data = edb_sha256_on sha256_stack0 data"

definition edb_sha256_hex :: "byte list \<Rightarrow> string" where
  "edb_sha256_hex data = hex_of_bytes (edb_sha256 data)"

text \<open>The reference: the block function folded over the padded message.\<close>

definition sha256_reference :: "byte list \<Rightarrow> byte list" where
  "sha256_reference data =
     sha256_output (absorb_blocks sha256_block sha256_H0 (padded sha256_lenbuf data))"

section \<open>Correctness of the streaming computation\<close>

interpretation sha256: block_loop sha256_state sha256_buffer sha256_buflen sha256_bitlen sha256_block
  sha256_update_loop sha256_update sha256_pad
proof unfold_locales
  fix c :: sha256_ctx and d :: "byte list"
  assume b: "sha256_buflen c < 64" "length (sha256_buffer c) = 64"
  show "sha256_pad c = (if sha256_buflen c = 56 then c else sha256_pad (sha256_update c [0]))"
    using b by (simp add: sha256_pad.simps [of c])
  {
    assume "length d < 64 - sha256_buflen c"
    with b show "sha256_state (sha256_update_loop c d) = sha256_state c \<and>
        sha256_buffer (sha256_update_loop c d) = memcpy (sha256_buffer c) (sha256_buflen c) d \<and>
        sha256_buflen (sha256_update_loop c d) = sha256_buflen c + length d \<and>
        sha256_bitlen (sha256_update_loop c d) = sha256_bitlen c"
      by (simp add: sha256_update_loop_part memcpy_def)
  }
  assume le: "64 - sha256_buflen c \<le> length d"
  show "\<exists>c'. sha256_update_loop c d = sha256_update_loop c' (drop (64 - sha256_buflen c) d) \<and>
        sha256_state c' = sha256_block (sha256_state c)
          (take (sha256_buflen c) (sha256_buffer c) @ take (64 - sha256_buflen c) d) \<and>
        sha256_buflen c' = 0 \<and> length (sha256_buffer c') = 64 \<and> sha256_bitlen c' = sha256_bitlen c"
    by (rule exI [of _ "sha256_take_in c (take (64 - sha256_buflen c) d)"])
      (use b le in \<open>simp add: sha256_update_loop.simps [of c d] sha256_take_in_def sha256_flush_def min_def memcpy_def Let_def,
        auto\<close>)
next
  fix c :: sha256_ctx and d :: "byte list"
  show "\<exists>c'. sha256_update c d = sha256_update_loop c' d \<and> sha256_state c' = sha256_state c \<and>
        sha256_buffer c' = sha256_buffer c \<and> sha256_buflen c' = sha256_buflen c \<and>
        sha256_bitlen c' = sha256_bitlen c + of_nat (length d) * 8"
    by (rule exI [of _ "c\<lparr>sha256_bitlen := sha256_bitlen c + of_nat (length d) * 8\<rparr>"])
      (simp add: sha256_update_def)
qed

lemma length_sha256_lenbuf [simp]: "length (sha256_lenbuf w) = 8"
  by (simp add: sha256_lenbuf_def)

lemma length_sha256_output [simp]: "length (sha256_output s) = 32"
  by (simp add: sha256_output_def upt_rec)

lemma sha256_init_sel [simp]:
  "sha256_state (sha256_init c) = sha256_H0"
  "sha256_bitlen (sha256_init c) = 0" "sha256_buffer (sha256_init c) = sha256_buffer c" "sha256_buflen (sha256_init c) = 0"
  by (simp_all add: sha256_init_def sha256_H0_def)

lemma edb_sha256_on_reference:
  assumes "length (sha256_buffer stack) = 64"
  shows "edb_sha256_on stack data = sha256_reference data"
proof -
  let ?c = "sha256_init stack"
  have bits: "sha256_bitlen (sha256_update ?c data) = of_nat (length data) * 8"
    using sha256.upd_spec [of ?c data] assms by simp
  have "sha256_state (sha256_update (sha256_pad (sha256_update (sha256_update ?c data) [0x80]))
          (sha256_lenbuf (of_nat (length data) * 8)))
      = absorb_blocks sha256_block (sha256_state ?c) (padded sha256_lenbuf data)"
    using assms by (intro sha256.stream.hash_spec) simp_all
  then show ?thesis
    by (simp add: edb_sha256_on_def sha256_final_def sha256_reference_def Let_def bits)
qed

lemma edb_sha256_reference: "edb_sha256 data = sha256_reference data"
  unfolding edb_sha256_def by (rule edb_sha256_on_reference) (simp add: sha256_stack0_def)

lemma length_edb_sha256 [simp]: "length (edb_sha256 data) = 32"
  by (simp add: edb_sha256_reference sha256_reference_def)

lemma edb_sha256_hex_shape:
  "length (edb_sha256_hex data) = 64" "c \<in> set (edb_sha256_hex data) \<Longrightarrow> is_hex_char c"
  by (simp_all add: edb_sha256_hex_def hex_of_bytes_hex)

section \<open>Properties\<close>

text \<open>
  C35. SHA-256 streams correctly: whatever the uninitialised context on the stack holds,
  \<open>edb_sha256\<close> computes the block-wise definition of SHA-256 over the padded message, and yields
  32 bytes.
\<close>

theorem sha256_matches_reference:
  assumes "length (sha256_buffer stack) = 64"
  shows "edb_sha256_on stack data = sha256_reference data \<and> length (edb_sha256_on stack data) = 32"
  using edb_sha256_on_reference [OF assms] by (simp add: sha256_reference_def)

theorem sha256_matches_reference_witness:
  "length (sha256_buffer sha256_stack0) = 64 \<and>
   edb_sha256_on sha256_stack0 [1] = sha256_reference [1] \<and> length (edb_sha256_on sha256_stack0 [1]) = 32"
proof -
  have b: "length (sha256_buffer sha256_stack0) = 64" by (simp add: sha256_stack0_def)
  show ?thesis using b sha256_matches_reference [OF b, of "[1]"] by blast
qed

end
