(* ===== verification/Config.thy ===== *)
theory Config
  imports Manager_Props Decimal Sha256
begin

text \<open>
  The configuration store (epsilon_config.c, epsilon_config_entities.c,
  epsilon_config_partitions.c): databases, security groups, users with passwords, partitions with
  permission masks, keyspaces, code records and settings, all kept as JSON documents of the
  reserved \<open>__system__\<close> database in the same engine as user data. Every operation passes the
  configuration on, because even a read of the engine opens and caches shard handles. The
  replication callback is a function on the engine; settings of the cluster itself never go
  through it. Allocation is assumed to succeed.
\<close>

section \<open>State\<close>

type_synonym replicate_fn = "edb_engine \<Rightarrow> string \<Rightarrow> string \<Rightarrow> string option \<Rightarrow> edb_engine \<times> bool"

record edb_config =
  cfg_engine :: edb_engine
  cfg_replicate :: "replicate_fn option"

definition EDB_SYSTEM_DB :: string where
  "EDB_SYSTEM_DB = ''__system__''"

definition CFG_KEYSPACE_DATABASES :: string where
  "CFG_KEYSPACE_DATABASES = ''config_databases''"

definition CFG_KEYSPACE_GROUPS :: string where
  "CFG_KEYSPACE_GROUPS = ''config_groups''"

definition CFG_KEYSPACE_USERS :: string where
  "CFG_KEYSPACE_USERS = ''config_users''"

definition CFG_KEYSPACE_PARTITIONS :: string where
  "CFG_KEYSPACE_PARTITIONS = ''config_partitions''"

definition CFG_KEYSPACE_KEYSPACES :: string where
  "CFG_KEYSPACE_KEYSPACES = ''config_keyspaces''"

definition CFG_KEYSPACE_SETTINGS :: string where
  "CFG_KEYSPACE_SETTINGS = ''config_settings''"

definition CFG_KEYSPACE_CODE :: string where
  "CFG_KEYSPACE_CODE = ''config_code''"

definition EDB_MAX_GROUPS :: nat where
  "EDB_MAX_GROUPS = 63"

record edb_database_info =
  db_name :: string
  db_replication_factor :: int

record edb_group_info =
  gr_name :: string
  gr_bit_position :: u64

record edb_user_info =
  us_name :: string
  us_groups :: u64

record edb_partition_info =
  pt_database :: string
  pt_name :: string
  pt_create_mask :: u64
  pt_update_mask :: u64
  pt_read_mask :: u64
  pt_delete_mask :: u64

record edb_keyspace_info =
  ks_database :: string
  ks_partition :: string
  ks_name :: string

text \<open>\<open>NAME_OK\<close>: not empty, and shorter than the \<open>name\<close> field of the record.\<close>

definition NAME_OK :: "nat \<Rightarrow> string \<Rightarrow> bool" where
  "NAME_OK cap name \<longleftrightarrow> name \<noteq> [] \<and> length name < cap"

section \<open>Records\<close>

definition fetch :: "sqlite_env \<Rightarrow> edb_config \<Rightarrow> string \<Rightarrow> string \<Rightarrow> edb_config \<times> cJSON option" where
  "fetch e cfg keyspace doc =
     (let (en, j) = edb_get e (cfg_engine cfg) EDB_SYSTEM_DB keyspace doc
      in (cfg\<lparr>cfg_engine := en\<rparr>, j))"

text \<open>\<open>strncmp (s, prefix, strlen (prefix)) == 0\<close>\<close>

definition starts_with :: "string \<Rightarrow> string \<Rightarrow> bool" where
  "starts_with s prefix \<longleftrightarrow> take (length prefix) s = prefix"

definition internal_cluster_setting :: "string \<Rightarrow> string \<Rightarrow> bool" where
  "internal_cluster_setting keyspace doc \<longleftrightarrow>
     strcmp keyspace CFG_KEYSPACE_SETTINGS = 0 \<and>
     (starts_with doc ''cluster.'' \<or> starts_with doc ''rebalance.'')"

definition store :: "sqlite_env \<Rightarrow> edb_config \<Rightarrow> string \<Rightarrow> string \<Rightarrow> cJSON \<Rightarrow> edb_config \<times> bool" where
  "store e cfg keyspace doc obj =
     (case cJSON_PrintUnformatted e obj of
        None \<Rightarrow> (cfg, False)
      | Some json \<Rightarrow>
          let (en, ok) =
            (case cfg_replicate cfg of
               Some repl_fn \<Rightarrow>
                 if \<not> internal_cluster_setting keyspace doc
                 then repl_fn (cfg_engine cfg) keyspace doc (Some json)
                 else edb_put e (cfg_engine cfg) EDB_SYSTEM_DB keyspace doc json (- 1)
             | None \<Rightarrow> edb_put e (cfg_engine cfg) EDB_SYSTEM_DB keyspace doc json (- 1))
          in (cfg\<lparr>cfg_engine := en\<rparr>, ok))"

definition remove_record :: "sqlite_env \<Rightarrow> edb_config \<Rightarrow> string \<Rightarrow> string \<Rightarrow> edb_config \<times> bool" where
  "remove_record e cfg keyspace doc =
     (let (en, ok) =
        (case cfg_replicate cfg of
           Some repl_fn \<Rightarrow>
             if \<not> internal_cluster_setting keyspace doc
             then repl_fn (cfg_engine cfg) keyspace doc None
             else edb_delete e (cfg_engine cfg) EDB_SYSTEM_DB keyspace doc
         | None \<Rightarrow> edb_delete e (cfg_engine cfg) EDB_SYSTEM_DB keyspace doc)
      in (cfg\<lparr>cfg_engine := en\<rparr>, ok))"

definition collect :: "sqlite_env \<Rightarrow> edb_config \<Rightarrow> string \<Rightarrow> edb_config \<times> cJSON option" where
  "collect e cfg keyspace =
     (let (en, j) = edb_all e (cfg_engine cfg) EDB_SYSTEM_DB keyspace None
      in (cfg\<lparr>cfg_engine := en\<rparr>, j))"

definition copy_name :: "nat \<Rightarrow> cJSON \<Rightarrow> string \<Rightarrow> string" where
  "copy_name cap obj field =
     (case json_str (json_get (Some obj) field) of None \<Rightarrow> [] | Some s \<Rightarrow> snprintf_s cap s)"

text \<open>The cast of a double to \<open>uint64_t\<close> is undefined from \<open>2 ^ 64\<close> on; here it wraps.\<close>

definition json_u64 :: "cJSON \<Rightarrow> string \<Rightarrow> u64" where
  "json_u64 obj field =
     (case json_get (Some obj) field of
        Some (JString s) \<Rightarrow>
          (case strtoull s of (v, rest, err) \<Rightarrow> if \<not> err \<and> rest = [] then v else 0)
      | Some (JNumber r) \<Rightarrow> if 0 \<le> r then word_of_int (trunc_rat r) else 0
      | _ \<Rightarrow> 0)"

definition u64_json :: "u64 \<Rightarrow> cJSON" where
  "u64_json v = JString (show_nat (unat v))"

definition json_i64 :: "cJSON \<Rightarrow> string \<Rightarrow> int" where
  "json_i64 obj field =
     (case json_get (Some obj) field of
        Some (JString s) \<Rightarrow>
          (case strtoll s of (v, rest, err) \<Rightarrow> if \<not> err \<and> rest = [] then v else 0)
      | Some (JNumber r) \<Rightarrow> trunc_rat r
      | _ \<Rightarrow> 0)"

definition i64_json :: "int \<Rightarrow> cJSON" where
  "i64_json v = JString (show_int v)"

text \<open>\<open>valueint\<close> of a cJSON number saturates at the bounds of \<open>int\<close>.\<close>

definition valueint :: "rat \<Rightarrow> int" where
  "valueint r = max (- (2 ^ 31)) (min (2 ^ 31 - 1) (trunc_rat r))"

section \<open>Databases\<close>

definition db_record :: "string \<Rightarrow> int \<Rightarrow> cJSON" where
  "db_record name rf =
     JObject [(''type'', JString ''database''), (''name'', JString name), (''replication_factor'', json_int rf)]"

definition db_info :: "cJSON \<Rightarrow> edb_database_info" where
  "db_info obj =
     \<lparr>db_name = copy_name 128 obj ''name'',
      db_replication_factor =
        (case json_get (Some obj) ''replication_factor'' of Some (JNumber r) \<Rightarrow> valueint r | _ \<Rightarrow> 1)\<rparr>"

definition edb_database_get ::
  "sqlite_env \<Rightarrow> edb_config \<Rightarrow> string \<Rightarrow> edb_config \<times> edb_database_info option" where
  "edb_database_get e cfg name =
     (let (cfg, obj) = fetch e cfg CFG_KEYSPACE_DATABASES name
      in (cfg, case obj of
                 None \<Rightarrow> None
               | Some obj \<Rightarrow> if db_name (db_info obj) \<noteq> [] then Some (db_info obj) else None))"

definition edb_database_create ::
  "sqlite_env \<Rightarrow> edb_config \<Rightarrow> string \<Rightarrow> int \<Rightarrow> edb_config \<times> bool" where
  "edb_database_create e cfg name replication_factor =
     (if \<not> NAME_OK 128 name \<or> replication_factor < 1 then (cfg, False)
      else
        let (cfg, existing) = edb_database_get e cfg name
        in if existing \<noteq> None then (cfg, False)
           else store e cfg CFG_KEYSPACE_DATABASES name (db_record name replication_factor))"

definition edb_database_list :: "sqlite_env \<Rightarrow> edb_config \<Rightarrow> edb_config \<times> edb_database_info list" where
  "edb_database_list e cfg =
     (let (cfg, all) = collect e cfg CFG_KEYSPACE_DATABASES in (cfg, map db_info (json_items all)))"

text \<open>
  \<open>remove_keyspaces_for\<close>: every matching keyspace record is removed; an error is remembered and
  the loop goes on.
\<close>

definition keyspace_matches :: "string \<Rightarrow> string option \<Rightarrow> cJSON \<Rightarrow> bool" where
  "keyspace_matches database part item \<longleftrightarrow>
     (case (json_str (json_get (Some item) ''database''), json_str (json_get (Some item) ''partition'')) of
        (Some db, Some pt) \<Rightarrow>
          strcmp db database = 0 \<and> (case part of None \<Rightarrow> True | Some p \<Rightarrow> strcmp pt p = 0)
      | _ \<Rightarrow> False)"

definition remove_keyspace_item ::
  "sqlite_env \<Rightarrow> string \<Rightarrow> cJSON \<Rightarrow> edb_config \<Rightarrow> edb_config \<times> bool" where
  "remove_keyspace_item e database item cfg =
     (case (json_str (json_get (Some item) ''partition''), json_str (json_get (Some item) ''name'')) of
        (Some pt, Some name) \<Rightarrow>
          let doc = database @ ''/'' @ pt @ ''/'' @ name
          in if 640 \<le> length doc then (cfg, False) else remove_record e cfg CFG_KEYSPACE_KEYSPACES doc
      | _ \<Rightarrow> (cfg, False))"

fun remove_keyspace_items ::
  "sqlite_env \<Rightarrow> string \<Rightarrow> cJSON list \<Rightarrow> edb_config \<Rightarrow> edb_config \<times> bool" where
  "remove_keyspace_items e database [] cfg = (cfg, True)"
| "remove_keyspace_items e database (item # items) cfg =
     (let (cfg, ok) = remove_keyspace_item e database item cfg;
          (cfg, oks) = remove_keyspace_items e database items cfg
      in (cfg, ok \<and> oks))"

definition remove_keyspaces_for ::
  "sqlite_env \<Rightarrow> edb_config \<Rightarrow> string \<Rightarrow> string option \<Rightarrow> edb_config \<times> bool" where
  "remove_keyspaces_for e cfg database part =
     (let (cfg, all) = collect e cfg CFG_KEYSPACE_KEYSPACES
      in case all of
           None \<Rightarrow> (cfg, True)
         | Some _ \<Rightarrow>
             remove_keyspace_items e database (filter (keyspace_matches database part) (json_items all)) cfg)"

section \<open>Security groups\<close>

definition group_record :: "string \<Rightarrow> u64 \<Rightarrow> cJSON" where
  "group_record name bp =
     JObject [(''type'', JString ''group''), (''name'', JString name), (''bit_position'', u64_json bp)]"

definition group_info :: "cJSON \<Rightarrow> edb_group_info" where
  "group_info obj = \<lparr>gr_name = copy_name 128 obj ''name'', gr_bit_position = json_u64 obj ''bit_position''\<rparr>"

definition edb_group_get ::
  "sqlite_env \<Rightarrow> edb_config \<Rightarrow> string \<Rightarrow> edb_config \<times> edb_group_info option" where
  "edb_group_get e cfg name =
     (let (cfg, obj) = fetch e cfg CFG_KEYSPACE_GROUPS name
      in (cfg, case obj of
                 None \<Rightarrow> None
               | Some obj \<Rightarrow>
                   let g = group_info obj
                   in if gr_name g \<noteq> [] \<and> 1 \<le> gr_bit_position g \<and> gr_bit_position g \<le> of_nat EDB_MAX_GROUPS
                      then Some g else None))"

definition edb_group_list :: "sqlite_env \<Rightarrow> edb_config \<Rightarrow> edb_config \<times> edb_group_info list" where
  "edb_group_list e cfg =
     (let (cfg, all) = collect e cfg CFG_KEYSPACE_GROUPS in (cfg, map group_info (json_items all)))"

definition used_bits :: "edb_group_info list \<Rightarrow> u64" where
  "used_bits groups =
     foldl (\<lambda>used g.
       if 1 \<le> gr_bit_position g \<and> gr_bit_position g \<le> of_nat EDB_MAX_GROUPS
       then used OR push_bit (unat (gr_bit_position g - 1)) 1
       else used) 0 groups"

definition next_free_bit :: "sqlite_env \<Rightarrow> edb_config \<Rightarrow> edb_config \<times> u64" where
  "next_free_bit e cfg =
     (let (cfg, groups) = edb_group_list e cfg; used = used_bits groups
      in (cfg, case first_match (\<lambda>b. used AND push_bit (b - 1) 1 = 0) [1..<EDB_MAX_GROUPS + 1] of
                 None \<Rightarrow> 0
               | Some b \<Rightarrow> of_nat b))"

definition edb_group_create :: "sqlite_env \<Rightarrow> edb_config \<Rightarrow> string \<Rightarrow> edb_config \<times> bool" where
  "edb_group_create e cfg name =
     (if \<not> NAME_OK 128 name then (cfg, False)
      else
        let (cfg, existing) = edb_group_get e cfg name
        in if existing \<noteq> None then (cfg, False)
           else
             let (cfg, bp) = next_free_bit e cfg
             in if bp = 0 then (cfg, False)
                else store e cfg CFG_KEYSPACE_GROUPS name (group_record name bp))"

definition edb_group_delete :: "sqlite_env \<Rightarrow> edb_config \<Rightarrow> string \<Rightarrow> edb_config \<times> bool" where
  "edb_group_delete e cfg name = remove_record e cfg CFG_KEYSPACE_GROUPS name"

section \<open>Users\<close>

definition user_record :: "string \<Rightarrow> u64 \<Rightarrow> cJSON" where
  "user_record name groups =
     JObject [(''type'', JString ''user''), (''name'', JString name), (''groups'', u64_json groups)]"

definition user_info :: "cJSON \<Rightarrow> edb_user_info" where
  "user_info obj = \<lparr>us_name = copy_name 128 obj ''name'', us_groups = json_u64 obj ''groups''\<rparr>"

definition edb_user_get ::
  "sqlite_env \<Rightarrow> edb_config \<Rightarrow> string \<Rightarrow> edb_config \<times> edb_user_info option" where
  "edb_user_get e cfg name =
     (let (cfg, obj) = fetch e cfg CFG_KEYSPACE_USERS name
      in (cfg, case obj of
                 None \<Rightarrow> None
               | Some obj \<Rightarrow> if us_name (user_info obj) \<noteq> [] then Some (user_info obj) else None))"

definition edb_user_create :: "sqlite_env \<Rightarrow> edb_config \<Rightarrow> string \<Rightarrow> u64 \<Rightarrow> edb_config \<times> bool" where
  "edb_user_create e cfg name groups =
     (if \<not> NAME_OK 128 name then (cfg, False)
      else
        let (cfg, existing) = edb_user_get e cfg name
        in if existing \<noteq> None then (cfg, False)
           else store e cfg CFG_KEYSPACE_USERS name (user_record name groups))"

definition edb_user_delete :: "sqlite_env \<Rightarrow> edb_config \<Rightarrow> string \<Rightarrow> edb_config \<times> bool" where
  "edb_user_delete e cfg name = remove_record e cfg CFG_KEYSPACE_USERS name"

definition user_update :: "sqlite_env \<Rightarrow> edb_config \<Rightarrow> string \<Rightarrow> u64 \<Rightarrow> edb_config \<times> bool" where
  "user_update e cfg name groups = store e cfg CFG_KEYSPACE_USERS name (user_record name groups)"

definition edb_user_set_groups :: "sqlite_env \<Rightarrow> edb_config \<Rightarrow> string \<Rightarrow> u64 \<Rightarrow> edb_config \<times> bool" where
  "edb_user_set_groups e cfg name groups =
     (let (cfg, existing) = edb_user_get e cfg name
      in if existing = None then (cfg, False) else user_update e cfg name groups)"

definition edb_user_list :: "sqlite_env \<Rightarrow> edb_config \<Rightarrow> edb_config \<times> edb_user_info list" where
  "edb_user_list e cfg =
     (let (cfg, all) = collect e cfg CFG_KEYSPACE_USERS in (cfg, map user_info (json_items all)))"

definition edb_admin_exists :: "sqlite_env \<Rightarrow> edb_config \<Rightarrow> edb_config \<times> bool" where
  "edb_admin_exists e cfg =
     (let (cfg, users) = edb_user_list e cfg in (cfg, \<exists>u \<in> set users. us_groups u AND 1 \<noteq> 0))"

section \<open>Passwords\<close>

definition EDB_PASSWORD_ITERATIONS :: nat where
  "EDB_PASSWORD_ITERATIONS = 100000"

text \<open>\<open>edb_random_hex\<close> on the bytes the system returned; it uses at most 128 of them.\<close>

definition edb_random_hex :: "byte list \<Rightarrow> nat \<Rightarrow> string" where
  "edb_random_hex random hex_chars = take hex_chars (hex_of_bytes (take (min ((hex_chars + 1) div 2) 128) random))"

definition hex_value :: "char \<Rightarrow> int" where
  "hex_value c =
     (let v = int (of_char c)
      in if 48 \<le> v \<and> v \<le> 57 then v - 48
         else if 97 \<le> v \<and> v \<le> 102 then v - 97 + 10
         else if 65 \<le> v \<and> v \<le> 70 then v - 65 + 10
         else - 1)"

text \<open>A C string read at an index; the terminator is \<open>CHR 0\<close>.\<close>

definition c_at :: "string \<Rightarrow> nat \<Rightarrow> char" where
  "c_at s i = (if i < length s then s ! i else CHR 0x00)"

fun hex_decode_from :: "string \<Rightarrow> nat \<Rightarrow> nat \<Rightarrow> byte list option" where
  "hex_decode_from hex i 0 = Some []"
| "hex_decode_from hex i (Suc n) =
     (let hi = hex_value (c_at hex (i * 2)); lo = hex_value (c_at hex (i * 2 + 1))
      in if hi < 0 \<or> lo < 0 then None
         else map_option ((#) (push_bit 4 (word_of_int hi) OR word_of_int lo)) (hex_decode_from hex (Suc i) n))"

definition hex_decode :: "string \<Rightarrow> nat \<Rightarrow> byte list option" where
  "hex_decode hex out_len = hex_decode_from hex 0 out_len"

definition hash_password :: "string \<Rightarrow> string \<Rightarrow> string" where
  "hash_password salt_hex password =
     (let salt = (case hex_decode salt_hex 16 of None \<Rightarrow> replicate 16 0 | Some s \<Rightarrow> s);
          input = salt @ bytes_of_string (take 256 password);
          digest = (edb_sha256 ^^ (EDB_PASSWORD_ITERATIONS - 1)) (edb_sha256 input)
      in hex_of_bytes digest)"

definition password_record :: "string \<Rightarrow> u64 \<Rightarrow> string \<Rightarrow> string \<Rightarrow> cJSON" where
  "password_record name groups salt_hex hash =
     JObject [(''type'', JString ''user''), (''name'', JString name), (''groups'', u64_json groups),
       (''salt'', JString salt_hex), (''password_hash'', JString hash)]"

text \<open>\<open>edb_user_set_password\<close> with the random bytes of its salt.\<close>

definition edb_user_set_password ::
  "sqlite_env \<Rightarrow> byte list \<Rightarrow> edb_config \<Rightarrow> string \<Rightarrow> string \<Rightarrow> edb_config \<times> bool" where
  "edb_user_set_password e random cfg name password =
     (if password = [] then (cfg, False)
      else
        let (cfg, existing) = edb_user_get e cfg name
        in case existing of
             None \<Rightarrow> (cfg, False)
           | Some u \<Rightarrow>
               let salt_hex = edb_random_hex random 32; hash = hash_password salt_hex password
               in store e cfg CFG_KEYSPACE_USERS name (password_record name (us_groups u) salt_hex hash))"

definition edb_user_verify_password ::
  "sqlite_env \<Rightarrow> edb_config \<Rightarrow> string \<Rightarrow> string \<Rightarrow> edb_config \<times> bool" where
  "edb_user_verify_password e cfg name password =
     (let (cfg, obj) = fetch e cfg CFG_KEYSPACE_USERS name
      in (cfg, case obj of
                 None \<Rightarrow> False
               | Some obj \<Rightarrow>
                   (case (json_str (json_get (Some obj) ''salt''), json_str (json_get (Some obj) ''password_hash'')) of
                      (Some salt, Some hash) \<Rightarrow>
                        length salt = 32 \<and> length hash = 64 \<and> strcmp (hash_password salt password) hash = 0
                    | _ \<Rightarrow> False)))"

definition edb_user_has_password :: "sqlite_env \<Rightarrow> edb_config \<Rightarrow> string \<Rightarrow> edb_config \<times> bool" where
  "edb_user_has_password e cfg name =
     (let (cfg, obj) = fetch e cfg CFG_KEYSPACE_USERS name
      in (cfg, case obj of
                 None \<Rightarrow> False
               | Some obj \<Rightarrow>
                   (case json_str (json_get (Some obj) ''password_hash'') of
                      Some hash \<Rightarrow> length hash = 64
                    | None \<Rightarrow> False)))"

section \<open>Partitions and keyspaces\<close>

definition partition_id :: "string \<Rightarrow> string \<Rightarrow> string" where
  "partition_id database name = snprintf_s 384 (database @ ''/'' @ name)"

definition partition_record :: "string \<Rightarrow> string \<Rightarrow> u64 \<Rightarrow> u64 \<Rightarrow> u64 \<Rightarrow> u64 \<Rightarrow> cJSON" where
  "partition_record database name create_mask update_mask read_mask delete_mask =
     JObject [(''type'', JString ''partition''), (''database'', JString database), (''name'', JString name),
       (''create_mask'', u64_json create_mask), (''update_mask'', u64_json update_mask),
       (''read_mask'', u64_json read_mask), (''delete_mask'', u64_json delete_mask)]"

definition partition_info :: "cJSON \<Rightarrow> edb_partition_info" where
  "partition_info obj =
     \<lparr>pt_database = copy_name 128 obj ''database'', pt_name = copy_name 256 obj ''name'',
      pt_create_mask = json_u64 obj ''create_mask'', pt_update_mask = json_u64 obj ''update_mask'',
      pt_read_mask = json_u64 obj ''read_mask'', pt_delete_mask = json_u64 obj ''delete_mask''\<rparr>"

definition edb_partition_get ::
  "sqlite_env \<Rightarrow> edb_config \<Rightarrow> string \<Rightarrow> string \<Rightarrow> edb_config \<times> edb_partition_info option" where
  "edb_partition_get e cfg database name =
     (let (cfg, obj) = fetch e cfg CFG_KEYSPACE_PARTITIONS (partition_id database name)
      in (cfg, case obj of
                 None \<Rightarrow> None
               | Some obj \<Rightarrow> if pt_name (partition_info obj) \<noteq> [] then Some (partition_info obj) else None))"

definition edb_partition_create ::
  "sqlite_env \<Rightarrow> edb_config \<Rightarrow> string \<Rightarrow> string \<Rightarrow> u64 \<Rightarrow> u64 \<Rightarrow> u64 \<Rightarrow> u64 \<Rightarrow> edb_config \<times> bool" where
  "edb_partition_create e cfg database name create_mask update_mask read_mask delete_mask =
     (if \<not> NAME_OK 256 database \<or> \<not> NAME_OK 256 name then (cfg, False)
      else
        let (cfg, existing) = edb_partition_get e cfg database name
        in if existing \<noteq> None then (cfg, False)
           else store e cfg CFG_KEYSPACE_PARTITIONS (partition_id database name)
                  (partition_record database name create_mask update_mask read_mask delete_mask))"

definition edb_partition_delete ::
  "sqlite_env \<Rightarrow> edb_config \<Rightarrow> string \<Rightarrow> string \<Rightarrow> edb_config \<times> bool" where
  "edb_partition_delete e cfg database name =
     (let (cfg, ok) = remove_keyspaces_for e cfg database (Some name)
      in if ok then remove_record e cfg CFG_KEYSPACE_PARTITIONS (partition_id database name) else (cfg, False))"

definition edb_partition_set_masks ::
  "sqlite_env \<Rightarrow> edb_config \<Rightarrow> string \<Rightarrow> string \<Rightarrow> u64 \<Rightarrow> u64 \<Rightarrow> u64 \<Rightarrow> u64 \<Rightarrow> edb_config \<times> bool" where
  "edb_partition_set_masks e cfg database name create_mask update_mask read_mask delete_mask =
     (let (cfg, existing) = edb_partition_get e cfg database name
      in if existing = None then (cfg, False)
         else store e cfg CFG_KEYSPACE_PARTITIONS (partition_id database name)
                (partition_record database name create_mask update_mask read_mask delete_mask))"

definition keyspace_id :: "string \<Rightarrow> string \<Rightarrow> string \<Rightarrow> string" where
  "keyspace_id database part keyspace = snprintf_s 640 (database @ ''/'' @ part @ ''/'' @ keyspace)"

definition keyspace_record :: "string \<Rightarrow> string \<Rightarrow> string \<Rightarrow> cJSON" where
  "keyspace_record database part keyspace =
     JObject [(''type'', JString ''keyspace''), (''database'', JString database),
       (''partition'', JString part), (''name'', JString keyspace)]"

text \<open>The second half of \<open>edb_partition_ensure\<close>: register the keyspace unless it is known.\<close>

definition ensure_keyspace ::
  "sqlite_env \<Rightarrow> edb_config \<Rightarrow> string \<Rightarrow> string \<Rightarrow> string \<Rightarrow> edb_config \<times> bool" where
  "ensure_keyspace e cfg database part keyspace =
     (let (cfg, ks) = fetch e cfg CFG_KEYSPACE_KEYSPACES (keyspace_id database part keyspace)
      in if ks \<noteq> None then (cfg, True)
         else store e cfg CFG_KEYSPACE_KEYSPACES (keyspace_id database part keyspace)
                (keyspace_record database part keyspace))"

text \<open>The result is whether the write may proceed, and whether a partition was created.\<close>

definition edb_partition_ensure ::
  "sqlite_env \<Rightarrow> edb_config \<Rightarrow> string \<Rightarrow> string \<Rightarrow> string \<Rightarrow> edb_config \<times> bool \<times> bool" where
  "edb_partition_ensure e cfg database part keyspace =
     (if database = [] \<or> part = [] \<or> keyspace = [] then (cfg, False, False)
      else if \<not> NAME_OK 256 database \<or> \<not> NAME_OK 128 part then (cfg, False, False)
      else
        let (cfg, existing) = edb_partition_get e cfg database part;
            (cfg, ok) = (if existing \<noteq> None then (cfg, True)
                         else edb_partition_create e cfg database part 0 0 0 0)
        in if \<not> ok then (cfg, False, False)
           else
             let (cfg, ok) = ensure_keyspace e cfg database part keyspace
             in (cfg, ok, existing = None))"

definition edb_keyspace_list :: "sqlite_env \<Rightarrow> edb_config \<Rightarrow> edb_config \<times> edb_keyspace_info list" where
  "edb_keyspace_list e cfg =
     (let (cfg, all) = collect e cfg CFG_KEYSPACE_KEYSPACES
      in (cfg, filter (\<lambda>k. ks_name k \<noteq> [])
                 (map (\<lambda>item. \<lparr>ks_database = copy_name 128 item ''database'',
                               ks_partition = copy_name 256 item ''partition'',
                               ks_name = copy_name 128 item ''name''\<rparr>) (json_items all))))"

definition edb_partition_list ::
  "sqlite_env \<Rightarrow> edb_config \<Rightarrow> string \<Rightarrow> edb_config \<times> edb_partition_info list" where
  "edb_partition_list e cfg database =
     (let (cfg, all) = collect e cfg CFG_KEYSPACE_PARTITIONS
      in (cfg, map partition_info
                 (filter (\<lambda>item. strcmp (copy_name 128 item ''database'') database = 0) (json_items all))))"

fun delete_partitions :: "sqlite_env \<Rightarrow> string \<Rightarrow> edb_partition_info list \<Rightarrow> edb_config \<Rightarrow> edb_config" where
  "delete_partitions e database [] cfg = cfg"
| "delete_partitions e database (p # ps) cfg =
     delete_partitions e database ps (fst (edb_partition_delete e cfg database (pt_name p)))"

definition edb_database_delete :: "sqlite_env \<Rightarrow> edb_config \<Rightarrow> string \<Rightarrow> edb_config \<times> bool" where
  "edb_database_delete e cfg name =
     (let (cfg, parts) = edb_partition_list e cfg name;
          cfg = delete_partitions e name parts cfg;
          (cfg, keyspaces_ok) = remove_keyspaces_for e cfg name None
      in if keyspaces_ok then remove_record e cfg CFG_KEYSPACE_DATABASES name else (cfg, False))"

section \<open>Permissions, settings and code\<close>

definition edb_check_perm :: "u64 \<Rightarrow> u64 \<Rightarrow> bool" where
  "edb_check_perm perm_mask user_groups \<longleftrightarrow> (if perm_mask = 0 then True else perm_mask AND user_groups \<noteq> 0)"

text \<open>
  \<open>edb_setting_set\<close> embeds the printed value as raw text in the record, which prints as the value
  itself would.
\<close>

definition setting_record :: "string \<Rightarrow> cJSON \<Rightarrow> cJSON" where
  "setting_record name v =
     JObject [(''type'', JString ''setting''), (''name'', JString name), (''value'', v)]"

definition edb_setting_set :: "sqlite_env \<Rightarrow> edb_config \<Rightarrow> string \<Rightarrow> string \<Rightarrow> edb_config \<times> bool" where
  "edb_setting_set e cfg name json_value =
     (if name = [] then (cfg, False)
      else case cJSON_ParseWithLength e json_value of
             None \<Rightarrow> (cfg, False)
           | Some v \<Rightarrow>
               (case cJSON_PrintUnformatted e v of
                  None \<Rightarrow> (cfg, False)
                | Some printed \<Rightarrow> store e cfg CFG_KEYSPACE_SETTINGS name (setting_record name v)))"

definition edb_setting_get :: "sqlite_env \<Rightarrow> edb_config \<Rightarrow> string \<Rightarrow> edb_config \<times> string option" where
  "edb_setting_get e cfg name =
     (let (cfg, obj) = fetch e cfg CFG_KEYSPACE_SETTINGS name
      in (cfg, case obj of
                 None \<Rightarrow> None
               | Some obj \<Rightarrow> Option.bind (json_get (Some obj) ''value'') (cJSON_PrintUnformatted e)))"

definition edb_setting_delete :: "sqlite_env \<Rightarrow> edb_config \<Rightarrow> string \<Rightarrow> edb_config \<times> bool" where
  "edb_setting_delete e cfg name = remove_record e cfg CFG_KEYSPACE_SETTINGS name"

definition edb_setting_list :: "sqlite_env \<Rightarrow> edb_config \<Rightarrow> edb_config \<times> string list" where
  "edb_setting_list e cfg =
     (let (cfg, all) = collect e cfg CFG_KEYSPACE_SETTINGS
      in (cfg, List.map_filter (\<lambda>item. json_str (json_get (Some item) ''name'')) (json_items all)))"

text \<open>
  \<open>cJSON_DeleteItemFromObject\<close> removes the first member whose name is the given one up to case.
\<close>

fun delete_member :: "string \<Rightarrow> (string \<times> cJSON) list \<Rightarrow> (string \<times> cJSON) list" where
  "delete_member k [] = []"
| "delete_member k ((k', v) # kvs) = (if lower_ascii k' = lower_ascii k then kvs else (k', v) # delete_member k kvs)"

definition edb_code_save :: "sqlite_env \<Rightarrow> edb_config \<Rightarrow> string \<Rightarrow> cJSON \<Rightarrow> edb_config \<times> bool" where
  "edb_code_save e cfg name rec =
     (case rec of
        JObject kvs \<Rightarrow>
          if name = [] then (cfg, False)
          else store e cfg CFG_KEYSPACE_CODE name (JObject (delete_member ''name'' kvs @ [(''name'', JString name)]))
      | _ \<Rightarrow> (cfg, False))"

definition edb_code_load :: "sqlite_env \<Rightarrow> edb_config \<Rightarrow> string \<Rightarrow> edb_config \<times> cJSON option" where
  "edb_code_load e cfg name = (if name = [] then (cfg, None) else fetch e cfg CFG_KEYSPACE_CODE name)"

definition edb_code_delete :: "sqlite_env \<Rightarrow> edb_config \<Rightarrow> string \<Rightarrow> edb_config \<times> bool" where
  "edb_code_delete e cfg name =
     (if name = [] then (cfg, False)
      else
        let (cfg, rec) = fetch e cfg CFG_KEYSPACE_CODE name
        in if rec = None then (cfg, False) else remove_record e cfg CFG_KEYSPACE_CODE name)"

definition code_name :: "cJSON \<Rightarrow> string" where
  "code_name item = (case json_str (json_get (Some item) ''name'') of None \<Rightarrow> [] | Some s \<Rightarrow> s)"

text \<open>
  \<open>qsort\<close> with \<open>strcmp\<close> on the names; the order of records with equal names, which \<open>qsort\<close> leaves
  open, is the stable one here.
\<close>

definition edb_code_list :: "sqlite_env \<Rightarrow> edb_config \<Rightarrow> edb_config \<times> cJSON" where
  "edb_code_list e cfg =
     (let (cfg, all) = collect e cfg CFG_KEYSPACE_CODE
      in (cfg, case all of None \<Rightarrow> JArray [] | Some _ \<Rightarrow> JArray (sort_key code_name (json_items all))))"

definition edb_config_system_keyspaces :: "string list" where
  "edb_config_system_keyspaces =
     [CFG_KEYSPACE_DATABASES, CFG_KEYSPACE_GROUPS, CFG_KEYSPACE_USERS, CFG_KEYSPACE_PARTITIONS,
      CFG_KEYSPACE_KEYSPACES, CFG_KEYSPACE_SETTINGS, CFG_KEYSPACE_CODE]"

definition edb_config_is_system_key :: "edb_config \<Rightarrow> string \<Rightarrow> bool" where
  "edb_config_is_system_key cfg key \<longleftrightarrow>
     length key = 32 \<and>
     (\<exists>ks \<in> set edb_config_system_keyspaces.
        case edb_shard_path (cfg_engine cfg) EDB_SYSTEM_DB ks 1024 of
          None \<Rightarrow> False
        | Some (path, sys_key) \<Rightarrow> strcmp sys_key key = 0)"

end
