(* ===== verification/Eql_Scan.thy ===== *)
theory Eql_Scan
  imports Config
begin

text \<open>
  The scanner of the query language (epsilon_eql.c): identifiers, comments and literals, the
  references of a statement, the columns it writes, and the rewriting of references to the names of
  shadow tables. A scanner state \<open>(sql, pos, len)\<close> is the rest of the text at \<open>pos\<close>; setting \<open>pos\<close> back
  is going on with an earlier rest.
\<close>

section \<open>Characters\<close>

abbreviation chr_dquote :: char where "chr_dquote \<equiv> CHR 0x22"
abbreviation chr_quote :: char where "chr_quote \<equiv> CHR 0x27"
abbreviation chr_backtick :: char where "chr_backtick \<equiv> CHR 0x60"
abbreviation chr_backslash :: char where "chr_backslash \<equiv> CHR 0x5C"
abbreviation chr_newline :: char where "chr_newline \<equiv> CHR 0x0A"

definition is_ident_char :: "char \<Rightarrow> bool" where
  "is_ident_char c \<longleftrightarrow>
     (let n = (of_char c :: nat)
      in 48 \<le> n \<and> n \<le> 57 \<or> 65 \<le> n \<and> n \<le> 90 \<or> 97 \<le> n \<and> n \<le> 122 \<or> n = 95)"

text \<open>The characters that open a quoted name or a literal.\<close>

definition opens_name :: "char \<Rightarrow> bool" where
  "opens_name c \<longleftrightarrow> c = chr_dquote \<or> c = chr_backtick \<or> c = CHR ''[''"

definition opens_quoted :: "char \<Rightarrow> bool" where
  "opens_quoted c \<longleftrightarrow> c = chr_quote \<or> opens_name c"

section \<open>Identifiers\<close>

text \<open>The rest of a name quoted by \<open>q\<close> and what follows it; \<open>None\<close> if the quote does not end.\<close>

fun quoted_body :: "char \<Rightarrow> string \<Rightarrow> (string \<times> string) option" where
  "quoted_body q [] = None"
| "quoted_body q (c # s) =
     (if c = q
      then if q = chr_dquote \<and> s \<noteq> [] \<and> hd s = chr_dquote
           then map_option (apfst (Cons chr_dquote)) (quoted_body q (tl s))
           else Some ([], s)
      else map_option (apfst (Cons c)) (quoted_body q s))"

definition read_ident :: "nat \<Rightarrow> string \<Rightarrow> (string \<times> string) option" where
  "read_ident cap s =
     (case s of
        [] \<Rightarrow> None
      | c # r \<Rightarrow>
          if c = chr_dquote \<or> c = chr_backtick then map_option (apfst (snprintf_s cap)) (quoted_body c r)
          else if c = CHR ''[''
          then (case dropWhile (\<lambda>d. d \<noteq> CHR '']'') r of
                  [] \<Rightarrow> None
                | _ # rest \<Rightarrow> Some (snprintf_s cap (takeWhile (\<lambda>d. d \<noteq> CHR '']'') r), rest))
          else if \<not> is_ident_char c then None
          else Some (snprintf_s cap (takeWhile is_ident_char s), dropWhile is_ident_char s))"

section \<open>Spaces, comments and literals\<close>

text \<open>What follows the end of a comment, from \<open>strstr\<close>; nothing if it does not end.\<close>

fun after_comment :: "string \<Rightarrow> string" where
  "after_comment [] = []"
| "after_comment (c # s) = (if c = CHR ''*'' \<and> s \<noteq> [] \<and> hd s = CHR ''/'' then tl s else after_comment s)"

lemma length_after_comment: "length (after_comment s) \<le> length s"
  by (induction s) auto

definition starts2 :: "char \<Rightarrow> char \<Rightarrow> string \<Rightarrow> bool" where
  "starts2 a b s \<longleftrightarrow> s \<noteq> [] \<and> hd s = a \<and> tl s \<noteq> [] \<and> hd (tl s) = b"

function skip_spaces_comments :: "string \<Rightarrow> string" where
  "skip_spaces_comments s =
     (let s = dropWhile is_space s
      in if starts2 (CHR ''-'') (CHR ''-'') s then skip_spaces_comments (dropWhile (\<lambda>c. c \<noteq> chr_newline) s)
         else if starts2 (CHR ''/'') (CHR ''*'') s then skip_spaces_comments (after_comment (tl (tl s)))
         else s)"
  by pat_completeness auto
termination
proof (relation "measure length")
  show "wf (measure (length :: string \<Rightarrow> nat))" by simp
next
  fix s t :: string
  assume t: "t = dropWhile is_space s" and "starts2 (CHR ''-'') (CHR ''-'') t"
  then show "(dropWhile (\<lambda>c. c \<noteq> chr_newline) t, s) \<in> measure length"
  proof (cases t)
    case (Cons c r)
    then have "length (dropWhile (\<lambda>c. c \<noteq> chr_newline) t) < length t"
      using \<open>starts2 (CHR ''-'') (CHR ''-'') t\<close> length_dropWhile_le [of "\<lambda>c. c \<noteq> chr_newline" r] by (auto simp: starts2_def)
    then show ?thesis using t length_dropWhile_le [of is_space s] by simp
  qed (simp add: starts2_def)
next
  fix s t :: string
  assume t: "t = dropWhile is_space s" and "\<not> starts2 (CHR ''-'') (CHR ''-'') t" "starts2 (CHR ''/'') (CHR ''*'') t"
  then show "(after_comment (tl (tl t)), s) \<in> measure length"
  proof (cases t)
    case (Cons c r)
    then have "length (after_comment (tl (tl t))) < length t"
      using length_after_comment [of "tl (tl t)"] by simp
    then show ?thesis using t length_dropWhile_le [of is_space s] by simp
  qed (simp add: starts2_def)
qed

declare skip_spaces_comments.simps [simp del]

text \<open>The rest after a quoted literal or name, from behind the opening quote; a backslash escapes in a literal.\<close>

fun skip_quoted_body :: "char \<Rightarrow> string \<Rightarrow> string" where
  "skip_quoted_body q [] = []"
| "skip_quoted_body q (c # s) =
     (if c = q
      then if s \<noteq> [] \<and> hd s = q then skip_quoted_body q (tl s) else s
      else if q = chr_quote \<and> c = chr_backslash \<and> s \<noteq> [] then skip_quoted_body q (tl s)
      else skip_quoted_body q s)"

definition skip_quoted_raw :: "string \<Rightarrow> string" where
  "skip_quoted_raw s = skip_quoted_body (hd s) (tl s)"

lemma length_quoted_body: "quoted_body q s = Some (x, r) \<Longrightarrow> length r < length s"
proof (induction q s arbitrary: x rule: quoted_body.induct)
  case (2 q c s)
  consider "c = q" "q = chr_dquote \<and> s \<noteq> [] \<and> hd s = chr_dquote" | "c = q" "\<not> (q = chr_dquote \<and> s \<noteq> [] \<and> hd s = chr_dquote)"
    | "c \<noteq> q" by blast
  then show ?case
  proof cases
    case 1
    with 2(3) obtain y where y: "quoted_body q (tl s) = Some (y, r)" by auto
    have "length r < length (tl s)" by (rule 2(1) [OF 1(1) 1(2) y])
    then show ?thesis by simp
  next
    case 2
    with \<open>quoted_body q (c # s) = Some (x, r)\<close> show ?thesis by auto
  next
    case 3
    with 2(3) obtain y where y: "quoted_body q s = Some (y, r)" by auto
    have "length r < length s" by (rule 2(2) [OF 3 y])
    then show ?thesis by simp
  qed
qed simp

lemma length_read_ident:
  assumes "read_ident cap s = Some (x, r)"
  shows "length r < length s"
proof (cases s)
  case (Cons c t)
  consider "c = chr_dquote \<or> c = chr_backtick" | "\<not> (c = chr_dquote \<or> c = chr_backtick)" "c = CHR ''[''"
    | "\<not> (c = chr_dquote \<or> c = chr_backtick)" "c \<noteq> CHR ''[''" by blast
  then show ?thesis
  proof cases
    case 1
    with assms Cons obtain y where "quoted_body c t = Some (y, r)" by (auto simp: read_ident_def)
    then show ?thesis using Cons by (auto dest: length_quoted_body)
  next
    case 2
    with assms Cons obtain d where "dropWhile (\<lambda>d. d \<noteq> CHR '']'') t = d # r"
      by (auto simp: read_ident_def split: list.splits)
    then have "length (d # r) \<le> length t" using length_dropWhile_le [of "\<lambda>d. d \<noteq> CHR '']''" t] by simp
    then show ?thesis using Cons by simp
  next
    case 3
    with assms Cons have "is_ident_char c" "r = dropWhile is_ident_char t"
      by (auto simp: read_ident_def split: if_splits)
    then show ?thesis using Cons length_dropWhile_le [of is_ident_char t] by simp
  qed
qed (use assms in \<open>simp add: read_ident_def\<close>)

lemma length_skip: "length (skip_spaces_comments s) \<le> length s"
proof (induction s rule: skip_spaces_comments.induct)
  case (1 s)
  let ?t = "dropWhile is_space s"
  have "length ?t \<le> length s" by (rule length_dropWhile_le)
  moreover have "length (dropWhile (\<lambda>c. c \<noteq> chr_newline) ?t) \<le> length ?t" by (rule length_dropWhile_le)
  moreover have "length (after_comment (tl (tl ?t))) \<le> length ?t"
    using length_after_comment [of "tl (tl ?t)"] by simp
  ultimately show ?case
    using 1 by (subst skip_spaces_comments.simps) (auto simp: Let_def)
qed

lemma length_skip_quoted_body: "length (skip_quoted_body q s) \<le> length s"
  by (induction q s rule: skip_quoted_body.induct) (auto simp: neq_Nil_conv)

lemma length_skip_quoted_raw: "s \<noteq> [] \<Longrightarrow> length (skip_quoted_raw s) < length s"
  using length_skip_quoted_body [of "hd s" "tl s"] by (cases s) (auto simp: skip_quoted_raw_def)

section \<open>Tables and references\<close>

record eql_table =
  t_db :: string
  t_part :: string
  t_ks :: string
  t_dotted :: string
  t_alias :: string
  t_cols :: "(string \<times> bool) list"
  t_pw :: bool
  t_keyspaces :: "string list"

definition EQL_MAX_TABLES :: nat where "EQL_MAX_TABLES = 16"
definition EQL_MAX_COLS :: nat where "EQL_MAX_COLS = 256"
definition EQL_MAX_NAME :: nat where "EQL_MAX_NAME = 512"

definition same_shard :: "eql_table \<Rightarrow> string \<Rightarrow> string \<Rightarrow> string \<Rightarrow> bool" where
  "same_shard t db part ks \<longleftrightarrow> strcmp (t_db t) db = 0 \<and> strcmp (t_part t) part = 0 \<and> strcmp (t_ks t) ks = 0"

text \<open>A dot at the cursor, after spaces.\<close>

definition at_dot :: "string \<Rightarrow> bool" where
  "at_dot s \<longleftrightarrow> s \<noteq> [] \<and> hd s = CHR ''.''"

text \<open>
  \<open>parse_ref2\<close>: the cursor after the call, which also moves when no reference is found, and the three
  parts; the last is empty for a reference to a whole partition.
\<close>

definition parse_ref2 :: "string \<Rightarrow> string \<times> (string \<times> string \<times> string) option" where
  "parse_ref2 s =
     (let s = skip_spaces_comments s
      in case read_ident 256 s of
           None \<Rightarrow> (s, None)
         | Some (p0, s) \<Rightarrow>
             let s = skip_spaces_comments s
             in if \<not> at_dot s then (s, None)
                else
                  let s = skip_spaces_comments (tl s)
                  in case read_ident 256 s of
                       None \<Rightarrow> (s, None)
                     | Some (p1, s) \<Rightarrow>
                         let s = skip_spaces_comments s
                         in if \<not> at_dot s then (s, Some (p0, p1, []))
                            else
                              let s = skip_spaces_comments (tl s)
                              in case read_ident 256 s of
                                   None \<Rightarrow> (s, None)
                                 | Some (p2, s) \<Rightarrow> (s, Some (p0, p1, p2)))"

lemma le_skip: "length r \<le> n \<Longrightarrow> length (skip_spaces_comments r) \<le> n"
  using length_skip [of r] by simp

lemma le_skip_tl: "length r \<le> n \<Longrightarrow> length (skip_spaces_comments (tl r)) \<le> n"
  using length_skip [of "tl r"] by simp

lemma le_read_ident: "read_ident cap r = Some (x, r') \<Longrightarrow> length r \<le> n \<Longrightarrow> length r' \<le> n"
  using length_read_ident [of cap r x r'] by simp

lemma length_parse_ref2: "length (fst (parse_ref2 s)) \<le> length s"
  unfolding parse_ref2_def Let_def
  by (auto split: option.splits if_splits; (assumption | rule le_skip le_skip_tl order_refl | erule le_read_ident)+)

text \<open>The entry of a reference is added unless it is known or the table is full.\<close>

definition add_table :: "eql_table list \<Rightarrow> string \<times> string \<times> string \<Rightarrow> eql_table list" where
  "add_table tables parts =
     (case parts of (p0, p1, p2) \<Rightarrow>
        let pw = (p2 = []); db = snprintf_s 128 p0; part = snprintf_s 256 p1; ks = snprintf_s 128 p2
        in if (\<exists>t \<in> set tables. same_shard t p0 p1 p2 \<and> t_pw t = pw) \<or> EQL_MAX_TABLES \<le> length tables then tables
           else tables @ [\<lparr>t_db = db, t_part = part, t_ks = ks,
                  t_dotted = snprintf_s EQL_MAX_NAME (if pw then db @ ''.'' @ part else db @ ''.'' @ part @ ''.'' @ ks),
                  t_alias = snprintf_s 16 (''eql_t'' @ show_nat (length tables)), t_cols = [], t_pw = pw,
                  t_keyspaces = []\<rparr>])"

text \<open>The cursor after an optional alias.\<close>

definition skip_alias :: "string \<Rightarrow> string" where
  "skip_alias s =
     (let s1 = skip_spaces_comments s; w = takeWhile is_ident_char s1; s2 = dropWhile is_ident_char s1
      in if w = [] \<or> 8 \<le> length w then s
         else if lower_ascii w = ''as''
         then (let s3 = skip_spaces_comments s2
               in if takeWhile is_ident_char s3 = [] then s else dropWhile is_ident_char s3)
         else if length w \<noteq> 4 \<and> length w \<noteq> 5 then s2 else s)"

lemma length_skip_alias: "length (skip_alias s) \<le> length s"
  unfolding skip_alias_def Let_def
  using length_skip [of s] length_dropWhile_le [of is_ident_char "skip_spaces_comments s"]
    length_skip [of "dropWhile is_ident_char (skip_spaces_comments s)"]
    length_dropWhile_le [of is_ident_char "skip_spaces_comments (dropWhile is_ident_char (skip_spaces_comments s))"]
  by auto

text \<open>Further sources after commas.\<close>

function more_refs :: "eql_table list \<Rightarrow> string \<Rightarrow> eql_table list \<times> string" where
  "more_refs tables s =
     (let s1 = skip_spaces_comments s
      in if s1 = [] \<or> hd s1 \<noteq> CHR '','' then (tables, s)
         else case parse_ref2 (tl s1) of
                (s2, None) \<Rightarrow> (tables, s)
              | (s2, Some parts) \<Rightarrow> more_refs (add_table tables parts) s2)"
  by pat_completeness auto
termination
proof (relation "measure (\<lambda>(tables, s). length s)", goal_cases)
  case (2 tables s x xa y x2)
  have "length xa \<le> length (tl x)" using length_parse_ref2 [of "tl x"] 2(3) by (metis fst_conv)
  moreover have "length (tl x) < length x" using 2(2) by (cases x) auto
  moreover have "length x \<le> length s" using length_skip 2(1) by simp
  ultimately show ?case by simp
qed simp

declare more_refs.simps [simp del]

lemma length_more_refs: "length (snd (more_refs tables s)) \<le> length s"
proof (induction tables s rule: more_refs.induct)
  case (1 tables s)
  let ?s1 = "skip_spaces_comments s"
  have "length (fst (parse_ref2 (tl ?s1))) \<le> length s"
    using length_parse_ref2 [of "tl ?s1"] length_skip [of s] by simp
  then show ?case
    using 1 by (subst more_refs.simps) (fastforce simp: Let_def split: prod.splits option.splits)
qed

text \<open>The words before a source.\<close>

definition source_keyword :: "string \<Rightarrow> bool" where
  "source_keyword w \<longleftrightarrow> length w \<in> {4, 5, 6} \<and> lower_ascii w \<in> {''from'', ''join'', ''into'', ''update''}"

lemma word_rest: "takeWhile P s \<noteq> [] \<Longrightarrow> length (dropWhile P s) < length s"
  using length_dropWhile_le [of P "tl s"] by (cases s) (auto split: if_splits)

function collect_refs :: "string \<Rightarrow> eql_table list \<Rightarrow> eql_table list" where
  "collect_refs s tables =
     (let s = skip_spaces_comments s
      in if s = [] then tables
         else if opens_quoted (hd s) then collect_refs (skip_quoted_raw s) tables
         else
           let w = takeWhile is_ident_char s; s1 = dropWhile is_ident_char s
           in if w = [] then collect_refs (tl s) tables
              else if \<not> source_keyword w then collect_refs s1 tables
              else case parse_ref2 s1 of
                     (s2, None) \<Rightarrow> collect_refs s2 tables
                   | (s2, Some parts) \<Rightarrow>
                       let r = more_refs (add_table tables parts) (skip_alias s2) in collect_refs (snd r) (fst r))"
  by pat_completeness auto

termination
proof (relation "measure (\<lambda>(s, tables). length s)", goal_cases)
  case (2 s tables x)
  then show ?case using length_skip_quoted_raw [of x] length_skip [of s] by simp
next
  case (3 s tables x xa xb)
  have "length (tl x) < length x" using 3(2) by (cases x) auto
  moreover have "length x \<le> length s" using length_skip 3(1) by simp
  ultimately show ?case by simp
next
  case (4 s tables x xa xb)
  then show ?case using word_rest [of is_ident_char x] length_skip [of s] by simp
next
  case (5 s tables x xa xb xc y)
  have "length xc \<le> length xb" using length_parse_ref2 [of xb] 5(8) by (metis fst_conv)
  then show ?case using 5 word_rest [of is_ident_char x] length_skip [of s] by simp
next
  case (6 s tables x xa xb xc y x2 xd)
  have "length xc \<le> length xb" using length_parse_ref2 [of xb] 6(8) by (metis fst_conv)
  moreover have "length (snd xd) \<le> length xc"
    using length_more_refs [of "add_table tables x2" "skip_alias xc"] length_skip_alias [of xc] 6(10) by simp
  moreover have "length xb < length s" using 6 word_rest [of is_ident_char x] length_skip [of s] by simp
  ultimately show ?case by simp
qed simp

declare collect_refs.simps [simp del]

end
