(* ===== verification/Eql_Rewrite.thy ===== *)
theory Eql_Rewrite
  imports Eql_Scan
begin

text \<open>
  Rewriting a statement for the shadow tables, its class, its references, and the columns an INSERT
  or an UPDATE names (epsilon_eql.c, rewrite_sql to scan_update_columns).
\<close>

section \<open>Rewriting\<close>

text \<open>A name with three parts at the cursor, and the cursor after it.\<close>

definition probe3 :: "string \<Rightarrow> (string \<times> string) option" where
  "probe3 s =
     (case read_ident 256 s of
        None \<Rightarrow> None
      | Some (a, s1) \<Rightarrow>
          let s2 = skip_spaces_comments s1
          in if \<not> at_dot s2 then None
             else case read_ident 256 (skip_spaces_comments (tl s2)) of
                    None \<Rightarrow> None
                  | Some (b, s3) \<Rightarrow>
                      let s4 = skip_spaces_comments s3
                      in if \<not> at_dot s4 then None
                         else case read_ident 256 (skip_spaces_comments (tl s4)) of
                                None \<Rightarrow> None
                              | Some (c, s5) \<Rightarrow> Some (snprintf_s EQL_MAX_NAME (a @ ''.'' @ b @ ''.'' @ c), s5))"

definition probe2 :: "string \<Rightarrow> (string \<times> string) option" where
  "probe2 s =
     (case read_ident 256 s of
        None \<Rightarrow> None
      | Some (a, s1) \<Rightarrow>
          let s2 = skip_spaces_comments s1
          in if \<not> at_dot s2 then None
             else case read_ident 256 (skip_spaces_comments (tl s2)) of
                    None \<Rightarrow> None
                  | Some (b, s3) \<Rightarrow> Some (snprintf_s EQL_MAX_NAME (a @ ''.'' @ b), s3))"

text \<open>The alias of the table a name at the cursor refers to: first three parts, then a whole partition.\<close>

definition match_ref :: "eql_table list \<Rightarrow> string \<Rightarrow> (string \<times> string) option" where
  "match_ref tables s =
     (case Option.bind (probe3 s) (\<lambda>(cand, r). map_option (\<lambda>t. (t_alias t, r))
              (first_match (\<lambda>t. strcmp cand (t_dotted t) = 0) tables)) of
        Some m \<Rightarrow> Some m
      | None \<Rightarrow>
          Option.bind (probe2 s) (\<lambda>(cand, r). map_option (\<lambda>t. (t_alias t, r))
            (first_match (\<lambda>t. t_pw t \<and> strcmp cand (t_dotted t) = 0) tables)))"

lemma length_probe3: "probe3 s = Some (x, r) \<Longrightarrow> length r < length s"
proof -
  assume "probe3 s = Some (x, r)"
  then obtain a s1 b s3 c where i: "read_ident 256 s = Some (a, s1)"
    "read_ident 256 (skip_spaces_comments (tl (skip_spaces_comments s1))) = Some (b, s3)"
    "read_ident 256 (skip_spaces_comments (tl (skip_spaces_comments s3))) = Some (c, r)"
    by (auto simp: probe3_def Let_def split: option.splits if_splits)
  have "length r \<le> length s3" by (rule le_read_ident [OF i(3)]) (intro le_skip_tl le_skip order_refl)
  also have "\<dots> \<le> length s1" by (rule le_read_ident [OF i(2)]) (intro le_skip_tl le_skip order_refl)
  also have "\<dots> < length s" by (rule length_read_ident [OF i(1)])
  finally show ?thesis .
qed

lemma length_probe2: "probe2 s = Some (x, r) \<Longrightarrow> length r < length s"
proof -
  assume "probe2 s = Some (x, r)"
  then obtain a s1 b where i: "read_ident 256 s = Some (a, s1)"
    "read_ident 256 (skip_spaces_comments (tl (skip_spaces_comments s1))) = Some (b, r)"
    by (auto simp: probe2_def Let_def split: option.splits if_splits)
  have "length r \<le> length s1" by (rule le_read_ident [OF i(2)]) (intro le_skip_tl le_skip order_refl)
  also have "\<dots> < length s" by (rule length_read_ident [OF i(1)])
  finally show ?thesis .
qed

lemma length_match_ref: "match_ref tables s = Some (x, r) \<Longrightarrow> length r < length s"
  by (auto simp: match_ref_def bind_eq_Some_conv split: option.splits dest: length_probe3 length_probe2)

text \<open>The text between two cursors.\<close>

definition until :: "string \<Rightarrow> string \<Rightarrow> string" where
  "until s r = take (length s - length r) s"

function rewrite :: "eql_table list \<Rightarrow> string \<Rightarrow> string" where
  "rewrite tables s =
     (if s = [] then []
      else if hd s = chr_quote
      then until s (skip_quoted_raw s) @ rewrite tables (skip_quoted_raw s)
      else if starts2 (CHR ''-'') (CHR ''-'') s
      then takeWhile (\<lambda>c. c \<noteq> chr_newline) s @ rewrite tables (dropWhile (\<lambda>c. c \<noteq> chr_newline) s)
      else if starts2 (CHR ''/'') (CHR ''*'') s
      then until s (after_comment (tl (tl s))) @ rewrite tables (after_comment (tl (tl s)))
      else if \<not> opens_name (hd s) \<and> \<not> is_ident_char (hd s) then hd s # rewrite tables (tl s)
      else case match_ref tables s of
             Some (alias, r) \<Rightarrow> alias @ rewrite tables r
           | None \<Rightarrow>
               if opens_name (hd s) then until s (skip_quoted_raw s) @ rewrite tables (skip_quoted_raw s)
               else takeWhile is_ident_char s @ rewrite tables (dropWhile is_ident_char s))"
  by pat_completeness auto
termination
proof (relation "measure (\<lambda>(tables, s). length s)", goal_cases)
  case (2 tables s)
  then show ?case using length_skip_quoted_raw [of s] by simp
next
  case (3 tables s)
  then show ?case by (cases s) (auto simp: starts2_def le_less_trans [OF length_dropWhile_le])
next
  case (4 tables s)
  have "length (after_comment (tl (tl s))) \<le> length (tl (tl s))" by (rule length_after_comment)
  with 4(1) show ?case by (cases s) auto
next
  case (5 tables s)
  then show ?case by (cases s) auto
next
  case (6 tables s)
  then show ?case using length_skip_quoted_raw [of s] by simp
next
  case (7 tables s)
  then have "takeWhile is_ident_char s \<noteq> []" by (cases s) auto
  then show ?case using word_rest [of is_ident_char s] by simp
next
  case (8 tables s x a r)
  then show ?case by (auto dest: length_match_ref)
qed simp

declare rewrite.simps [simp del]

text \<open>The output buffer holds \<open>2 * len + 15\<close> characters.\<close>

definition rewrite_cap :: "string \<Rightarrow> nat" where
  "rewrite_cap sql = 2 * length sql + 15"

definition rewrite_sql :: "string \<Rightarrow> eql_table list \<Rightarrow> string" where
  "rewrite_sql sql tables = take (rewrite_cap sql) (rewrite tables sql)"

section \<open>The class of a statement\<close>

datatype eql_kind = EQL_KIND_SELECT | EQL_KIND_DELETE | EQL_KIND_UPDATE | EQL_KIND_INSERT | EQL_KIND_OTHER

definition classify_statement :: "string \<Rightarrow> eql_kind" where
  "classify_statement sql =
     (let w = lower_ascii (take 15 (takeWhile is_ident_char (skip_spaces_comments sql)))
      in if w = ''delete'' then EQL_KIND_DELETE
         else if w = ''update'' then EQL_KIND_UPDATE
         else if w = ''insert'' \<or> w = ''replace'' then EQL_KIND_INSERT
         else if w = ''select'' \<or> w = ''values'' \<or> w = ''explain'' then EQL_KIND_SELECT
         else EQL_KIND_OTHER)"

definition edb_eql_classify :: "string \<Rightarrow> eql_kind" where
  "edb_eql_classify sql = (if sql = [] then EQL_KIND_OTHER else classify_statement sql)"

definition edb_eql_references :: "string \<Rightarrow> nat \<Rightarrow> string list" where
  "edb_eql_references sql cap =
     (if sql = [] \<or> cap = 0 then [] else map (\<lambda>t. snprintf_s 512 (t_dotted t)) (take cap (collect_refs sql [])))"

section \<open>Columns a statement writes\<close>

definition table_add_column :: "string \<Rightarrow> eql_table \<Rightarrow> eql_table" where
  "table_add_column name t =
     (if (\<exists>c \<in> set (t_cols t). strcmp (fst c) name = 0) \<or> EQL_MAX_COLS \<le> length (t_cols t) then t
      else t\<lparr>t_cols := t_cols t @ [(snprintf_s 128 name, False)]\<rparr>)"

text \<open>The next word of a statement outside of comments and quotes: the word and the cursor after it.\<close>

function next_word :: "string \<Rightarrow> (string \<times> string) option" where
  "next_word s =
     (let s = skip_spaces_comments s
      in if s = [] then None
         else if opens_quoted (hd s) then next_word (skip_quoted_raw s)
         else if takeWhile is_ident_char s = [] then next_word (tl s)
         else Some (takeWhile is_ident_char s, dropWhile is_ident_char s))"
  by pat_completeness auto
termination
proof (relation "measure length", goal_cases)
  case (2 s x)
  then show ?case using length_skip_quoted_raw [of x] length_skip [of s] by simp
next
  case (3 s x)
  have "length (tl x) < length x" using 3(2) by (cases x) auto
  moreover have "length x \<le> length s" using length_skip 3(1) by simp
  ultimately show ?case by simp
qed simp

declare next_word.simps [simp del]

lemma length_next_word: "next_word s = Some (w, r) \<Longrightarrow> length r < length s"
proof (induction s rule: next_word.induct)
  case (1 s)
  let ?t = "skip_spaces_comments s"
  have le: "length ?t \<le> length s" by (rule length_skip)
  show ?case
  proof (cases "?t = []")
    case False
    have tl: "length (tl ?t) < length ?t" using False by (cases ?t) auto
    from 1(3) consider "opens_quoted (hd ?t)" "next_word (skip_quoted_raw ?t) = Some (w, r)"
      | "\<not> opens_quoted (hd ?t)" "takeWhile is_ident_char ?t = []" "next_word (tl ?t) = Some (w, r)"
      | "takeWhile is_ident_char ?t \<noteq> []" "r = dropWhile is_ident_char ?t"
      using False by (subst (asm) next_word.simps) (auto simp: Let_def split: if_splits)
    then show ?thesis
    proof cases
      case 1
      then show ?thesis using "1.IH"(1) [OF refl False] length_skip_quoted_raw [OF False] le by simp
    next
      case 2
      then show ?thesis using "1.IH"(2) [OF refl False] tl le by simp
    next
      case 3
      then show ?thesis using word_rest [of is_ident_char ?t] le by simp
    qed
  qed (use 1(3) in \<open>subst (asm) next_word.simps, simp\<close>)
qed

text \<open>The names of a column list, separated by commas.\<close>

function column_list :: "string \<Rightarrow> string list \<times> string" where
  "column_list s =
     (let s = skip_spaces_comments s
      in case read_ident 128 s of
           None \<Rightarrow> ([], s)
         | Some (col, r) \<Rightarrow>
             let r = skip_spaces_comments r
             in if r \<noteq> [] \<and> hd r = CHR '','' then (let (cols, rest) = column_list (tl r) in (col # cols, rest))
                else ([col], r))"
  by pat_completeness auto
termination
proof (relation "measure length", goal_cases)
  case (2 s x x2 col y r)
  have "length y < length x" using length_read_ident [of 128 x col y] 2 by simp
  moreover have "length r \<le> length y" using 2 length_skip [of y] by simp
  moreover have "length x \<le> length s" using length_skip 2(1) by simp
  moreover have "length (tl r) < length r" using 2 by (cases r) auto
  ultimately show ?case by simp
qed simp

declare column_list.simps [simp del]

lemma length_column_list: "length (snd (column_list s)) \<le> length s"
proof (induction s rule: column_list.induct)
  case (1 s)
  let ?t = "skip_spaces_comments s"
  show ?case
  proof (cases "read_ident 128 ?t")
    case None
    then show ?thesis using length_skip [of s] by (subst column_list.simps) simp
  next
    case (Some cr)
    obtain col r where cr: "cr = (col, r)" by (cases cr)
    let ?r = "skip_spaces_comments r"
    have le: "length ?r \<le> length s"
      using length_read_ident [of 128 ?t col r] Some cr length_skip [of s] length_skip [of r] by simp
    show ?thesis
    proof (cases "?r \<noteq> [] \<and> hd ?r = CHR '',''")
      case True
      have "length (snd (column_list (tl ?r))) \<le> length (tl ?r)"
        using 1 [OF refl Some cr [symmetric] refl] True by simp
      then show ?thesis
        using le Some cr True by (subst column_list.simps) (simp add: split_beta Let_def)
    next
      case False
      then show ?thesis using le Some cr by (subst column_list.simps) auto
    qed
  qed
qed

function scan_insert_columns :: "string \<Rightarrow> eql_table list \<Rightarrow> eql_table list" where
  "scan_insert_columns s tables =
     (case next_word s of
        None \<Rightarrow> tables
      | Some (w, r) \<Rightarrow>
          if lower_ascii w \<noteq> ''into'' then scan_insert_columns r tables
          else case parse_ref2 r of
                 (s2, None) \<Rightarrow> scan_insert_columns s2 tables
               | (s2, Some (p0, p1, p2)) \<Rightarrow>
                   if first_match (\<lambda>t. same_shard t p0 p1 p2) tables = None then scan_insert_columns s2 tables
                   else
                     let s3 = skip_spaces_comments s2
                     in if s3 = [] \<or> hd s3 \<noteq> CHR ''('' then scan_insert_columns s3 tables
                        else
                          let cs = column_list (tl s3)
                          in scan_insert_columns (snd cs)
                               (update_first (\<lambda>t. same_shard t p0 p1 p2) (\<lambda>t. fold table_add_column (fst cs) t) tables))"
  by pat_completeness auto
termination
proof (relation "measure (\<lambda>(s, tables). length s)", goal_cases)
  case (2 s tables x w r)
  then show ?case by (auto dest: length_next_word)
next
  case (3 s tables x w r s2 y)
  have "length s2 \<le> length r" using length_parse_ref2 [of r] 3(4) by (metis fst_conv)
  with 3(1,2) show ?case by (auto dest: length_next_word)
next
  case (4 s tables x w r s2 y x2 p0 yy p1 p2)
  have "length s2 \<le> length r" using length_parse_ref2 [of r] 4(4) by (metis fst_conv)
  with 4(1,2) show ?case by (auto dest: length_next_word)
next
  case (5 s tables x w r s2 y x2 p0 yy p1 p2 s3)
  have "length s2 \<le> length r" using length_parse_ref2 [of r] 5(4) by (metis fst_conv)
  moreover have "length s3 \<le> length s2" using 5(9) length_skip by simp
  ultimately show ?case using 5(1,2) by (auto dest: length_next_word)
next
  case (6 s tables x w r s2 y x2 p0 yy p1 p2 s3 cs)
  have "length s2 \<le> length r" using length_parse_ref2 [of r] 6(4) by (metis fst_conv)
  moreover have "length s3 \<le> length s2" using 6(9) length_skip by simp
  moreover have "length (snd cs) \<le> length s3" using length_column_list [of "tl s3"] 6(11) by simp
  ultimately show ?case using 6(1,2) by (auto dest: length_next_word)
qed simp

declare scan_insert_columns.simps [simp del]

text \<open>The cursor after the keyword SET, or \<open>None\<close> at the end of the text.\<close>

function find_set :: "string \<Rightarrow> string option" where
  "find_set s =
     (let s = skip_spaces_comments s
      in if s = [] then None
         else case read_ident 128 s of
                None \<Rightarrow> find_set (tl s)
              | Some (a, r) \<Rightarrow>
                  if lower_ascii a = ''as''
                  then (let r = skip_spaces_comments r
                        in find_set (case read_ident 128 r of None \<Rightarrow> r | Some (b, r') \<Rightarrow> r'))
                  else if lower_ascii a = ''set'' then Some r else find_set r)"
  by pat_completeness auto
termination
proof (relation "measure length", goal_cases)
  case (2 s x)
  have "length (tl x) < length x" using 2(2) by (cases x) auto
  moreover have "length x \<le> length s" using length_skip 2(1) by simp
  ultimately show ?case by simp
next
  case (3 s x y a r r')
  have "length r < length x" using 3 length_read_ident [of 128 x a r] by simp
  moreover have "length r' \<le> length r" using 3 length_skip by simp
  moreover have "length (case read_ident 128 r' of None \<Rightarrow> r' | Some (b, t) \<Rightarrow> t) \<le> length r'"
    by (auto split: option.splits dest: length_read_ident)
  moreover have "length x \<le> length s" using length_skip 3(1) by simp
  ultimately show ?case by simp
next
  case (4 s x y a r)
  have "length r < length x" using 4 length_read_ident [of 128 x a r] by simp
  moreover have "length x \<le> length s" using length_skip 4(1) by simp
  ultimately show ?case by simp
qed simp

declare find_set.simps [simp del]

lemma word_ne: "x \<noteq> [] \<Longrightarrow> P (hd x) \<Longrightarrow> takeWhile P x \<noteq> []"
  by (cases x) auto

definition clause_keyword :: "string \<Rightarrow> bool" where
  "clause_keyword w \<longleftrightarrow>
     w \<in> {''where'', ''returning'', ''limit'', ''order'', ''offset'', ''from'', ''select'', ''values''}"

text \<open>The assigned columns of a SET clause, and the cursor after it.\<close>

function set_columns :: "nat \<Rightarrow> string \<Rightarrow> string list \<times> string" where
  "set_columns depth s =
     (let s = skip_spaces_comments s
      in if s = [] then ([], [])
         else if opens_quoted (hd s) then set_columns depth (skip_quoted_raw s)
         else if hd s = CHR ''('' then set_columns (depth + 1) (tl s)
         else if hd s = CHR '')'' then set_columns (depth - 1) (tl s)
         else if \<not> is_ident_char (hd s) then set_columns depth (tl s)
         else
           let col = snprintf_s 128 (takeWhile is_ident_char s); r = dropWhile is_ident_char s;
               r' = skip_spaces_comments r
           in if depth = 0 \<and> clause_keyword (lower_ascii col) then ([], r)
              else if depth = 0 \<and> r' \<noteq> [] \<and> hd r' = CHR ''=''
              then (let (cols, rest) = set_columns depth (tl r') in (col # cols, rest))
              else set_columns depth r)"
  by pat_completeness auto
termination
proof (relation "measure (\<lambda>(depth, s). length s)", goal_cases)
  case (2 depth s x)
  then show ?case using length_skip_quoted_raw [of x] length_skip [of s] by simp
next
  case (3 depth s x)
  have "length (tl x) < length x" using 3(2) by (cases x) auto
  moreover have "length x \<le> length s" using length_skip 3(1) by simp
  ultimately show ?case by simp
next
  case (4 depth s x)
  have "length (tl x) < length x" using 4(2) by (cases x) auto
  moreover have "length x \<le> length s" using length_skip 4(1) by simp
  ultimately show ?case by simp
next
  case (5 depth s x)
  have "length (tl x) < length x" using 5(2) by (cases x) auto
  moreover have "length x \<le> length s" using length_skip 5(1) by simp
  ultimately show ?case by simp
next
  case (6 depth s x col r r')
  have "takeWhile is_ident_char x \<noteq> []" using 6 by (intro word_ne) simp_all
  then have "length r < length x" using word_rest [of is_ident_char x] 6 by simp
  moreover have "length r' \<le> length r" using 6 length_skip by simp
  moreover have "length x \<le> length s" using length_skip 6(1) by simp
  ultimately show ?case by simp
next
  case (7 depth s x col r r')
  have "takeWhile is_ident_char x \<noteq> []" using 7 by (intro word_ne) simp_all
  then have "length r < length x" using word_rest [of is_ident_char x] 7 by simp
  moreover have "length x \<le> length s" using length_skip 7(1) by simp
  ultimately show ?case by simp
qed simp

declare set_columns.simps [simp del]

lemma length_set_columns: "length (snd (set_columns depth s)) \<le> length s"
proof (induction depth s rule: set_columns.induct)
  case (1 depth s)
  let ?t = "skip_spaces_comments s" and ?r = "dropWhile is_ident_char (skip_spaces_comments s)"
  have t: "length ?t \<le> length s" by (rule length_skip)
  have r: "length ?r \<le> length ?t" by (rule length_dropWhile_le)
  have r': "length (skip_spaces_comments ?r) \<le> length ?r" by (rule length_skip)
  have q: "length (skip_quoted_raw ?t) \<le> length ?t" if "?t \<noteq> []"
    using length_skip_quoted_raw [OF that] by simp
  consider "?t = []" | "?t \<noteq> []" "opens_quoted (hd ?t)" | "?t \<noteq> []" "\<not> opens_quoted (hd ?t)" "hd ?t = CHR ''(''"
    | "?t \<noteq> []" "\<not> opens_quoted (hd ?t)" "hd ?t \<noteq> CHR ''(''" "hd ?t = CHR '')''"
    | "?t \<noteq> []" "\<not> opens_quoted (hd ?t)" "hd ?t \<noteq> CHR ''(''" "hd ?t \<noteq> CHR '')''" "\<not> is_ident_char (hd ?t)"
    | "?t \<noteq> []" "\<not> opens_quoted (hd ?t)" "hd ?t \<noteq> CHR ''(''" "hd ?t \<noteq> CHR '')''" "is_ident_char (hd ?t)"
    by blast
  then show ?case
  proof cases
    case 1
    then show ?thesis by (subst set_columns.simps) simp
  next
    case 2
    then show ?thesis using "1.IH"(1) [OF refl 2] q t by (subst set_columns.simps) simp
  next
    case 3
    then show ?thesis using "1.IH"(2) [OF refl 3] t by (subst set_columns.simps) simp
  next
    case 4
    then show ?thesis using "1.IH"(3) [OF refl 4] t by (subst set_columns.simps) simp
  next
    case 5
    then show ?thesis using "1.IH"(4) [OF refl 5(1-4)] t by (subst set_columns.simps) simp
  next
    case 6
    note ih = "1.IH"(5,6) [OF refl 6(1-4) _ refl refl refl]
    show ?thesis
      using ih 6 t r r' by (subst set_columns.simps) (auto simp: Let_def split_beta)
  qed
qed

lemma length_find_set: "find_set s = Some r \<Longrightarrow> length r \<le> length s"
proof (induction s rule: find_set.induct)
  case (1 s)
  let ?t = "skip_spaces_comments s"
  have t: "length ?t \<le> length s" by (rule length_skip)
  have ne: "?t \<noteq> []" using 1(4) by (subst (asm) find_set.simps) (auto simp: Let_def)
  show ?case
  proof (cases "read_ident 128 ?t")
    case None
    then have "find_set (tl ?t) = Some r" using 1(4) ne by (subst (asm) find_set.simps) (simp add: Let_def)
    then show ?thesis using 1(1) [OF refl ne None] t by simp
  next
    case (Some ar)
    obtain a u where ar: "ar = (a, u)" by (cases ar)
    have u: "length u < length ?t" using length_read_ident Some ar by simp
    let ?u = "skip_spaces_comments u"
    let ?v = "case read_ident 128 ?u of None \<Rightarrow> ?u | Some (b, r') \<Rightarrow> r'"
    have v: "length ?v \<le> length u"
      using length_skip [of u] by (auto split: option.splits dest: length_read_ident)
    consider "lower_ascii a = ''as''" "find_set ?v = Some r" | "r = u"
      | "lower_ascii a \<noteq> ''as''" "lower_ascii a \<noteq> ''set''" "find_set u = Some r"
      using 1(4) ne Some ar by (subst (asm) find_set.simps) (auto simp: Let_def split: if_splits)
    then show ?thesis
    proof cases
      case 1
      then show ?thesis using "1.IH"(2) [OF refl ne Some ar [symmetric] 1(1) refl 1(2)] v u t by simp
    next
      case 2
      then show ?thesis using u t by simp
    next
      case 3
      then show ?thesis using "1.IH"(3) [OF refl ne Some ar [symmetric] 3] u t by simp
    qed
  qed
qed

function scan_update_columns :: "string \<Rightarrow> eql_table list \<Rightarrow> eql_table list" where
  "scan_update_columns s tables =
     (case next_word s of
        None \<Rightarrow> tables
      | Some (w, r) \<Rightarrow>
          if lower_ascii w \<noteq> ''update'' then scan_update_columns r tables
          else case parse_ref2 r of
                 (s2, None) \<Rightarrow> scan_update_columns s2 tables
               | (s2, Some (p0, p1, p2)) \<Rightarrow>
                   if first_match (\<lambda>t. same_shard t p0 p1 p2 \<and> t_pw t = (p2 = [])) tables = None
                   then scan_update_columns s2 tables
                   else case find_set s2 of
                          None \<Rightarrow> tables
                        | Some s3 \<Rightarrow>
                            let cs = set_columns 0 s3
                            in scan_update_columns (snd cs)
                                 (update_first (\<lambda>t. same_shard t p0 p1 p2 \<and> t_pw t = (p2 = []))
                                    (\<lambda>t. fold table_add_column (fst cs) t) tables))"
  by pat_completeness auto

termination
proof (relation "measure (\<lambda>(s, tables). length s)", goal_cases)
  case (2 s tables x w r)
  then show ?case by (auto dest: length_next_word)
next
  case (3 s tables x w r s2 y)
  have "length s2 \<le> length r" using length_parse_ref2 [of r] 3(4) by (metis fst_conv)
  with 3(1,2) show ?case by (auto dest: length_next_word)
next
  case (4 s tables x w r s2 y x2 p0 yy p1 p2)
  have "length s2 \<le> length r" using length_parse_ref2 [of r] 4(4) by (metis fst_conv)
  with 4(1,2) show ?case by (auto dest: length_next_word)
next
  case (5 s tables x w r s2 y x2 p0 yy p1 p2 s3 cs)
  have "length s2 \<le> length r" using length_parse_ref2 [of r] 5(4) by (metis fst_conv)
  moreover have "length s3 \<le> length s2" using 5 by (auto dest: length_find_set)
  moreover have "length (snd cs) \<le> length s3" using length_set_columns 5 by simp
  ultimately show ?case using 5(1,2) by (auto dest: length_next_word)
qed simp

declare scan_update_columns.simps [simp del]

end
