(* ===== verification/Record_Store.thy ===== *)
theory Record_Store
  imports Main
begin

text \<open>
  The contract the configuration store relies on: a store of named records whose reads, writes
  and removals act on one name only, keep the store well-formed and return what was written; \<open>name\<close> says which names
  can be written. A read may change the state (the engine opens files on demand), but never what is read. The
  clients are the check-then-create pattern every entity of the configuration uses, and the
  settings of the cluster.
\<close>

locale record_store =
  fixes ok :: "'s \<Rightarrow> bool"
    and name :: "'k \<Rightarrow> bool"
    and valid :: "'v \<Rightarrow> bool"
    and look :: "'s \<Rightarrow> 'k \<Rightarrow> 'v option"
    and get :: "'s \<Rightarrow> 'k \<Rightarrow> 's \<times> 'v option"
    and put :: "'s \<Rightarrow> 'k \<Rightarrow> 'v \<Rightarrow> 's \<times> bool"
    and del :: "'s \<Rightarrow> 'k \<Rightarrow> 's \<times> bool"
  assumes get_value: "ok s \<Longrightarrow> snd (get s k) = look s k"
    and get_keeps: "ok s \<Longrightarrow> look (fst (get s k)) = look s \<and> ok (fst (get s k))"
    and put_works: "ok s \<Longrightarrow> name k \<Longrightarrow> valid v \<Longrightarrow> snd (put s k v) \<and> ok (fst (put s k v))"
    and put_look: "ok s \<Longrightarrow> name k \<Longrightarrow> valid v \<Longrightarrow> look (fst (put s k v)) = (look s)(k \<mapsto> v)"
    and del_works: "ok s \<Longrightarrow> name k \<Longrightarrow> snd (del s k) \<and> ok (fst (del s k))"
    and del_look: "ok s \<Longrightarrow> name k \<Longrightarrow> look (fst (del s k)) = (look s)(k := None)"
begin

text \<open>Create a record unless one is there that \<open>P\<close> recognises.\<close>

definition create :: "('v \<Rightarrow> bool) \<Rightarrow> 's \<Rightarrow> 'k \<Rightarrow> 'v \<Rightarrow> 's \<times> bool" where
  "create P s k v =
     (let (s, found) = get s k
      in if (case found of None \<Rightarrow> False | Some x \<Rightarrow> P x) then (s, False) else put s k v)"

lemma create_spec:
  assumes "ok s" "name k" "valid v"
  shows "ok (fst (create P s k v))"
    and "snd (create P s k v) \<longleftrightarrow> \<not> (\<exists>x. look s k = Some x \<and> P x)"
    and "look (fst (create P s k v)) = (if snd (create P s k v) then (look s)(k \<mapsto> v) else look s)"
proof -
  have g: "snd (get s k) = look s k" "look (fst (get s k)) = look s" "ok (fst (get s k))"
    using get_value get_keeps assms(1) by auto
  show "ok (fst (create P s k v))" "snd (create P s k v) \<longleftrightarrow> \<not> (\<exists>x. look s k = Some x \<and> P x)"
    "look (fst (create P s k v)) = (if snd (create P s k v) then (look s)(k \<mapsto> v) else look s)"
    using g put_works [OF g(3) assms(2,3)] put_look [OF g(3) assms(2,3)]
    by (cases "look s k"; simp add: create_def split_beta)+
qed

lemma create_once:
  assumes "ok s" "name k" "valid v" "P v" "snd (create P s k v)"
  shows "\<not> snd (create P (fst (create P s k v)) k w)" "look (fst (create P s k v)) k = Some v"
proof -
  have c: "ok (fst (create P s k v))" "look (fst (create P s k v)) k = Some v"
    using create_spec [OF assms(1,2,3)] assms(5) by auto
  then have "snd (get (fst (create P s k v)) k) = Some v" using get_value by simp
  with assms(4) show "\<not> snd (create P (fst (create P s k v)) k w)"
    by (simp add: create_def [of P "fst (create P s k v)"] split_beta)
  show "look (fst (create P s k v)) k = Some v" by (rule c)
qed

lemma put_other: "ok s \<Longrightarrow> name k \<Longrightarrow> valid v \<Longrightarrow> k \<noteq> k' \<Longrightarrow> look (fst (put s k v)) k' = look s k'"
  by (simp add: put_look)

lemma put_get: "ok s \<Longrightarrow> name k \<Longrightarrow> valid v \<Longrightarrow> snd (get (fst (put s k v)) k) = Some v"
  using put_works get_value by (simp add: put_look)

lemma del_get: "ok s \<Longrightarrow> name k \<Longrightarrow> snd (get (fst (del s k)) k) = None"
  using del_works get_value by (simp add: del_look)

lemma get_get: "ok s \<Longrightarrow> snd (get (fst (get s k)) k') = snd (get s k')"
  using get_keeps get_value by simp

end

end
