(* ===== verification/Config_Props.thy ===== *)
theory Config_Props
  imports Config Record_Store "HOL-Library.Countable"
begin

text \<open>
  What the configuration store promises. The records of one keyspace of the system database are
  a \<open>record_store\<close> (the interpretations \<open>records\<close> and \<open>internal\<close> below), so that creation is
  exclusive and what is created is read back; on top of it the properties of groups, passwords,
  partitions and settings.
\<close>

section \<open>JSON texts\<close>

text \<open>
  The documents cJSON prints and parses without loss: integers a double represents, strings
  without NUL. The hypothesis \<open>json_faithful\<close> says that it does.
\<close>

fun json_plain :: "cJSON \<Rightarrow> bool" where
  "json_plain JNull = True"
| "json_plain (JBool b) = True"
| "json_plain (JNumber r) = (r = of_int \<lfloor>r\<rfloor> \<and> \<bar>r\<bar> \<le> 2 ^ 53)"
| "json_plain (JString s) = (CHR 0x00 \<notin> set s)"
| "json_plain (JArray xs) = (\<forall>x \<in> set xs. json_plain x)"
| "json_plain (JObject kvs) = (\<forall>kv \<in> set kvs. CHR 0x00 \<notin> set (fst kv) \<and> json_plain (snd kv))"

definition json_faithful :: "sqlite_env \<Rightarrow> bool" where
  "json_faithful e \<longleftrightarrow>
     (\<forall>j. json_plain j \<longrightarrow>
        (\<exists>s. cJSON_PrintUnformatted e j = Some s \<and> s \<noteq> [] \<and> cJSON_ParseWithLength e s = Some j))"

lemma json_faithfulD:
  assumes "json_faithful e" "json_plain j"
  obtains s where "cJSON_PrintUnformatted e j = Some s" "s \<noteq> []" "cJSON_ParseWithLength e s = Some j"
  using assms by (auto simp: json_faithful_def)

lemma json_plain_int [simp]: "json_plain (json_int i) \<longleftrightarrow> \<bar>i\<bar> \<le> 2 ^ 53"
proof -
  have "\<bar>of_int i :: rat\<bar> \<le> 2 ^ 53 \<longleftrightarrow> (of_int \<bar>i\<bar> :: rat) \<le> of_int (2 ^ 53)" by simp
  also have "\<dots> \<longleftrightarrow> \<bar>i\<bar> \<le> 2 ^ 53" by (rule of_int_le_iff)
  finally show ?thesis by (simp add: json_int_def)
qed

text \<open>
  A printer and a parser with these properties: documents are numbered, and the text of a document
  is its number in unary. The two texts the cluster writes with \<open>snprintf\<close> are read as JSON.
\<close>

instance cJSON :: countable
  by countable_datatype

definition demo_parse :: "string \<Rightarrow> cJSON option" where
  "demo_parse s =
     (if take 3 s = ''{'' @ [CHR 0x22] @ ''g'' then Some (JObject [(''generation'', json_int (fst (strtoll (drop 14 s))))])
      else if take 3 s = ''{'' @ [CHR 0x22] @ ''n''
      then (let node = takeWhile (\<lambda>c. c \<noteq> CHR 0x22) (drop 9 s)
            in Some (JObject [(''node'', JString node), (''ts'', json_int (fst (strtoll (drop (length node + 16) s))))]))
      else Some (from_nat (length s - 1)))"

definition json_env :: "int \<Rightarrow> sqlite_env" where
  "json_env now = (env_at now)
     \<lparr>cJSON_PrintUnformatted := (\<lambda>j. Some (replicate (Suc (to_nat j)) (CHR ''x''))),
      cJSON_ParseWithLength := demo_parse\<rparr>"

lemma json_env_faithful [simp]: "json_faithful (json_env t)"
  by (simp add: json_faithful_def json_env_def demo_parse_def)

section \<open>Engine operations\<close>

lemma engine_get_keeps:
  assumes "engine_ok en" "env_ok e"
  shows "shard_view (fst (edb_get e en p k d)) = shard_view en \<and> engine_ok (fst (edb_get e en p k d)) \<and>
    en_path (fst (edb_get e en p k d)) = en_path en"
proof -
  obtain sh where "sh_rows sh = shard_view en (shard_key p k)"
    "shard_view (fst (edb_get e en p k d)) = (shard_view en)(shard_key p k := sh_rows (fst (edb_shard_get e sh d)))"
    "engine_ok (fst (edb_get e en p k d))" "en_path (fst (edb_get e en p k d)) = en_path en"
    using with_shard_spec [OF assms, of "\<lambda>sh. edb_shard_get e sh d" p k None]
    unfolding edb_get_def by auto
  then show ?thesis by (auto simp: fun_eq_iff)
qed

definition delete_rows :: "sqlite_env \<Rightarrow> string \<Rightarrow> row list \<Rightarrow> row list" where
  "delete_rows e d rows =
     map (\<lambda>r. if r_id r = d then r\<lparr>r_ttl := Some (now_epoch e - 5), r_timestamp := Some (now_epoch e)\<rparr> else r) rows"

lemma engine_delete:
  assumes "engine_ok en" "env_ok e"
  shows "shard_view (fst (edb_delete e en p k d)) =
      (shard_view en)(shard_key p k := delete_rows e d (shard_view en (shard_key p k))) \<and>
    snd (edb_delete e en p k d) \<and> engine_ok (fst (edb_delete e en p k d)) \<and>
    en_path (fst (edb_delete e en p k d)) = en_path en"
proof -
  have "sqlite_works e" using assms(2) by (simp add: env_ok_def)
  then have del: "snd (edb_shard_delete e sh d)" "sh_key (fst (edb_shard_delete e sh d)) = sh_key sh"
    "sh_rows (fst (edb_shard_delete e sh d)) = delete_rows e d (sh_rows sh)" for sh
    by (simp_all add: edb_shard_delete_def delete_rows_def Let_def split_beta)
  show ?thesis
    using with_shard_spec [OF assms, of "\<lambda>sh. edb_shard_delete e sh d" p k False] del
    unfolding edb_delete_def by auto
qed

lemma get_delete_rows:
  "get_rows e (delete_rows e d rows) d' = (if d' = d then None else get_rows e rows d')"
proof -
  have "find_row d' (delete_rows e d rows) = map_option (\<lambda>r. if r_id r = d
      then r\<lparr>r_ttl := Some (now_epoch e - 5), r_timestamp := Some (now_epoch e)\<rparr> else r) (find_row d' rows)"
    unfolding delete_rows_def by (rule find_row_map) simp
  then show ?thesis
    by (auto simp: get_rows_def row_live_def dest: find_row_id split: option.splits)
qed

section \<open>The records of a keyspace\<close>

text \<open>The record a name stands for in a keyspace of the system database.\<close>

definition cfg_doc :: "sqlite_env \<Rightarrow> string \<Rightarrow> edb_config \<Rightarrow> string \<Rightarrow> cJSON option" where
  "cfg_doc e ks cfg d = get_rows e (shard_view (cfg_engine cfg) (shard_key EDB_SYSTEM_DB ks)) d"

definition cfg_ok :: "sqlite_env \<Rightarrow> edb_config \<Rightarrow> bool" where
  "cfg_ok e cfg \<longleftrightarrow> engine_ok (cfg_engine cfg) \<and> env_ok e \<and> json_faithful e \<and> 0 \<le> now_epoch e"

text \<open>No replication, or a callback that applies the change to the local engine.\<close>

definition cfg_local :: "sqlite_env \<Rightarrow> edb_config \<Rightarrow> bool" where
  "cfg_local e cfg \<longleftrightarrow>
     (case cfg_replicate cfg of
        None \<Rightarrow> True
      | Some f \<Rightarrow> f = (\<lambda>en ks d json.
          case json of
            Some text \<Rightarrow> edb_put e en EDB_SYSTEM_DB ks d text (- 1)
          | None \<Rightarrow> edb_delete e en EDB_SYSTEM_DB ks d))"

lemma cfg_okD:
  assumes "cfg_ok e cfg"
  shows "engine_ok (cfg_engine cfg)" "env_ok e" "json_faithful e" "0 \<le> now_epoch e"
  using assms by (simp_all add: cfg_ok_def)

lemma fetch_spec:
  assumes "cfg_ok e cfg"
  shows "snd (fetch e cfg ks d) = cfg_doc e ks cfg d" "cfg_ok e (fst (fetch e cfg ks d))"
    "cfg_doc e ks' (fst (fetch e cfg ks d)) = cfg_doc e ks' cfg"
    "cfg_replicate (fst (fetch e cfg ks d)) = cfg_replicate cfg"
    "shard_view (cfg_engine (fst (fetch e cfg ks d))) = shard_view (cfg_engine cfg)"
    "en_path (cfg_engine (fst (fetch e cfg ks d))) = en_path (cfg_engine cfg)"
  using engine_get [OF cfg_okD(1,2) [OF assms]] engine_get_keeps [OF cfg_okD(1,2) [OF assms]] cfg_okD [OF assms]
  by (simp_all add: fetch_def cfg_doc_def cfg_ok_def split_beta fun_eq_iff)

lemma put_direct:
  assumes "cfg_ok e cfg" "cfg_local e cfg \<or> internal_cluster_setting ks d" "json_plain j"
  shows "\<exists>json. cJSON_PrintUnformatted e j = Some json \<and> json \<noteq> [] \<and> cJSON_ParseWithLength e json = Some j \<and>
    store e cfg ks d j = (cfg\<lparr>cfg_engine := fst (edb_put e (cfg_engine cfg) EDB_SYSTEM_DB ks d json (- 1))\<rparr>,
      snd (edb_put e (cfg_engine cfg) EDB_SYSTEM_DB ks d json (- 1)))"
proof -
  obtain json where j: "cJSON_PrintUnformatted e j = Some json" "json \<noteq> []" "cJSON_ParseWithLength e json = Some j"
    using json_faithfulD [OF cfg_okD(3) [OF assms(1)] assms(3)] .
  then show ?thesis
    using assms(2) by (cases "cfg_replicate cfg") (auto simp: store_def cfg_local_def split_beta)
qed

lemma store_spec:
  assumes "cfg_ok e cfg" "cfg_local e cfg \<or> internal_cluster_setting ks d" "json_plain j"
  shows "snd (store e cfg ks d j)" "cfg_ok e (fst (store e cfg ks d j))"
    "cfg_doc e ks (fst (store e cfg ks d j)) = (cfg_doc e ks cfg)(d \<mapsto> j)"
    "cfg_replicate (fst (store e cfg ks d j)) = cfg_replicate cfg"
    "shard_key EDB_SYSTEM_DB ks' \<noteq> shard_key EDB_SYSTEM_DB ks \<Longrightarrow>
      shard_view (cfg_engine (fst (store e cfg ks d j))) (shard_key EDB_SYSTEM_DB ks') =
      shard_view (cfg_engine cfg) (shard_key EDB_SYSTEM_DB ks')"
    "en_path (cfg_engine (fst (store e cfg ks d j))) = en_path (cfg_engine cfg)"
proof -
  obtain json where j: "json \<noteq> []" "cJSON_ParseWithLength e json = Some j"
    and s: "store e cfg ks d j = (cfg\<lparr>cfg_engine := fst (edb_put e (cfg_engine cfg) EDB_SYSTEM_DB ks d json (- 1))\<rparr>,
      snd (edb_put e (cfg_engine cfg) EDB_SYSTEM_DB ks d json (- 1)))"
    using put_direct [OF assms] by blast
  note put = engine_put [OF cfg_okD(1,2) [OF assms(1)], of EDB_SYSTEM_DB ks d json "- 1"]
  show "snd (store e cfg ks d j)" "cfg_ok e (fst (store e cfg ks d j))"
    "cfg_replicate (fst (store e cfg ks d j)) = cfg_replicate cfg"
    "shard_key EDB_SYSTEM_DB ks' \<noteq> shard_key EDB_SYSTEM_DB ks \<Longrightarrow>
      shard_view (cfg_engine (fst (store e cfg ks d j))) (shard_key EDB_SYSTEM_DB ks') =
      shard_view (cfg_engine cfg) (shard_key EDB_SYSTEM_DB ks')"
    "en_path (cfg_engine (fst (store e cfg ks d j))) = en_path (cfg_engine cfg)"
    using s put cfg_okD [OF assms(1)] by (simp_all add: cfg_ok_def)
  show "cfg_doc e ks (fst (store e cfg ks d j)) = (cfg_doc e ks cfg)(d \<mapsto> j)"
    using s put get_put_rows [OF cfg_okD(4) [OF assms(1)]] j by (simp add: cfg_doc_def fun_eq_iff)
qed

lemma remove_spec:
  assumes "cfg_ok e cfg" "cfg_local e cfg \<or> internal_cluster_setting ks d"
  shows "snd (remove_record e cfg ks d)" "cfg_ok e (fst (remove_record e cfg ks d))"
    "cfg_doc e ks (fst (remove_record e cfg ks d)) = (cfg_doc e ks cfg)(d := None)"
    "cfg_replicate (fst (remove_record e cfg ks d)) = cfg_replicate cfg"
    "en_path (cfg_engine (fst (remove_record e cfg ks d))) = en_path (cfg_engine cfg)"
proof -
  have r: "remove_record e cfg ks d = (cfg\<lparr>cfg_engine := fst (edb_delete e (cfg_engine cfg) EDB_SYSTEM_DB ks d)\<rparr>,
      snd (edb_delete e (cfg_engine cfg) EDB_SYSTEM_DB ks d))"
    using assms(2) by (cases "cfg_replicate cfg") (auto simp: remove_record_def cfg_local_def split_beta)
  note del = engine_delete [OF cfg_okD(1,2) [OF assms(1)], of EDB_SYSTEM_DB ks d]
  show "snd (remove_record e cfg ks d)" "cfg_ok e (fst (remove_record e cfg ks d))"
    "cfg_replicate (fst (remove_record e cfg ks d)) = cfg_replicate cfg"
    "en_path (cfg_engine (fst (remove_record e cfg ks d))) = en_path (cfg_engine cfg)"
    using r del cfg_okD [OF assms(1)] by (simp_all add: cfg_ok_def)
  show "cfg_doc e ks (fst (remove_record e cfg ks d)) = (cfg_doc e ks cfg)(d := None)"
    using r del by (simp add: cfg_doc_def fun_eq_iff get_delete_rows)
qed

interpretation records: record_store "\<lambda>cfg. cfg_ok e cfg \<and> cfg_local e cfg" "\<lambda>d. True" json_plain
  "cfg_doc e ks" "\<lambda>cfg. fetch e cfg ks" "\<lambda>cfg. store e cfg ks" "\<lambda>cfg. remove_record e cfg ks" for e ks
  by unfold_locales (auto simp: fetch_spec store_spec remove_spec cfg_local_def)

interpretation internal: record_store "cfg_ok e" "internal_cluster_setting CFG_KEYSPACE_SETTINGS" json_plain
  "cfg_doc e CFG_KEYSPACE_SETTINGS" "\<lambda>cfg. fetch e cfg CFG_KEYSPACE_SETTINGS"
  "\<lambda>cfg. store e cfg CFG_KEYSPACE_SETTINGS" "\<lambda>cfg. remove_record e cfg CFG_KEYSPACE_SETTINGS" for e
  by unfold_locales (auto simp: fetch_spec store_spec remove_spec)

section \<open>Fields of records\<close>

lemma json_u64_json [simp]: "json_get (Some obj) f = Some (u64_json v) \<Longrightarrow> json_u64 obj f = v"
  using strtoull_show_nat [OF unat_u64_le [of v]] by (simp add: json_u64_def u64_json_def)

lemma show_nat_no_nul: "CHR 0x00 \<notin> set (show_nat n)"
  using show_nat_digits [of "CHR 0x00" n] by (auto simp: is_digit_def)

lemma json_plain_u64 [simp]: "json_plain (u64_json v)"
  by (simp add: u64_json_def show_nat_no_nul)

lemma copy_name_id: "json_get (Some obj) f = Some (JString s) \<Longrightarrow> length s < cap \<Longrightarrow> copy_name cap obj f = s"
  by (simp add: copy_name_def snprintf_s_id)

lemma hex_no_nul: "CHR 0x00 \<notin> set (hex_of_bytes bs)"
  using hex_of_bytes_hex [of "CHR 0x00" bs] by (auto simp: is_hex_char_def hex_digits_def)

lemma user_info_record [simp]:
  "NAME_OK 128 name \<Longrightarrow> user_info (user_record name groups) = \<lparr>us_name = name, us_groups = groups\<rparr>"
  "NAME_OK 128 name \<Longrightarrow> user_info (password_record name groups salt hash) = \<lparr>us_name = name, us_groups = groups\<rparr>"
  by (simp_all add: user_info_def NAME_OK_def copy_name_id user_record_def password_record_def)

lemma group_info_record [simp]:
  "NAME_OK 128 name \<Longrightarrow> group_info (group_record name bp) = \<lparr>gr_name = name, gr_bit_position = bp\<rparr>"
  by (simp add: group_info_def NAME_OK_def copy_name_id group_record_def)

lemma partition_info_record [simp]:
  "NAME_OK 128 database \<Longrightarrow> NAME_OK 256 name \<Longrightarrow> partition_info (partition_record database name c u r d) =
    \<lparr>pt_database = database, pt_name = name, pt_create_mask = c, pt_update_mask = u, pt_read_mask = r, pt_delete_mask = d\<rparr>"
  by (simp add: partition_info_def NAME_OK_def copy_name_id partition_record_def)

lemma records_plain [simp]:
  "CHR 0x00 \<notin> set name \<Longrightarrow> json_plain (user_record name groups)"
  "CHR 0x00 \<notin> set name \<Longrightarrow> json_plain (group_record name groups)"
  "CHR 0x00 \<notin> set name \<Longrightarrow> CHR 0x00 \<notin> set salt \<Longrightarrow> CHR 0x00 \<notin> set hash \<Longrightarrow>
    json_plain (password_record name groups salt hash)"
  "CHR 0x00 \<notin> set database \<Longrightarrow> CHR 0x00 \<notin> set name \<Longrightarrow> json_plain (partition_record database name c u r d)"
  "CHR 0x00 \<notin> set name \<Longrightarrow> json_plain v \<Longrightarrow> json_plain (setting_record name v)"
  by (simp_all add: user_record_def group_record_def password_record_def partition_record_def setting_record_def)

section \<open>Users\<close>

lemma user_get_spec:
  assumes "cfg_ok e cfg"
  shows "snd (edb_user_get e cfg name) =
      (case cfg_doc e CFG_KEYSPACE_USERS cfg name of
         None \<Rightarrow> None
       | Some obj \<Rightarrow> if us_name (user_info obj) \<noteq> [] then Some (user_info obj) else None)"
    and "fst (edb_user_get e cfg name) = fst (fetch e cfg CFG_KEYSPACE_USERS name)"
  using fetch_spec(1) [OF assms] by (simp_all add: edb_user_get_def split_beta)

text \<open>\<open>edb_user_create\<close> is the check-then-create of the record store.\<close>

lemma user_create_eq:
  assumes "NAME_OK 128 name" "cfg_ok e cfg"
  shows "edb_user_create e cfg name groups =
    record_store.create (\<lambda>cfg. fetch e cfg CFG_KEYSPACE_USERS) (\<lambda>cfg. store e cfg CFG_KEYSPACE_USERS)
      (\<lambda>obj. us_name (user_info obj) \<noteq> []) cfg name (user_record name groups)"
  using assms by (auto simp: edb_user_create_def records.create_def edb_user_get_def split_beta split: option.splits)

lemma user_create_spec:
  assumes "cfg_ok e cfg" "cfg_local e cfg" "NAME_OK 128 name" "CHR 0x00 \<notin> set name"
  shows "cfg_ok e (fst (edb_user_create e cfg name groups))" "cfg_local e (fst (edb_user_create e cfg name groups))"
    "snd (edb_user_create e cfg name groups) \<longleftrightarrow> snd (edb_user_get e cfg name) = None"
    "snd (edb_user_create e cfg name groups) \<Longrightarrow>
      cfg_doc e CFG_KEYSPACE_USERS (fst (edb_user_create e cfg name groups)) name = Some (user_record name groups)"
proof -
  have ok: "cfg_ok e cfg \<and> cfg_local e cfg" using assms(1,2) by simp
  have plain: "json_plain (user_record name groups)" using assms(4) by simp
  note cr = records.create_spec [OF ok TrueI plain, of CFG_KEYSPACE_USERS "\<lambda>obj. us_name (user_info obj) \<noteq> []" name,
      folded user_create_eq [OF assms(3,1), of groups]]
  show "cfg_ok e (fst (edb_user_create e cfg name groups))" "cfg_local e (fst (edb_user_create e cfg name groups))"
    "snd (edb_user_create e cfg name groups) \<Longrightarrow>
      cfg_doc e CFG_KEYSPACE_USERS (fst (edb_user_create e cfg name groups)) name = Some (user_record name groups)"
    using cr(1,3) by simp_all
  show "snd (edb_user_create e cfg name groups) \<longleftrightarrow> snd (edb_user_get e cfg name) = None"
    using cr(2) user_get_spec(1) [OF assms(1), of name] by (auto split: option.split)
qed

lemma verify_spec:
  assumes "cfg_ok e cfg"
  shows "snd (edb_user_verify_password e cfg name password) =
      (case cfg_doc e CFG_KEYSPACE_USERS cfg name of
         None \<Rightarrow> False
       | Some obj \<Rightarrow>
           (case (json_str (json_get (Some obj) ''salt''), json_str (json_get (Some obj) ''password_hash'')) of
              (Some salt, Some hash) \<Rightarrow>
                length salt = 32 \<and> length hash = 64 \<and> hash_password salt password = hash
            | _ \<Rightarrow> False))"
  using fetch_spec(1) [OF assms]
  by (simp add: edb_user_verify_password_def split_beta split: option.splits)

lemma length_sha_iter: "length ((edb_sha256 ^^ n) (edb_sha256 x)) = 32"
  by (induction n) simp_all

lemma length_hash_password [simp]: "length (hash_password salt password) = 64"
  by (simp add: hash_password_def Let_def length_sha_iter)

lemma hash_password_no_nul: "CHR 0x00 \<notin> set (hash_password salt password)"
  by (simp add: hash_password_def Let_def hex_no_nul)

lemma edb_random_hex_32: "16 \<le> length random \<Longrightarrow> edb_random_hex random 32 = hex_of_bytes (take 16 random)"
  by (simp add: edb_random_hex_def)

text \<open>The state after setting a password: the record carries the salt and the hash.\<close>

lemma set_password_spec:
  assumes "cfg_ok e cfg" "cfg_local e cfg" "NAME_OK 128 name" "CHR 0x00 \<notin> set name" "16 \<le> length random"
    and "snd (edb_user_get e cfg name) = Some u" "password \<noteq> []"
  defines "r \<equiv> edb_user_set_password e random cfg name password"
    and "salt \<equiv> hex_of_bytes (take 16 random)"
  shows "snd r" "cfg_ok e (fst r)" "cfg_local e (fst r)"
    "cfg_doc e CFG_KEYSPACE_USERS (fst r) name =
      Some (password_record name (us_groups u) salt (hash_password salt password))"
proof -
  let ?cfg = "fst (fetch e cfg CFG_KEYSPACE_USERS name)"
  let ?rec = "password_record name (us_groups u) salt (hash_password salt password)"
  have c: "cfg_ok e ?cfg" "cfg_local e ?cfg" using fetch_spec [OF assms(1)] assms(2) by (auto simp: cfg_local_def)
  have p: "json_plain ?rec" using assms(4) by (simp add: salt_def hex_no_nul hash_password_no_nul)
  have r: "r = store e ?cfg CFG_KEYSPACE_USERS name ?rec"
    using assms(6,7) user_get_spec(2) [OF assms(1), of name]
    by (simp add: r_def edb_user_set_password_def split_beta Let_def salt_def edb_random_hex_32 [OF assms(5)])
  show "snd r" "cfg_ok e (fst r)" "cfg_doc e CFG_KEYSPACE_USERS (fst r) name = Some ?rec"
    unfolding r using store_spec [OF c(1) disjI1 [OF c(2)] p] by simp_all
  show "cfg_local e (fst r)"
    unfolding r using store_spec(4) [OF c(1) disjI1 [OF c(2)] p] c(2) by (simp add: cfg_local_def)
qed

section \<open>Listing\<close>

text \<open>Queries can be prepared and visit every row once.\<close>

definition list_ok :: "sqlite_env \<Rightarrow> bool" where
  "list_ok e \<longleftrightarrow> (\<forall>q. prepare_ok e q) \<and> (\<forall>rows. mset (scan_rows e rows) = mset rows)"

definition live_docs :: "sqlite_env \<Rightarrow> row list \<Rightarrow> cJSON list" where
  "live_docs e rows = List.map_filter (\<lambda>r. if row_live (now_epoch e) r then parse_value e r else None) rows"

lemma map_filter_filter:
  "List.map_filter f (filter P xs) = List.map_filter (\<lambda>x. if P x then f x else None) xs"
  by (induction xs) (auto simp: List.map_filter_simps split: option.splits)

lemma shard_all_unfiltered:
  assumes "list_ok e"
  shows "edb_shard_all e sh None = Some (JArray (live_docs e (scan_rows e (sh_rows sh))))"
proof -
  have fs: "filter_list None = []" by (simp add: filter_list_def filter_count_def)
  obtain stmt where "prepare_live_query (prepare_ok e) (cJSON_PrintUnformatted e) (now_epoch e)
      ''SELECT value FROM Data WHERE'' None False = Some stmt"
    using assms by (simp add: list_ok_def prepare_live_query_def live_query_sql_def edb_filters_valid_def
        filter_count_def fs Let_def SIZE_MAX_def)
  moreover have "step_rows e [] rows = (filter (\<lambda>r. row_live (now_epoch e) r) rows, True)" for rows
    using step_rows_exact [of rows e "[]"] by simp
  moreover have "(case x of None \<Rightarrow> None | Some d \<Rightarrow> Some (if False then g d else d)) = x"
    for x :: "cJSON option" and g
    by (cases x) simp_all
  ultimately show ?thesis
    by (simp add: edb_shard_all_def collect_values_def live_rows_def fs live_docs_def map_filter_filter)
qed

lemma collect_spec:
  assumes "cfg_ok e cfg" "list_ok e"
  shows "snd (collect e cfg ks) =
      Some (JArray (live_docs e (scan_rows e (shard_view (cfg_engine cfg) (shard_key EDB_SYSTEM_DB ks)))))"
    "cfg_ok e (fst (collect e cfg ks))" "cfg_replicate (fst (collect e cfg ks)) = cfg_replicate cfg"
    "shard_view (cfg_engine (fst (collect e cfg ks))) = shard_view (cfg_engine cfg)"
proof -
  let ?f = "\<lambda>sh. (sh, edb_shard_all e sh None)"
  obtain sh where sh: "sh_rows sh = shard_view (cfg_engine cfg) (shard_key EDB_SYSTEM_DB ks)"
    "snd (edb_all e (cfg_engine cfg) EDB_SYSTEM_DB ks None) = edb_shard_all e sh None"
    "shard_view (fst (edb_all e (cfg_engine cfg) EDB_SYSTEM_DB ks None)) =
      (shard_view (cfg_engine cfg))(shard_key EDB_SYSTEM_DB ks := sh_rows sh)"
    "engine_ok (fst (edb_all e (cfg_engine cfg) EDB_SYSTEM_DB ks None))"
    using with_shard_spec [OF cfg_okD(1,2) [OF assms(1)], of ?f EDB_SYSTEM_DB ks None]
    unfolding edb_all_def by auto
  then show "snd (collect e cfg ks) =
      Some (JArray (live_docs e (scan_rows e (shard_view (cfg_engine cfg) (shard_key EDB_SYSTEM_DB ks)))))"
    "cfg_ok e (fst (collect e cfg ks))" "cfg_replicate (fst (collect e cfg ks)) = cfg_replicate cfg"
    "shard_view (cfg_engine (fst (collect e cfg ks))) = shard_view (cfg_engine cfg)"
    using cfg_okD [OF assms(1)] shard_all_unfiltered [OF assms(2)]
    by (simp_all add: collect_def split_beta cfg_ok_def)
qed

lemma mset_live_docs: "mset rows = mset rows' \<Longrightarrow> mset (live_docs e rows) = mset (live_docs e rows')"
  by (simp add: live_docs_def List.map_filter_def)

section \<open>Group bits\<close>

definition bit_valid :: "u64 \<Rightarrow> bool" where
  "bit_valid b \<longleftrightarrow> 1 \<le> b \<and> b \<le> of_nat EDB_MAX_GROUPS"

text \<open>The bits the groups of the store occupy.\<close>

definition group_bits :: "sqlite_env \<Rightarrow> edb_config \<Rightarrow> u64 list" where
  "group_bits e cfg = filter bit_valid (map gr_bit_position (snd (edb_group_list e cfg)))"

lemma bit_used_bits_aux:
  "bit (foldl (\<lambda>used g. if 1 \<le> gr_bit_position g \<and> gr_bit_position g \<le> of_nat EDB_MAX_GROUPS
       then used OR push_bit (unat (gr_bit_position g - 1)) 1 else used) u groups) n \<longleftrightarrow>
     bit (u :: u64) n \<or>
     (\<exists>g \<in> set groups. bit_valid (gr_bit_position g) \<and> n = unat (gr_bit_position g - 1) \<and> n < 64)"
  by (induction groups arbitrary: u) (auto simp: bit_or_iff bit_exp_iff bit_valid_def)

lemma bit_used_bits:
  "bit (used_bits groups) n \<longleftrightarrow>
     (\<exists>g \<in> set groups. bit_valid (gr_bit_position g) \<and> n = unat (gr_bit_position g - 1) \<and> n < 64)"
  unfolding used_bits_def by (subst bit_used_bits_aux) simp

lemma and_push_bit_1: "(w :: u64) AND push_bit n 1 = 0 \<longleftrightarrow> \<not> (n < 64 \<and> bit w n)"
proof
  assume "w AND push_bit n 1 = 0"
  then have "bit (w AND push_bit n 1) n = bit (0 :: u64) n" by simp
  then show "\<not> (n < 64 \<and> bit w n)" by (auto simp: bit_and_iff bit_exp_iff)
next
  assume "\<not> (n < 64 \<and> bit w n)"
  then show "w AND push_bit n 1 = 0"
    by (intro bit_word_eqI) (auto simp: bit_and_iff bit_exp_iff)
qed

lemma unat_bit_pred: "bit_valid b \<Longrightarrow> unat (b - 1) = unat b - 1 \<and> 1 \<le> unat b \<and> unat b \<le> 63"
proof -
  assume b: "bit_valid b"
  then have "1 \<le> b" "b \<le> 63" by (simp_all add: bit_valid_def EDB_MAX_GROUPS_def)
  then have "unat (1 :: u64) \<le> unat b" "unat b \<le> unat (63 :: u64)" by (simp_all only: word_le_nat_alt)
  then show ?thesis using \<open>1 \<le> b\<close> by (simp add: unat_sub)
qed

lemma next_free_bit_spec:
  assumes "cfg_ok e cfg" "list_ok e"
  shows "snd (next_free_bit e cfg) \<noteq> 0 \<Longrightarrow>
      bit_valid (snd (next_free_bit e cfg)) \<and> snd (next_free_bit e cfg) \<notin> set (group_bits e cfg)"
    and "snd (next_free_bit e cfg) = 0 \<longleftrightarrow> set (group_bits e cfg) = {b. bit_valid b}"
    and "fst (next_free_bit e cfg) = fst (collect e cfg CFG_KEYSPACE_GROUPS)"
proof -
  define groups where "groups = snd (edb_group_list e cfg)"
  let ?free = "\<lambda>b. used_bits groups AND push_bit (b - 1) 1 = 0"
  have free: "?free n \<longleftrightarrow> of_nat n \<notin> set (group_bits e cfg)" if "1 \<le> n" "n \<le> 63" for n
  proof -
    have n: "unat (of_nat n :: u64) = n" using that by (simp add: unat_of_nat)
    have v: "bit_valid (of_nat n :: u64)"
      using that by (simp add: bit_valid_def EDB_MAX_GROUPS_def word_le_nat_alt n)
    have "(\<exists>g \<in> set groups. bit_valid (gr_bit_position g) \<and> n - 1 = unat (gr_bit_position g - 1)) \<longleftrightarrow>
        (\<exists>g \<in> set groups. gr_bit_position g = of_nat n)"
    proof -
      have "n - 1 = unat (b - 1) \<longleftrightarrow> b = of_nat n" if "bit_valid b" for b :: u64
        using unat_bit_pred [OF that] \<open>1 \<le> n\<close> n unat_bit_pred [OF v] by (auto simp: word_unat_eq_iff)
      with v have "bit_valid b \<and> n - 1 = unat (b - 1) \<longleftrightarrow> b = of_nat n" for b :: u64 by blast
      then show ?thesis by simp
    qed
    moreover have "?free n \<longleftrightarrow>
        \<not> (\<exists>g \<in> set groups. bit_valid (gr_bit_position g) \<and> n - 1 = unat (gr_bit_position g - 1))"
      using that by (subst and_push_bit_1, subst bit_used_bits) auto
    moreover have "of_nat n \<in> set (group_bits e cfg) \<longleftrightarrow> (\<exists>g \<in> set groups. gr_bit_position g = of_nat n)"
      using v by (auto simp: group_bits_def groups_def image_iff) metis
    ultimately show ?thesis by simp
  qed
  have f: "fst (next_free_bit e cfg) = fst (collect e cfg CFG_KEYSPACE_GROUPS)"
    "snd (next_free_bit e cfg) = (case first_match ?free [1..<EDB_MAX_GROUPS + 1] of None \<Rightarrow> 0 | Some b \<Rightarrow> of_nat b)"
    by (simp_all add: next_free_bit_def edb_group_list_def groups_def split_beta Let_def)
  show "fst (next_free_bit e cfg) = fst (collect e cfg CFG_KEYSPACE_GROUPS)" by (rule f)
  have valid_sub: "set (group_bits e cfg) \<subseteq> {b. bit_valid b}" by (auto simp: group_bits_def)
  show "snd (next_free_bit e cfg) \<noteq> 0 \<Longrightarrow>
      bit_valid (snd (next_free_bit e cfg)) \<and> snd (next_free_bit e cfg) \<notin> set (group_bits e cfg)"
  proof (cases "first_match ?free [1..<EDB_MAX_GROUPS + 1]")
    case (Some b)
    then have "?free b" "b \<in> set [1..<EDB_MAX_GROUPS + 1]"
      by (auto simp: first_match_def find_Some_iff simp del: upt_Suc)
    then have b: "?free b" "1 \<le> b" "b \<le> 63" by (auto simp: EDB_MAX_GROUPS_def)
    then have "unat (of_nat b :: u64) = b" by (simp add: unat_of_nat)
    with b free Some f show ?thesis
      by (simp add: bit_valid_def EDB_MAX_GROUPS_def word_le_nat_alt)
  qed (use f in simp)
  show "snd (next_free_bit e cfg) = 0 \<longleftrightarrow> set (group_bits e cfg) = {b. bit_valid b}"
  proof
    assume z: "snd (next_free_bit e cfg) = 0"
    show "set (group_bits e cfg) = {b. bit_valid b}"
    proof (cases "first_match ?free [1..<EDB_MAX_GROUPS + 1]")
      case None
      then have all: "\<not> ?free n" if "1 \<le> n" "n \<le> 63" for n
        using that by (auto simp: first_match_def find_None_iff EDB_MAX_GROUPS_def)
      have "b \<in> set (group_bits e cfg)" if "bit_valid b" for b
        using all [of "unat b"] free [of "unat b"] unat_bit_pred [OF that] by simp
      with valid_sub show ?thesis by auto
    next
      case (Some b)
      then have "b \<in> set [1..<EDB_MAX_GROUPS + 1]" by (auto simp: first_match_def find_Some_iff simp del: upt_Suc)
      then have "1 \<le> b" "b \<le> 63" by (auto simp: EDB_MAX_GROUPS_def)
      then have "unat (of_nat b :: u64) = b" by (simp add: unat_of_nat)
      with z f Some \<open>1 \<le> b\<close> show ?thesis by (auto simp: word_unat_eq_iff)
    qed
  next
    assume full: "set (group_bits e cfg) = {b. bit_valid b}"
    have "\<not> ?free n" if n: "n \<in> set [1..<EDB_MAX_GROUPS + 1]" for n
    proof -
      have n': "1 \<le> n" "n \<le> 63" using n by (auto simp: EDB_MAX_GROUPS_def)
      then have "unat (of_nat n :: u64) = n" by (simp add: unat_of_nat)
      then have "bit_valid (of_nat n :: u64)" using n' by (simp add: bit_valid_def EDB_MAX_GROUPS_def word_le_nat_alt)
      with full free [OF n'] show ?thesis by auto
    qed
    then have "first_match ?free [1..<EDB_MAX_GROUPS + 1] = None"
      by (auto simp: first_match_def find_None_iff simp del: upt_Suc)
    with f show "snd (next_free_bit e cfg) = 0" by simp
  qed
qed

lemma group_bits_mset:
  assumes "cfg_ok e cfg" "list_ok e"
  shows "mset (group_bits e cfg) = filter_mset bit_valid (image_mset (gr_bit_position \<circ> group_info)
    (mset (live_docs e (shard_view (cfg_engine cfg) (shard_key EDB_SYSTEM_DB CFG_KEYSPACE_GROUPS)))))"
proof -
  let ?rows = "shard_view (cfg_engine cfg) (shard_key EDB_SYSTEM_DB CFG_KEYSPACE_GROUPS)"
  have "mset (scan_rows e ?rows) = mset ?rows" using assms(2) by (simp add: list_ok_def)
  then have "mset (live_docs e (scan_rows e ?rows)) = mset (live_docs e ?rows)" by (rule mset_live_docs)
  then show ?thesis
    using collect_spec(1) [OF assms, of CFG_KEYSPACE_GROUPS]
    by (simp add: group_bits_def edb_group_list_def split_beta multiset.map_comp)
qed

lemma live_docs_insert:
  "mset (live_docs e (insert_or_replace r rows)) \<subseteq>#
    mset (live_docs e rows) + (case if row_live (now_epoch e) r then parse_value e r else None of
      None \<Rightarrow> {#} | Some d \<Rightarrow> {#d#})"
proof -
  have more: "A \<subseteq># B \<Longrightarrow> A \<subseteq># add_mset d B" for A B :: "cJSON multiset" and d
    by (metis add_mset_add_single mset_subset_eq_add_left subset_mset.order_trans)
  have "mset (live_docs e (filter P rows)) \<subseteq># mset (live_docs e rows)" for P
    unfolding live_docs_def by (induction rows) (auto simp: List.map_filter_simps more split: option.split)
  moreover have "live_docs e (xs @ [r]) = live_docs e xs @
      (case if row_live (now_epoch e) r then parse_value e r else None of None \<Rightarrow> [] | Some d \<Rightarrow> [d])" for xs
    by (simp add: live_docs_def List.map_filter_def split: option.split)
  ultimately show ?thesis
    by (simp add: insert_or_replace_def subset_mset.add_right_mono split: option.split)
qed

lemma distinct_mset_sub: "distinct xs \<Longrightarrow> mset ys \<subseteq># mset xs \<Longrightarrow> distinct ys"
proof -
  assume xs: "distinct xs" and sub: "mset ys \<subseteq># mset xs"
  have "count (mset ys) a \<le> 1" for a
  proof -
    have "count (mset xs) a \<le> 1" using xs distinct_count_atmost_1 [of xs] by (cases "a \<in> set xs") auto
    then show ?thesis using mset_subset_eq_count [OF sub, of a] by simp
  qed
  moreover have "a \<in> set ys \<longleftrightarrow> 0 < count (mset ys) a" for a by (simp add: count_greater_zero_iff)
  ultimately show "distinct ys"
    unfolding distinct_count_atmost_1 by (metis One_nat_def Suc_leI le_antisym not_gr_zero)
qed

text \<open>Storing a group record adds at most its own bit to the bits in use.\<close>

lemma store_group_bits:
  assumes "cfg_ok e cfg" "cfg_local e cfg" "list_ok e" "NAME_OK 128 name" "CHR 0x00 \<notin> set name" "bit_valid b"
  shows "mset (group_bits e (fst (store e cfg CFG_KEYSPACE_GROUPS name (group_record name b)))) \<subseteq>#
    add_mset b (mset (group_bits e cfg))"
proof -
  let ?rec = "group_record name b" and ?key = "shard_key EDB_SYSTEM_DB CFG_KEYSPACE_GROUPS"
  let ?cfg = "fst (store e cfg CFG_KEYSPACE_GROUPS name ?rec)"
  let ?f = "gr_bit_position \<circ> group_info"
  have plain: "json_plain ?rec" using assms(5) by simp
  obtain json where j: "cJSON_ParseWithLength e json = Some ?rec" "json \<noteq> []"
    "store e cfg CFG_KEYSPACE_GROUPS name ?rec =
      (cfg\<lparr>cfg_engine := fst (edb_put e (cfg_engine cfg) EDB_SYSTEM_DB CFG_KEYSPACE_GROUPS name json (- 1))\<rparr>,
       snd (edb_put e (cfg_engine cfg) EDB_SYSTEM_DB CFG_KEYSPACE_GROUPS name json (- 1)))"
    using put_direct [OF assms(1) disjI1 [OF assms(2)] plain] by blast
  let ?row = "put_row e name json (- 1)" and ?rows = "shard_view (cfg_engine cfg) ?key"
  have view: "shard_view (cfg_engine ?cfg) ?key = insert_or_replace ?row ?rows"
    using engine_put [OF cfg_okD(1,2) [OF assms(1)]] j(3) by simp
  have "row_live (now_epoch e) ?row" "parse_value e ?row = Some ?rec"
    using j(1,2) cfg_okD(4) [OF assms(1)] by (simp_all add: put_row_def row_live_def parse_value_def)
  then have sub: "mset (live_docs e (shard_view (cfg_engine ?cfg) ?key)) \<subseteq># add_mset ?rec (mset (live_docs e ?rows))"
    using live_docs_insert [of e ?row ?rows] view by simp
  have "mset (group_bits e ?cfg) \<subseteq># filter_mset bit_valid (image_mset ?f (add_mset ?rec (mset (live_docs e ?rows))))"
    unfolding group_bits_mset [OF store_spec(2) [OF assms(1) disjI1 [OF assms(2)] plain] assms(3)]
    by (intro multiset_filter_mono image_mset_subseteq_mono sub)
  also have "\<dots> = add_mset b (mset (group_bits e cfg))"
    using assms(4,6) by (simp add: group_bits_mset [OF assms(1,3)])
  finally show ?thesis .
qed

lemma group_get_spec:
  assumes "cfg_ok e cfg"
  shows "snd (edb_group_get e cfg name) =
      (case cfg_doc e CFG_KEYSPACE_GROUPS cfg name of
         None \<Rightarrow> None
       | Some obj \<Rightarrow>
           if gr_name (group_info obj) \<noteq> [] \<and> bit_valid (gr_bit_position (group_info obj))
           then Some (group_info obj) else None)"
    and "fst (edb_group_get e cfg name) = fst (fetch e cfg CFG_KEYSPACE_GROUPS name)"
  using fetch_spec(1) [OF assms]
  by (auto simp: edb_group_get_def split_beta Let_def bit_valid_def split: option.split)

section \<open>Properties\<close>

text \<open>
  C38. Security groups never share a permission bit: creating a group fails exactly when the name
  is taken or all 63 bits are in use; otherwise the group gets a bit from 1 to 63 that no other
  group has, and reads back with it. Bits that were distinct stay distinct.
\<close>

theorem group_bits_distinct:
  assumes "cfg_ok e cfg" "cfg_local e cfg" "list_ok e" "NAME_OK 128 name" "CHR 0x00 \<notin> set name"
    and "distinct (group_bits e cfg)"
  shows "distinct (group_bits e (fst (edb_group_create e cfg name))) \<and>
    (snd (edb_group_create e cfg name) \<longleftrightarrow>
       snd (edb_group_get e cfg name) = None \<and> set (group_bits e cfg) \<noteq> {b. bit_valid b}) \<and>
    (snd (edb_group_create e cfg name) \<longrightarrow>
       (\<exists>b. bit_valid b \<and> b \<notin> set (group_bits e cfg) \<and>
         snd (edb_group_get e (fst (edb_group_create e cfg name)) name) =
           Some \<lparr>gr_name = name, gr_bit_position = b\<rparr>))"
proof -
  define c1 where "c1 = fst (edb_group_get e cfg name)"
  define c2 where "c2 = fst (next_free_bit e c1)"
  define b where "b = snd (next_free_bit e c1)"
  have c1: "cfg_ok e c1" "cfg_local e c1" "shard_view (cfg_engine c1) = shard_view (cfg_engine cfg)"
    unfolding c1_def group_get_spec(2) [OF assms(1)]
    using fetch_spec [OF assms(1)] assms(2) by (simp_all add: cfg_local_def)
  note nf = next_free_bit_spec [OF c1(1) assms(3)]
  have c2: "cfg_ok e c2" "cfg_local e c2" "shard_view (cfg_engine c2) = shard_view (cfg_engine cfg)"
    unfolding c2_def nf(3) using collect_spec [OF c1(1) assms(3)] c1 by (simp_all add: cfg_local_def)
  have same: "mset (group_bits e c1) = mset (group_bits e cfg)" "mset (group_bits e c2) = mset (group_bits e cfg)"
    by (simp_all only: group_bits_mset [OF _ assms(3)] c1 c2 assms(1))
  then have dist: "distinct (group_bits e c1)" "distinct (group_bits e c2)"
    using assms(6) mset_eq_imp_distinct_iff [OF same(1)] mset_eq_imp_distinct_iff [OF same(2)] by simp_all
  have bits: "set (group_bits e c1) = set (group_bits e cfg)" using same(1) by (rule mset_eq_setD)
  have create: "edb_group_create e cfg name =
      (if snd (edb_group_get e cfg name) \<noteq> None then (c1, False)
       else if b = 0 then (c2, False)
       else store e c2 CFG_KEYSPACE_GROUPS name (group_record name b))"
    using assms(4) by (simp add: edb_group_create_def c1_def c2_def b_def split_beta Let_def)
  consider (taken) "snd (edb_group_get e cfg name) \<noteq> None"
    | (full) "snd (edb_group_get e cfg name) = None" "b = 0"
    | (new) "snd (edb_group_get e cfg name) = None" "b \<noteq> 0" by blast
  then show ?thesis
  proof cases
    case taken
    then show ?thesis using create dist by simp
  next
    case full
    moreover have "set (group_bits e cfg) = {b. bit_valid b}" using full(2) nf(2) bits by (simp add: b_def)
    ultimately show ?thesis using create dist by simp
  next
    case new
    have b: "bit_valid b" "b \<notin> set (group_bits e cfg)" using nf(1) new(2) bits by (simp_all add: b_def)
    let ?r = "store e c2 CFG_KEYSPACE_GROUPS name (group_record name b)"
    have r: "edb_group_create e cfg name = ?r" using create new by simp
    have plain: "json_plain (group_record name b)" using assms(5) by simp
    note st = store_spec [OF c2(1) disjI1 [OF c2(2)] plain, of CFG_KEYSPACE_GROUPS name]
    have get: "snd (edb_group_get e (fst ?r) name) = Some \<lparr>gr_name = name, gr_bit_position = b\<rparr>"
      using group_get_spec(1) [OF st(2)] st(3) b(1) assms(4) by (simp add: NAME_OK_def)
    have sub: "mset (group_bits e (fst ?r)) \<subseteq># mset (b # group_bits e c2)"
      using store_group_bits [OF c2(1,2) assms(3-5) b(1)] by simp
    have "distinct (b # group_bits e c2)" using dist(2) b(2) mset_eq_setD [OF same(2)] by simp
    then have "distinct (group_bits e (fst ?r))" using sub by (rule distinct_mset_sub)
    with st(1) get b new r show ?thesis by auto
  qed
qed

definition demo_config :: edb_config where
  "demo_config = \<lparr>cfg_engine = empty_engine ''d'' no_files, cfg_replicate = None\<rparr>"

lemma json_env_simps [simp]:
  "now_epoch (json_env t) = t" "env_ok (json_env t)" "list_ok (json_env t)"
  by (simp_all add: env_ok_def json_env_def env_at_def sqlite_works_def list_ok_def)

lemma demo_config_ok [simp]: "0 \<le> t \<Longrightarrow> cfg_ok (json_env t) demo_config" "cfg_local e demo_config"
  using no_files_ok by (simp_all add: cfg_ok_def cfg_local_def demo_config_def)

lemma demo_config_empty [simp]: "shard_view (cfg_engine demo_config) k = []" "cfg_doc e ks demo_config d = None"
proof -
  show v: "shard_view (cfg_engine demo_config) k = []" for k
    using empty_engine_ok [of no_files "''d''" k] by (simp add: demo_config_def file_rows_def no_files_def)
  then show "cfg_doc e ks demo_config d = None" by (simp add: cfg_doc_def get_rows_def)
qed

theorem group_bits_distinct_witness:
  "distinct (group_bits (json_env 10) (fst (edb_group_create (json_env 10) demo_config ''admins'')))"
proof -
  have "group_bits (json_env 10) demo_config = []"
    using group_bits_mset [of "json_env 10" demo_config] by (simp add: live_docs_def List.map_filter_simps)
  then show ?thesis
    using group_bits_distinct [of "json_env 10" demo_config "''admins''"] by (simp add: NAME_OK_def)
qed

text \<open>
  C39. Users and passwords: a user is created exactly when no user of that name exists, and then
  reads back with its groups; a second creation fails. After \<open>edb_user_set_password\<close> the groups are
  unchanged, and a password is accepted exactly when it hashes with the stored salt to the same
  digest as the one set, which every password with the same first 256 characters does.
\<close>

theorem user_password:
  fixes groups :: u64
  assumes "cfg_ok e cfg" "cfg_local e cfg" "NAME_OK 128 name" "CHR 0x00 \<notin> set name" "16 \<le> length random"
    and "password \<noteq> []"
  defines "created \<equiv> edb_user_create e cfg name groups"
    and "changed \<equiv> edb_user_set_password e random (fst (edb_user_create e cfg name groups)) name password"
    and "salt \<equiv> hex_of_bytes (take 16 random)"
  shows "(snd created \<longleftrightarrow> snd (edb_user_get e cfg name) = None) \<and>
    (snd created \<longrightarrow>
      snd (edb_user_get e (fst created) name) = Some \<lparr>us_name = name, us_groups = groups\<rparr> \<and>
      \<not> snd (edb_user_create e (fst created) name groups') \<and>
      snd changed \<and>
      snd (edb_user_get e (fst changed) name) = Some \<lparr>us_name = name, us_groups = groups\<rparr> \<and>
      (\<forall>p. snd (edb_user_verify_password e (fst changed) name p) \<longleftrightarrow> hash_password salt p = hash_password salt password) \<and>
      (\<forall>p. take 256 p = take 256 password \<longrightarrow> snd (edb_user_verify_password e (fst changed) name p)))"
proof -
  note cr = user_create_spec [OF assms(1-4), of groups, folded created_def]
  have *: "snd (edb_user_get e (fst created) name) = Some \<lparr>us_name = name, us_groups = groups\<rparr>"
    if c: "snd created"
    using user_get_spec(1) [of e "fst created" name] cr c assms(3) by (simp add: NAME_OK_def)
  have again: "\<not> snd (edb_user_create e (fst created) name groups')" if c: "snd created"
    using * [OF c] assms(3) by (simp add: edb_user_create_def split_beta)
  have ch: "snd changed" "cfg_ok e (fst changed)" "cfg_doc e CFG_KEYSPACE_USERS (fst changed) name =
      Some (password_record name groups salt (hash_password salt password))" if c: "snd created"
    using set_password_spec [of e "fst created" name random _ password] cr(1,2) * [OF c] assms(3-6)
    by (simp_all add: changed_def created_def salt_def)
  have get: "snd (edb_user_get e (fst changed) name) = Some \<lparr>us_name = name, us_groups = groups\<rparr>"
    if c: "snd created"
    using user_get_spec(1) [OF ch(2) [OF c], of name] ch(3) [OF c] assms(3) by (simp add: NAME_OK_def)
  have ver: "snd (edb_user_verify_password e (fst changed) name p) \<longleftrightarrow> hash_password salt p = hash_password salt password"
    if c: "snd created" for p
    using verify_spec [OF ch(2) [OF c], of name p] ch(3) [OF c] assms(5) by (simp add: password_record_def salt_def)
  have "hash_password salt p = hash_password salt password" if "take 256 p = take 256 password" for p
    using that by (simp add: hash_password_def)
  with cr(3) * again ch(1) get ver show ?thesis by blast
qed

theorem user_password_witness:
  "snd (edb_user_verify_password (json_env 10)
     (fst (edb_user_set_password (json_env 10) (replicate 16 7)
       (fst (edb_user_create (json_env 10) demo_config ''ann'' 3)) ''ann'' ''secret'')) ''ann'' ''secret'')"
proof -
  have "snd (edb_user_get (json_env 10) demo_config ''ann'') = None" by (simp add: user_get_spec)
  then show ?thesis
    using user_password [of "json_env 10" demo_config "''ann''" "replicate 16 7" "''secret''" 3]
    by (simp add: NAME_OK_def)
qed

text \<open>
  Changing a user's groups erases the password: \<open>edb_user_set_groups\<close> writes a record without
  salt and hash, so that no password is accepted afterwards.
\<close>

theorem set_groups_erases_password:
  assumes "cfg_ok e cfg" "cfg_local e cfg" "CHR 0x00 \<notin> set name"
    and "snd (edb_user_set_groups e cfg name groups)"
  shows "\<not> snd (edb_user_verify_password e (fst (edb_user_set_groups e cfg name groups)) name password) \<and>
    \<not> snd (edb_user_has_password e (fst (edb_user_set_groups e cfg name groups)) name)"
proof -
  let ?cfg = "fst (fetch e cfg CFG_KEYSPACE_USERS name)" and ?rec = "user_record name groups"
  have c: "cfg_ok e ?cfg" "cfg_local e ?cfg" using fetch_spec [OF assms(1)] assms(2) by (auto simp: cfg_local_def)
  have r: "edb_user_set_groups e cfg name groups = store e ?cfg CFG_KEYSPACE_USERS name ?rec"
    using assms(4) by (auto simp: edb_user_set_groups_def user_update_def edb_user_get_def split_beta split: if_splits)
  have plain: "json_plain ?rec" using assms(3) by simp
  note st = store_spec [OF c(1) disjI1 [OF c(2)] plain, of CFG_KEYSPACE_USERS name]
  show ?thesis
    unfolding r using verify_spec [OF st(2)] fetch_spec(1) [OF st(2)] st(3)
    by (simp add: edb_user_has_password_def split_beta user_record_def)
qed

theorem set_groups_erases_password_witness:
  "\<not> snd (edb_user_verify_password (json_env 10)
     (fst (edb_user_set_groups (json_env 10) (fst (edb_user_create (json_env 10) demo_config ''ann'' 3)) ''ann'' 1))
     ''ann'' ''secret'')"
proof -
  let ?c = "fst (edb_user_create (json_env 10) demo_config ''ann'' 3)"
  have cr: "cfg_ok (json_env 10) ?c" "cfg_local (json_env 10) ?c"
      "cfg_doc (json_env 10) CFG_KEYSPACE_USERS ?c ''ann'' = Some (user_record ''ann'' 3)"
    using user_create_spec [of "json_env 10" demo_config "''ann''" 3] by (simp_all add: NAME_OK_def user_get_spec)
  let ?f = "fst (fetch (json_env 10) ?c CFG_KEYSPACE_USERS ''ann'')"
  have f: "cfg_ok (json_env 10) ?f" "cfg_local (json_env 10) ?f"
    using fetch_spec [OF cr(1)] cr(2) by (auto simp: cfg_local_def)
  have "snd (edb_user_get (json_env 10) ?c ''ann'') \<noteq> None"
    using user_get_spec(1) [OF cr(1), of "''ann''"] cr(3) by (simp add: NAME_OK_def)
  then have "snd (edb_user_set_groups (json_env 10) ?c ''ann'' 1)"
    using user_get_spec(2) [OF cr(1), of "''ann''"] store_spec(1) [OF f(1) disjI1 [OF f(2)], of "user_record ''ann'' 1"]
    by (simp add: edb_user_set_groups_def user_update_def split_beta)
  then show ?thesis using set_groups_erases_password [OF cr(1,2), of "''ann''" 1 "''secret''"] by simp
qed

text \<open>
  Settings: a value that parses is stored and read back as its printed form, other settings are
  unchanged, and a deleted setting is gone; text that is not JSON is refused without a change.
  Settings of the cluster itself (\<open>cluster.\<close> and \<open>rebalance.\<close>) behave so whatever the replication
  callback does: it is never called for them.
\<close>

theorem setting_roundtrip:
  assumes "cfg_ok e cfg" "cfg_local e cfg \<or> internal_cluster_setting CFG_KEYSPACE_SETTINGS name"
    and "name \<noteq> []" "CHR 0x00 \<notin> set name"
  shows "(\<forall>v. cJSON_ParseWithLength e json = Some v \<longrightarrow> json_plain v \<longrightarrow>
      snd (edb_setting_set e cfg name json) \<and>
      snd (edb_setting_get e (fst (edb_setting_set e cfg name json)) name) = cJSON_PrintUnformatted e v \<and>
      (\<forall>n. n \<noteq> name \<longrightarrow> snd (edb_setting_get e (fst (edb_setting_set e cfg name json)) n) = snd (edb_setting_get e cfg n))) \<and>
    snd (edb_setting_get e (fst (edb_setting_delete e cfg name)) name) = None \<and>
    (cJSON_ParseWithLength e json = None \<longrightarrow> edb_setting_set e cfg name json = (cfg, False))"
proof -
  have get: "snd (edb_setting_get e c n) = Option.bind (cfg_doc e CFG_KEYSPACE_SETTINGS c n)
      (\<lambda>obj. Option.bind (json_get (Some obj) ''value'') (cJSON_PrintUnformatted e))" if "cfg_ok e c" for c n
    using fetch_spec(1) [OF that] by (simp add: edb_setting_get_def split_beta split: option.split)
  have set: "snd (edb_setting_set e cfg name json) \<and>
      snd (edb_setting_get e (fst (edb_setting_set e cfg name json)) name) = cJSON_PrintUnformatted e v \<and>
      (\<forall>n. n \<noteq> name \<longrightarrow> snd (edb_setting_get e (fst (edb_setting_set e cfg name json)) n) = snd (edb_setting_get e cfg n))"
    if v: "cJSON_ParseWithLength e json = Some v" "json_plain v" for v
  proof -
    obtain s where "cJSON_PrintUnformatted e v = Some s" using json_faithfulD [OF cfg_okD(3) [OF assms(1)] v(2)] .
    then have r: "edb_setting_set e cfg name json = store e cfg CFG_KEYSPACE_SETTINGS name (setting_record name v)"
      using v(1) assms(3) by (simp add: edb_setting_set_def)
    have plain: "json_plain (setting_record name v)" using v(2) assms(4) by simp
    note st = store_spec [OF assms(1,2) plain]
    show ?thesis
      unfolding r using st get [OF st(2)] get [OF assms(1)] by (simp add: setting_record_def)
  qed
  note rm = remove_spec [OF assms(1,2)]
  have "snd (edb_setting_get e (fst (edb_setting_delete e cfg name)) name) = None"
    unfolding edb_setting_delete_def using get [OF rm(2)] rm(3) by simp
  moreover have "cJSON_ParseWithLength e json = None \<longrightarrow> edb_setting_set e cfg name json = (cfg, False)"
    by (simp add: edb_setting_set_def)
  ultimately show ?thesis using set by blast
qed

theorem setting_roundtrip_witness:
  "snd (edb_setting_get (json_env 10)
     (fst (edb_setting_delete (json_env 10) (demo_config\<lparr>cfg_replicate := Some (\<lambda>en ks d j. (en, False))\<rparr>) ''cluster.x''))
     ''cluster.x'') = None"
proof -
  let ?c = "demo_config\<lparr>cfg_replicate := Some (\<lambda>en ks d j. (en, False))\<rparr>"
  have "cfg_ok (json_env 10) ?c" using demo_config_ok(1) [of 10] by (simp add: cfg_ok_def)
  then show ?thesis
    using setting_roundtrip [of "json_env 10" ?c "''cluster.x''"]
    by (simp add: internal_cluster_setting_def starts_with_def)
qed

text \<open>
  Partition ids join database and name with a slash without escaping it, so that two different
  pairs can have the same id: the partition \<open>c\<close> of database \<open>a/b\<close> is also found as partition
  \<open>b/c\<close> of database \<open>a\<close>.
\<close>

theorem partition_ids_collide:
  assumes "cfg_ok e cfg" "cfg_local e cfg" "snd (edb_partition_get e cfg ''a/b'' ''c'') = None"
  shows "snd (edb_partition_get e (fst (edb_partition_create e cfg ''a/b'' ''c'' m1 m2 m3 m4)) ''a'' ''b/c'') =
    Some \<lparr>pt_database = ''a/b'', pt_name = ''c'', pt_create_mask = m1, pt_update_mask = m2, pt_read_mask = m3,
      pt_delete_mask = m4\<rparr>"
proof -
  let ?pid = "partition_id ''a/b'' ''c''"
  let ?cfg = "fst (fetch e cfg CFG_KEYSPACE_PARTITIONS ?pid)" and ?rec = "partition_record ''a/b'' ''c'' m1 m2 m3 m4"
  have c: "cfg_ok e ?cfg" "cfg_local e ?cfg" using fetch_spec [OF assms(1)] assms(2) by (auto simp: cfg_local_def)
  have "fst (edb_partition_get e cfg ''a/b'' ''c'') = ?cfg" by (simp add: edb_partition_get_def split_beta)
  then have r: "edb_partition_create e cfg ''a/b'' ''c'' m1 m2 m3 m4 = store e ?cfg CFG_KEYSPACE_PARTITIONS ?pid ?rec"
    using assms(3) by (simp add: edb_partition_create_def NAME_OK_def split_beta)
  have same: "partition_id ''a'' ''b/c'' = ?pid" by (simp add: partition_id_def)
  have plain: "json_plain ?rec" by simp
  note st = store_spec [OF c(1) disjI1 [OF c(2)] plain]
  show ?thesis
    unfolding r using fetch_spec(1) [OF st(2)] st(3)
    by (simp add: edb_partition_get_def split_beta same NAME_OK_def)
qed

end
