(* ===== verification/Cluster.thy ===== *)
theory Cluster
  imports Config_Props
begin

text \<open>
  Cluster state and placement (epsilon_cluster.c, epsilon_cluster_internal.h): the peer table,
  the live and target range tables, leader election and the placement of shard keys on nodes.
  The live table is the list of its \<open>nranges\<close> entries; the target table is an array with a
  separate count, because merging gossip writes into the array before it decides to adopt it.
  Ports and generations are unbounded integers.
\<close>

section \<open>State\<close>

definition MAX_PEERS :: nat where
  "MAX_PEERS = 64"

definition EDB_NODE_ID_MAX :: nat where
  "EDB_NODE_ID_MAX = 64"

definition EDB_ADDR_MAX :: nat where
  "EDB_ADDR_MAX = 64"

definition OFFLINE_AFTER_SECONDS :: int where
  "OFFLINE_AFTER_SECONDS = 12"

record edb_peer_info =
  p_id :: string
  p_addr :: string
  p_port :: int
  p_http_port :: int
  p_last_seen :: int
  p_online :: bool
  p_removed :: bool
  p_compliant_gen :: int

record edb_range_info =
  rg_node_id :: string
  rg_start :: string
  rg_end :: string

record edb_cluster =
  cl_self_id :: string
  cl_self_addr :: string
  cl_self_port :: int
  cl_self_http_port :: int
  cl_peers :: "edb_peer_info list"
  cl_generation :: int
  cl_gc_after :: int
  cl_ranges :: "edb_range_info list"
  cl_target_generation :: int
  cl_target_ranges :: "edb_range_info list"
  cl_ntarget_ranges :: nat
  cl_auto_compliant :: bool
  cl_leader :: string
  cl_cfg :: edb_config

definition target_table :: "edb_cluster \<Rightarrow> edb_range_info list" where
  "target_table cl = take (cl_ntarget_ranges cl) (cl_target_ranges cl)"

section \<open>Leader election\<close>

definition leader_is_self_locked :: "edb_cluster \<Rightarrow> bool" where
  "leader_is_self_locked cl \<longleftrightarrow> cl_leader cl \<noteq> [] \<and> strcmp (cl_leader cl) (cl_self_id cl) = 0"

definition is_online_view :: "edb_cluster \<Rightarrow> string \<Rightarrow> bool" where
  "is_online_view cl node \<longleftrightarrow>
     (if strcmp node (cl_self_id cl) = 0 then True
      else case first_match (\<lambda>p. strcmp (p_id p) node = 0) (cl_peers cl) of
             None \<Rightarrow> False
           | Some p \<Rightarrow> p_online p \<and> \<not> p_removed p)"

definition better_leader :: "edb_cluster \<Rightarrow> string option \<Rightarrow> edb_peer_info \<Rightarrow> string option" where
  "better_leader cl best p =
     (if \<not> is_online_view cl (p_id p) then best
      else case best of
             None \<Rightarrow> Some (p_id p)
           | Some b \<Rightarrow> if strcmp (p_id p) b < 0 then Some (p_id p) else best)"

definition recompute_leader :: "edb_cluster \<Rightarrow> edb_cluster" where
  "recompute_leader cl =
     (let best = foldl (better_leader cl) None (cl_peers cl);
          cur = (if cl_leader cl \<noteq> [] then Some (cl_leader cl) else None)
      in if best = None \<and> cur = None then cl
         else if (best = None) \<noteq> (cur = None) \<or> best \<noteq> cur
         then cl\<lparr>cl_leader := (case best of Some b \<Rightarrow> snprintf_s EDB_NODE_ID_MAX b | None \<Rightarrow> [])\<rparr>
         else cl)"

section \<open>Sorting ids\<close>

text \<open>One round of the insertion sort: larger ids move right, then the key is stored.\<close>

definition insert_back :: "string list \<Rightarrow> string \<Rightarrow> string list" where
  "insert_back xs key =
     (let moved = takeWhile (\<lambda>x. 0 < strcmp x key) (rev xs)
      in take (length xs - length moved) xs @ [key] @ rev moved)"

definition sort_ids :: "string list \<Rightarrow> string list" where
  "sort_ids ids = foldl insert_back [] ids"

definition online_ids :: "edb_cluster \<Rightarrow> string list" where
  "online_ids cl = filter (is_online_view cl) (map p_id (cl_peers cl))"

section \<open>Slices\<close>

text \<open>\<open>printf ("%0<w>llx", x)\<close>: at least \<open>w\<close> digits, more when the number needs them.\<close>

fun hex_len :: "nat \<Rightarrow> nat" where
  "hex_len x = (if x < 16 then 1 else Suc (hex_len (x div 16)))"

fun hex_fixed :: "nat \<Rightarrow> nat \<Rightarrow> string" where
  "hex_fixed 0 x = []"
| "hex_fixed (Suc w) x = hex_fixed w (x div 16) @ [hex_digits ! (x mod 16)]"

definition printf_hex :: "nat \<Rightarrow> nat \<Rightarrow> string" where
  "printf_hex w x = hex_fixed (max w (hex_len x)) x"

definition slice_bound :: "nat \<Rightarrow> string" where
  "slice_bound x = snprintf_s 33 (printf_hex 8 x @ printf_hex 24 0)"

definition all_f :: string where
  "all_f = replicate 32 (CHR ''f'')"

definition build_slice :: "string list \<Rightarrow> nat \<Rightarrow> edb_range_info" where
  "build_slice ids i =
     (let n = length ids; step = 0x100000000 div n
      in \<lparr>rg_node_id = snprintf_s EDB_NODE_ID_MAX (ids ! i),
          rg_start = (if i = 0 then replicate 32 (CHR ''0'') else slice_bound (i * step)),
          rg_end = (if i + 1 = n then all_f else slice_bound ((i + 1) * step))\<rparr>)"

definition build_slices :: "string list \<Rightarrow> edb_range_info list" where
  "build_slices ids = map (build_slice ids) [0..<length ids]"

section \<open>Lookup\<close>

definition strncmp :: "string \<Rightarrow> string \<Rightarrow> nat \<Rightarrow> int" where
  "strncmp a b n = strcmp (take n a) (take n b)"

definition in_slice :: "string \<Rightarrow> edb_range_info \<Rightarrow> bool" where
  "in_slice md5hex r \<longleftrightarrow>
     0 \<le> strncmp md5hex (rg_start r) 32 \<and> (strncmp md5hex (rg_end r) 32 < 0 \<or> take 32 (rg_end r) = all_f)"

definition table_owner :: "edb_range_info list \<Rightarrow> string \<Rightarrow> string option" where
  "table_owner ranges md5hex =
     map_option (\<lambda>r. snprintf_s EDB_NODE_ID_MAX (rg_node_id r)) (first_match (in_slice md5hex) ranges)"

definition edb_cluster_owner :: "edb_cluster \<Rightarrow> string \<Rightarrow> string option" where
  "edb_cluster_owner cl md5hex =
     (if length md5hex \<noteq> 32 then None else table_owner (cl_ranges cl) md5hex)"

definition edb_cluster_target_owner :: "edb_cluster \<Rightarrow> string \<Rightarrow> string option" where
  "edb_cluster_target_owner cl md5hex =
     (if length md5hex \<noteq> 32 then None else table_owner (target_table cl) md5hex)"

text \<open>
  \<open>edb_cluster_holders\<close>: all members that are not removed, in id order, rotated so that the owner
  of the key comes first.
\<close>

definition holder_start :: "edb_cluster \<Rightarrow> string \<Rightarrow> string list \<Rightarrow> nat" where
  "holder_start cl md5hex candidates =
     (case first_match (in_slice md5hex) (cl_ranges cl) of
        None \<Rightarrow> 0
      | Some r \<Rightarrow>
          (case index_of (\<lambda>c. strcmp c (rg_node_id r) = 0) candidates of None \<Rightarrow> 0 | Some i \<Rightarrow> i))"

definition edb_cluster_holders :: "edb_cluster \<Rightarrow> string \<Rightarrow> nat \<Rightarrow> string list" where
  "edb_cluster_holders cl md5hex cap =
     (if length md5hex \<noteq> 32 \<or> cap = 0 then []
      else
        let candidates = sort_ids (take MAX_PEERS (map p_id (filter (\<lambda>p. \<not> p_removed p) (cl_peers cl))));
            n = length candidates;
            start = holder_start cl md5hex candidates
        in map (\<lambda>offset. snprintf_s EDB_NODE_ID_MAX (candidates ! ((start + offset) mod n))) [0..<min n cap])"

section \<open>The insertion sort sorts\<close>

lemma insert_back_split:
  assumes "insert_back xs key = ys"
  obtains a b where "xs = a @ b" "ys = a @ key # b" "\<And>x. x \<in> set b \<Longrightarrow> key < x" "a \<noteq> [] \<Longrightarrow> last a \<le> key"
proof -
  let ?P = "\<lambda>x. 0 < strcmp x key"
  let ?m = "takeWhile ?P (rev xs)" and ?d = "dropWhile ?P (rev xs)"
  have rev: "xs = rev ?d @ rev ?m"
    by (metis rev_append rev_rev_ident takeWhile_dropWhile_id)
  have "length ?d = length xs - length ?m"
    using arg_cong [OF rev, of length] by simp
  then have "take (length xs - length ?m) xs = rev ?d"
    by (subst (2) rev) simp
  then have "ys = rev ?d @ key # rev ?m" using assms by (simp add: insert_back_def Let_def)
  moreover have "key < x" if "x \<in> set (rev ?m)" for x
    using that set_takeWhileD [of x ?P "rev xs"] by (simp add: strcmp_pos_iff)
  moreover have "last (rev ?d) \<le> key" if "rev ?d \<noteq> []"
    using that hd_dropWhile [of ?P "rev xs"] by (simp add: last_rev strcmp_pos_iff not_less)
  ultimately show thesis using that rev by blast
qed

lemma insert_back_mset: "mset (insert_back xs key) = add_mset key (mset xs)"
  by (rule insert_back_split [OF refl, of xs key]) simp

lemma sorted_le_last: "sorted a \<Longrightarrow> x \<in> set a \<Longrightarrow> x \<le> last a"
  by (induction a) auto

lemma insert_back_sorted: "sorted xs \<Longrightarrow> sorted (insert_back xs key)"
proof (rule insert_back_split [OF refl, of xs key])
  fix a b
  assume s: "sorted xs" "xs = a @ b" "insert_back xs key = a @ key # b"
    and b: "\<And>x. x \<in> set b \<Longrightarrow> key < x" and a: "a \<noteq> [] \<Longrightarrow> last a \<le> key"
  have "x \<le> key" if "x \<in> set a" for x
  proof -
    have "sorted a" "a \<noteq> []" using s that by (auto simp: sorted_append)
    then have "x \<le> last a" using that sorted_le_last by blast
    with a \<open>a \<noteq> []\<close> show ?thesis by simp
  qed
  with s b show "sorted (insert_back xs key)"
    by (fastforce simp: sorted_append intro: less_imp_le)
qed

lemma sort_ids_sort: "sort_ids ids = sort ids"
proof -
  have "sorted xs \<Longrightarrow> sorted (foldl insert_back xs ids) \<and> mset (foldl insert_back xs ids) = mset xs + mset ids" for xs
    by (induction ids arbitrary: xs) (auto simp: insert_back_sorted insert_back_mset)
  from this [of "[]"] show ?thesis
    unfolding sort_ids_def by (intro properties_for_sort [symmetric]) simp_all
qed

section \<open>Hexadecimal bounds\<close>

lemma append_less_iff:
  "length a = length b \<Longrightarrow> (a @ c < b @ d) \<longleftrightarrow> a < b \<or> a = b \<and> c < (d :: string)"
  by (induction a b rule: list_induct2) auto

lemma length_hex_fixed [simp]: "length (hex_fixed w x) = w"
  by (induction w arbitrary: x) auto

lemma hex_digits_less: "i < j \<Longrightarrow> j < 16 \<Longrightarrow> hex_digits ! i < hex_digits ! j"
proof -
  have "sorted_wrt (<) hex_digits" by (simp add: hex_digits_def less_char_def)
  then show "i < j \<Longrightarrow> j < 16 \<Longrightarrow> hex_digits ! i < hex_digits ! j"
    by (simp add: sorted_wrt_iff_nth_less)
qed

lemma hex_fixed_less: "x < y \<Longrightarrow> y < 16 ^ w \<Longrightarrow> hex_fixed w x < hex_fixed w y"
proof (induction w arbitrary: x y)
  case (Suc w)
  have y: "y div 16 < 16 ^ w" using Suc.prems(2) by (simp add: less_mult_imp_div_less mult.commute)
  show ?case
  proof (cases "x div 16 < y div 16")
    case True
    with Suc.IH [OF True y] show ?thesis by (simp add: append_less_iff)
  next
    case False
    with Suc.prems(1) have eq: "x div 16 = y div 16" by (meson div_le_mono le_antisym less_imp_le not_less)
    then have "x mod 16 < y mod 16" using Suc.prems(1) by (metis div_mult_mod_eq nat_add_left_cancel_less)
    then show ?thesis using eq hex_digits_less [of "x mod 16" "y mod 16"] by (simp add: append_less_iff)
  qed
qed simp

declare hex_len.simps [simp del]

lemma hex_len_le: "x < 16 ^ w \<Longrightarrow> 0 < w \<Longrightarrow> hex_len x \<le> w"
proof (induction w arbitrary: x)
  case (Suc w)
  show ?case
  proof (cases "x < 16")
    case True
    then show ?thesis by (simp add: hex_len.simps)
  next
    case False
    with Suc.prems have "x div 16 < 16 ^ w" by (simp add: less_mult_imp_div_less mult.commute)
    moreover have "0 < w" using Suc.prems(1) False by (cases w) auto
    ultimately show ?thesis using Suc.IH [of "x div 16"] False by (simp add: hex_len.simps [of x])
  qed
qed simp

lemma slice_bound_eq: "x < 16 ^ 8 \<Longrightarrow> slice_bound x = hex_fixed 8 x @ hex_fixed 24 0"
  using hex_len_le [of x 8] hex_len_le [of 0 24]
  by (simp add: slice_bound_def printf_hex_def max_absorb1 snprintf_s_id)

lemma slice_bound_less: "x < y \<Longrightarrow> y < 16 ^ 8 \<Longrightarrow> slice_bound x < slice_bound y"
  using hex_fixed_less [of x y 8] by (simp add: slice_bound_eq append_less_iff)

lemma hex_fixed_0: "hex_fixed w 0 = replicate w (CHR ''0'')"
  by (induction w) (simp_all add: hex_digits_def replicate_append_same)

lemma slice_bound_0: "slice_bound 0 = replicate 32 (CHR ''0'')"
  using slice_bound_eq [of 0] replicate_add [of 8 24 "CHR ''0''"] by (simp add: hex_fixed_0)

lemma hex_char_ge_0: "is_hex_char c \<Longrightarrow> c = CHR ''0'' \<or> CHR ''0'' < c"
  unfolding is_hex_char_def hex_digits_def set_simps
  by (elim insertE emptyE) (simp_all add: less_char_def)

lemma hex_ge_zeros:
  "(\<forall>c \<in> set s. is_hex_char c) \<Longrightarrow> length s = n \<Longrightarrow> replicate n (CHR ''0'') \<le> s"
proof (induction s arbitrary: n)
  case (Cons c s)
  have c: "c = CHR ''0'' \<or> CHR ''0'' < c" using Cons.prems(1) hex_char_ge_0 by simp
  have "replicate (length s) (CHR ''0'') \<le> s" using Cons.IH [of "length s"] Cons.prems(1) by simp
  moreover have "replicate n (CHR ''0'') = CHR ''0'' # replicate (length s) (CHR ''0'')"
    using Cons.prems(2) by auto
  ultimately show ?case using c by (metis Cons_le_Cons)
qed simp

section \<open>Every key has exactly one slice\<close>

lemma unique_interval:
  fixes f :: "nat \<Rightarrow> 'a::linorder"
  assumes "0 < n" "f 0 \<le> s" and mono: "\<And>i j. i < j \<Longrightarrow> j < n \<Longrightarrow> f i < f j"
  shows "\<exists>!i. i < n \<and> f i \<le> s \<and> (Suc i = n \<or> s < f (Suc i))"
proof -
  let ?S = "{i. i < n \<and> f i \<le> s}"
  define m where "m = Max ?S"
  have fin: "finite ?S" "?S \<noteq> {}" using assms(1,2) by auto
  have m: "m < n" "f m \<le> s" using Max_in [OF fin] by (auto simp: m_def)
  have top: "i \<le> m" if "i < n" "f i \<le> s" for i using that fin by (simp add: m_def)
  have "Suc m = n \<or> s < f (Suc m)"
    using m(1) top [of "Suc m"] by (cases "Suc m < n") (auto simp: not_le [symmetric])
  moreover have "i = m" if i: "i < n" "f i \<le> s" "Suc i = n \<or> s < f (Suc i)" for i
  proof (rule ccontr)
    assume "i \<noteq> m"
    with top [OF i(1,2)] have "Suc i \<le> m" by simp
    then have "f (Suc i) \<le> f m" using mono [of "Suc i" m] m(1) by (cases "Suc i = m") auto
    with i m \<open>Suc i \<le> m\<close> show False by auto
  qed
  ultimately show ?thesis using m by blast
qed

lemma step_bound: "0 < n \<Longrightarrow> i < n \<Longrightarrow> i * (0x100000000 div n) < (16 :: nat) ^ 8"
proof -
  assume n: "0 < n" "i < n"
  show ?thesis
  proof (cases "0x100000000 div n = 0")
    case False
    then have "i * (0x100000000 div n) < n * (0x100000000 div n)" using n by simp
    also have "\<dots> \<le> 0x100000000" by (rule times_div_less_eq_dividend)
    finally show ?thesis by simp
  qed simp
qed

lemma in_build_slice:
  assumes "i < length ids" "length s = 32"
  shows "in_slice s (build_slice ids i) \<longleftrightarrow>
    slice_bound (i * (0x100000000 div length ids)) \<le> s \<and>
    (Suc i = length ids \<or> s < slice_bound (Suc i * (0x100000000 div length ids)))"
proof -
  let ?step = "0x100000000 div length ids"
  have len: "length (slice_bound (j * ?step)) = 32" if "j < length ids" for j
  proof -
    have "0 < length ids" using that by linarith
    from slice_bound_eq [OF step_bound [OF this that]] show ?thesis by simp
  qed
  have start: "rg_start (build_slice ids i) = slice_bound (i * ?step)"
    by (simp add: build_slice_def Let_def slice_bound_0)
  have "slice_bound (Suc i * ?step) \<noteq> all_f" if "Suc i < length ids"
  proof -
    have "slice_bound (Suc i * ?step) = hex_fixed 8 (Suc i * ?step) @ replicate 24 (CHR ''0'')"
    proof -
      have "0 < length ids" using that by linarith
      from slice_bound_eq [OF step_bound [OF this that]] show ?thesis by (simp only: hex_fixed_0)
    qed
    then have "last (slice_bound (Suc i * ?step)) = CHR ''0''" by simp
    moreover have "last all_f = CHR ''f''" by (simp add: all_f_def)
    ultimately show ?thesis by (auto simp del: mult_Suc)
  qed
  then show ?thesis
    using assms len [of i] len [of "Suc i"] start
    by (auto simp: in_slice_def strncmp_def strcmp_nonneg_iff strcmp_neg_iff build_slice_def Let_def all_f_def)
qed

lemma unique_slice:
  assumes "ids \<noteq> []" "length ids \<le> 0x100000000" "length s = 32" "\<forall>c \<in> set s. is_hex_char c"
  shows "\<exists>!i. i < length ids \<and> in_slice s (build_slice ids i)"
proof -
  let ?n = "length ids"
  let ?f = "\<lambda>i. slice_bound (i * (0x100000000 div ?n))"
  have n: "0 < ?n" using assms(1) by simp
  have "0 < 0x100000000 div ?n" using assms(2) n by (simp add: div_greater_zero_iff)
  then have mono: "?f i < ?f j" if "i < j" "j < ?n" for i j
    using that step_bound [OF n that(2)] by (intro slice_bound_less) simp_all
  have "?f 0 \<le> s" using hex_ge_zeros [OF assms(4,3)] by (simp add: slice_bound_0)
  from unique_interval [of ?n ?f, OF n this mono]
  show ?thesis using in_build_slice [of _ ids s] assms(3) by (metis (no_types, lifting))
qed

lemma table_owner_build:
  assumes "ids \<noteq> []" "length ids \<le> 0x100000000" "length s = 32" "\<forall>c \<in> set s. is_hex_char c"
    and "i < length ids" "in_slice s (build_slice ids i)"
  shows "table_owner (build_slices ids) s = Some (snprintf_s EDB_NODE_ID_MAX (ids ! i))"
proof -
  have uniq: "j = i" if "j < length ids" "in_slice s (build_slice ids j)" for j
    using unique_slice [OF assms(1-4)] assms(5,6) that by blast
  have "first_match (in_slice s) (build_slices ids) = Some (build_slice ids i)"
    unfolding first_match_def find_Some_iff
  proof (intro exI [of _ i] conjI allI impI)
    show "i < length (build_slices ids)" using assms(5) by (simp add: build_slices_def)
    show "in_slice s (build_slices ids ! i)" using assms(5,6) by (simp add: build_slices_def)
    show "build_slice ids i = build_slices ids ! i" using assms(5) by (simp add: build_slices_def)
    show "\<not> in_slice s (build_slices ids ! j)" if "j < i" for j
      using uniq [of j] that assms(5) by (auto simp: build_slices_def)
  qed
  then show ?thesis by (simp add: table_owner_def build_slice_def Let_def snprintf_s_def)
qed

section \<open>The leader is the least online id\<close>

lemma best_leader_fold:
  "foldl (better_leader cl) best ps = Some b \<longleftrightarrow>
     b \<in> set_option best \<union> {p_id p | p. p \<in> set ps \<and> is_online_view cl (p_id p)} \<and>
     (\<forall>x \<in> set_option best \<union> {p_id p | p. p \<in> set ps \<and> is_online_view cl (p_id p)}. b \<le> x)"
proof (induction ps arbitrary: best)
  case (Cons p ps)
  show ?case
  proof (cases "is_online_view cl (p_id p)")
    case False
    then have "better_leader cl best p = best" by (simp add: better_leader_def)
    moreover have "{p_id q | q. q \<in> set (p # ps) \<and> is_online_view cl (p_id q)} =
        {p_id q | q. q \<in> set ps \<and> is_online_view cl (p_id q)}" using False by auto
    ultimately show ?thesis using Cons.IH [of best] by simp
  next
    case True
    let ?O = "{p_id q | q. q \<in> set ps \<and> is_online_view cl (p_id q)}"
    have O: "{p_id q | q. q \<in> set (p # ps) \<and> is_online_view cl (p_id q)} = insert (p_id p) ?O" using True by auto
    show ?thesis
    proof (cases best)
      case None
      then have "better_leader cl best p = Some (p_id p)" using True by (simp add: better_leader_def)
      then show ?thesis using Cons.IH [of "Some (p_id p)"] None unfolding O by simp
    next
      case (Some c)
      then have "better_leader cl best p = Some (min (p_id p) c)"
        using True by (auto simp: better_leader_def strcmp_neg_iff min_def)
      then have "foldl (better_leader cl) best (p # ps) = foldl (better_leader cl) (Some (min (p_id p) c)) ps" by simp
      then show ?thesis
        using Cons.IH [of "Some (min (p_id p) c)"] Some unfolding O by (auto simp: min_def split: if_splits)
    qed
  qed
qed auto

lemma best_leader_None:
  "foldl (better_leader cl) best ps = None \<longleftrightarrow> best = None \<and> (\<forall>p \<in> set ps. \<not> is_online_view cl (p_id p))"
  by (induction ps arbitrary: best) (auto simp: better_leader_def split: option.splits)

section \<open>Holders are a rotation of the sorted members\<close>

definition member_ids :: "edb_cluster \<Rightarrow> string list" where
  "member_ids cl = map p_id (filter (\<lambda>p. \<not> p_removed p) (cl_peers cl))"

lemma mset_rotate: "mset (rotate k xs) = mset xs"
  unfolding rotate_drop_take mset_append
  by (metis append_take_drop_id mset_append union_commute)

lemma holders_rotate:
  assumes "length (cl_peers cl) \<le> MAX_PEERS" "\<forall>x \<in> set (member_ids cl). length x < EDB_NODE_ID_MAX"
    "length key = 32"
  shows "edb_cluster_holders cl key MAX_PEERS =
    rotate (holder_start cl key (sort (member_ids cl))) (sort (member_ids cl))"
proof -
  let ?c = "sort (member_ids cl)" and ?s = "holder_start cl key (sort (member_ids cl))"
  have len: "length (member_ids cl) \<le> MAX_PEERS"
    unfolding member_ids_def length_map by (rule le_trans [OF length_filter_le assms(1)])
  then have c: "sort_ids (take MAX_PEERS (member_ids cl)) = ?c" by (simp add: sort_ids_sort)
  have "edb_cluster_holders cl key MAX_PEERS =
      map (\<lambda>k. snprintf_s EDB_NODE_ID_MAX (?c ! ((?s + k) mod length ?c))) [0..<length ?c]"
    using assms(3) len c
    by (simp add: edb_cluster_holders_def Let_def member_ids_def [symmetric] MAX_PEERS_def)
  also have "\<dots> = rotate ?s ?c"
  proof (rule nth_equalityI)
    fix k assume "k < length (map (\<lambda>k. snprintf_s EDB_NODE_ID_MAX (?c ! ((?s + k) mod length ?c))) [0..<length ?c])"
    then have k: "k < length ?c" by simp
    then have "(?s + k) mod length ?c < length ?c" by (intro mod_less_divisor) linarith
    then have "?c ! ((?s + k) mod length ?c) \<in> set ?c" by (rule nth_mem)
    then have "length (?c ! ((?s + k) mod length ?c)) < EDB_NODE_ID_MAX" using assms(2) by simp
    with k show "map (\<lambda>k. snprintf_s EDB_NODE_ID_MAX (?c ! ((?s + k) mod length ?c))) [0..<length ?c] ! k = rotate ?s ?c ! k"
      by (simp add: nth_rotate snprintf_s_id)
  qed simp
  finally show ?thesis .
qed

section \<open>Properties\<close>

text \<open>
  C4. Placement is a function on all shard keys: over any non-empty list of node ids,
  \<open>build_slices\<close> yields a table in which every 32-digit hexadecimal key lies in exactly one slice,
  so the table assigns each key exactly one owner, a listed node.
\<close>

theorem placement_total_unique:
  assumes "ids \<noteq> []" "length ids \<le> MAX_PEERS" "\<forall>x \<in> set ids. length x < EDB_NODE_ID_MAX"
    and "length key = 32" "\<forall>c \<in> set key. is_hex_char c"
  shows "(\<exists>!i. i < length ids \<and> in_slice key (build_slices ids ! i)) \<and>
    (\<exists>i < length ids. table_owner (build_slices ids) key = Some (ids ! i) \<and> in_slice key (build_slices ids ! i))"
proof -
  have len: "length ids \<le> 0x100000000" using assms(2) by (simp add: MAX_PEERS_def)
  have nth: "i < length ids \<Longrightarrow> build_slices ids ! i = build_slice ids i" for i by (simp add: build_slices_def)
  have u: "\<exists>!i. i < length ids \<and> in_slice key (build_slices ids ! i)"
    using unique_slice [OF assms(1) len assms(4,5)] nth by metis
  then obtain i where i: "i < length ids" "in_slice key (build_slices ids ! i)" by blast
  then have "table_owner (build_slices ids) key = Some (snprintf_s EDB_NODE_ID_MAX (ids ! i))"
    using table_owner_build [OF assms(1) len assms(4,5), of i] nth by simp
  moreover have "snprintf_s EDB_NODE_ID_MAX (ids ! i) = ids ! i"
    using assms(3) i(1) by (simp add: snprintf_s_id)
  ultimately have "\<exists>i < length ids. table_owner (build_slices ids) key = Some (ids ! i) \<and> in_slice key (build_slices ids ! i)"
    using i by auto
  with u show ?thesis by blast
qed

theorem placement_total_unique_witness:
  "\<exists>!i. i < length [''n1'', ''n2'', ''n3''] \<and>
     in_slice (replicate 32 (CHR ''a'')) (build_slices [''n1'', ''n2'', ''n3''] ! i)"
  by (rule conjunct1 [OF placement_total_unique])
    (auto simp: MAX_PEERS_def EDB_NODE_ID_MAX_def is_hex_char_def hex_digits_def)

text \<open>
  Election: \<open>recompute_leader\<close> makes the lexicographically least online member the leader, and
  clears the leader when no member is online; nothing else of the state changes.
\<close>

theorem leader_is_least_online:
  assumes "\<forall>p \<in> set (cl_peers cl). length (p_id p) < EDB_NODE_ID_MAX \<and> p_id p \<noteq> []"
  shows "(\<forall>p \<in> set (cl_peers cl). is_online_view cl (p_id p) \<longrightarrow> cl_leader (recompute_leader cl) \<le> p_id p) \<and>
    (if \<exists>p \<in> set (cl_peers cl). is_online_view cl (p_id p)
     then cl_leader (recompute_leader cl) \<in> set (online_ids cl)
     else cl_leader (recompute_leader cl) = []) \<and>
    recompute_leader cl = cl\<lparr>cl_leader := cl_leader (recompute_leader cl)\<rparr>"
proof (cases "foldl (better_leader cl) None (cl_peers cl)")
  case None
  then have "\<forall>p \<in> set (cl_peers cl). \<not> is_online_view cl (p_id p)" by (simp add: best_leader_None)
  with None show ?thesis by (auto simp: recompute_leader_def Let_def)
next
  case (Some b)
  from Some [unfolded best_leader_fold] have b: "b \<in> set (online_ids cl)"
    "\<forall>p \<in> set (cl_peers cl). is_online_view cl (p_id p) \<longrightarrow> b \<le> p_id p"
    by (auto simp: online_ids_def)
  then have "length b < EDB_NODE_ID_MAX" "b \<noteq> []" using assms by (auto simp: online_ids_def)
  then have "recompute_leader cl = cl\<lparr>cl_leader := b\<rparr>"
    using Some by (auto simp: recompute_leader_def Let_def snprintf_s_id)
  with b show ?thesis by (auto simp: online_ids_def)
qed

definition demo_cluster :: edb_cluster where
  "demo_cluster = \<lparr>cl_self_id = ''n2'', cl_self_addr = ''h2'', cl_self_port = 7002, cl_self_http_port = 0,
     cl_peers = [\<lparr>p_id = ''n2'', p_addr = ''h2'', p_port = 7002, p_http_port = 0, p_last_seen = 0,
                  p_online = True, p_removed = False, p_compliant_gen = 0\<rparr>,
                 \<lparr>p_id = ''n1'', p_addr = ''h1'', p_port = 7001, p_http_port = 0, p_last_seen = 0,
                  p_online = True, p_removed = False, p_compliant_gen = 0\<rparr>],
     cl_generation = 1, cl_gc_after = 0, cl_ranges = build_slices [''n1'', ''n2''],
     cl_target_generation = 0, cl_target_ranges = [], cl_ntarget_ranges = 0,
     cl_auto_compliant = True, cl_leader = [], cl_cfg = demo_config\<rparr>"

theorem leader_is_least_online_witness:
  "cl_leader (recompute_leader demo_cluster) \<in> {''n1'', ''n2''} \<and> cl_leader (recompute_leader demo_cluster) \<le> ''n1''"
proof -
  have p: "\<forall>p \<in> set (cl_peers demo_cluster). length (p_id p) < EDB_NODE_ID_MAX \<and> p_id p \<noteq> []"
    by (simp add: demo_cluster_def EDB_NODE_ID_MAX_def)
  have "is_online_view demo_cluster ''n1''" "is_online_view demo_cluster ''n2''"
    by (simp_all add: is_online_view_def demo_cluster_def first_match_def)
  with p leader_is_least_online [OF p] show ?thesis
    by (auto simp: demo_cluster_def online_ids_def)
qed

text \<open>
  All nodes agree on the holders of a key: two nodes with the same live table and the same
  set of members that are not removed compute the same list of holders, in whatever order their
  peer tables list them. The list holds each such member once, in id order from the owner on; the
  owner comes first when it is a member.
\<close>

theorem holders_agree:
  assumes "cl_ranges cl1 = cl_ranges cl2" and "mset (member_ids cl1) = mset (member_ids cl2)"
    and "length (cl_peers cl1) \<le> MAX_PEERS" "length (cl_peers cl2) \<le> MAX_PEERS"
    and "\<forall>p \<in> set (cl_peers cl1). length (p_id p) < EDB_NODE_ID_MAX" "length key = 32"
  shows "edb_cluster_holders cl1 key MAX_PEERS = edb_cluster_holders cl2 key MAX_PEERS \<and>
    mset (edb_cluster_holders cl1 key MAX_PEERS) = mset (member_ids cl1) \<and>
    (\<forall>x \<in> set (member_ids cl1). edb_cluster_owner cl1 key = Some x \<longrightarrow>
      (\<forall>r \<in> set (cl_ranges cl1). length (rg_node_id r) < EDB_NODE_ID_MAX) \<longrightarrow>
      hd (edb_cluster_holders cl1 key MAX_PEERS) = x)"
proof -
  have same: "sort (member_ids cl1) = sort (member_ids cl2)"
    using assms(2) by (intro properties_for_sort) simp_all
  have ids1: "\<forall>x \<in> set (member_ids cl1). length x < EDB_NODE_ID_MAX" using assms(5) by (auto simp: member_ids_def)
  have ids2: "\<forall>x \<in> set (member_ids cl2). length x < EDB_NODE_ID_MAX"
    using ids1 mset_eq_setD [OF assms(2)] by simp
  note h1 = holders_rotate [OF assms(3) ids1 assms(6)] and h2 = holders_rotate [OF assms(4) ids2 assms(6)]
  have "holder_start cl1 key = holder_start cl2 key" by (simp add: fun_eq_iff holder_start_def assms(1))
  with h1 h2 same have eq: "edb_cluster_holders cl1 key MAX_PEERS = edb_cluster_holders cl2 key MAX_PEERS" by simp
  have "hd (edb_cluster_holders cl1 key MAX_PEERS) = x"
    if x: "x \<in> set (member_ids cl1)" "edb_cluster_owner cl1 key = Some x"
      "\<forall>r \<in> set (cl_ranges cl1). length (rg_node_id r) < EDB_NODE_ID_MAX" for x
  proof -
    let ?c = "sort (member_ids cl1)"
    from x(2) assms(6) obtain r where r: "first_match (in_slice key) (cl_ranges cl1) = Some r"
        "x = snprintf_s EDB_NODE_ID_MAX (rg_node_id r)"
      by (auto simp: edb_cluster_owner_def table_owner_def)
    then have "r \<in> set (cl_ranges cl1)" by (auto simp: first_match_def find_Some_iff)
    with x(3) r(2) have xr: "x = rg_node_id r" by (simp add: snprintf_s_id)
    have "index_of (\<lambda>c. strcmp c x = 0) ?c \<noteq> None" using x(1) by (auto simp: index_of_None_iff)
    then obtain i where i: "index_of (\<lambda>c. strcmp c x = 0) ?c = Some i" by auto
    then have "i < length ?c" "?c ! i = x" using index_of_SomeD [OF i] by auto
    then have "?c \<noteq> []" "i mod length ?c = i" "?c ! i = x" by (metis length_greater_0_conv less_nat_zero_code
          list.size(3) gr0I mod_less)+
    then have "hd (rotate i ?c) = x" using hd_rotate_conv_nth [of ?c i] by simp
    then show ?thesis
      using h1 i r(1) xr by (simp add: holder_start_def)
  qed
  moreover have "mset (edb_cluster_holders cl1 key MAX_PEERS) = mset (member_ids cl1)"
    unfolding h1 by (simp add: mset_rotate)
  ultimately show ?thesis using eq by blast
qed

theorem holders_agree_witness:
  "edb_cluster_holders demo_cluster (replicate 32 (CHR ''a'')) MAX_PEERS =
   edb_cluster_holders (demo_cluster\<lparr>cl_self_id := ''n1'', cl_peers := rev (cl_peers demo_cluster)\<rparr>)
     (replicate 32 (CHR ''a'')) MAX_PEERS"
  by (rule conjunct1 [OF holders_agree])
    (auto simp: demo_cluster_def member_ids_def MAX_PEERS_def EDB_NODE_ID_MAX_def)

end
