(* ===== verification/Gossip.thy ===== *)
theory Gossip
  imports Cluster
begin

text \<open>
  Gossip (epsilon_cluster.c): the cluster state as a JSON document, merging a received document
  into the own view, and keeping the state in the settings of the configuration store across
  restarts. Integers in documents are cast from double; a cast out of range, undefined in C, does
  not occur for the documents nodes produce.
\<close>

section \<open>State as a document\<close>

definition range_to_json :: "edb_range_info \<Rightarrow> cJSON" where
  "range_to_json r =
     JObject [(''node_id'', JString (rg_node_id r)), (''start'', JString (rg_start r)), (''end'', JString (rg_end r))]"

definition table_to_json :: "int \<Rightarrow> edb_range_info list \<Rightarrow> cJSON" where
  "table_to_json gen ranges =
     JObject [(''generation'', json_int gen), (''assignments'', JArray (map range_to_json ranges))]"

definition node_to_json :: "edb_peer_info \<Rightarrow> cJSON" where
  "node_to_json p =
     JObject ([(''id'', JString (p_id p)), (''addr'', JString (p_addr p)), (''port'', json_int (p_port p))]
       @ (if 0 < p_http_port p then [(''http_port'', json_int (p_http_port p))] else [])
       @ [(''last_seen'', json_int (p_last_seen p))]
       @ (if p_removed p then [(''removed'', JBool True)] else [])
       @ (if 0 < p_compliant_gen p then [(''compliant'', json_int (p_compliant_gen p))] else []))"

definition state_to_json :: "edb_cluster \<Rightarrow> cJSON" where
  "state_to_json cl =
     JObject ([(''sender'', JString (cl_self_id cl)),
               (''nodes'', JArray (map node_to_json (cl_peers cl))),
               (''ranges'', table_to_json (cl_generation cl) (cl_ranges cl))]
       @ (if 0 < cl_target_generation cl
          then [(''target'', table_to_json (cl_target_generation cl) (target_table cl))] else []))"

section \<open>Merging\<close>

definition from_leader :: "edb_cluster \<Rightarrow> cJSON \<Rightarrow> bool" where
  "from_leader cl doc \<longleftrightarrow>
     (case json_str (json_get (Some doc) ''sender'') of
        None \<Rightarrow> False
      | Some sender \<Rightarrow> cl_leader cl \<noteq> [] \<and> strcmp sender (cl_leader cl) = 0)"

text \<open>A number of a member, as \<open>(long long)valuedouble\<close>, zero when it is missing.\<close>

definition num_or_0 :: "cJSON option \<Rightarrow> int" where
  "num_or_0 j = (case json_num j of None \<Rightarrow> 0 | Some i \<Rightarrow> i)"

text \<open>The port a member holds, if it is a number whose \<open>valueint\<close> is a port.\<close>

definition port_of :: "cJSON option \<Rightarrow> int option" where
  "port_of j =
     (case j of
        Some (JNumber r) \<Rightarrow> if 0 < valueint r \<and> valueint r < 65536 then Some (valueint r) else None
      | _ \<Rightarrow> None)"

definition fresh_peer :: "string \<Rightarrow> edb_peer_info" where
  "fresh_peer node =
     \<lparr>p_id = snprintf_s EDB_NODE_ID_MAX node, p_addr = [], p_port = 0, p_http_port = 0, p_last_seen = 0,
      p_online = False, p_removed = False, p_compliant_gen = 0\<rparr>"

text \<open>
  The updates of one entry of the peer table by a gossiped node, in the order of the source; the
  second result is the \<open>changed\<close> flag.
\<close>

definition merge_address :: "bool \<Rightarrow> cJSON \<Rightarrow> edb_peer_info \<Rightarrow> edb_peer_info \<times> bool" where
  "merge_address selfish item mine =
     (case json_str (json_get (Some item) ''addr'') of
        None \<Rightarrow> (mine, False)
      | Some addr \<Rightarrow>
          if \<not> selfish \<and> length addr < EDB_ADDR_MAX \<and> strcmp (p_addr mine) addr \<noteq> 0
          then (mine\<lparr>p_addr := snprintf_s EDB_ADDR_MAX addr\<rparr>, True)
          else (mine, False))"

definition merge_port :: "bool \<Rightarrow> cJSON \<Rightarrow> edb_peer_info \<Rightarrow> edb_peer_info" where
  "merge_port selfish item mine =
     (case port_of (json_get (Some item) ''port'') of
        None \<Rightarrow> mine
      | Some port \<Rightarrow> if \<not> selfish \<and> p_port mine \<noteq> port then mine\<lparr>p_port := port\<rparr> else mine)"

definition merge_http_port :: "bool \<Rightarrow> cJSON \<Rightarrow> edb_peer_info \<Rightarrow> edb_peer_info \<times> bool" where
  "merge_http_port selfish item mine =
     (case port_of (json_get (Some item) ''http_port'') of
        None \<Rightarrow> (mine, False)
      | Some port \<Rightarrow>
          if \<not> selfish \<and> p_http_port mine \<noteq> port then (mine\<lparr>p_http_port := port\<rparr>, True) else (mine, False))"

definition merge_seen :: "cJSON \<Rightarrow> edb_peer_info \<Rightarrow> edb_peer_info \<times> bool" where
  "merge_seen item mine =
     (let seen = num_or_0 (json_get (Some item) ''last_seen'')
      in if p_last_seen mine < seen then (mine\<lparr>p_last_seen := seen\<rparr>, True) else (mine, False))"

definition merge_compliant :: "cJSON \<Rightarrow> edb_peer_info \<Rightarrow> edb_peer_info \<times> bool" where
  "merge_compliant item mine =
     (let compliant = num_or_0 (json_get (Some item) ''compliant'')
      in if p_compliant_gen mine < compliant then (mine\<lparr>p_compliant_gen := compliant\<rparr>, True) else (mine, False))"

definition merge_removed :: "bool \<Rightarrow> cJSON \<Rightarrow> edb_peer_info \<Rightarrow> edb_peer_info \<times> bool" where
  "merge_removed leader item mine =
     (let jremoved = json_get (Some item) ''removed''
      in if cJSON_IsTrue jremoved \<and> \<not> p_removed mine then (mine\<lparr>p_removed := True\<rparr>, True)
         else if \<not> cJSON_IsTrue jremoved \<and> p_removed mine \<and> leader then (mine\<lparr>p_removed := False\<rparr>, True)
         else (mine, False))"

definition merge_peer :: "string \<Rightarrow> bool \<Rightarrow> cJSON \<Rightarrow> edb_peer_info \<Rightarrow> edb_peer_info \<times> bool" where
  "merge_peer self leader item mine =
     (let selfish = (strcmp (p_id mine) self = 0);
          (mine, c1) = merge_address selfish item mine;
          mine = merge_port selfish item mine;
          (mine, c2) = merge_http_port selfish item mine;
          (mine, c3) = merge_seen item mine;
          (mine, c4) = merge_compliant item mine;
          (mine, c5) = merge_removed leader item mine
      in (mine, c1 \<or> c2 \<or> c3 \<or> c4 \<or> c5))"

text \<open>The id of a gossiped node, if it is acceptable.\<close>

definition node_id_of :: "cJSON \<Rightarrow> string option" where
  "node_id_of item =
     (case json_str (json_get (Some item) ''id'') of
        None \<Rightarrow> None
      | Some node \<Rightarrow> if node = [] \<or> EDB_NODE_ID_MAX \<le> length node then None else Some node)"

definition merge_node :: "string \<Rightarrow> bool \<Rightarrow> edb_peer_info list \<times> bool \<Rightarrow> cJSON \<Rightarrow> edb_peer_info list \<times> bool" where
  "merge_node self leader st item =
     (case st of (peers, changed) \<Rightarrow>
        (case node_id_of item of
           None \<Rightarrow> (peers, changed)
         | Some node \<Rightarrow>
             (case first_match (\<lambda>p. strcmp (p_id p) node = 0) peers of
                Some mine \<Rightarrow>
                  let (mine, c) = merge_peer self leader item mine
                  in (update_first (\<lambda>p. strcmp (p_id p) node = 0) (\<lambda>_. mine) peers, changed \<or> c)
              | None \<Rightarrow>
                  if MAX_PEERS \<le> length peers then (peers, changed)
                  else
                    let (mine, c) = merge_peer self leader item (fresh_peer node)
                    in (peers @ [mine], True))))"

definition merge_nodes :: "edb_cluster \<Rightarrow> cJSON \<Rightarrow> edb_cluster \<times> bool" where
  "merge_nodes cl doc =
     (case json_get (Some doc) ''nodes'' of
        Some (JArray items) \<Rightarrow>
          let (peers, changed) = foldl (merge_node (cl_self_id cl) (from_leader cl doc)) (cl_peers cl, False) items
          in (cl\<lparr>cl_peers := peers\<rparr>, changed)
      | _ \<Rightarrow> (cl, False))"

text \<open>A slice of an assignment list; an entry without the three strings is skipped.\<close>

definition range_of_json :: "cJSON \<Rightarrow> edb_range_info option" where
  "range_of_json a =
     (case (json_str (json_get (Some a) ''node_id''), json_str (json_get (Some a) ''start''),
            json_str (json_get (Some a) ''end'')) of
        (Some jn, Some js, Some je) \<Rightarrow>
          Some \<lparr>rg_node_id = take 63 jn, rg_start = take 32 js, rg_end = take 32 je\<rparr>
      | _ \<Rightarrow> None)"

definition adopt_ranges :: "int \<Rightarrow> int \<Rightarrow> cJSON option \<Rightarrow> edb_cluster \<Rightarrow> edb_cluster \<times> bool" where
  "adopt_ranges now gen jr cl =
     (case json_get jr ''assignments'' of
        Some (JArray assigns) \<Rightarrow>
          (cl\<lparr>cl_ranges := List.map_filter range_of_json assigns, cl_generation := gen,
              cl_gc_after := now + OFFLINE_AFTER_SECONDS\<rparr>, True)
      | _ \<Rightarrow> (cl, False))"

definition merge_ranges :: "int \<Rightarrow> edb_cluster \<Rightarrow> cJSON \<Rightarrow> edb_cluster \<times> bool" where
  "merge_ranges now cl doc =
     (let jr = json_get (Some doc) ''ranges''
      in case json_num (json_get jr ''generation'') of
           None \<Rightarrow> (cl, False)
         | Some gen \<Rightarrow>
             let (cl, c1) = (if cl_generation cl < gen then adopt_ranges now gen jr cl else (cl, False));
                 (cl, c2) = (if 0 < cl_target_generation cl \<and> cl_target_generation cl \<le> gen
                             then (cl\<lparr>cl_target_generation := 0, cl_ntarget_ranges := 0\<rparr>, True) else (cl, False))
             in (cl, c1 \<or> c2))"

text \<open>
  The target table: the slices are written into the array one by one, and only afterwards the
  code checks that every entry was well-formed before it adopts them.
\<close>

definition adopt_target :: "int \<Rightarrow> cJSON option \<Rightarrow> edb_cluster \<Rightarrow> edb_cluster \<times> bool" where
  "adopt_target tgen jt cl =
     (case json_get jt ''assignments'' of
        Some (JArray assigns) \<Rightarrow>
          if assigns = [] then (cl, False)
          else
            let written = List.map_filter range_of_json assigns;
                cl = cl\<lparr>cl_target_ranges := written @ drop (length written) (cl_target_ranges cl)\<rparr>
            in if length written = length assigns
               then (cl\<lparr>cl_ntarget_ranges := length assigns, cl_target_generation := tgen\<rparr>, True)
               else (cl, False)
      | _ \<Rightarrow> (cl, False))"

definition merge_target :: "edb_cluster \<Rightarrow> cJSON \<Rightarrow> edb_cluster \<times> bool" where
  "merge_target cl doc =
     (let jt = json_get (Some doc) ''target''
      in case json_num (json_get jt ''generation'') of
           Some tgen \<Rightarrow>
             if cl_target_generation cl < tgen \<and> cl_generation cl < tgen then adopt_target tgen jt cl else (cl, False)
         | None \<Rightarrow>
             if 0 < cl_target_generation cl \<and> from_leader cl doc
             then (cl\<lparr>cl_target_generation := 0, cl_ntarget_ranges := 0\<rparr>, True)
             else (cl, False))"

definition merge_state :: "int \<Rightarrow> edb_cluster \<Rightarrow> cJSON \<Rightarrow> edb_cluster \<times> bool" where
  "merge_state now cl doc =
     (let (cl, c1) = merge_nodes cl doc;
          (cl, c2) = merge_ranges now cl doc;
          (cl, c3) = merge_target cl doc
      in (cl, c1 \<or> c2 \<or> c3))"

section \<open>Persistence\<close>

definition SETTING_MEMBERS :: string where
  "SETTING_MEMBERS = ''cluster.members''"

definition SETTING_RANGES :: string where
  "SETTING_RANGES = ''cluster.ranges''"

definition SETTING_TARGET :: string where
  "SETTING_TARGET = ''cluster.target_ranges''"

definition SETTING_LOCK :: string where
  "SETTING_LOCK = ''cluster.rebalance_lock''"

definition SETTING_DONE_PREFIX :: string where
  "SETTING_DONE_PREFIX = ''rebalance.done.''"

definition setting_set :: "sqlite_env \<Rightarrow> string \<Rightarrow> string \<Rightarrow> edb_cluster \<Rightarrow> edb_cluster" where
  "setting_set e name json cl = cl\<lparr>cl_cfg := fst (edb_setting_set e (cl_cfg cl) name json)\<rparr>"

definition setting_delete :: "sqlite_env \<Rightarrow> string \<Rightarrow> edb_cluster \<Rightarrow> edb_cluster" where
  "setting_delete e name cl = cl\<lparr>cl_cfg := fst (edb_setting_delete e (cl_cfg cl) name)\<rparr>"

text \<open>A document printed and stored; nothing happens when it cannot be printed.\<close>

definition setting_set_doc :: "sqlite_env \<Rightarrow> string \<Rightarrow> cJSON \<Rightarrow> edb_cluster \<Rightarrow> edb_cluster" where
  "setting_set_doc e name doc cl =
     (case cJSON_PrintUnformatted e doc of None \<Rightarrow> cl | Some json \<Rightarrow> setting_set e name json cl)"

definition generation_text :: "int \<Rightarrow> string" where
  "generation_text gen = snprintf_s 128 (''{'' @ [CHR 0x22] @ ''generation'' @ [CHR 0x22] @ '':'' @ show_int gen @ ''}'')"

definition persist_state :: "sqlite_env \<Rightarrow> edb_cluster \<Rightarrow> edb_cluster" where
  "persist_state e cl =
     (let cl = setting_set_doc e SETTING_MEMBERS (state_to_json cl) cl;
          cl = setting_set e SETTING_RANGES (generation_text (cl_generation cl)) cl
      in if 0 < cl_target_generation cl
         then setting_set_doc e SETTING_TARGET (table_to_json (cl_target_generation cl) (target_table cl)) cl
         else setting_delete e SETTING_TARGET cl)"

text \<open>The setting parsed as a document, and the state after reading it.\<close>

definition setting_doc :: "sqlite_env \<Rightarrow> string \<Rightarrow> edb_cluster \<Rightarrow> edb_cluster \<times> cJSON option" where
  "setting_doc e name cl =
     (let (cfg, v) = edb_setting_get e (cl_cfg cl) name
      in (cl\<lparr>cl_cfg := cfg\<rparr>, Option.bind v (cJSON_ParseWithLength e)))"

definition merge_setting :: "sqlite_env \<Rightarrow> string \<Rightarrow> edb_cluster \<Rightarrow> edb_cluster" where
  "merge_setting e name cl =
     (let (cl, doc) = setting_doc e name cl
      in case doc of None \<Rightarrow> cl | Some doc \<Rightarrow> fst (merge_state (now_epoch e) cl doc))"

definition restore_state :: "sqlite_env \<Rightarrow> edb_cluster \<Rightarrow> edb_cluster" where
  "restore_state e cl =
     (let cl = merge_setting e SETTING_MEMBERS cl;
          (cl, doc) = setting_doc e SETTING_RANGES cl;
          cl = (case json_num (json_get doc ''generation'') of None \<Rightarrow> cl | Some g \<Rightarrow> cl\<lparr>cl_generation := g\<rparr>)
      in merge_setting e SETTING_TARGET cl)"

end
