(* ===== verification/Rebalance.thy ===== *)
theory Rebalance
  imports Gossip
begin

text \<open>
  Rebalancing (epsilon_cluster_rebalance.c): the leader publishes a target table over the online
  members, every member reports compliance with it, the leader promotes it to the live table;
  shards a node no longer holds are collected. The settings live in the configuration store of
  the node. The clock and SQLite are the parameter \<open>e\<close>; the directory listing, the outcome of
  removing a file, of an integrity check and of a remote call are parameters too. Growing an
  array is assumed to succeed.
\<close>

section \<open>Publishing a target\<close>

text \<open>The first \<open>n\<close> entries of a table name exactly the given ids.\<close>

definition same_nodes :: "edb_range_info list \<Rightarrow> string list \<Rightarrow> bool" where
  "same_nodes ranges ids \<longleftrightarrow> list_all2 (\<lambda>r i. strcmp (rg_node_id r) i = 0) ranges ids"

definition publish_target_locked :: "edb_cluster \<Rightarrow> edb_cluster \<times> bool" where
  "publish_target_locked cl =
     (let ids = sort_ids (online_ids cl); n = length ids
      in if n = 0 then (cl, False)
         else if n = length (cl_ranges cl) \<and> cl_target_generation cl = 0 \<and> same_nodes (cl_ranges cl) ids
         then (cl, False)
         else if 0 < cl_target_generation cl \<and> n = cl_ntarget_ranges cl \<and> same_nodes (target_table cl) ids
         then (cl, False)
         else (cl\<lparr>cl_target_ranges := build_slices ids @ drop n (cl_target_ranges cl),
                  cl_ntarget_ranges := n,
                  cl_target_generation :=
                    (if 0 < cl_target_generation cl then cl_target_generation cl + 1 else cl_generation cl + 1)\<rparr>, True))"

definition promote_target_locked :: "int \<Rightarrow> edb_cluster \<Rightarrow> edb_cluster" where
  "promote_target_locked now cl =
     (if cl_target_generation cl = 0 \<or> cl_ntarget_ranges cl = 0 then cl
      else cl\<lparr>cl_ranges := target_table cl, cl_generation := cl_target_generation cl,
              cl_gc_after := now + OFFLINE_AFTER_SECONDS, cl_target_generation := 0, cl_ntarget_ranges := 0\<rparr>)"

definition shrink_live_locked :: "sqlite_env \<Rightarrow> edb_cluster \<Rightarrow> edb_cluster" where
  "shrink_live_locked e cl =
     (let cl = setting_delete e SETTING_LOCK (cl\<lparr>cl_target_generation := 0, cl_ntarget_ranges := 0\<rparr>);
          ids = sort_ids (online_ids cl); n = length ids
      in if n = 0 then cl
         else if n \<noteq> length (cl_ranges cl)
         then cl\<lparr>cl_ranges := build_slices ids, cl_generation := cl_generation cl + 1,
                 cl_gc_after := now_epoch e + OFFLINE_AFTER_SECONDS\<rparr>
         else cl)"

definition edb_cluster_publish_target :: "sqlite_env \<Rightarrow> edb_cluster \<Rightarrow> edb_cluster \<times> bool" where
  "edb_cluster_publish_target e cl =
     (let (cl, published) = (if leader_is_self_locked cl then publish_target_locked cl else (cl, False))
      in (if published then persist_state e cl else cl, published))"

section \<open>Accessors\<close>

definition edb_cluster_target_ranges :: "edb_cluster \<Rightarrow> nat \<Rightarrow> edb_range_info list" where
  "edb_cluster_target_ranges cl cap = take cap (target_table cl)"

definition edb_cluster_target_generation :: "edb_cluster \<Rightarrow> int" where
  "edb_cluster_target_generation cl = cl_target_generation cl"

definition edb_cluster_generation :: "edb_cluster \<Rightarrow> int" where
  "edb_cluster_generation cl = cl_generation cl"

definition edb_cluster_ranges :: "edb_cluster \<Rightarrow> nat \<Rightarrow> edb_range_info list" where
  "edb_cluster_ranges cl cap = take cap (cl_ranges cl)"

definition edb_cluster_peers :: "edb_cluster \<Rightarrow> nat \<Rightarrow> edb_peer_info list" where
  "edb_cluster_peers cl cap = take cap (cl_peers cl)"

definition edb_cluster_is_leader :: "edb_cluster \<Rightarrow> bool" where
  "edb_cluster_is_leader cl = leader_is_self_locked cl"

definition edb_cluster_leader :: "edb_cluster \<Rightarrow> string option" where
  "edb_cluster_leader cl = (if cl_leader cl \<noteq> [] then Some (snprintf_s EDB_NODE_ID_MAX (cl_leader cl)) else None)"

section \<open>Compliance\<close>

definition done_setting :: "string \<Rightarrow> string" where
  "done_setting node = snprintf_s 96 (SETTING_DONE_PREFIX @ take 63 node)"

text \<open>The distinct nodes of the target table, at most \<open>MAX_PEERS\<close>.\<close>

definition add_required :: "string list \<Rightarrow> edb_range_info \<Rightarrow> string list" where
  "add_required required r =
     (if MAX_PEERS \<le> length required then required
      else if \<exists>x \<in> set required. strcmp x (rg_node_id r) = 0 then required
      else required @ [snprintf_s EDB_NODE_ID_MAX (rg_node_id r)])"

definition required_nodes :: "edb_cluster \<Rightarrow> string list" where
  "required_nodes cl = (if 0 < cl_target_generation cl then foldl add_required [] (target_table cl) else [])"

text \<open>Whether one node is compliant: by its gossiped generation, or by the persisted flag.\<close>

definition node_compliant :: "sqlite_env \<Rightarrow> int \<Rightarrow> edb_cluster \<Rightarrow> string \<Rightarrow> edb_cluster \<times> bool" where
  "node_compliant e tgen cl node =
     (if \<exists>p \<in> set (edb_cluster_peers cl MAX_PEERS). strcmp (p_id p) node = 0 \<and> tgen \<le> p_compliant_gen p
      then (cl, True)
      else
        let (cfg, v) = edb_setting_get e (cl_cfg cl) (done_setting node)
        in (cl\<lparr>cl_cfg := cfg\<rparr>,
            case v of
              None \<Rightarrow> False
            | Some s \<Rightarrow> (case strtoll s of (gen, rest, _) \<Rightarrow> rest = [] \<and> tgen \<le> gen)))"

fun all_compliant :: "sqlite_env \<Rightarrow> int \<Rightarrow> edb_cluster \<Rightarrow> string list \<Rightarrow> edb_cluster \<times> bool" where
  "all_compliant e tgen cl [] = (cl, True)"
| "all_compliant e tgen cl (node # nodes) =
     (let (cl, ok) = node_compliant e tgen cl node
      in if ok then all_compliant e tgen cl nodes else (cl, False))"

definition edb_cluster_target_compliant :: "sqlite_env \<Rightarrow> edb_cluster \<Rightarrow> edb_cluster \<times> bool" where
  "edb_cluster_target_compliant e cl =
     (if cl_target_generation cl = 0 \<or> required_nodes cl = [] then (cl, False)
      else all_compliant e (cl_target_generation cl) cl (required_nodes cl))"

definition edb_cluster_mark_compliant :: "sqlite_env \<Rightarrow> edb_cluster \<Rightarrow> edb_cluster" where
  "edb_cluster_mark_compliant e cl =
     (let tgen = (if cl_target_generation cl = 0 then cl_generation cl else cl_target_generation cl)
      in if tgen = 0 then cl
         else
           let cl = cl\<lparr>cl_peers := update_first (\<lambda>p. strcmp (p_id p) (cl_self_id cl) = 0)
                 (\<lambda>p. if p_compliant_gen p < tgen then p\<lparr>p_compliant_gen := tgen\<rparr> else p) (cl_peers cl)\<rparr>
           in setting_set e (done_setting (cl_self_id cl)) (snprintf_s 32 (show_int tgen)) cl)"

text \<open>
  The promotion. The code checks the compliance in lock sections of its own (the target is copied in
  one, the peers in another, the flags are read with no lock of the cluster) and then takes the lock
  again for the section \<open>commit_target\<close>, which promotes the target pending by then.
  \<open>edb_cluster_promote_target\<close> is the run in which no other thread comes between; the sections are
  also steps of their own in \<open>cluster_step\<close>, and the properties of the promotion are about the
  sections with any steps of other threads between them.
\<close>

definition commit_target :: "sqlite_env \<Rightarrow> edb_cluster \<Rightarrow> edb_cluster \<times> bool" where
  "commit_target e cl =
     (if leader_is_self_locked cl \<and> 0 < cl_target_generation cl
      then
        let cl = promote_target_locked (now_epoch e) cl;
            cl = fold (\<lambda>p. setting_delete e (done_setting (p_id p))) (cl_peers cl) cl;
            cl = setting_delete e SETTING_LOCK cl
        in (persist_state e cl, True)
      else (cl, False))"

definition edb_cluster_promote_target :: "sqlite_env \<Rightarrow> edb_cluster \<Rightarrow> edb_cluster \<times> bool" where
  "edb_cluster_promote_target e cl =
     (if cl_target_generation cl = 0 then (cl, False)
      else
        let (cl, compliant) = edb_cluster_target_compliant e cl
        in if \<not> compliant then (cl, False) else commit_target e cl)"

definition edb_cluster_maybe_promote :: "sqlite_env \<Rightarrow> edb_cluster \<Rightarrow> edb_cluster \<times> bool" where
  "edb_cluster_maybe_promote e cl =
     (if \<not> edb_cluster_is_leader cl then (cl, False)
      else if cl_target_generation cl = 0 then (cl, False)
      else
        let (cl, compliant) = edb_cluster_target_compliant e cl
        in if \<not> compliant then (cl, False) else edb_cluster_promote_target e cl)"

section \<open>Collecting redundant shards\<close>

definition restore_locked :: "sqlite_env \<Rightarrow> edb_cluster \<Rightarrow> edb_cluster \<times> bool" where
  "restore_locked e cl =
     (let (cl, doc) = setting_doc e ''server.restore_lock'' cl in (cl, cJSON_IsTrue doc))"

definition upd_engine :: "edb_engine \<Rightarrow> edb_cluster \<Rightarrow> edb_cluster" where
  "upd_engine en cl = cl\<lparr>cl_cfg := (cl_cfg cl)\<lparr>cfg_engine := en\<rparr>\<rparr>"

text \<open>The replication factor of the database a shard key belongs to, one when it is not registered.\<close>

definition key_factor :: "sqlite_env \<Rightarrow> edb_cluster \<Rightarrow> edb_keyspace_info list \<Rightarrow> string \<Rightarrow> edb_cluster \<times> int" where
  "key_factor e cl keyspaces key =
     (case first_match (\<lambda>k. case edb_shard_path (cfg_engine (cl_cfg cl)) (ks_partition k) (ks_name k) 1024 of
                              None \<Rightarrow> False
                            | Some (path, candidate) \<Rightarrow> strcmp candidate key = 0) keyspaces of
        None \<Rightarrow> (cl, 1)
      | Some k \<Rightarrow>
          let (cfg, database) = edb_database_get e (cl_cfg cl) (ks_database k)
          in (cl\<lparr>cl_cfg := cfg\<rparr>,
              case database of
                None \<Rightarrow> 1
              | Some d \<Rightarrow> if 0 < db_replication_factor d then db_replication_factor d else 1))"

text \<open>The loop over the first holders: whether this node is one, and whether all before are online.\<close>

fun scan_holders :: "string \<Rightarrow> edb_peer_info list \<Rightarrow> string list \<Rightarrow> bool \<times> bool" where
  "scan_holders self peers [] = (False, True)"
| "scan_holders self peers (h # hs) =
     (if strcmp h self = 0 then (True, True)
      else if \<exists>p \<in> set peers. strcmp (p_id p) h = 0 \<and> p_online p then scan_holders self peers hs
      else (False, False))"

definition shard_redundant :: "edb_cluster \<Rightarrow> edb_peer_info list \<Rightarrow> int \<Rightarrow> string \<Rightarrow> bool" where
  "shard_redundant cl peers rf key \<longleftrightarrow>
     (let holders = edb_cluster_holders cl key MAX_PEERS;
          rf = (if int (length holders) < rf then int (length holders) else rf);
          (keep_local, ready) = scan_holders (cl_self_id cl) peers (take (nat rf) holders)
      in \<not> keep_local \<and> 0 < rf \<and> ready)"

fun gc_keys ::
  "sqlite_env \<Rightarrow> bool \<Rightarrow> edb_keyspace_info list \<Rightarrow> edb_peer_info list \<Rightarrow> edb_cluster \<Rightarrow> string list \<Rightarrow>
    edb_cluster \<times> string option" where
  "gc_keys e unlink_ok keyspaces peers cl [] = (cl, None)"
| "gc_keys e unlink_ok keyspaces peers cl (key # keys) =
     (if edb_config_is_system_key (cl_cfg cl) key then gc_keys e unlink_ok keyspaces peers cl keys
      else
        let (cl, rf) = key_factor e cl keyspaces key
        in if \<not> shard_redundant cl peers rf key then gc_keys e unlink_ok keyspaces peers cl keys
           else
             let (en, ok) = edb_shard_gc unlink_ok (cfg_engine (cl_cfg cl)) key; cl = upd_engine en cl
             in if ok then (cl, Some key) else gc_keys e unlink_ok keyspaces peers cl keys)"

text \<open>
  \<open>edb_cluster_gc_redundant\<close> with the names in the data directory; the result is the key of the
  shard that was removed (the source returns how many: one or none).
\<close>

definition edb_cluster_gc_redundant ::
  "sqlite_env \<Rightarrow> bool \<Rightarrow> string list \<Rightarrow> edb_cluster \<Rightarrow> edb_cluster \<times> string option" where
  "edb_cluster_gc_redundant e unlink_ok names cl =
     (if cl_target_generation cl \<noteq> 0 then (cl, None)
      else
        let (cl, locked) = restore_locked e cl
        in if locked then (cl, None)
           else
             let keys = edb_engine_shard_keys names 256;
                 (cfg, keyspaces) = edb_keyspace_list e (cl_cfg cl);
                 cl = cl\<lparr>cl_cfg := cfg\<rparr>
             in gc_keys e unlink_ok keyspaces (edb_cluster_peers cl MAX_PEERS) cl keys)"

section \<open>The rebalance lock\<close>

definition lock_text :: "string \<Rightarrow> int \<Rightarrow> string" where
  "lock_text node ts =
     snprintf_s 128 (''{'' @ [CHR 0x22] @ ''node'' @ [CHR 0x22] @ '':'' @ [CHR 0x22] @ take 63 node @ [CHR 0x22]
       @ '','' @ [CHR 0x22] @ ''ts'' @ [CHR 0x22] @ '':'' @ show_int ts @ ''}'')"

definition write_lock :: "sqlite_env \<Rightarrow> edb_cluster \<Rightarrow> edb_cluster \<times> bool" where
  "write_lock e cl =
     (let (cfg, ok) = edb_setting_set e (cl_cfg cl) SETTING_LOCK (lock_text (cl_self_id cl) (now_epoch e))
      in (cl\<lparr>cl_cfg := cfg\<rparr>, ok))"

definition edb_cluster_acquire_rebalance_lock :: "sqlite_env \<Rightarrow> edb_cluster \<Rightarrow> edb_cluster \<times> bool" where
  "edb_cluster_acquire_rebalance_lock e cl =
     (let (cfg, cur) = edb_setting_get e (cl_cfg cl) SETTING_LOCK; cl = cl\<lparr>cl_cfg := cfg\<rparr>
      in case cur of
           None \<Rightarrow> write_lock e cl
         | Some text' \<Rightarrow>
             let doc = cJSON_ParseWithLength e text';
                 ts = num_or_0 (json_get doc ''ts'');
                 mine = (case json_str (json_get doc ''node'') of
                           None \<Rightarrow> False | Some node \<Rightarrow> strcmp node (cl_self_id cl) = 0);
                 stale = (0 < ts \<and> 30 < now_epoch e - ts)
             in if \<not> mine \<and> \<not> stale then (cl, False)
                else if mine then (cl, True)
                else write_lock e cl)"

definition edb_cluster_release_rebalance_lock :: "sqlite_env \<Rightarrow> edb_cluster \<Rightarrow> edb_cluster" where
  "edb_cluster_release_rebalance_lock e cl = setting_delete e SETTING_LOCK cl"

section \<open>Joining and rolling back\<close>

text \<open>\<open>edb_shard_validate\<close>: the file exists, is not empty and passes the integrity check.\<close>

definition edb_shard_validate :: "(string \<Rightarrow> bool) \<Rightarrow> edb_engine \<Rightarrow> string \<Rightarrow> string \<Rightarrow> bool" where
  "edb_shard_validate intact en part keyspace \<longleftrightarrow>
     (case edb_shard_path en part keyspace 1024 of
        None \<Rightarrow> False
      | Some (path, key) \<Rightarrow> fs_files (en_fs en) path \<noteq> None \<and> intact path)"

definition keyspace_needs_sync :: "(string \<Rightarrow> bool) \<Rightarrow> edb_cluster \<Rightarrow> edb_keyspace_info \<Rightarrow> bool" where
  "keyspace_needs_sync intact cl k \<longleftrightarrow>
     (case edb_shard_path (cfg_engine (cl_cfg cl)) (ks_partition k) (ks_name k) 1024 of
        None \<Rightarrow> False
      | Some (path, key) \<Rightarrow>
          \<not> edb_config_is_system_key (cl_cfg cl) key \<and>
          (case edb_cluster_target_owner cl key of None \<Rightarrow> False | Some owner \<Rightarrow> strcmp owner (cl_self_id cl) = 0) \<and>
          \<not> edb_shard_validate intact (cfg_engine (cl_cfg cl)) (ks_partition k) (ks_name k))"

definition edb_cluster_needs_sync :: "sqlite_env \<Rightarrow> (string \<Rightarrow> bool) \<Rightarrow> edb_cluster \<Rightarrow> edb_cluster \<times> bool" where
  "edb_cluster_needs_sync e intact cl =
     (if cl_target_generation cl = 0 then (cl, False)
      else
        let (cfg, keyspaces) = edb_keyspace_list e (cl_cfg cl); cl = cl\<lparr>cl_cfg := cfg\<rparr>
        in (cl, \<exists>k \<in> set keyspaces. keyspace_needs_sync intact cl k))"

definition edb_cluster_set_auto_compliant :: "bool \<Rightarrow> edb_cluster \<Rightarrow> edb_cluster" where
  "edb_cluster_set_auto_compliant enabled cl = cl\<lparr>cl_auto_compliant := enabled\<rparr>"

definition edb_cluster_void_target :: "sqlite_env \<Rightarrow> edb_cluster \<Rightarrow> edb_cluster \<times> bool" where
  "edb_cluster_void_target e cl =
     (if leader_is_self_locked cl \<and> 0 < cl_target_generation cl
      then
        let cl = cl\<lparr>cl_target_generation := 0, cl_ntarget_ranges := 0,
                    cl_peers := map (\<lambda>p. p\<lparr>p_compliant_gen := 0\<rparr>) (cl_peers cl)\<rparr>;
            cl = edb_cluster_release_rebalance_lock e cl
        in (persist_state e cl, True)
      else (cl, False))"

text \<open>
  \<open>edb_cluster_request_void\<close>: \<open>reply\<close> is what the leader answers when it is asked, \<open>None\<close> when it
  cannot be reached.
\<close>

definition edb_cluster_request_void :: "sqlite_env \<Rightarrow> bool option \<Rightarrow> edb_cluster \<Rightarrow> edb_cluster \<times> bool" where
  "edb_cluster_request_void e reply cl =
     (let leader = snprintf_s EDB_NODE_ID_MAX (cl_leader cl);
          (addr, port) = (case first_match (\<lambda>p. strcmp (p_id p) leader = 0) (cl_peers cl) of
                            None \<Rightarrow> ([], 0)
                          | Some p \<Rightarrow> (snprintf_s EDB_ADDR_MAX (p_addr p), p_port p))
      in if leader = [] \<or> addr = [] \<or> port \<le> 0 \<or> strcmp leader (cl_self_id cl) = 0
         then edb_cluster_void_target e cl
         else (cl, reply = Some True))"

end
