(* ===== verification/Membership.thy ===== *)
theory Membership
  imports Rebalance
begin

text \<open>
  Membership (epsilon_cluster.c): starting a node, the handshake of a peer connection, the frames
  of an established connection, its end, the periodic tick of the maintainer thread, and the
  removal of nodes. Each function is a critical section or a handler of the source, with the
  parsed frame as argument; \<open>None\<close> stands for a frame of another type or without a parsable
  payload. Sockets and the sending of frames are not modelled: they change no cluster state.
\<close>

definition REMOVE_AFTER_SECONDS :: int where
  "REMOVE_AFTER_SECONDS = 7200"

section \<open>Leader reaction\<close>

definition leader_react :: "sqlite_env \<Rightarrow> edb_cluster \<Rightarrow> bool \<Rightarrow> edb_cluster" where
  "leader_react e cl changed =
     (if \<not> changed then cl
      else
        let am_leader = leader_is_self_locked cl;
            before_target = cl_target_generation cl;
            cl = (if am_leader then fst (publish_target_locked cl) else cl);
            target_published = (am_leader \<and> cl_target_generation cl \<noteq> before_target);
            target_generation = cl_target_generation cl;
            cl = persist_state e cl;
            cl = (if target_published then fst (edb_cluster_acquire_rebalance_lock e cl) else cl)
        in if am_leader \<and> 0 < target_generation then fst (edb_cluster_maybe_promote e cl) else cl)"

section \<open>The handshake\<close>

text \<open>
  What a HELLO frame leads to: the peer is refused with a reason, the connection is dropped, or it
  is registered for a node.
\<close>

datatype hello_result = Rejected string | Discarded | Registered string

definition hello_node :: "string \<Rightarrow> cJSON option \<Rightarrow> string" where
  "hello_node node hello =
     (case json_str (json_get hello ''node_id'') of
        None \<Rightarrow> node
      | Some s \<Rightarrow> if length s < EDB_NODE_ID_MAX then snprintf_s EDB_NODE_ID_MAX s else node)"

text \<open>Whether this frame itself carried the own id.\<close>

definition hello_is_self :: "edb_cluster \<Rightarrow> cJSON option \<Rightarrow> bool" where
  "hello_is_self cl hello \<longleftrightarrow>
     (case json_str (json_get hello ''node_id'') of
        None \<Rightarrow> False
      | Some s \<Rightarrow> length s < EDB_NODE_ID_MAX \<and> strcmp s (cl_self_id cl) = 0)"

definition hello_admit :: "edb_cluster \<Rightarrow> bool \<Rightarrow> string \<Rightarrow> bool \<Rightarrow> edb_cluster \<times> string option" where
  "hello_admit cl is_self node joining =
     (if is_self \<or> node = [] \<or> strcmp node ''ephemeral'' = 0 then (cl, None)
      else case first_match (\<lambda>p. strcmp (p_id p) node = 0) (cl_peers cl) of
             None \<Rightarrow> (cl, if 0 < cl_target_generation cl then Some ''rebalance'' else None)
           | Some p \<Rightarrow>
               if \<not> p_removed p then (cl, None)
               else if joining
               then (cl\<lparr>cl_peers := update_first (\<lambda>p. strcmp (p_id p) node = 0)
                       (\<lambda>p. p\<lparr>p_removed := False, p_last_seen := 0\<rparr>) (cl_peers cl)\<rparr>, None)
               else (cl, Some ''removed''))"

text \<open>The address the caller declares is written to its entry, which is created when missing.\<close>

definition declared_peer :: "int \<Rightarrow> string \<Rightarrow> cJSON option \<Rightarrow> edb_peer_info \<Rightarrow> edb_peer_info" where
  "declared_peer now addr hello p =
     p\<lparr>p_addr := snprintf_s EDB_ADDR_MAX addr,
       p_port := (case json_get hello ''port'' of Some (JNumber r) \<Rightarrow> valueint r | _ \<Rightarrow> 0),
       p_http_port := (case port_of (json_get hello ''http_port'') of None \<Rightarrow> p_http_port p | Some port \<Rightarrow> port),
       p_last_seen := now\<rparr>"

definition hello_adopt :: "int \<Rightarrow> edb_cluster \<Rightarrow> bool \<Rightarrow> string \<Rightarrow> cJSON option \<Rightarrow> edb_cluster" where
  "hello_adopt now cl is_self node hello =
     (case json_str (json_get hello ''addr'') of
        None \<Rightarrow> cl
      | Some addr \<Rightarrow>
          if node = [] \<or> is_self \<or> EDB_ADDR_MAX \<le> length addr then cl
          else if first_match (\<lambda>p. strcmp (p_id p) node = 0) (cl_peers cl) \<noteq> None
          then cl\<lparr>cl_peers := update_first (\<lambda>p. strcmp (p_id p) node = 0) (declared_peer now addr hello) (cl_peers cl)\<rparr>
          else if length (cl_peers cl) < MAX_PEERS
          then cl\<lparr>cl_peers := cl_peers cl @ [declared_peer now addr hello (fresh_peer node)]\<rparr>
          else cl)"

text \<open>The first frame on a connection; \<open>node\<close> is the id the dialler expects, empty for an accepted one.\<close>

definition conn_hello :: "sqlite_env \<Rightarrow> edb_cluster \<Rightarrow> string \<Rightarrow> cJSON option \<Rightarrow> edb_cluster \<times> hello_result" where
  "conn_hello e cl node hello =
     (let node = hello_node node hello; is_self = hello_is_self cl hello
      in case hello of
           None \<Rightarrow> (cl, if node = [] then Discarded else Registered node)
         | Some h \<Rightarrow>
             (case hello_admit cl is_self node (cJSON_IsTrue (json_get hello ''join'')) of
                (cl, Some reason) \<Rightarrow> (cl, Rejected reason)
              | (cl, None) \<Rightarrow>
                  (hello_adopt (now_epoch e) cl is_self node hello, if node = [] then Discarded else Registered node)))"

text \<open>Registering the connection: the leader is recomputed, then the peer is marked online.\<close>

definition conn_register :: "sqlite_env \<Rightarrow> edb_cluster \<Rightarrow> string \<Rightarrow> edb_cluster" where
  "conn_register e cl node =
     (let cl = recompute_leader cl;
          became_online = (case first_match (\<lambda>p. strcmp (p_id p) node = 0) (cl_peers cl) of
                             None \<Rightarrow> False | Some p \<Rightarrow> \<not> p_online p \<and> p_last_seen p = 0);
          cl = cl\<lparr>cl_peers := update_first (\<lambda>p. strcmp (p_id p) node = 0) (\<lambda>p. p\<lparr>p_online := True\<rparr>) (cl_peers cl)\<rparr>
      in leader_react e cl became_online)"

section \<open>Frames of a connection\<close>

text \<open>A STATE frame from \<open>node\<close>; \<open>doc\<close> is its parsed payload.\<close>

definition conn_state :: "sqlite_env \<Rightarrow> edb_cluster \<Rightarrow> string \<Rightarrow> cJSON option \<Rightarrow> edb_cluster" where
  "conn_state e cl node doc =
     (let (cl, changed) =
        (case doc of
           None \<Rightarrow> (cl, False)
         | Some doc \<Rightarrow>
             let (cl, changed) = merge_state (now_epoch e) cl doc;
                 back = (node \<noteq> [] \<and> (\<exists>p \<in> set (cl_peers cl). strcmp (p_id p) node = 0 \<and> \<not> p_online p))
             in (if back
                 then cl\<lparr>cl_peers := update_first (\<lambda>p. strcmp (p_id p) node = 0 \<and> \<not> p_online p)
                        (\<lambda>p. p\<lparr>p_online := True\<rparr>) (cl_peers cl)\<rparr>
                 else cl, changed \<or> back));
          cl = recompute_leader cl
      in if changed then leader_react e cl True else cl)"

definition conn_void :: "sqlite_env \<Rightarrow> edb_cluster \<Rightarrow> edb_cluster \<times> bool" where
  "conn_void e cl = edb_cluster_void_target e cl"

text \<open>
  The end of a registered connection: the peer goes offline, and a leader shrinks the live table
  to the members that are left.
\<close>

definition conn_closed :: "sqlite_env \<Rightarrow> edb_cluster \<Rightarrow> string \<Rightarrow> edb_cluster" where
  "conn_closed e cl node =
     (let cl = cl\<lparr>cl_peers := update_first (\<lambda>p. strcmp (p_id p) node = 0) (\<lambda>p. p\<lparr>p_online := False\<rparr>) (cl_peers cl)\<rparr>;
          cl = recompute_leader cl
      in if \<not> leader_is_self_locked cl then cl
         else
           let cl = setting_delete e SETTING_LOCK (cl\<lparr>cl_target_generation := 0, cl_ntarget_ranges := 0\<rparr>);
               ids = sort_ids (online_ids cl); n = length ids;
               cl = (if cl_ranges cl \<noteq> [] \<and> 0 < n \<and> n \<noteq> length (cl_ranges cl)
                     then cl\<lparr>cl_ranges := build_slices ids, cl_generation := cl_generation cl + 1\<rparr> else cl)
           in persist_state e cl)"

section \<open>The maintainer\<close>

definition peer_expired :: "string \<Rightarrow> int \<Rightarrow> edb_peer_info \<Rightarrow> bool" where
  "peer_expired self now p \<longleftrightarrow>
     \<not> (strcmp (p_id p) self = 0 \<or> p_removed p \<or> p_online p \<or> p_last_seen p \<le> 0) \<and>
     REMOVE_AFTER_SECONDS \<le> now - p_last_seen p"

definition tick_remove :: "sqlite_env \<Rightarrow> edb_cluster \<Rightarrow> edb_cluster" where
  "tick_remove e cl =
     (if \<not> leader_is_self_locked cl then cl
      else
        let gone = peer_expired (cl_self_id cl) (now_epoch e);
            removed_any = (\<exists>p \<in> set (cl_peers cl). gone p);
            cl = cl\<lparr>cl_peers := map (\<lambda>p. if gone p then p\<lparr>p_removed := True\<rparr> else p) (cl_peers cl)\<rparr>
        in if removed_any then persist_state e (shrink_live_locked e cl) else cl)"

definition tick_comply :: "sqlite_env \<Rightarrow> (string \<Rightarrow> bool) \<Rightarrow> edb_cluster \<Rightarrow> edb_cluster" where
  "tick_comply e intact cl =
     (let tgen = cl_target_generation cl;
          self_gen = (if 0 < tgen
                      then (case first_match (\<lambda>p. strcmp (p_id p) (cl_self_id cl) = 0) (cl_peers cl) of
                              None \<Rightarrow> 0 | Some p \<Rightarrow> p_compliant_gen p)
                      else 0)
      in if cl_auto_compliant cl \<and> 0 < tgen \<and> self_gen < tgen
         then (let (cl, needed) = edb_cluster_needs_sync e intact cl
               in if needed then cl else edb_cluster_mark_compliant e cl)
         else cl)"

text \<open>One tick, after the heartbeats and the dialling of peers, which change no state.\<close>

definition maintainer_tick ::
  "sqlite_env \<Rightarrow> (string \<Rightarrow> bool) \<Rightarrow> bool \<Rightarrow> string list \<Rightarrow> edb_cluster \<Rightarrow> edb_cluster" where
  "maintainer_tick e intact unlink_ok names cl =
     (let cl = fst (edb_cluster_maybe_promote e cl);
          cl = tick_comply e intact cl;
          cl = (if cl_target_generation cl = 0 \<and> 0 < cl_gc_after cl \<and> cl_gc_after cl \<le> now_epoch e
                then fst (edb_cluster_gc_redundant e unlink_ok names cl) else cl)
      in tick_remove e cl)"

section \<open>Starting and changing membership\<close>

text \<open>Unlike the other places that add peers, this one does not check \<open>MAX_PEERS\<close>.\<close>

definition add_self_locked :: "int \<Rightarrow> edb_cluster \<Rightarrow> edb_cluster" where
  "add_self_locked now cl =
     (if first_match (\<lambda>p. strcmp (p_id p) (cl_self_id cl) = 0) (cl_peers cl) \<noteq> None
      then cl\<lparr>cl_peers := update_first (\<lambda>p. strcmp (p_id p) (cl_self_id cl) = 0)
               (\<lambda>p. p\<lparr>p_addr := snprintf_s EDB_ADDR_MAX (cl_self_addr cl), p_port := cl_self_port cl,
                      p_http_port := cl_self_http_port cl, p_online := True\<rparr>) (cl_peers cl)\<rparr>
      else cl\<lparr>cl_peers := cl_peers cl @
               [\<lparr>p_id = snprintf_s EDB_NODE_ID_MAX (cl_self_id cl), p_addr = snprintf_s EDB_ADDR_MAX (cl_self_addr cl),
                 p_port = cl_self_port cl, p_http_port = cl_self_http_port cl, p_last_seen = now,
                 p_online = True, p_removed = False, p_compliant_gen = 0\<rparr>]\<rparr>)"

definition edb_cluster_set_http_port :: "int \<Rightarrow> edb_cluster \<Rightarrow> edb_cluster" where
  "edb_cluster_set_http_port http_port cl =
     (if http_port < 0 \<or> 65535 < http_port then cl
      else cl\<lparr>cl_self_http_port := http_port,
              cl_peers := update_first (\<lambda>p. strcmp (p_id p) (cl_self_id cl) = 0)
                (\<lambda>p. p\<lparr>p_http_port := http_port\<rparr>) (cl_peers cl)\<rparr>)"

definition node_id_for :: "string \<Rightarrow> int \<Rightarrow> string" where
  "node_id_for addr port =
     (let seed = snprintf_s 256 (''edb-node:'' @ addr @ '':'' @ show_int port)
      in snprintf_s EDB_NODE_ID_MAX (''node-'' @ take 12 (edb_md5_hex seed)))"

definition new_cluster :: "edb_config \<Rightarrow> string \<Rightarrow> int \<Rightarrow> edb_cluster" where
  "new_cluster cfg addr port =
     \<lparr>cl_self_id = node_id_for addr port, cl_self_addr = snprintf_s EDB_ADDR_MAX addr, cl_self_port = port,
      cl_self_http_port = 0, cl_peers = [], cl_generation = 0, cl_gc_after = 0, cl_ranges = [],
      cl_target_generation = 0, cl_target_ranges = [], cl_ntarget_ranges = 0, cl_auto_compliant = True,
      cl_leader = [], cl_cfg = cfg\<rparr>"

text \<open>
  \<open>edb_cluster_start\<close> up to the point where the node listens: the state is restored, the node adds
  itself, and the first node of a cluster claims the whole key space.
\<close>

definition edb_cluster_start :: "sqlite_env \<Rightarrow> edb_config \<Rightarrow> string \<Rightarrow> int \<Rightarrow> edb_cluster option" where
  "edb_cluster_start e cfg advertise_addr peer_port =
     (if advertise_addr = [] \<or> peer_port \<le> 0 \<or> 65535 < peer_port then None
      else
        let cl = restore_state e (new_cluster cfg advertise_addr peer_port);
            cl = recompute_leader (add_self_locked (now_epoch e) cl);
            cl = (if leader_is_self_locked cl \<and> cl_ranges cl = []
                  then cl\<lparr>cl_ranges := build_slices [cl_self_id cl], cl_generation := cl_generation cl + 1\<rparr> else cl)
        in Some (persist_state e cl))"

definition edb_cluster_stop :: "sqlite_env \<Rightarrow> edb_cluster \<Rightarrow> edb_cluster" where
  "edb_cluster_stop e cl = persist_state e cl"

text \<open>The frames a joining node absorbs: a rejecting HELLO ends the exchange, a STATE is merged.\<close>

datatype join_frame = JoinHello "cJSON option" | JoinState "cJSON option" | JoinOther

fun join_exchange :: "sqlite_env \<Rightarrow> edb_cluster \<Rightarrow> bool \<Rightarrow> join_frame list \<Rightarrow> edb_cluster \<times> int" where
  "join_exchange e cl got_reply [] = (cl, if got_reply then 0 else - 1)"
| "join_exchange e cl got_reply (JoinHello h # fs) =
     (case json_str (json_get h ''reject'') of
        Some reason \<Rightarrow> (cl, if strcmp reason ''removed'' = 0 then - 3 else - 2)
      | None \<Rightarrow> join_exchange e cl True fs)"
| "join_exchange e cl got_reply (JoinState None # fs) = join_exchange e cl True fs"
| "join_exchange e cl got_reply (JoinState (Some doc) # fs) =
     (let (cl, changed) = merge_state (now_epoch e) cl doc
      in join_exchange e (leader_react e (recompute_leader cl) changed) True fs)"
| "join_exchange e cl got_reply (JoinOther # fs) = join_exchange e cl True fs"

definition edb_cluster_remove_node :: "sqlite_env \<Rightarrow> edb_cluster \<Rightarrow> string \<Rightarrow> edb_cluster \<times> bool" where
  "edb_cluster_remove_node e cl node =
     (if node = [] \<or> strcmp node (cl_self_id cl) = 0 then (cl, False)
      else if first_match (\<lambda>p. strcmp (p_id p) node = 0) (cl_peers cl) = None then (cl, False)
      else
        let cl = cl\<lparr>cl_peers := update_first (\<lambda>p. strcmp (p_id p) node = 0) (\<lambda>p. p\<lparr>p_removed := True\<rparr>) (cl_peers cl)\<rparr>;
            cl = (if leader_is_self_locked cl then shrink_live_locked e cl else cl)
        in (persist_state e cl, True))"

end
