(* ===== verification/Cluster_Inv.thy ===== *)
theory Cluster_Inv
  imports Membership
begin

text \<open>
  The invariant of the cluster state and the order it is kept in. Every operation is shown to be
  an \<open>evolves\<close> step: it keeps the invariant, never lowers the generation of the live table, never
  drops a peer from the table and never changes the own identity. Steps compose, so the handlers
  follow from their parts; the collection \<open>evolve\<close> holds the rules.
\<close>

named_theorems evolve \<open>steps of the cluster state\<close>

section \<open>The invariant\<close>

definition peer_ok :: "edb_peer_info \<Rightarrow> bool" where
  "peer_ok p \<longleftrightarrow> p_id p \<noteq> [] \<and> length (p_id p) < EDB_NODE_ID_MAX \<and> length (p_addr p) < EDB_ADDR_MAX"

definition peers_ok :: "edb_peer_info list \<Rightarrow> bool" where
  "peers_ok ps \<longleftrightarrow> distinct (map p_id ps) \<and> (\<forall>p \<in> set ps. peer_ok p)"

text \<open>A pending target is newer than the live table, and its count is within its array.\<close>

definition target_ok :: "edb_cluster \<Rightarrow> bool" where
  "target_ok cl \<longleftrightarrow> 0 \<le> cl_generation cl \<and>
     (cl_target_generation cl = 0 \<or> cl_generation cl < cl_target_generation cl) \<and>
     cl_ntarget_ranges cl \<le> length (cl_target_ranges cl)"

definition cluster_inv :: "edb_cluster \<Rightarrow> bool" where
  "cluster_inv cl \<longleftrightarrow> peers_ok (cl_peers cl) \<and> target_ok cl"

text \<open>The order of the states of a node.\<close>

definition evolves :: "edb_cluster \<Rightarrow> edb_cluster \<Rightarrow> bool" where
  "evolves cl cl' \<longleftrightarrow> (cluster_inv cl \<longrightarrow>
     cluster_inv cl' \<and> cl_generation cl \<le> cl_generation cl' \<and>
     cl_self_id cl' = cl_self_id cl \<and> cl_self_addr cl' = cl_self_addr cl \<and> cl_self_port cl' = cl_self_port cl \<and>
     length (cl_peers cl') \<le> max MAX_PEERS (length (cl_peers cl)) \<and>
     set (map p_id (cl_peers cl)) \<subseteq> set (map p_id (cl_peers cl')))"

lemma evolves_refl [evolve, simp]: "evolves cl cl"
  by (simp add: evolves_def)

lemma evolves_trans:
  assumes "evolves a b" "evolves b c"
  shows "evolves a c"
proof -
  have "evolves a c" if "cluster_inv a"
    using assms that unfolding evolves_def by (auto simp: le_max_iff_disj)
  then show ?thesis by (auto simp: evolves_def)
qed

text \<open>The fields the invariant and the order speak of.\<close>

definition same_view :: "edb_cluster \<Rightarrow> edb_cluster \<Rightarrow> bool" where
  "same_view cl cl' \<longleftrightarrow>
     cl_peers cl' = cl_peers cl \<and> cl_generation cl' = cl_generation cl \<and>
     cl_target_generation cl' = cl_target_generation cl \<and> cl_ntarget_ranges cl' = cl_ntarget_ranges cl \<and>
     cl_target_ranges cl' = cl_target_ranges cl \<and> cl_self_id cl' = cl_self_id cl \<and>
     cl_self_addr cl' = cl_self_addr cl \<and> cl_self_port cl' = cl_self_port cl"

lemma same_view_evolves: "same_view cl cl' \<Longrightarrow> evolves cl cl'"
  by (auto simp: same_view_def evolves_def cluster_inv_def target_ok_def)

lemma same_view_refl [simp]: "same_view cl cl"
  by (simp add: same_view_def)

lemma same_view_trans: "same_view a b \<Longrightarrow> same_view b c \<Longrightarrow> same_view a c"
  by (simp add: same_view_def)

lemma evolves_update_peers:
  assumes "peers_ok (cl_peers cl) \<Longrightarrow> peers_ok ps"
    and "length ps \<le> max MAX_PEERS (length (cl_peers cl))"
    and "set (map p_id (cl_peers cl)) \<subseteq> set (map p_id ps)"
  shows "evolves cl (cl\<lparr>cl_peers := ps\<rparr>)"
  using assms by (simp add: evolves_def cluster_inv_def target_ok_def)

section \<open>Updates of the peer table\<close>

lemma peers_ok_update_first:
  assumes "peers_ok ps" "\<And>p. p_id (f p) = p_id p" "\<And>p. peer_ok p \<Longrightarrow> peer_ok (f p)"
  shows "peers_ok (update_first P f ps)"
proof -
  have "map p_id (update_first P f ps) = map p_id ps" by (rule map_update_first_same) (rule assms(2))
  moreover have "\<forall>p \<in> set (update_first P f ps). peer_ok p"
    using set_update_first [of P f ps] assms(1,3) by (auto simp: peers_ok_def)
  ultimately show ?thesis using assms(1) by (simp add: peers_ok_def)
qed

lemma evolves_update_first:
  assumes "\<And>p. p_id (f p) = p_id p" "\<And>p. peer_ok p \<Longrightarrow> peer_ok (f p)"
  shows "evolves cl (cl\<lparr>cl_peers := update_first P f (cl_peers cl)\<rparr>)"
proof (rule evolves_update_peers)
  show "peers_ok (cl_peers cl) \<Longrightarrow> peers_ok (update_first P f (cl_peers cl))"
    by (rule peers_ok_update_first) (use assms in auto)
  have "map p_id (update_first P f (cl_peers cl)) = map p_id (cl_peers cl)"
    by (rule map_update_first_same) (rule assms(1))
  then show "set (map p_id (cl_peers cl)) \<subseteq> set (map p_id (update_first P f (cl_peers cl)))" by simp
qed simp

lemma evolves_map:
  assumes "\<And>p. p_id (f p) = p_id p" "\<And>p. peer_ok p \<Longrightarrow> peer_ok (f p)"
  shows "evolves cl (cl\<lparr>cl_peers := map f (cl_peers cl)\<rparr>)"
proof (rule evolves_update_peers)
  have "p_id \<circ> f = p_id" using assms(1) by auto
  then show "peers_ok (map f (cl_peers cl))" if "peers_ok (cl_peers cl)"
    using that assms(2) by (auto simp: peers_ok_def)
  show "set (map p_id (cl_peers cl)) \<subseteq> set (map p_id (map f (cl_peers cl)))"
    using \<open>p_id \<circ> f = p_id\<close> by (simp add: image_comp)
qed simp

lemma peer_ok_updates [simp]:
  "peer_ok (p\<lparr>p_online := b\<rparr>) = peer_ok p" "peer_ok (p\<lparr>p_removed := b\<rparr>) = peer_ok p"
  "peer_ok (p\<lparr>p_last_seen := i\<rparr>) = peer_ok p" "peer_ok (p\<lparr>p_compliant_gen := i\<rparr>) = peer_ok p"
  "peer_ok (p\<lparr>p_port := i\<rparr>) = peer_ok p" "peer_ok (p\<lparr>p_http_port := i\<rparr>) = peer_ok p"
  by (simp_all add: peer_ok_def)

lemma peer_ok_addr: "peer_ok p \<Longrightarrow> peer_ok (p\<lparr>p_addr := snprintf_s EDB_ADDR_MAX a\<rparr>)"
  using snprintf_s_length [of EDB_ADDR_MAX a] by (simp add: peer_ok_def EDB_ADDR_MAX_def)

lemma first_match_None_id:
  "first_match (\<lambda>p. strcmp (p_id p) node = 0) ps = None \<longleftrightarrow> node \<notin> set (map p_id ps)"
  by (auto simp: first_match_def find_None_iff)

lemma evolves_append:
  assumes "first_match (\<lambda>p. strcmp (p_id p) node = 0) (cl_peers cl) = None" "length (cl_peers cl) < MAX_PEERS"
    and "p_id p = node" "peer_ok p"
  shows "evolves cl (cl\<lparr>cl_peers := cl_peers cl @ [p]\<rparr>)"
proof (rule evolves_update_peers)
  have "node \<notin> set (map p_id (cl_peers cl))" using assms(1) by (simp only: first_match_None_id not_False_eq_True)
  then show "peers_ok (cl_peers cl @ [p])" if "peers_ok (cl_peers cl)"
    using that assms(3,4) by (auto simp: peers_ok_def)
qed (use assms(2) in auto)

section \<open>Settings\<close>

lemma same_view_settings [simp]:
  "same_view cl (setting_set e name json cl)" "same_view cl (setting_delete e name cl)"
  "same_view cl (setting_set_doc e name doc cl)" "same_view cl (fst (setting_doc e name cl))"
  "same_view cl (cl\<lparr>cl_cfg := cfg\<rparr>)" "same_view cl (upd_engine en cl)"
  by (auto simp: same_view_def setting_set_def setting_delete_def setting_set_doc_def setting_doc_def
      upd_engine_def split_beta split: option.split)

lemma same_view_persist [simp]: "same_view cl (persist_state e cl)"
proof -
  let ?a = "setting_set_doc e SETTING_MEMBERS (state_to_json cl) cl"
  let ?b = "setting_set e SETTING_RANGES (generation_text (cl_generation ?a)) ?a"
  have "same_view cl ?b" by (rule same_view_trans [of cl ?a]) simp_all
  then show ?thesis
    unfolding persist_state_def Let_def using same_view_trans [of cl ?b] by simp
qed

lemma same_view_fold:
  "(\<And>x cl. same_view cl (f x cl)) \<Longrightarrow> same_view cl (fold f xs cl)"
  by (induction xs arbitrary: cl) (auto intro: same_view_trans)

lemma same_view_recompute [simp]: "same_view cl (recompute_leader cl)"
  by (simp add: same_view_def recompute_leader_def Let_def)

lemmas [evolve] = same_view_settings [THEN same_view_evolves] same_view_persist [THEN same_view_evolves]
  same_view_recompute [THEN same_view_evolves]

section \<open>Gossip\<close>

lemma merge_parts_id [simp]:
  "p_id (fst (merge_address s item p)) = p_id p" "p_id (merge_port s item p) = p_id p"
  "p_id (fst (merge_http_port s item p)) = p_id p" "p_id (fst (merge_seen item p)) = p_id p"
  "p_id (fst (merge_compliant item p)) = p_id p" "p_id (fst (merge_removed leader item p)) = p_id p"
  by (simp_all add: merge_address_def merge_port_def merge_http_port_def merge_seen_def
      merge_compliant_def merge_removed_def Let_def split: option.split)

lemma merge_peer_id: "p_id (fst (merge_peer self leader item p)) = p_id p"
  by (simp add: merge_peer_def Let_def split_beta)

lemma merge_peer_ok: "peer_ok p \<Longrightarrow> peer_ok (fst (merge_peer self leader item p))"
proof -
  have a: "peer_ok (fst (merge_address s item p))" if "peer_ok p" for s p
    using that peer_ok_addr by (auto simp: merge_address_def split: option.split)
  have b: "peer_ok (merge_port s item p) = peer_ok p" "peer_ok (fst (merge_http_port s item p)) = peer_ok p"
    "peer_ok (fst (merge_seen item p)) = peer_ok p" "peer_ok (fst (merge_compliant item p)) = peer_ok p"
    "peer_ok (fst (merge_removed leader item p)) = peer_ok p" for s p
    by (simp_all add: merge_port_def merge_http_port_def merge_seen_def merge_compliant_def merge_removed_def
        Let_def split: option.split)
  show "peer_ok p \<Longrightarrow> ?thesis"
    by (simp add: merge_peer_def Let_def split_beta a b)
qed

lemma fresh_peer_ok: "node \<noteq> [] \<Longrightarrow> length node < EDB_NODE_ID_MAX \<Longrightarrow> peer_ok (fresh_peer node) \<and> p_id (fresh_peer node) = node"
  by (simp add: fresh_peer_def peer_ok_def snprintf_s_id EDB_ADDR_MAX_def)

lemma node_id_ofD: "node_id_of item = Some node \<Longrightarrow> node \<noteq> [] \<and> length node < EDB_NODE_ID_MAX"
  by (auto simp: node_id_of_def split: option.splits if_splits)

lemma update_first_const:
  "first_match P ps = Some m \<Longrightarrow> update_first P (\<lambda>_. m') ps = update_first P (\<lambda>p. if p = m then m' else p) ps"
  by (induction ps) (auto simp: first_match_def)

lemma evolves_merge_node:
  "evolves cl (cl\<lparr>cl_peers := fst (merge_node self leader (cl_peers cl, changed) item)\<rparr>)"
proof (cases "node_id_of item")
  case (Some node)
  note node = node_id_ofD [OF Some]
  let ?P = "\<lambda>p. strcmp (p_id p) node = 0"
  show ?thesis
  proof (cases "first_match ?P (cl_peers cl)")
    case None
    let ?m = "fst (merge_peer self leader item (fresh_peer node))"
    have m: "peer_ok ?m" "p_id ?m = node"
      using fresh_peer_ok [of node] node merge_peer_ok merge_peer_id by auto
    have "evolves cl (cl\<lparr>cl_peers := cl_peers cl @ [?m]\<rparr>)" if "length (cl_peers cl) < MAX_PEERS"
      by (rule evolves_append [OF None that m(2,1)])
    then show ?thesis using Some None by (simp add: merge_node_def split_beta)
  next
    case (Some mine)
    let ?f = "\<lambda>p. if p = mine then fst (merge_peer self leader item mine) else p"
    have "evolves cl (cl\<lparr>cl_peers := update_first ?P ?f (cl_peers cl)\<rparr>)"
      by (rule evolves_update_first) (use merge_peer_id merge_peer_ok in auto)
    then show ?thesis
      using \<open>node_id_of item = Some node\<close> Some
      by (simp add: merge_node_def split_beta update_first_const [OF Some] del: strcmp_eq_0_iff)
  qed
qed (simp add: merge_node_def)

lemma evolves_merge_nodes: "evolves cl (fst (merge_nodes cl doc))"
proof -
  have "evolves cl (cl\<lparr>cl_peers := fst (foldl (merge_node self leader) (cl_peers cl, changed) items)\<rparr>)"
    for self leader items changed
  proof (induction items arbitrary: cl changed)
    case (Cons item items)
    let ?st = "merge_node self leader (cl_peers cl, changed) item"
    let ?cl = "cl\<lparr>cl_peers := fst ?st\<rparr>"
    have "evolves ?cl (?cl\<lparr>cl_peers := fst (foldl (merge_node self leader) (cl_peers ?cl, snd ?st) items)\<rparr>)"
      by (rule Cons.IH)
    then have "evolves ?cl (cl\<lparr>cl_peers := fst (foldl (merge_node self leader) ?st items)\<rparr>)" by simp
    then have "evolves cl (cl\<lparr>cl_peers := fst (foldl (merge_node self leader) ?st items)\<rparr>)"
      by (rule evolves_trans [OF evolves_merge_node])
    then show ?case by simp
  qed simp
  then show ?thesis
    by (simp add: merge_nodes_def split_beta split: option.split cJSON.split)
qed

lemma evolves_merge_ranges: "evolves cl (fst (merge_ranges now cl doc))"
  by (auto simp: evolves_def cluster_inv_def target_ok_def merge_ranges_def adopt_ranges_def Let_def
      split: option.splits cJSON.splits prod.splits if_splits)

lemma evolves_merge_target: "evolves cl (fst (merge_target cl doc))"
  by (auto simp: evolves_def cluster_inv_def target_ok_def merge_target_def adopt_target_def Let_def
      split: option.splits cJSON.splits prod.splits if_splits)

lemma evolves_merge_state [evolve]: "evolves cl (fst (merge_state now cl doc))"
  using evolves_trans [OF evolves_merge_nodes evolves_trans [OF evolves_merge_ranges evolves_merge_target]]
  by (simp add: merge_state_def split_beta)

section \<open>Rebalancing\<close>

lemma length_build_slices [simp]: "length (build_slices ids) = length ids"
  by (simp add: build_slices_def)

lemma evolves_publish [evolve]: "evolves cl (fst (publish_target_locked cl))"
  by (auto simp: evolves_def cluster_inv_def target_ok_def publish_target_locked_def Let_def)

lemma evolves_promote_locked [evolve]: "evolves cl (promote_target_locked now cl)"
  by (auto simp: evolves_def cluster_inv_def target_ok_def promote_target_locked_def)

lemma evolves_clear_target: "evolves cl (cl\<lparr>cl_target_generation := 0, cl_ntarget_ranges := 0\<rparr>)"
  by (auto simp: evolves_def cluster_inv_def target_ok_def)

text \<open>Replacing the live table by one over the online members, with no target pending.\<close>

lemma evolves_reshard:
  assumes "cl_target_generation cl = 0"
  shows "evolves cl (cl\<lparr>cl_ranges := rs, cl_generation := cl_generation cl + 1\<rparr>)"
    "evolves cl (cl\<lparr>cl_ranges := rs, cl_generation := cl_generation cl + 1, cl_gc_after := t\<rparr>)"
  using assms by (auto simp: evolves_def cluster_inv_def target_ok_def)

definition without_target :: "sqlite_env \<Rightarrow> edb_cluster \<Rightarrow> edb_cluster" where
  "without_target e cl = setting_delete e SETTING_LOCK (cl\<lparr>cl_target_generation := 0, cl_ntarget_ranges := 0\<rparr>)"

lemma without_target_spec:
  "evolves cl (without_target e cl)" "cl_target_generation (without_target e cl) = 0"
  using evolves_trans [OF evolves_clear_target same_view_settings(2) [THEN same_view_evolves]]
  by (auto simp: without_target_def setting_delete_def)

lemma evolves_shrink [evolve]: "evolves cl (shrink_live_locked e cl)"
proof -
  let ?c = "without_target e cl"
  have "evolves cl (?c\<lparr>cl_ranges := rs, cl_generation := cl_generation ?c + 1, cl_gc_after := t\<rparr>)" for rs t
    by (rule evolves_trans [OF without_target_spec(1) evolves_reshard(2) [OF without_target_spec(2)]])
  then show ?thesis
    using without_target_spec(1) unfolding shrink_live_locked_def without_target_def [symmetric] Let_def by simp
qed

lemma same_view_node_compliant [simp]: "same_view cl (fst (node_compliant e tgen cl node))"
  by (simp add: node_compliant_def split_beta)

lemma same_view_all_compliant: "same_view cl (fst (all_compliant e tgen cl nodes))"
proof (induction nodes arbitrary: cl)
  case (Cons node nodes)
  have "same_view (fst (node_compliant e tgen cl node)) (fst (all_compliant e tgen (fst (node_compliant e tgen cl node)) nodes))"
    by (rule Cons.IH)
  then show ?case
    using same_view_trans [OF same_view_node_compliant] same_view_node_compliant by (simp add: split_beta)
qed simp

lemma same_view_target_compliant [simp]: "same_view cl (fst (edb_cluster_target_compliant e cl))"
  using same_view_all_compliant by (simp add: edb_cluster_target_compliant_def)

lemmas evolves_target_compliant [evolve] = same_view_target_compliant [THEN same_view_evolves]

lemma evolves_commit [evolve]: "evolves cl (fst (commit_target e cl))"
proof -
  let ?p = "promote_target_locked (now_epoch e) cl"
  let ?d = "fold (\<lambda>p. setting_delete e (done_setting (p_id p))) (cl_peers ?p) ?p"
  have "evolves ?p ?d" by (rule same_view_evolves [OF same_view_fold]) simp
  then have "evolves cl ?d" by (rule evolves_trans [OF evolves_promote_locked])
  then have "evolves cl (setting_delete e SETTING_LOCK ?d)"
    by (rule evolves_trans) (rule same_view_evolves, simp)
  then have "evolves cl (persist_state e (setting_delete e SETTING_LOCK ?d))"
    by (rule evolves_trans) (rule same_view_evolves, simp)
  then show ?thesis by (simp add: commit_target_def Let_def)
qed

lemma evolves_promote [evolve]: "evolves cl (fst (edb_cluster_promote_target e cl))"
  using evolves_target_compliant evolves_trans [OF evolves_target_compliant evolves_commit]
  by (simp add: edb_cluster_promote_target_def split_beta)

lemma evolves_maybe_promote [evolve]: "evolves cl (fst (edb_cluster_maybe_promote e cl))"
  using evolves_target_compliant evolves_trans [OF evolves_target_compliant evolves_promote]
  by (simp add: edb_cluster_maybe_promote_def split_beta Let_def)

lemma same_view_lock [simp]: "same_view cl (fst (edb_cluster_acquire_rebalance_lock e cl))"
  by (auto simp: edb_cluster_acquire_rebalance_lock_def write_lock_def split_beta Let_def same_view_def split: option.split)

lemmas evolves_lock [evolve] = same_view_lock [THEN same_view_evolves]

lemma evolves_mark [evolve]: "evolves cl (edb_cluster_mark_compliant e cl)"
proof -
  let ?f = "\<lambda>t p. if p_compliant_gen p < t then p\<lparr>p_compliant_gen := t\<rparr> else p"
  let ?c = "\<lambda>t. cl\<lparr>cl_peers := update_first (\<lambda>p. strcmp (p_id p) (cl_self_id cl) = 0) (?f t) (cl_peers cl)\<rparr>"
  have c: "evolves cl (?c t)" for t by (rule evolves_update_first) simp_all
  have "evolves cl (setting_set e name json (?c t))" for name json t
    by (rule evolves_trans [OF c same_view_evolves [OF same_view_settings(1)]])
  then show ?thesis by (simp add: edb_cluster_mark_compliant_def Let_def)
qed

lemma evolves_void [evolve]: "evolves cl (fst (edb_cluster_void_target e cl))"
proof -
  let ?c = "cl\<lparr>cl_target_generation := 0, cl_ntarget_ranges := 0\<rparr>"
  let ?d = "?c\<lparr>cl_peers := map (\<lambda>p. p\<lparr>p_compliant_gen := 0\<rparr>) (cl_peers ?c)\<rparr>"
  have "evolves cl ?d" by (rule evolves_trans [OF evolves_clear_target evolves_map]) simp_all
  moreover have "same_view ?d (persist_state e (setting_delete e SETTING_LOCK ?d))"
    by (rule same_view_trans [OF same_view_settings(2) same_view_persist])
  ultimately have "evolves cl (persist_state e (setting_delete e SETTING_LOCK ?d))"
    using evolves_trans same_view_evolves by blast
  then show ?thesis by (simp add: edb_cluster_void_target_def edb_cluster_release_rebalance_lock_def Let_def)
qed

lemma same_view_gc: "same_view cl (fst (gc_keys e unlink_ok keyspaces peers cl keys))"
proof (induction keys arbitrary: cl)
  case (Cons key keys)
  have f: "same_view cl (fst (key_factor e cl keyspaces key))"
    by (simp add: key_factor_def split_beta split: option.split)
  let ?c = "fst (key_factor e cl keyspaces key)"
  have g: "same_view cl (upd_engine en ?c)" for en by (rule same_view_trans [OF f same_view_settings(6)])
  show ?case
    using Cons.IH [of cl] same_view_trans [OF f Cons.IH] same_view_trans [OF g Cons.IH] g
    by (simp add: split_beta Let_def)
qed simp

lemma evolves_gc [evolve]: "evolves cl (fst (edb_cluster_gc_redundant e unlink_ok names cl))"
proof -
  let ?c = "fst (restore_locked e cl)"
  have "same_view cl ?c" by (simp add: restore_locked_def split_beta)
  then have "same_view cl (?c\<lparr>cl_cfg := cfg\<rparr>)" for cfg by (rule same_view_trans) simp
  then have "same_view cl (fst (gc_keys e unlink_ok ks ps (?c\<lparr>cl_cfg := cfg\<rparr>) keys))" for cfg ks ps keys
    using same_view_gc same_view_trans by blast
  then show ?thesis
    using \<open>same_view cl ?c\<close> by (intro same_view_evolves) (simp add: edb_cluster_gc_redundant_def split_beta Let_def)
qed

section \<open>Handlers\<close>

lemma evolves_react [evolve]: "evolves cl (leader_react e cl changed)"
proof -
  let ?a = "if leader_is_self_locked cl then fst (publish_target_locked cl) else cl"
  have a: "evolves cl ?a" by (simp add: evolves_publish)
  have b: "evolves cl (persist_state e ?a)" by (rule evolves_trans [OF a same_view_evolves]) simp
  have c: "evolves cl (fst (edb_cluster_acquire_rebalance_lock e (persist_state e ?a)))"
    by (rule evolves_trans [OF b evolves_lock])
  show ?thesis
    using b c evolves_trans [OF b evolves_maybe_promote] evolves_trans [OF c evolves_maybe_promote]
    by (cases "leader_is_self_locked cl") (simp_all add: leader_react_def Let_def)
qed

lemma evolves_admit [evolve]: "evolves cl (fst (hello_admit cl is_self node joining))"
  using evolves_update_first [of "\<lambda>p. p\<lparr>p_removed := False, p_last_seen := 0\<rparr>"]
  by (simp add: hello_admit_def split: option.split)

lemma evolves_adopt [evolve]:
  assumes "length node < EDB_NODE_ID_MAX"
  shows "evolves cl (hello_adopt now cl is_self node hello)"
proof -
  have d: "p_id (declared_peer now addr hello p) = p_id p" "peer_ok p \<Longrightarrow> peer_ok (declared_peer now addr hello p)" for addr p
    using snprintf_s_length [of EDB_ADDR_MAX addr] by (simp_all add: declared_peer_def peer_ok_def EDB_ADDR_MAX_def)
  have "evolves cl (cl\<lparr>cl_peers := cl_peers cl @ [declared_peer now addr hello (fresh_peer node)]\<rparr>)"
    if "node \<noteq> []" "length (cl_peers cl) < MAX_PEERS"
      "first_match (\<lambda>p. strcmp (p_id p) node = 0) (cl_peers cl) = None" for addr
    by (rule evolves_append [OF that(3,2)]) (use d fresh_peer_ok [OF that(1) assms] in auto)
  moreover have "evolves cl (cl\<lparr>cl_peers := update_first (\<lambda>p. strcmp (p_id p) node = 0) (declared_peer now addr hello) (cl_peers cl)\<rparr>)"
    for addr by (rule evolves_update_first) (use d in auto)
  ultimately show ?thesis by (simp add: hello_adopt_def split: option.split)
qed

lemma evolves_hello [evolve]:
  assumes "length node < EDB_NODE_ID_MAX"
  shows "evolves cl (fst (conn_hello e cl node hello))"
proof -
  have n: "length (hello_node node hello) < EDB_NODE_ID_MAX"
    using assms snprintf_s_length [of EDB_NODE_ID_MAX] by (auto simp: hello_node_def EDB_NODE_ID_MAX_def split: option.split)
  let ?a = "hello_admit cl (hello_is_self cl hello) (hello_node node hello) (cJSON_IsTrue (json_get hello ''join''))"
  have "evolves cl (hello_adopt (now_epoch e) (fst ?a) (hello_is_self cl hello) (hello_node node hello) hello)"
    by (rule evolves_trans [OF evolves_admit evolves_adopt [OF n]])
  then show ?thesis
    using evolves_admit by (cases ?a) (auto simp: conn_hello_def Let_def split: option.split, (metis fst_conv)+)
qed

lemma evolves_online: "evolves cl (cl\<lparr>cl_peers := update_first P (\<lambda>p. p\<lparr>p_online := b\<rparr>) (cl_peers cl)\<rparr>)"
  by (rule evolves_update_first) simp_all

lemma evolves_register [evolve]: "evolves cl (conn_register e cl node)"
  unfolding conn_register_def Let_def
  by (rule evolves_trans [OF evolves_trans [OF same_view_evolves [OF same_view_recompute] evolves_online] evolves_react])

lemma evolves_conn_state [evolve]: "evolves cl (conn_state e cl node doc)"
proof -
  let ?P = "\<lambda>p. strcmp (p_id p) node = 0 \<and> \<not> p_online p"
  have m: "evolves cl (case doc of None \<Rightarrow> cl | Some d \<Rightarrow>
      let c = fst (merge_state (now_epoch e) cl d)
      in if node \<noteq> [] \<and> (\<exists>p \<in> set (cl_peers c). ?P p)
         then c\<lparr>cl_peers := update_first ?P (\<lambda>p. p\<lparr>p_online := True\<rparr>) (cl_peers c)\<rparr> else c)" (is "evolves cl ?c")
    using evolves_merge_state evolves_trans [OF evolves_merge_state evolves_online]
    by (simp add: Let_def split: option.split)
  have r: "evolves cl (recompute_leader ?c)" by (rule evolves_trans [OF m same_view_evolves]) simp
  have "conn_state e cl node doc = recompute_leader ?c \<or> conn_state e cl node doc = leader_react e (recompute_leader ?c) True"
    by (simp add: conn_state_def Let_def split_beta split: option.split)
  then show ?thesis using r evolves_trans [OF r evolves_react] by auto
qed

lemma evolves_closed [evolve]: "evolves cl (conn_closed e cl node)"
proof -
  let ?a = "recompute_leader (cl\<lparr>cl_peers := update_first (\<lambda>p. strcmp (p_id p) node = 0) (\<lambda>p. p\<lparr>p_online := False\<rparr>) (cl_peers cl)\<rparr>)"
  let ?b = "without_target e ?a"
  have a: "evolves cl ?a" by (rule evolves_trans [OF evolves_online same_view_evolves [OF same_view_recompute]])
  have b: "evolves cl ?b" by (rule evolves_trans [OF a without_target_spec(1)])
  have "evolves cl (?b\<lparr>cl_ranges := rs, cl_generation := cl_generation ?b + 1\<rparr>)" for rs
    by (rule evolves_trans [OF b evolves_reshard(1) [OF without_target_spec(2)]])
  then have "evolves cl (persist_state e (if c then ?b\<lparr>cl_ranges := rs, cl_generation := cl_generation ?b + 1\<rparr> else ?b))"
    for rs c using evolves_trans [OF _ same_view_evolves [OF same_view_persist]] b by (cases c) auto
  then show ?thesis
    using a unfolding conn_closed_def Let_def without_target_def by simp
qed

lemma evolves_tick_remove [evolve]: "evolves cl (tick_remove e cl)"
proof -
  let ?f = "\<lambda>p. if peer_expired (cl_self_id cl) (now_epoch e) p then p\<lparr>p_removed := True\<rparr> else p"
  let ?a = "cl\<lparr>cl_peers := map ?f (cl_peers cl)\<rparr>"
  have a: "evolves cl ?a" by (rule evolves_map) simp_all
  have "evolves cl (persist_state e (shrink_live_locked e ?a))"
    by (rule evolves_trans [OF evolves_trans [OF a evolves_shrink] same_view_evolves [OF same_view_persist]])
  with a show ?thesis by (simp add: tick_remove_def Let_def)
qed

lemma evolves_tick_comply [evolve]: "evolves cl (tick_comply e intact cl)"
proof -
  have n: "evolves cl (fst (edb_cluster_needs_sync e intact cl))"
    by (rule same_view_evolves) (simp add: edb_cluster_needs_sync_def split_beta Let_def)
  then show ?thesis
    using evolves_trans [OF n evolves_mark] by (simp add: tick_comply_def Let_def split_beta)
qed

lemma evolves_tick [evolve]: "evolves cl (maintainer_tick e intact unlink_ok names cl)"
proof -
  let ?a = "tick_comply e intact (fst (edb_cluster_maybe_promote e cl))"
  have a: "evolves cl ?a" by (rule evolves_trans [OF evolves_maybe_promote evolves_tick_comply])
  have "evolves cl (if c then fst (edb_cluster_gc_redundant e unlink_ok names ?a) else ?a)" for c
    using a evolves_trans [OF a evolves_gc] by simp
  then show ?thesis
    unfolding maintainer_tick_def Let_def using evolves_trans evolves_tick_remove by blast
qed

lemma evolves_remove [evolve]: "evolves cl (fst (edb_cluster_remove_node e cl node))"
proof -
  let ?a = "cl\<lparr>cl_peers := update_first (\<lambda>p. strcmp (p_id p) node = 0) (\<lambda>p. p\<lparr>p_removed := True\<rparr>) (cl_peers cl)\<rparr>"
  have a: "evolves cl ?a" by (rule evolves_update_first) simp_all
  have "evolves cl (if c then shrink_live_locked e ?a else ?a)" for c
    using a evolves_trans [OF a evolves_shrink] by simp
  then have "evolves cl (persist_state e (if c then shrink_live_locked e ?a else ?a))" for c
    using evolves_trans same_view_evolves [OF same_view_persist] by blast
  then show ?thesis
    unfolding edb_cluster_remove_node_def Let_def by (simp only: fst_conv split: if_split) simp
qed

lemma evolves_join [evolve]: "evolves cl (fst (join_exchange e cl got fs))"
proof (induction e cl got fs rule: join_exchange.induct)
  case (4 e cl got doc fs)
  let ?m = "merge_state (now_epoch e) cl doc"
  let ?r = "leader_react e (recompute_leader (fst ?m)) (snd ?m)"
  have "evolves cl ?r"
    by (rule evolves_trans [OF evolves_trans [OF evolves_merge_state same_view_evolves [OF same_view_recompute]] evolves_react])
  then show ?case using 4 evolves_trans by (simp add: split_beta)
qed (auto split: option.split)

end
