(* ===== verification/Cluster_Props.thy ===== *)
theory Cluster_Props
  imports Cluster_Inv
begin

text \<open>
  The properties of the cluster component: the invariant over all interleavings of handlers, what
  gossip can and cannot change, adoption and persistence of tables, the conditions of promotion
  and garbage collection, and the rebalance lock.
\<close>

section \<open>Steps of a node\<close>

inductive cluster_step :: "edb_cluster \<Rightarrow> edb_cluster \<Rightarrow> bool" where
  hello: "length node < EDB_NODE_ID_MAX \<Longrightarrow> cluster_step cl (fst (conn_hello e cl node h))"
| register: "cluster_step cl (conn_register e cl node)"
| state: "cluster_step cl (conn_state e cl node doc)"
| void: "cluster_step cl (fst (conn_void e cl))"
| closed: "cluster_step cl (conn_closed e cl node)"
| tick: "cluster_step cl (maintainer_tick e intact unlink_ok names cl)"
| remove: "cluster_step cl (fst (edb_cluster_remove_node e cl node))"
| join: "cluster_step cl (fst (join_exchange e cl False frames))"
| publish: "cluster_step cl (fst (edb_cluster_publish_target e cl))"
| check: "cluster_step cl (fst (edb_cluster_target_compliant e cl))"
| commit: "cluster_step cl (fst (commit_target e cl))"
| mark: "cluster_step cl (edb_cluster_mark_compliant e cl)"
| http_port: "cluster_step cl (edb_cluster_set_http_port port cl)"
| auto_compliant: "cluster_step cl (edb_cluster_set_auto_compliant b cl)"

inductive_cases cluster_stepE: "cluster_step cl cl'"

lemma evolves_cluster_publish: "evolves cl (fst (edb_cluster_publish_target e cl))"
  using evolves_publish evolves_trans [OF evolves_publish same_view_evolves [OF same_view_persist]]
  by (simp add: edb_cluster_publish_target_def split_beta Let_def)

lemma evolves_http_port: "evolves cl (edb_cluster_set_http_port port cl)"
proof -
  let ?c = "cl\<lparr>cl_self_http_port := port\<rparr>"
  have "evolves cl ?c" by (rule same_view_evolves) (simp add: same_view_def)
  then have "evolves cl (?c\<lparr>cl_peers := update_first (\<lambda>p. strcmp (p_id p) (cl_self_id cl) = 0)
      (\<lambda>p. p\<lparr>p_http_port := port\<rparr>) (cl_peers ?c)\<rparr>)"
    by (rule evolves_trans) (rule evolves_update_first; simp)
  then show ?thesis by (simp add: edb_cluster_set_http_port_def)
qed

lemma evolves_auto_compliant: "evolves cl (edb_cluster_set_auto_compliant b cl)"
  by (rule same_view_evolves) (simp add: edb_cluster_set_auto_compliant_def same_view_def)

lemma step_evolves: "cluster_step cl cl' \<Longrightarrow> evolves cl cl'"
  by (induction rule: cluster_step.induct)
    (simp_all add: evolve evolves_cluster_publish evolves_http_port evolves_auto_compliant conn_void_def)

lemma steps_evolve: "cluster_step\<^sup>*\<^sup>* cl cl' \<Longrightarrow> evolves cl cl'"
  by (induction rule: rtranclp_induct) (auto intro: evolves_trans step_evolves)

section \<open>What gossip can change\<close>

text \<open>The entry of a peer after a merge, compared with before.\<close>

definition peer_le :: "string \<Rightarrow> bool \<Rightarrow> edb_peer_info \<Rightarrow> edb_peer_info \<Rightarrow> bool" where
  "peer_le self leader p p' \<longleftrightarrow>
     p_id p' = p_id p \<and> p_last_seen p \<le> p_last_seen p' \<and> p_compliant_gen p \<le> p_compliant_gen p' \<and>
     p_online p' = p_online p \<and> (p_removed p \<longrightarrow> \<not> leader \<longrightarrow> p_removed p') \<and>
     (p_id p = self \<longrightarrow> p_addr p' = p_addr p \<and> p_port p' = p_port p \<and> p_http_port p' = p_http_port p)"

lemma peer_le_refl [simp]: "peer_le self leader p p"
  by (simp add: peer_le_def)

lemma peer_le_trans: "peer_le self leader a b \<Longrightarrow> peer_le self leader b c \<Longrightarrow> peer_le self leader a c"
  by (auto simp: peer_le_def)

lemma peer_le_parts:
  "peer_le self leader p (fst (merge_address (strcmp (p_id p) self = 0) item p))"
  "peer_le self leader p (merge_port (strcmp (p_id p) self = 0) item p)"
  "peer_le self leader p (fst (merge_http_port (strcmp (p_id p) self = 0) item p))"
  "peer_le self leader p (fst (merge_seen item p))" "peer_le self leader p (fst (merge_compliant item p))"
  "peer_le self leader p (fst (merge_removed leader item p))"
  by (simp_all add: peer_le_def merge_address_def merge_port_def merge_http_port_def merge_seen_def
      merge_compliant_def merge_removed_def Let_def split: option.split)

lemma peer_le_merge: "peer_le self leader p (fst (merge_peer self leader item p))"
proof -
  define a where "a = fst (merge_address (strcmp (p_id p) self = 0) item p)"
  define b where "b = merge_port (strcmp (p_id a) self = 0) item a"
  define c where "c = fst (merge_http_port (strcmp (p_id b) self = 0) item b)"
  define d where "d = fst (merge_compliant item (fst (merge_seen item c)))"
  have "p_id a = p_id p" "p_id b = p_id p" by (simp_all add: a_def b_def)
  then have "fst (merge_peer self leader item p) = fst (merge_removed leader item d)"
    by (simp add: merge_peer_def Let_def split_beta a_def b_def c_def d_def)
  moreover have "peer_le self leader p b"
    unfolding b_def a_def by (rule peer_le_trans [OF peer_le_parts(1) peer_le_parts(2)])
  then have "peer_le self leader p d"
    unfolding d_def c_def
    by (rule peer_le_trans [OF peer_le_trans [OF _ peer_le_parts(3)] peer_le_trans [OF peer_le_parts(4) peer_le_parts(5)]])
  ultimately show ?thesis using peer_le_trans peer_le_parts(6) by metis
qed

definition table_le :: "string \<Rightarrow> bool \<Rightarrow> edb_peer_info list \<Rightarrow> edb_peer_info list \<Rightarrow> bool" where
  "table_le self leader ps ps' \<longleftrightarrow> (\<forall>p \<in> set ps. \<exists>p' \<in> set ps'. peer_le self leader p p')"

lemma table_le_trans: "table_le self leader a b \<Longrightarrow> table_le self leader b c \<Longrightarrow> table_le self leader a c"
  unfolding table_le_def by (meson peer_le_trans)

lemma table_le_sub: "set ps \<subseteq> set ps' \<Longrightarrow> table_le self leader ps ps'"
  unfolding table_le_def by (meson peer_le_refl subsetD)

lemma update_first_keeps:
  "p \<in> set ps \<Longrightarrow> p \<in> set (update_first P f ps) \<or> P p \<and> f p \<in> set (update_first P f ps)"
  by (induction ps) auto

lemma first_match_SomeD: "first_match P ps = Some m \<Longrightarrow> m \<in> set ps \<and> P m"
  by (auto simp: first_match_def find_Some_iff)

lemma table_le_node: "table_le self leader ps (fst (merge_node self leader (ps, changed) item))"
proof (cases "node_id_of item")
  case (Some node)
  let ?P = "\<lambda>p. strcmp (p_id p) node = 0"
  show ?thesis
  proof (cases "first_match ?P ps")
    case None
    with Some show ?thesis by (intro table_le_sub) (auto simp: merge_node_def split_beta)
  next
    case (Some mine)
    let ?f = "\<lambda>p. if p = mine then fst (merge_peer self leader item mine) else p"
    have eq: "fst (merge_node self leader (ps, changed) item) = update_first ?P ?f ps"
      using \<open>node_id_of item = Some node\<close> Some
      by (simp add: merge_node_def split_beta update_first_const [OF Some] del: strcmp_eq_0_iff)
    have le: "peer_le self leader p (?f p)" for p using peer_le_merge by simp
    show ?thesis unfolding eq table_le_def
    proof
      fix p assume "p \<in> set ps"
      then have "p \<in> set (update_first ?P ?f ps) \<or> ?f p \<in> set (update_first ?P ?f ps)"
        using update_first_keeps by fast
      then show "\<exists>p' \<in> set (update_first ?P ?f ps). peer_le self leader p p'"
        using le [of p] peer_le_refl by blast
    qed
  qed
qed (simp add: merge_node_def table_le_sub)

lemma table_le_fold: "table_le self leader (fst st) (fst (foldl (merge_node self leader) st items))"
proof (induction items arbitrary: st)
  case (Cons item items)
  have "table_le self leader (fst st) (fst (merge_node self leader st item))"
    using table_le_node [of self leader "fst st" "snd st" item] by simp
  from table_le_trans [OF this Cons.IH] show ?case by simp
qed (simp add: table_le_sub)

lemma merge_rest_peers [simp]:
  "cl_peers (fst (merge_ranges now cl doc)) = cl_peers cl" "cl_peers (fst (merge_target cl doc)) = cl_peers cl"
  by (simp_all add: merge_ranges_def merge_target_def adopt_ranges_def adopt_target_def Let_def split_beta
      split: option.split cJSON.split)

lemma merge_state_peers: "cl_peers (fst (merge_state now cl doc)) = cl_peers (fst (merge_nodes cl doc))"
  by (simp add: merge_state_def split_beta)

lemma table_le_merge: "table_le (cl_self_id cl) (from_leader cl doc) (cl_peers cl) (cl_peers (fst (merge_state now cl doc)))"
  unfolding merge_state_peers
  using table_le_fold [of "cl_self_id cl" "from_leader cl doc" "(cl_peers cl, False)"]
  by (simp add: merge_nodes_def split_beta table_le_sub split: option.split cJSON.split)

section \<open>Reading back a state document\<close>

lemma json_get_state [simp]:
  "json_get (Some (state_to_json cl)) ''nodes'' = Some (JArray (map node_to_json (cl_peers cl)))"
  "json_get (Some (state_to_json cl)) ''ranges'' = Some (table_to_json (cl_generation cl) (cl_ranges cl))"
  "json_get (Some (state_to_json cl)) ''sender'' = Some (JString (cl_self_id cl))"
  "json_get (Some (state_to_json cl)) ''target'' =
     (if 0 < cl_target_generation cl then Some (table_to_json (cl_target_generation cl) (target_table cl)) else None)"
  by (simp_all add: state_to_json_def)

lemma json_get_table [simp]:
  "json_get (Some (table_to_json gen rs)) ''generation'' = Some (json_int gen)"
  "json_get (Some (table_to_json gen rs)) ''assignments'' = Some (JArray (map range_to_json rs))"
  by (simp_all add: table_to_json_def)

definition range_ok :: "edb_range_info \<Rightarrow> bool" where
  "range_ok r \<longleftrightarrow> length (rg_node_id r) \<le> 63 \<and> length (rg_start r) \<le> 32 \<and> length (rg_end r) \<le> 32"

lemma range_roundtrip [simp]: "range_ok r \<Longrightarrow> range_of_json (range_to_json r) = Some r"
  by (simp add: range_of_json_def range_to_json_def range_ok_def)

lemma ranges_roundtrip:
  "(\<forall>r \<in> set rs. range_ok r) \<Longrightarrow> List.map_filter range_of_json (map range_to_json rs) = rs"
  by (induction rs) (simp_all add: List.map_filter_simps)

lemma merge_ranges_adopts:
  assumes "cl_generation cl < cl_generation s" "\<forall>r \<in> set (cl_ranges s). range_ok r"
  shows "cl_ranges (fst (merge_ranges now cl (state_to_json s))) = cl_ranges s"
    "cl_generation (fst (merge_ranges now cl (state_to_json s))) = cl_generation s"
    "cl_target_generation (fst (merge_ranges now cl (state_to_json s))) =
      (if cl_target_generation cl \<le> cl_generation s \<and> 0 < cl_target_generation cl then 0 else cl_target_generation cl)"
    "cl_target_ranges (fst (merge_ranges now cl (state_to_json s))) = cl_target_ranges cl"
  using assms by (simp_all add: merge_ranges_def adopt_ranges_def ranges_roundtrip)

lemma merge_target_adopts:
  assumes "cl_target_generation cl < cl_target_generation s" "cl_generation cl < cl_target_generation s"
    and "0 < cl_target_generation s" "target_table s \<noteq> []" "\<forall>r \<in> set (target_table s). range_ok r"
  shows "target_table (fst (merge_target cl (state_to_json s))) = target_table s"
    "cl_target_generation (fst (merge_target cl (state_to_json s))) = cl_target_generation s"
proof -
  have new: "fst (merge_target cl (state_to_json s)) =
      cl\<lparr>cl_target_ranges := target_table s @ drop (length (target_table s)) (cl_target_ranges cl),
         cl_ntarget_ranges := length (target_table s), cl_target_generation := cl_target_generation s\<rparr>"
    using assms by (simp add: merge_target_def adopt_target_def ranges_roundtrip Let_def)
  show "target_table (fst (merge_target cl (state_to_json s))) = target_table s"
    unfolding new by (simp add: target_table_def [of "cl_ntarget_ranges_update x y" for x y]
        target_table_def [of "cl_target_generation_update x y" for x y])
  show "cl_target_generation (fst (merge_target cl (state_to_json s))) = cl_target_generation s"
    unfolding new by simp
qed

lemma merge_target_ranges [simp]:
  "cl_ranges (fst (merge_target cl doc)) = cl_ranges cl" "cl_generation (fst (merge_target cl doc)) = cl_generation cl"
  by (simp_all add: merge_target_def adopt_target_def Let_def split: option.split cJSON.split)

lemma merge_nodes_rest [simp]:
  "cl_ranges (fst (merge_nodes cl doc)) = cl_ranges cl" "cl_generation (fst (merge_nodes cl doc)) = cl_generation cl"
  "cl_target_generation (fst (merge_nodes cl doc)) = cl_target_generation cl"
  "cl_target_ranges (fst (merge_nodes cl doc)) = cl_target_ranges cl"
  "cl_ntarget_ranges (fst (merge_nodes cl doc)) = cl_ntarget_ranges cl"
  by (simp_all add: merge_nodes_def split_beta split: option.split cJSON.split)

end
