(* ===== verification/Cluster_Persist.thy ===== *)
theory Cluster_Persist
  imports Cluster_Props
begin

text \<open>
  The cluster state survives a restart: what \<open>persist_state\<close> writes to the settings, at whatever
  time, \<open>restore_state\<close> of a new process reads back.
\<close>

section \<open>Settings read later\<close>

text \<open>The environment of a later call: the same JSON functions, and the clock has not gone back.\<close>

definition later :: "sqlite_env \<Rightarrow> sqlite_env \<Rightarrow> bool" where
  "later e e' \<longleftrightarrow> env_ok e' \<and> cJSON_ParseWithLength e' = cJSON_ParseWithLength e \<and>
     cJSON_PrintUnformatted e' = cJSON_PrintUnformatted e \<and> now_epoch e \<le> now_epoch e'"

lemma cfg_ok_later: "cfg_ok e cfg \<Longrightarrow> later e e' \<Longrightarrow> cfg_ok e' cfg"
  by (auto simp: cfg_ok_def later_def json_faithful_def)

lemma store_later:
  assumes "cfg_ok e cfg" "internal_cluster_setting ks d" "json_plain j" "later e e'"
  shows "cfg_doc e' ks (fst (store e cfg ks d j)) = (cfg_doc e' ks cfg)(d \<mapsto> j)"
proof -
  obtain json where j: "json \<noteq> []" "cJSON_ParseWithLength e' json = Some j"
    and s: "store e cfg ks d j = (cfg\<lparr>cfg_engine := fst (edb_put e (cfg_engine cfg) EDB_SYSTEM_DB ks d json (- 1))\<rparr>,
      snd (edb_put e (cfg_engine cfg) EDB_SYSTEM_DB ks d json (- 1)))"
    using put_direct [OF assms(1) disjI2 [OF assms(2)] assms(3)] assms(4) by (auto simp: later_def)
  show ?thesis
    using s engine_put [OF cfg_okD(1,2) [OF assms(1)], of EDB_SYSTEM_DB ks d json "- 1"]
      get_put_rows [OF cfg_okD(4) [OF assms(1)]] j by (simp add: cfg_doc_def fun_eq_iff)
qed

lemma get_delete_later:
  "now_epoch e \<le> now_epoch e' \<Longrightarrow> get_rows e' (delete_rows e d rows) d' = (if d' = d then None else get_rows e' rows d')"
proof -
  assume "now_epoch e \<le> now_epoch e'"
  moreover have "find_row d' (delete_rows e d rows) = map_option (\<lambda>r. if r_id r = d
      then r\<lparr>r_ttl := Some (now_epoch e - 5), r_timestamp := Some (now_epoch e)\<rparr> else r) (find_row d' rows)"
    unfolding delete_rows_def by (rule find_row_map) simp
  ultimately show ?thesis
    by (auto simp: get_rows_def row_live_def dest: find_row_id split: option.splits)
qed

lemma remove_later:
  assumes "cfg_ok e cfg" "internal_cluster_setting ks d" "later e e'"
  shows "cfg_doc e' ks (fst (remove_record e cfg ks d)) = (cfg_doc e' ks cfg)(d := None)"
proof -
  have "remove_record e cfg ks d = (cfg\<lparr>cfg_engine := fst (edb_delete e (cfg_engine cfg) EDB_SYSTEM_DB ks d)\<rparr>,
      snd (edb_delete e (cfg_engine cfg) EDB_SYSTEM_DB ks d))"
    using assms(2) by (cases "cfg_replicate cfg") (auto simp: remove_record_def split_beta)
  then show ?thesis
    using engine_delete [OF cfg_okD(1,2) [OF assms(1)], of EDB_SYSTEM_DB ks d] assms(3)
    by (simp add: cfg_doc_def fun_eq_iff get_delete_later later_def)
qed

text \<open>The settings of a node as documents, and the names of its own settings.\<close>

definition sett :: "sqlite_env \<Rightarrow> edb_cluster \<Rightarrow> string \<Rightarrow> cJSON option" where
  "sett e cl = cfg_doc e CFG_KEYSPACE_SETTINGS (cl_cfg cl)"

lemma setting_names [simp]:
  "internal_cluster_setting CFG_KEYSPACE_SETTINGS SETTING_MEMBERS"
  "internal_cluster_setting CFG_KEYSPACE_SETTINGS SETTING_RANGES"
  "internal_cluster_setting CFG_KEYSPACE_SETTINGS SETTING_TARGET"
  "internal_cluster_setting CFG_KEYSPACE_SETTINGS SETTING_LOCK"
  "CHR 0x00 \<notin> set SETTING_MEMBERS" "CHR 0x00 \<notin> set SETTING_RANGES" "CHR 0x00 \<notin> set SETTING_TARGET"
  "CHR 0x00 \<notin> set SETTING_LOCK"
  "SETTING_MEMBERS \<noteq> []" "SETTING_RANGES \<noteq> []" "SETTING_TARGET \<noteq> []" "SETTING_LOCK \<noteq> []"
  "SETTING_MEMBERS \<noteq> SETTING_RANGES" "SETTING_MEMBERS \<noteq> SETTING_TARGET" "SETTING_RANGES \<noteq> SETTING_TARGET"
  "SETTING_RANGES \<noteq> SETTING_MEMBERS" "SETTING_TARGET \<noteq> SETTING_MEMBERS" "SETTING_TARGET \<noteq> SETTING_RANGES"
  by (simp_all add: internal_cluster_setting_def starts_with_def SETTING_MEMBERS_def SETTING_RANGES_def
      SETTING_TARGET_def SETTING_LOCK_def)

lemma setting_set_spec:
  assumes "cfg_ok e (cl_cfg cl)" "internal_cluster_setting CFG_KEYSPACE_SETTINGS name" "name \<noteq> []" "CHR 0x00 \<notin> set name"
    and "cJSON_ParseWithLength e json = Some v" "json_plain v" "later e e'"
  shows "cfg_ok e (cl_cfg (setting_set e name json cl))"
    "sett e' (setting_set e name json cl) = (sett e' cl)(name \<mapsto> setting_record name v)"
proof -
  obtain s where "cJSON_PrintUnformatted e v = Some s" using json_faithfulD [OF cfg_okD(3) [OF assms(1)] assms(6)] .
  then have r: "edb_setting_set e (cl_cfg cl) name json = store e (cl_cfg cl) CFG_KEYSPACE_SETTINGS name (setting_record name v)"
    using assms(3,5) by (simp add: edb_setting_set_def)
  have plain: "json_plain (setting_record name v)" using assms(4,6) by simp
  show "cfg_ok e (cl_cfg (setting_set e name json cl))"
    "sett e' (setting_set e name json cl) = (sett e' cl)(name \<mapsto> setting_record name v)"
    using store_spec(2) [OF assms(1) disjI2 [OF assms(2)] plain] store_later [OF assms(1,2) plain assms(7)]
    by (simp_all add: setting_set_def sett_def r)
qed

lemma setting_set_doc_spec:
  assumes "cfg_ok e (cl_cfg cl)" "internal_cluster_setting CFG_KEYSPACE_SETTINGS name" "name \<noteq> []" "CHR 0x00 \<notin> set name"
    and "json_plain v" "later e e'"
  shows "cfg_ok e (cl_cfg (setting_set_doc e name v cl))"
    "sett e' (setting_set_doc e name v cl) = (sett e' cl)(name \<mapsto> setting_record name v)"
proof -
  obtain s where "cJSON_PrintUnformatted e v = Some s" "cJSON_ParseWithLength e s = Some v"
    using json_faithfulD [OF cfg_okD(3) [OF assms(1)] assms(5)] .
  then show "cfg_ok e (cl_cfg (setting_set_doc e name v cl))"
    "sett e' (setting_set_doc e name v cl) = (sett e' cl)(name \<mapsto> setting_record name v)"
    using setting_set_spec [OF assms(1-4) _ assms(5,6)] by (simp_all add: setting_set_doc_def)
qed

lemma setting_delete_spec:
  assumes "cfg_ok e (cl_cfg cl)" "internal_cluster_setting CFG_KEYSPACE_SETTINGS name" "later e e'"
  shows "cfg_ok e (cl_cfg (setting_delete e name cl))" "sett e' (setting_delete e name cl) = (sett e' cl)(name := None)"
  using remove_spec(2) [OF assms(1) disjI2 [OF assms(2)]] remove_later [OF assms]
  by (simp_all add: setting_delete_def edb_setting_delete_def sett_def)

lemma setting_doc_spec:
  assumes "cfg_ok e (cl_cfg cl)"
  shows "cfg_ok e (cl_cfg (fst (setting_doc e name cl)))" "sett e (fst (setting_doc e name cl)) = sett e cl"
    "fst (setting_doc e name cl) = cl\<lparr>cl_cfg := cl_cfg (fst (setting_doc e name cl))\<rparr>"
    "sett e cl name = Some (setting_record name v) \<Longrightarrow> json_plain v \<Longrightarrow> snd (setting_doc e name cl) = Some v"
    "sett e cl name = None \<Longrightarrow> snd (setting_doc e name cl) = None"
proof -
  note f = fetch_spec(1,2) [OF assms, of CFG_KEYSPACE_SETTINGS name] fetch_spec(3) [OF assms]
  have d: "cl_cfg (fst (setting_doc e name cl)) = fst (fetch e (cl_cfg cl) CFG_KEYSPACE_SETTINGS name)"
    by (simp add: setting_doc_def edb_setting_get_def split_beta)
  show "cfg_ok e (cl_cfg (fst (setting_doc e name cl)))" "sett e (fst (setting_doc e name cl)) = sett e cl"
    unfolding sett_def d by (rule f(2), rule f(3))
  show "fst (setting_doc e name cl) = cl\<lparr>cl_cfg := cl_cfg (fst (setting_doc e name cl))\<rparr>"
    by (simp add: setting_doc_def split_beta)
  show "sett e cl name = None \<Longrightarrow> snd (setting_doc e name cl) = None"
    using f(1) by (simp add: setting_doc_def edb_setting_get_def split_beta sett_def)
  assume "sett e cl name = Some (setting_record name v)" "json_plain v"
  moreover obtain s where "cJSON_PrintUnformatted e v = Some s" "cJSON_ParseWithLength e s = Some v"
    using json_faithfulD [OF cfg_okD(3) [OF assms] \<open>json_plain v\<close>] .
  ultimately show "snd (setting_doc e name cl) = Some v"
    using f(1) by (simp add: setting_doc_def edb_setting_get_def split_beta sett_def setting_record_def)
qed

section \<open>What is persisted\<close>

definition generation_doc :: "int \<Rightarrow> cJSON" where
  "generation_doc gen = JObject [(''generation'', json_int gen)]"

lemma state_plain_parts:
  assumes "json_plain (state_to_json cl)"
  shows "json_plain (generation_doc (cl_generation cl))"
    "0 < cl_target_generation cl \<Longrightarrow> json_plain (table_to_json (cl_target_generation cl) (target_table cl))"
  using assms by (auto simp: state_to_json_def generation_doc_def table_to_json_def)

lemma same_view_tables:
  assumes "same_view cl cl'"
  shows "cl_generation cl' = cl_generation cl" "cl_target_generation cl' = cl_target_generation cl"
    "target_table cl' = target_table cl"
  using assms by (simp_all add: same_view_def target_table_def)

lemma persist_settings:
  assumes "cfg_ok e (cl_cfg cl)" "later e e'" "json_plain (state_to_json cl)"
    and "cJSON_ParseWithLength e (generation_text (cl_generation cl)) = Some (generation_doc (cl_generation cl))"
  shows "sett e' (persist_state e cl) SETTING_MEMBERS = Some (setting_record SETTING_MEMBERS (state_to_json cl))"
    "sett e' (persist_state e cl) SETTING_RANGES = Some (setting_record SETTING_RANGES (generation_doc (cl_generation cl)))"
    "sett e' (persist_state e cl) SETTING_TARGET = (if 0 < cl_target_generation cl
       then Some (setting_record SETTING_TARGET (table_to_json (cl_target_generation cl) (target_table cl))) else None)"
    "cfg_ok e (cl_cfg (persist_state e cl))"
proof -
  let ?a = "setting_set_doc e SETTING_MEMBERS (state_to_json cl) cl"
  let ?b = "setting_set e SETTING_RANGES (generation_text (cl_generation cl)) ?a"
  have va: "same_view cl ?a" by simp
  have vb: "same_view cl ?b" by (rule same_view_trans [OF va]) simp
  note plain = state_plain_parts [OF assms(3)]
  have a: "cfg_ok e (cl_cfg ?a)" "sett e' ?a = (sett e' cl)(SETTING_MEMBERS \<mapsto> setting_record SETTING_MEMBERS (state_to_json cl))"
    using setting_set_doc_spec [OF assms(1) _ _ _ assms(3,2)] by simp_all
  have b: "cfg_ok e (cl_cfg ?b)" "sett e' ?b = (sett e' ?a)(SETTING_RANGES \<mapsto> setting_record SETTING_RANGES (generation_doc (cl_generation cl)))"
    using setting_set_spec [OF a(1) _ _ _ assms(4) plain(1) assms(2)] by simp_all
  have p: "persist_state e cl = (if 0 < cl_target_generation cl
      then setting_set_doc e SETTING_TARGET (table_to_json (cl_target_generation cl) (target_table cl)) ?b
      else setting_delete e SETTING_TARGET ?b)"
    unfolding persist_state_def Let_def
    by (simp only: same_view_tables [OF va] same_view_tables [OF vb])
  have t: "0 < cl_target_generation cl \<Longrightarrow> sett e' (persist_state e cl) = (sett e' ?b)(SETTING_TARGET \<mapsto>
      setting_record SETTING_TARGET (table_to_json (cl_target_generation cl) (target_table cl))) \<and>
      cfg_ok e (cl_cfg (persist_state e cl))"
    using setting_set_doc_spec [OF b(1) _ _ _ plain(2) assms(2), of SETTING_TARGET] by (simp add: p)
  have n: "\<not> 0 < cl_target_generation cl \<Longrightarrow> sett e' (persist_state e cl) = (sett e' ?b)(SETTING_TARGET := None) \<and>
      cfg_ok e (cl_cfg (persist_state e cl))"
    using setting_delete_spec [OF b(1) _ assms(2), of SETTING_TARGET] by (simp add: p)
  show "sett e' (persist_state e cl) SETTING_MEMBERS = Some (setting_record SETTING_MEMBERS (state_to_json cl))"
    "sett e' (persist_state e cl) SETTING_RANGES = Some (setting_record SETTING_RANGES (generation_doc (cl_generation cl)))"
    "sett e' (persist_state e cl) SETTING_TARGET = (if 0 < cl_target_generation cl
       then Some (setting_record SETTING_TARGET (table_to_json (cl_target_generation cl) (target_table cl))) else None)"
    "cfg_ok e (cl_cfg (persist_state e cl))"
    using t n a b by (cases "0 < cl_target_generation cl"; simp)+
qed

section \<open>What is restored\<close>

text \<open>
  A peer as it is restored: offline, and without address when it is the node itself, which takes
  its address from its own configuration.
\<close>

definition restored_peer :: "string \<Rightarrow> edb_peer_info \<Rightarrow> edb_peer_info" where
  "restored_peer self p =
     (if p_id p = self then p\<lparr>p_addr := [], p_port := 0, p_http_port := 0, p_online := False\<rparr>
      else p\<lparr>p_online := False\<rparr>)"

text \<open>The entries a document represents completely.\<close>

definition peer_storable :: "edb_peer_info \<Rightarrow> bool" where
  "peer_storable p \<longleftrightarrow> peer_ok p \<and> 0 < p_port p \<and> p_port p < 65536 \<and>
     0 \<le> p_http_port p \<and> p_http_port p < 65536 \<and> 0 \<le> p_last_seen p \<and> 0 \<le> p_compliant_gen p"

lemma port_of_int: "port_of (Some (json_int i)) = (if 0 < i \<and> i < 65536 then Some i else None)"
  by (auto simp: port_of_def json_int_def valueint_def)

lemma port_of_None [simp]: "port_of None = None"
  by (simp add: port_of_def)

lemma json_get_node [simp]:
  "json_get (Some (node_to_json p)) ''id'' = Some (JString (p_id p))"
  "json_get (Some (node_to_json p)) ''addr'' = Some (JString (p_addr p))"
  "json_get (Some (node_to_json p)) ''port'' = Some (json_int (p_port p))"
  "json_get (Some (node_to_json p)) ''http_port'' = (if 0 < p_http_port p then Some (json_int (p_http_port p)) else None)"
  "json_get (Some (node_to_json p)) ''last_seen'' = Some (json_int (p_last_seen p))"
  "json_get (Some (node_to_json p)) ''removed'' = (if p_removed p then Some (JBool True) else None)"
  "json_get (Some (node_to_json p)) ''compliant'' =
     (if 0 < p_compliant_gen p then Some (json_int (p_compliant_gen p)) else None)"
  by (simp_all add: node_to_json_def)

lemma merge_fresh:
  assumes "peer_storable p"
  shows "fst (merge_peer self leader (node_to_json p) (fresh_peer (p_id p))) = restored_peer self p"
proof -
  have p: "length (p_id p) < EDB_NODE_ID_MAX" "length (p_addr p) < EDB_ADDR_MAX" "0 < p_port p" "p_port p < 65536"
    "0 \<le> p_http_port p" "p_http_port p < 65536" "0 \<le> p_last_seen p" "0 \<le> p_compliant_gen p"
    using assms by (auto simp: peer_storable_def peer_ok_def)
  define f where "f = fresh_peer (p_id p)"
  have f: "p_id f = p_id p" "p_addr f = []" "p_port f = 0" "p_http_port f = 0" "p_last_seen f = 0"
    "\<not> p_online f" "\<not> p_removed f" "p_compliant_gen f = 0"
    using p(1) by (simp_all add: f_def fresh_peer_def snprintf_s_id)
  have addr: "fst (merge_address s (node_to_json p) q) = (if s then q else q\<lparr>p_addr := p_addr p\<rparr>)" for s q
    using p(2) by (cases q) (auto simp: merge_address_def snprintf_s_id)
  have port: "merge_port s (node_to_json p) q = (if s then q else q\<lparr>p_port := p_port p\<rparr>)" for s q
    using p(3,4) by (cases q) (auto simp: merge_port_def port_of_int)
  have http: "fst (merge_http_port s (node_to_json p) q) = (if s then q else q\<lparr>p_http_port := p_http_port p\<rparr>)"
    if "p_http_port q = 0" for s q
    using p(5,6) that by (cases q) (auto simp: merge_http_port_def port_of_int)
  have seen: "fst (merge_seen (node_to_json p) q) = q\<lparr>p_last_seen := p_last_seen p\<rparr>" if "p_last_seen q = 0" for q
    using p(7) that by (cases q) (auto simp: merge_seen_def num_or_0_def Let_def)
  have comp: "fst (merge_compliant (node_to_json p) q) = q\<lparr>p_compliant_gen := p_compliant_gen p\<rparr>" if "p_compliant_gen q = 0" for q
    using p(8) that by (cases q) (auto simp: merge_compliant_def num_or_0_def Let_def)
  have rem: "fst (merge_removed leader (node_to_json p) q) = q\<lparr>p_removed := p_removed p\<rparr>" if "\<not> p_removed q" for q
    using that by (cases q) (auto simp: merge_removed_def Let_def)
  show ?thesis
    unfolding f_def [symmetric] merge_peer_def Let_def
    by (simp add: split_beta addr port http seen comp rem f restored_peer_def)
qed

lemma restore_nodes:
  assumes "distinct (map p_id (ps @ qs))" "length (ps @ qs) \<le> MAX_PEERS" "\<forall>q \<in> set qs. peer_storable q"
  shows "fst (foldl (merge_node self leader) (ps, changed) (map node_to_json qs)) = ps @ map (restored_peer self) qs"
  using assms
proof (induction qs arbitrary: ps changed)
  case (Cons q qs)
  have q: "peer_storable q" using Cons.prems(3) by simp
  then have node: "node_id_of (node_to_json q) = Some (p_id q)"
    by (simp add: node_id_of_def peer_storable_def peer_ok_def not_le)
  have none: "first_match (\<lambda>p. strcmp (p_id p) (p_id q) = 0) ps = None"
    using Cons.prems(1) by (simp only: first_match_None_id) auto
  have room: "\<not> MAX_PEERS \<le> length ps" using Cons.prems(2) by simp
  have step: "merge_node self leader (ps, changed) (node_to_json q) = (ps @ [restored_peer self q], True)"
    using none room by (simp add: merge_node_def node split_beta merge_fresh [OF q] del: strcmp_eq_0_iff)
  have "p_id (restored_peer self q) = p_id q" by (simp add: restored_peer_def)
  then have "fst (foldl (merge_node self leader) (ps @ [restored_peer self q], True) (map node_to_json qs)) =
      (ps @ [restored_peer self q]) @ map (restored_peer self) qs"
    using Cons.prems by (intro Cons.IH) auto
  then show ?case by (simp add: step)
qed simp

lemma restore_merge:
  fixes now :: int
  assumes "cl_peers cl0 = []" "cl_generation cl0 = 0" "cl_target_generation cl0 = 0" "cl_leader cl0 = []"
    and "cluster_inv cl" "0 < cl_generation cl" "length (cl_peers cl) \<le> MAX_PEERS" "\<forall>p \<in> set (cl_peers cl). peer_storable p"
    and "\<forall>r \<in> set (cl_ranges cl). range_ok r" "\<forall>r \<in> set (target_table cl). range_ok r"
    and "0 < cl_target_generation cl \<longrightarrow> target_table cl \<noteq> []"
  defines "r \<equiv> fst (merge_state now cl0 (state_to_json cl))"
  shows "cl_peers r = map (restored_peer (cl_self_id cl0)) (cl_peers cl)" "cl_ranges r = cl_ranges cl"
    "cl_generation r = cl_generation cl" "cl_target_generation r = max 0 (cl_target_generation cl)"
    "0 < cl_target_generation cl \<longrightarrow> target_table r = target_table cl" "cl_leader r = []" "cl_cfg r = cl_cfg cl0"
    "cl_self_id r = cl_self_id cl0"
proof -
  let ?doc = "state_to_json cl"
  define a where "a = fst (merge_nodes cl0 ?doc)"
  define b where "b = fst (merge_ranges now a ?doc)"
  have r: "r = fst (merge_target b ?doc)" by (simp add: r_def merge_state_def split_beta a_def b_def)
  have dist: "distinct (map p_id (cl_peers cl))" using assms(5) by (simp add: cluster_inv_def peers_ok_def)
  have nodes: "cl_peers a = map (restored_peer (cl_self_id cl0)) (cl_peers cl)"
    using restore_nodes [of "[]" "cl_peers cl" "cl_self_id cl0" "from_leader cl0 ?doc" False] dist assms(1,7,8)
    by (simp add: a_def merge_nodes_def split_beta)
  have a: "cl_generation a = 0" "cl_target_generation a = 0" using assms(2,3) by (simp_all add: a_def)
  have ea: "cl_leader a = []" "cl_cfg a = cl_cfg cl0" "cl_self_id a = cl_self_id cl0"
    using assms(4) by (simp_all add: a_def merge_nodes_def split_beta)
  have eb: "cl_leader b = []" "cl_cfg b = cl_cfg cl0" "cl_self_id b = cl_self_id cl0" "cl_peers b = cl_peers a"
    using ea by (simp_all add: b_def) (simp_all add: merge_ranges_def adopt_ranges_def)
  note rg = merge_ranges_adopts [of a cl now, folded b_def, OF _ assms(9)]
  have gen: "cl_generation a < cl_generation cl" using assms(6) a(1) by simp
  have tgt: "cl_target_generation cl = 0 \<or> cl_generation cl < cl_target_generation cl"
    using assms(5) by (simp add: cluster_inv_def target_ok_def)
  have b: "cl_ranges b = cl_ranges cl" "cl_generation b = cl_generation cl" "cl_target_generation b = 0"
    using rg gen a(2) by simp_all
  show "cl_peers r = map (restored_peer (cl_self_id cl0)) (cl_peers cl)" "cl_ranges r = cl_ranges cl"
    "cl_generation r = cl_generation cl" using nodes b eb by (simp_all add: r)
  show "cl_target_generation r = max 0 (cl_target_generation cl)"
    "0 < cl_target_generation cl \<longrightarrow> target_table r = target_table cl"
    using merge_target_adopts [of b cl] tgt b assms(6,10,11)
    by (auto simp: r) (simp_all add: merge_target_def b)
  show "cl_leader r = []" "cl_cfg r = cl_cfg cl0" "cl_self_id r = cl_self_id cl0"
    using eb by (simp_all add: r merge_target_def adopt_target_def Let_def)
qed

section \<open>Properties\<close>

lemma merge_no_table:
  assumes "cl_leader cl = []"
  shows "fst (merge_state now cl (table_to_json gen rs)) = cl"
proof -
  have g: "json_get (Some (table_to_json gen rs)) ''nodes'' = None" "json_get (Some (table_to_json gen rs)) ''ranges'' = None"
    "json_get (Some (table_to_json gen rs)) ''target'' = None" "json_get (Some (table_to_json gen rs)) ''sender'' = None"
    by (simp_all add: table_to_json_def)
  show ?thesis
    by (simp add: merge_state_def merge_nodes_def merge_ranges_def merge_target_def from_leader_def g)
qed

text \<open>
  C23. The cluster view survives a restart: a new process that restores what \<open>persist_state\<close> wrote,
  at that time or later, gets back every member with its address, ports, removal mark, last
  contact and compliance (all offline, its own address left to be filled in), the live table with
  its generation, and a pending target with its generation.
\<close>

theorem persist_restore:
  assumes "cfg_ok e (cl_cfg cl)" "later e e'" "json_plain (state_to_json cl)"
    and "cJSON_ParseWithLength e (generation_text (cl_generation cl)) = Some (generation_doc (cl_generation cl))"
    and "cluster_inv cl" "0 < cl_generation cl" "length (cl_peers cl) \<le> MAX_PEERS"
    and "\<forall>p \<in> set (cl_peers cl). peer_storable p"
    and "\<forall>r \<in> set (cl_ranges cl). range_ok r" "\<forall>r \<in> set (target_table cl). range_ok r"
    and "0 < cl_target_generation cl \<longrightarrow> target_table cl \<noteq> []"
    and "cl_peers cl0 = []" "cl_generation cl0 = 0" "cl_target_generation cl0 = 0" "cl_leader cl0 = []"
    and "cl_cfg cl0 = cl_cfg (persist_state e cl)"
  shows "cl_peers (restore_state e' cl0) = map (restored_peer (cl_self_id cl0)) (cl_peers cl) \<and>
    cl_ranges (restore_state e' cl0) = cl_ranges cl \<and> cl_generation (restore_state e' cl0) = cl_generation cl \<and>
    cl_target_generation (restore_state e' cl0) = max 0 (cl_target_generation cl) \<and>
    (0 < cl_target_generation cl \<longrightarrow> target_table (restore_state e' cl0) = target_table cl)"
proof -
  note ps = persist_settings [OF assms(1-4)]
  have s0: "sett e' cl0 = sett e' (persist_state e cl)" by (simp add: sett_def assms(16))
  have ok0: "cfg_ok e' (cl_cfg cl0)" using cfg_ok_later [OF ps(4) assms(2)] by (simp add: assms(16))
  define a where "a = fst (setting_doc e' SETTING_MEMBERS cl0)"
  note da = setting_doc_spec [OF ok0, of SETTING_MEMBERS, folded a_def]
  have doc: "snd (setting_doc e' SETTING_MEMBERS cl0) = Some (state_to_json cl)"
    using da(4) ps(1) s0 assms(3) by simp
  define b where "b = fst (merge_state (now_epoch e') a (state_to_json cl))"
  have m: "merge_setting e' SETTING_MEMBERS cl0 = b"
    using doc by (simp add: merge_setting_def split_beta a_def b_def)
  have a: "cl_peers a = []" "cl_generation a = 0" "cl_target_generation a = 0" "cl_leader a = []" "cl_self_id a = cl_self_id cl0"
    by (subst da(3), simp add: assms(12-15))+
  note rb = restore_merge [OF a(1-4) assms(5-11), where now = "now_epoch e'", folded b_def]
  have okb: "cfg_ok e' (cl_cfg b)" using da(1) rb(7) by simp
  have sb: "sett e' b = sett e' cl0" using da(2) rb(7) by (simp add: sett_def)
  define c where "c = fst (setting_doc e' SETTING_RANGES b)"
  note dc = setting_doc_spec [OF okb, of SETTING_RANGES, folded c_def]
  have rdoc: "snd (setting_doc e' SETTING_RANGES b) = Some (generation_doc (cl_generation cl))"
    using dc(4) ps(2) sb s0 state_plain_parts(1) [OF assms(3)] by simp
  define d where "d = c\<lparr>cl_generation := cl_generation cl\<rparr>"
  have r: "restore_state e' cl0 = merge_setting e' SETTING_TARGET d"
    unfolding restore_state_def m Let_def using rdoc by (simp add: split_beta c_def d_def generation_doc_def)
  have db: "d = b\<lparr>cl_cfg := cl_cfg c, cl_generation := cl_generation cl\<rparr>" unfolding d_def by (subst dc(3)) simp
  have okd: "cfg_ok e' (cl_cfg d)" using dc(1) by (simp add: d_def)
  note dd = setting_doc_spec [OF okd, of SETTING_TARGET]
  have sd: "sett e' d = sett e' cl0" using dc(2) sb by (simp add: sett_def d_def)
  have keep: "merge_setting e' SETTING_TARGET d = d\<lparr>cl_cfg := cl_cfg (fst (setting_doc e' SETTING_TARGET d))\<rparr>"
  proof (cases "0 < cl_target_generation cl")
    case True
    have "snd (setting_doc e' SETTING_TARGET d) = Some (table_to_json (cl_target_generation cl) (target_table cl))"
      using dd(4) ps(3) sd s0 state_plain_parts(2) [OF assms(3) True] True by simp
    moreover have "cl_leader (fst (setting_doc e' SETTING_TARGET d)) = []"
      by (subst dd(3)) (simp add: db rb(6))
    ultimately show ?thesis
      unfolding merge_setting_def by (simp add: split_beta merge_no_table) (rule dd(3))
  next
    case False
    then have "snd (setting_doc e' SETTING_TARGET d) = None" using dd(5) ps(3) sd s0 by simp
    then show ?thesis unfolding merge_setting_def by (simp add: split_beta) (rule dd(3))
  qed
  have df: "cl_peers d = cl_peers b" "cl_ranges d = cl_ranges b" "cl_generation d = cl_generation cl"
    "cl_target_generation d = cl_target_generation b" "target_table d = target_table b"
    by (simp_all add: db target_table_def)
  have tt: "target_table (d\<lparr>cl_cfg := x\<rparr>) = target_table d" for x by (simp add: target_table_def)
  show ?thesis
    unfolding r keep using rb a(5) df tt by simp
qed

definition demo_member :: "string \<Rightarrow> int \<Rightarrow> edb_peer_info" where
  "demo_member node port = \<lparr>p_id = node, p_addr = ''10.0.0.1'', p_port = port, p_http_port = 0, p_last_seen = 5,
     p_online = True, p_removed = False, p_compliant_gen = 0\<rparr>"

definition demo_saved :: edb_cluster where
  "demo_saved = demo_cluster\<lparr>cl_peers := [demo_member ''n1'' 7001, demo_member ''n2'' 7002],
     cl_ranges := [\<lparr>rg_node_id = ''n1'', rg_start = ''0'', rg_end = ''f''\<rparr>]\<rparr>"

theorem persist_restore_witness:
  "cl_ranges (restore_state (json_env 20) (demo_cluster\<lparr>cl_peers := [], cl_generation := 0,
      cl_cfg := cl_cfg (persist_state (json_env 10) demo_saved)\<rparr>)) = [\<lparr>rg_node_id = ''n1'', rg_start = ''0'', rg_end = ''f''\<rparr>]"
proof -
  let ?cl0 = "demo_cluster\<lparr>cl_peers := [], cl_generation := 0, cl_cfg := cl_cfg (persist_state (json_env 10) demo_saved)\<rparr>"
  have l: "later (json_env 10) (json_env 20)" by (simp add: later_def) (simp add: json_env_def)
  have t: "cl_generation demo_saved = 1" "cl_target_generation demo_saved = 0" "target_table demo_saved = []"
    by (simp_all add: demo_saved_def demo_cluster_def target_table_def)
  have one: "digit_char (Suc 0) = CHR ''1''" by code_simp
  have gtxt: "cJSON_ParseWithLength (json_env 10) (generation_text 1) = Some (generation_doc 1)"
    by (simp add: json_env_def demo_parse_def generation_text_def generation_doc_def show_int_def snprintf_s_def show_nat.simps
        strtoll_def scan_number_def is_space_def is_digit_def one digits_val_def digit_val_def Let_def)
  have inv: "cluster_inv demo_saved"
    by (simp add: cluster_inv_def target_ok_def peers_ok_def peer_ok_def t demo_saved_def demo_member_def demo_cluster_def
        EDB_NODE_ID_MAX_def EDB_ADDR_MAX_def)
  have plain: "json_plain (state_to_json demo_saved)"
    unfolding state_to_json_def by (simp add: t node_to_json_def table_to_json_def range_to_json_def demo_saved_def
        demo_member_def demo_cluster_def)
  have st: "\<forall>p \<in> set (cl_peers demo_saved). peer_storable p" "\<forall>r \<in> set (cl_ranges demo_saved). range_ok r"
    "length (cl_peers demo_saved) \<le> MAX_PEERS"
    by (simp_all add: demo_saved_def demo_member_def peer_storable_def peer_ok_def range_ok_def EDB_NODE_ID_MAX_def
        EDB_ADDR_MAX_def MAX_PEERS_def)
  have cfg: "cfg_ok (json_env 10) (cl_cfg demo_saved)" by (simp add: demo_saved_def demo_cluster_def)
  have c0: "cl_peers ?cl0 = []" "cl_generation ?cl0 = 0" "cl_target_generation ?cl0 = 0" "cl_leader ?cl0 = []"
    "cl_cfg ?cl0 = cl_cfg (persist_state (json_env 10) demo_saved)"
    by (simp_all add: demo_cluster_def)
  have "cl_ranges (restore_state (json_env 20) ?cl0) = cl_ranges demo_saved"
    by (rule persist_restore [OF cfg l plain _ inv _ st(3,1,2) _ _ c0, THEN conjunct2, THEN conjunct1])
      (simp_all add: t gtxt)
  then show ?thesis by (simp add: demo_saved_def)
qed

end
