(* ===== verification/Rebalance_Props.thy ===== *)
theory Rebalance_Props
  imports Cluster_Persist
begin

text \<open>
  Properties of gossip, rebalancing and membership: what a promotion and a collected shard
  presuppose, what publishing a target does, how tables spread, and the places where the code
  does something else than its comments say.
\<close>

section \<open>Compliance\<close>

text \<open>The persisted flag of a node, read from its setting.\<close>

definition done_flag :: "sqlite_env \<Rightarrow> edb_cluster \<Rightarrow> string \<Rightarrow> int \<Rightarrow> bool" where
  "done_flag e cl node tgen \<longleftrightarrow>
     (case snd (edb_setting_get e (cl_cfg cl) (done_setting node)) of
        None \<Rightarrow> False
      | Some s \<Rightarrow> (case strtoll s of (gen, rest, _) \<Rightarrow> rest = [] \<and> tgen \<le> gen))"

definition gossiped_flag :: "edb_cluster \<Rightarrow> string \<Rightarrow> int \<Rightarrow> bool" where
  "gossiped_flag cl node tgen \<longleftrightarrow> (\<exists>p \<in> set (cl_peers cl). p_id p = node \<and> tgen \<le> p_compliant_gen p)"

text \<open>Only the configuration of the node differs, and settings read the same.\<close>

definition only_cfg :: "edb_cluster \<Rightarrow> edb_cluster \<Rightarrow> bool" where
  "only_cfg cl c \<longleftrightarrow> (\<exists>x. c = cl\<lparr>cl_cfg := x\<rparr>)"

lemma only_cfg_update [simp]: "only_cfg cl (cl\<lparr>cl_cfg := x\<rparr>)"
  by (auto simp: only_cfg_def)

lemma only_cfg_refl [simp]: "only_cfg cl cl"
  unfolding only_cfg_def by (rule exI [of _ "cl_cfg cl"]) simp

lemma only_cfg_trans: "only_cfg a b \<Longrightarrow> only_cfg b c \<Longrightarrow> only_cfg a c"
  by (auto simp: only_cfg_def)

lemma only_cfgD:
  assumes "only_cfg cl c"
  shows "cl_peers c = cl_peers cl" "cl_ranges c = cl_ranges cl" "cl_self_id c = cl_self_id cl"
    "cl_target_generation c = cl_target_generation cl" "cl_generation c = cl_generation cl"
    "target_table c = target_table cl" "cl_leader c = cl_leader cl" "cl_ntarget_ranges c = cl_ntarget_ranges cl"
  using assms by (auto simp: only_cfg_def target_table_def)

lemma setting_get_same:
  assumes "cfg_ok e cfg" "cfg_ok e cfg'" "cfg_doc e CFG_KEYSPACE_SETTINGS cfg' = cfg_doc e CFG_KEYSPACE_SETTINGS cfg"
  shows "snd (edb_setting_get e cfg' n) = snd (edb_setting_get e cfg n)"
  using assms fetch_spec(1) by (simp add: edb_setting_get_def split_beta)

lemma node_compliant_spec:
  assumes "cfg_ok e (cl_cfg cl)"
  shows "cfg_ok e (cl_cfg (fst (node_compliant e tgen cl node)))"
    "sett e (fst (node_compliant e tgen cl node)) = sett e cl"
    "only_cfg cl (fst (node_compliant e tgen cl node))"
    "length (cl_peers cl) \<le> MAX_PEERS \<Longrightarrow>
      snd (node_compliant e tgen cl node) \<longleftrightarrow> gossiped_flag cl node tgen \<or> done_flag e cl node tgen"
proof -
  have g: "fst (edb_setting_get e (cl_cfg cl) n) = fst (fetch e (cl_cfg cl) CFG_KEYSPACE_SETTINGS n)" for n
    by (simp add: edb_setting_get_def split_beta)
  show "cfg_ok e (cl_cfg (fst (node_compliant e tgen cl node)))"
    "sett e (fst (node_compliant e tgen cl node)) = sett e cl"
    using fetch_spec(2,3) [OF assms] assms by (simp_all add: node_compliant_def split_beta g sett_def)
  show "only_cfg cl (fst (node_compliant e tgen cl node))" by (simp add: node_compliant_def split_beta)
  assume "length (cl_peers cl) \<le> MAX_PEERS"
  then show "snd (node_compliant e tgen cl node) \<longleftrightarrow> gossiped_flag cl node tgen \<or> done_flag e cl node tgen"
    by (auto simp: node_compliant_def gossiped_flag_def done_flag_def split_beta edb_cluster_peers_def)
qed

lemma all_compliant_spec:
  "cfg_ok e (cl_cfg cl) \<Longrightarrow> length (cl_peers cl) \<le> MAX_PEERS \<Longrightarrow>
    only_cfg cl (fst (all_compliant e tgen cl nodes)) \<and>
    cfg_ok e (cl_cfg (fst (all_compliant e tgen cl nodes))) \<and>
    (snd (all_compliant e tgen cl nodes) \<longleftrightarrow>
      (\<forall>node \<in> set nodes. gossiped_flag cl node tgen \<or> done_flag e cl node tgen))"
proof (induction nodes arbitrary: cl)
  case (Cons n ns)
  note nc = node_compliant_spec [OF Cons.prems(1), of tgen n]
  let ?c = "fst (node_compliant e tgen cl n)"
  have "length (cl_peers ?c) \<le> MAX_PEERS" using Cons.prems(2) only_cfgD(1) [OF nc(3)] by simp
  note IH = Cons.IH [OF nc(1) this]
  have "done_flag e ?c m tgen = done_flag e cl m tgen" "gossiped_flag ?c m tgen = gossiped_flag cl m tgen" for m
    using setting_get_same [OF Cons.prems(1) nc(1)] nc(2) only_cfgD(1) [OF nc(3)]
    by (simp_all add: done_flag_def sett_def gossiped_flag_def)
  then show ?case
    using nc(1,3) nc(4) [OF Cons.prems(2)] IH only_cfg_trans [OF nc(3)] by (simp add: split_beta)
qed simp

lemma add_required_mono: "set xs \<subseteq> set (foldl add_required xs rs)"
  by (induction rs arbitrary: xs) (auto simp: add_required_def subset_iff)

lemma required_covers:
  assumes "length xs + length rs \<le> MAX_PEERS" "\<forall>r \<in> set rs. length (rg_node_id r) < EDB_NODE_ID_MAX" "r \<in> set rs"
  shows "rg_node_id r \<in> set (foldl add_required xs rs)"
  using assms
proof (induction rs arbitrary: xs)
  case (Cons r' rs)
  let ?ys = "add_required xs r'"
  have len: "length ?ys \<le> Suc (length xs)" by (simp add: add_required_def)
  have r': "rg_node_id r' \<in> set ?ys"
    using Cons.prems(1,2) by (auto simp: add_required_def snprintf_s_id)
  show ?case
  proof (cases "r \<in> set rs")
    case True
    then show ?thesis using Cons.IH [of ?ys] Cons.prems len by simp
  next
    case False
    then show ?thesis using r' add_required_mono [of ?ys rs] Cons.prems(3) by auto
  qed
qed simp

lemma required_only:
  assumes "\<forall>r \<in> set rs. length (rg_node_id r) < EDB_NODE_ID_MAX"
  shows "set (foldl add_required xs rs) \<subseteq> set xs \<union> rg_node_id ` set rs"
  using assms
proof (induction rs arbitrary: xs)
  case (Cons r rs)
  have "set (add_required xs r) \<subseteq> set xs \<union> {rg_node_id r}"
    using Cons.prems by (auto simp: add_required_def snprintf_s_id)
  then show ?case using Cons.IH [of "add_required xs r"] Cons.prems by auto
qed simp

lemma required_nodes_set:
  assumes "0 < cl_target_generation cl" "length (target_table cl) \<le> MAX_PEERS"
    and "\<forall>r \<in> set (target_table cl). length (rg_node_id r) < EDB_NODE_ID_MAX"
  shows "set (required_nodes cl) = rg_node_id ` set (target_table cl)"
  using required_only [OF assms(3), of "[]"] required_covers [of "[]", OF _ assms(3)] assms(1,2)
  by (auto simp: required_nodes_def)

lemma only_cfg_settings [simp]:
  "only_cfg cl (setting_set e name json cl)" "only_cfg cl (setting_delete e name cl)"
  "only_cfg cl (setting_set_doc e name doc cl)" "only_cfg cl (fst (setting_doc e name cl))" "only_cfg cl (upd_engine en cl)"
  by (auto simp: setting_set_def setting_delete_def setting_set_doc_def setting_doc_def upd_engine_def split_beta
      split: option.split)

lemma only_cfg_persist [simp]: "only_cfg cl (persist_state e cl)"
proof -
  let ?a = "setting_set_doc e SETTING_MEMBERS (state_to_json cl) cl"
  let ?b = "setting_set e SETTING_RANGES (generation_text (cl_generation ?a)) ?a"
  have "only_cfg cl ?b" by (rule only_cfg_trans [of cl ?a]) simp_all
  then show ?thesis
    unfolding persist_state_def Let_def using only_cfg_trans [of cl ?b] by simp
qed

lemma only_cfg_fold: "(\<And>x cl. only_cfg cl (f x cl)) \<Longrightarrow> only_cfg cl (fold f xs cl)"
  by (induction xs arbitrary: cl) (auto intro: only_cfg_trans)

section \<open>Collected shards\<close>

lemma scan_holders_iff:
  "\<not> fst (scan_holders self peers hs) \<and> snd (scan_holders self peers hs) \<longleftrightarrow>
    self \<notin> set hs \<and> (\<forall>h \<in> set hs. \<exists>p \<in> set peers. p_id p = h \<and> p_online p)"
  by (induction hs) auto

lemma holders_only_cfg: "only_cfg cl c \<Longrightarrow> edb_cluster_holders c key cap = edb_cluster_holders cl key cap"
  unfolding edb_cluster_holders_def holder_start_def by (simp add: only_cfgD)

text \<open>
  What the loop over the shard keys keeps: it changes the configuration's engine only, and there
  neither the documents of the system database nor, while unlinking works, any other shard it
  does not collect.
\<close>

definition gc_frame :: "sqlite_env \<Rightarrow> bool \<Rightarrow> edb_cluster \<Rightarrow> edb_cluster \<Rightarrow> bool" where
  "gc_frame e unlink_ok cl c \<longleftrightarrow> only_cfg cl c \<and> cfg_ok e (cl_cfg c) \<and>
     en_path (cfg_engine (cl_cfg c)) = en_path (cfg_engine (cl_cfg cl)) \<and>
     (\<forall>ks \<in> set edb_config_system_keyspaces. shard_view (cfg_engine (cl_cfg c)) (shard_key EDB_SYSTEM_DB ks) =
        shard_view (cfg_engine (cl_cfg cl)) (shard_key EDB_SYSTEM_DB ks)) \<and>
     (unlink_ok \<longrightarrow> shard_view (cfg_engine (cl_cfg c)) = shard_view (cfg_engine (cl_cfg cl)))"

definition short_path :: "edb_cluster \<Rightarrow> bool" where
  "short_path cl \<longleftrightarrow> length (en_path (cfg_engine (cl_cfg cl))) < 984"

lemma short_path_file: "short_path cl \<Longrightarrow> length key = 32 \<Longrightarrow> length (shard_file (en_path (cfg_engine (cl_cfg cl))) key) < 1024"
  by (simp add: short_path_def shard_file_def)

lemma gc_frame_trans: "gc_frame e u a b \<Longrightarrow> gc_frame e u b c \<Longrightarrow> gc_frame e u a c"
  unfolding gc_frame_def using only_cfg_trans by auto

lemma gc_frame_refl: "cfg_ok e (cl_cfg cl) \<Longrightarrow> gc_frame e u cl cl"
  by (simp add: gc_frame_def)

lemma gc_frame_fetch: "cfg_ok e (cl_cfg cl) \<Longrightarrow> gc_frame e u cl (cl\<lparr>cl_cfg := fst (fetch e (cl_cfg cl) ks d)\<rparr>)"
  using fetch_spec [of e "cl_cfg cl" ks d] by (simp add: gc_frame_def)

lemma system_key_iff:
  assumes "short_path cl"
  shows "edb_config_is_system_key (cl_cfg cl) key \<longleftrightarrow> key \<in> shard_key EDB_SYSTEM_DB ` set edb_config_system_keyspaces"
  using short_path_file [OF assms] by (auto simp: edb_config_is_system_key_def edb_shard_path_def Let_def image_iff linorder_not_le [symmetric])

text \<open>
  The replication factor of a shard as the stored documents have it: that of the database of the
  first registered keyspace with this key, and one where there is none or none is recorded.
\<close>

definition recorded_factor :: "sqlite_env \<Rightarrow> edb_cluster \<Rightarrow> edb_keyspace_info list \<Rightarrow> string \<Rightarrow> int" where
  "recorded_factor e cl keyspaces key =
     (case first_match (\<lambda>k. shard_key (ks_partition k) (ks_name k) = key) keyspaces of
        None \<Rightarrow> 1
      | Some k \<Rightarrow>
          (case cfg_doc e CFG_KEYSPACE_DATABASES (cl_cfg cl) (ks_database k) of
             None \<Rightarrow> 1
           | Some obj \<Rightarrow> if db_name (db_info obj) = [] then 1 else max 1 (db_replication_factor (db_info obj))))"

lemma key_factor_spec:
  assumes "cfg_ok e (cl_cfg cl)" "short_path cl"
  shows "snd (key_factor e cl ks key) = recorded_factor e cl ks key" "gc_frame e u cl (fst (key_factor e cl ks key))"
proof -
  have m: "(\<lambda>k. case edb_shard_path (cfg_engine (cl_cfg cl)) (ks_partition k) (ks_name k) 1024 of
      None \<Rightarrow> False | Some (path, candidate) \<Rightarrow> strcmp candidate key = 0) =
      (\<lambda>k. shard_key (ks_partition k) (ks_name k) = key)"
    using short_path_file [OF assms(2) length_shard_key]
    by (auto simp: fun_eq_iff edb_shard_path_def Let_def linorder_not_le [symmetric])
  show "snd (key_factor e cl ks key) = recorded_factor e cl ks key"
    unfolding key_factor_def m recorded_factor_def
    by (auto simp: edb_database_get_def split_beta fetch_spec(1) [OF assms(1)] split: option.split)
  show "gc_frame e u cl (fst (key_factor e cl ks key))"
    using gc_frame_fetch [OF assms(1)] gc_frame_refl [OF assms(1)]
    by (simp add: key_factor_def edb_database_get_def split_beta split: option.split)
qed

lemma gc_frame_gc:
  fixes unlink_ok :: bool
  assumes "cfg_ok e (cl_cfg cl)" "short_path cl" "length key = 32" "\<not> edb_config_is_system_key (cl_cfg cl) key"
  defines "gc \<equiv> edb_shard_gc unlink_ok (cfg_engine (cl_cfg cl)) key"
  shows "snd gc \<or> gc_frame e unlink_ok cl (upd_engine (fst gc) cl)"
    "unlink_ok \<Longrightarrow> shard_view (fst gc) = (shard_view (cfg_engine (cl_cfg cl)))(key := [])"
proof -
  note g = gc_any [OF cfg_okD(1) [OF assms(1)] assms(3) short_path_file [OF assms(2,3)], of unlink_ok, folded gc_def]
  have "shard_key EDB_SYSTEM_DB ks \<noteq> key" if "ks \<in> set edb_config_system_keyspaces" for ks
    using assms(4) that unfolding system_key_iff [OF assms(2)] by auto
  then show "snd gc \<or> gc_frame e unlink_ok cl (upd_engine (fst gc) cl)"
    using g assms(1) only_cfg_settings(5) [of cl "fst gc"] by (auto simp: gc_frame_def upd_engine_def cfg_ok_def)
  show "unlink_ok \<Longrightarrow> shard_view (fst gc) = (shard_view (cfg_engine (cl_cfg cl)))(key := [])"
    using g by (auto simp: fun_eq_iff)
qed

lemma databases_system [simp]: "CFG_KEYSPACE_DATABASES \<in> set edb_config_system_keyspaces"
  by (simp add: edb_config_system_keyspaces_def)

lemma recorded_factor_frame: "gc_frame e u cl c \<Longrightarrow> recorded_factor e c ks key = recorded_factor e cl ks key"
proof -
  assume "gc_frame e u cl c"
  then have "cfg_doc e CFG_KEYSPACE_DATABASES (cl_cfg c) = cfg_doc e CFG_KEYSPACE_DATABASES (cl_cfg cl)"
    by (auto simp: fun_eq_iff gc_frame_def cfg_doc_def)
  then show ?thesis by (simp only: recorded_factor_def)
qed

lemma shard_keys_length: "k \<in> set (edb_engine_shard_keys names cap) \<Longrightarrow> length k = 32"
  by (induction names cap rule: edb_engine_shard_keys.induct) (auto simp: is_shard_name_def split: if_splits)

lemma gc_keys_spec:
  assumes "gc_keys e unlink_ok ks peers cl keys = (cl', Some key)"
    and "cfg_ok e (cl_cfg cl)" "short_path cl" "\<forall>k \<in> set keys. length k = 32"
  shows "\<exists>c. gc_frame e unlink_ok cl c \<and> key \<in> set keys \<and> \<not> edb_config_is_system_key (cl_cfg c) key \<and>
    shard_redundant c peers (recorded_factor e c ks key) key \<and> only_cfg c cl' \<and>
    (unlink_ok \<longrightarrow> shard_view (cfg_engine (cl_cfg cl')) = (shard_view (cfg_engine (cl_cfg c)))(key := []))"
  using assms
proof (induction keys arbitrary: cl)
  case (Cons k keys)
  have IH: "\<exists>c. gc_frame e unlink_ok cl c \<and> key \<in> set (k # keys) \<and> \<not> edb_config_is_system_key (cl_cfg c) key \<and>
      shard_redundant c peers (recorded_factor e c ks key) key \<and> only_cfg c cl' \<and>
      (unlink_ok \<longrightarrow> shard_view (cfg_engine (cl_cfg cl')) = (shard_view (cfg_engine (cl_cfg c)))(key := []))"
    if "gc_keys e unlink_ok ks peers c0 keys = (cl', Some key)" "gc_frame e unlink_ok cl c0" for c0
  proof -
    have ok: "cfg_ok e (cl_cfg c0)" "short_path c0" "\<forall>k \<in> set keys. length k = 32"
      using that(2) Cons.prems(3,4) by (simp_all add: gc_frame_def short_path_def)
    from Cons.IH [OF that(1) ok] obtain c where c: "gc_frame e unlink_ok c0 c" and r: "key \<in> set keys" "\<not> edb_config_is_system_key (cl_cfg c) key"
      "shard_redundant c peers (recorded_factor e c ks key) key" "only_cfg c cl'"
      "unlink_ok \<longrightarrow> shard_view (cfg_engine (cl_cfg cl')) = (shard_view (cfg_engine (cl_cfg c)))(key := [])"
      by (elim exE conjE)
    show ?thesis
      by (rule exI [of _ c], intro conjI gc_frame_trans [OF that(2) c] r(2-5)) (use r(1) in simp)
  qed
  let ?f = "key_factor e cl ks k"
  note f = key_factor_spec [OF Cons.prems(2,3), where ks = ks and key = k]
  have ok: "cfg_ok e (cl_cfg (fst ?f))" "short_path (fst ?f)" "only_cfg cl (fst ?f)"
    using f(2) [of unlink_ok] Cons.prems(3) by (simp_all add: gc_frame_def short_path_def)
  have k: "length k = 32" using Cons.prems(4) by simp
  show ?case
  proof (cases "edb_config_is_system_key (cl_cfg cl) k")
    case True
    then show ?thesis using Cons.prems(1) by (intro IH [OF _ gc_frame_refl [OF Cons.prems(2)]]) simp
  next
    case sys: False
    then have sys': "\<not> edb_config_is_system_key (cl_cfg (fst ?f)) k"
      by (simp add: system_key_iff [OF ok(2)] system_key_iff [OF Cons.prems(3)])
    let ?gc = "edb_shard_gc unlink_ok (cfg_engine (cl_cfg (fst ?f))) k"
    note g = gc_frame_gc [OF ok(1,2) k sys', of unlink_ok]
    show ?thesis
    proof (cases "shard_redundant (fst ?f) peers (snd ?f) k")
      case False
      then show ?thesis using Cons.prems(1) sys by (intro IH [OF _ f(2)]) (simp add: split_beta)
    next
      case red: True
      show ?thesis
      proof (cases "snd ?gc")
        case False
        then show ?thesis
          using Cons.prems(1) sys red g(1) by (intro IH [OF _ gc_frame_trans [OF f(2)], of "upd_engine (fst ?gc) (fst ?f)"])
            (simp_all add: split_beta Let_def)
      next
        case True
        then have eq: "key = k" "cl' = upd_engine (fst ?gc) (fst ?f)"
          using Cons.prems(1) sys red by (auto simp: split_beta Let_def)
        have "recorded_factor e (fst ?f) ks k = snd ?f"
          using recorded_factor_frame [OF f(2)] f(1) by simp
        then show ?thesis
          using red sys' g(2) f(2) [of unlink_ok] unfolding eq
          by (intro exI [of _ "fst ?f"]) (simp add: upd_engine_def)
      qed
    qed
  qed
qed simp

section \<open>Properties\<close>

text \<open>
  C22. Invariant of the cluster state under every interleaving of handlers, for any frames, clocks
  and outcomes of the environment: node ids stay distinct, non-empty and within their buffers, a
  pending target is always newer than the live table, no peer is ever dropped from the table, the
  table grows to at most 64 entries, the own identity is fixed, and the generation of the live
  table never decreases.
\<close>

theorem cluster_invariant:
  assumes "cluster_inv cl" "cluster_step\<^sup>*\<^sup>* cl cl'"
  shows "cluster_inv cl' \<and> cl_generation cl \<le> cl_generation cl' \<and> cl_self_id cl' = cl_self_id cl \<and>
    length (cl_peers cl') \<le> max MAX_PEERS (length (cl_peers cl)) \<and>
    set (map p_id (cl_peers cl)) \<subseteq> set (map p_id (cl_peers cl'))"
  using steps_evolve [OF assms(2)] assms(1) by (simp add: evolves_def)

lemma demo_saved_inv: "cluster_inv demo_saved"
  by (simp add: cluster_inv_def target_ok_def peers_ok_def peer_ok_def demo_saved_def demo_member_def demo_cluster_def
      EDB_NODE_ID_MAX_def EDB_ADDR_MAX_def)

theorem cluster_invariant_witness:
  "cluster_inv (conn_closed (json_env 9) (conn_register (json_env 9) demo_saved ''n1'') ''n1'')"
proof -
  have "cluster_step demo_saved (conn_register (json_env 9) demo_saved ''n1'')" by (rule cluster_step.register)
  moreover have "cluster_step (conn_register (json_env 9) demo_saved ''n1'')
      (conn_closed (json_env 9) (conn_register (json_env 9) demo_saved ''n1'') ''n1'')" by (rule cluster_step.closed)
  ultimately have "cluster_step\<^sup>*\<^sup>* demo_saved (conn_closed (json_env 9) (conn_register (json_env 9) demo_saved ''n1'') ''n1'')"
    by (rule converse_rtranclp_into_rtranclp [OF _ r_into_rtranclp])
  from cluster_invariant [OF demo_saved_inv this] show ?thesis by simp
qed

text \<open>
  What gossip can change: whatever document is merged, every peer stays in the table; its last
  contact and compliance never go back; a removal mark goes away only on the word of the leader;
  whether it is online is not gossiped; and the node's own address and ports are never changed.
\<close>

theorem gossip_monotone:
  assumes "p \<in> set (cl_peers cl)"
  shows "\<exists>p' \<in> set (cl_peers (fst (merge_state now cl doc))).
    p_id p' = p_id p \<and> p_last_seen p \<le> p_last_seen p' \<and> p_compliant_gen p \<le> p_compliant_gen p' \<and>
    p_online p' = p_online p \<and> (p_removed p \<and> \<not> from_leader cl doc \<longrightarrow> p_removed p') \<and>
    (p_id p = cl_self_id cl \<longrightarrow> p_addr p' = p_addr p \<and> p_port p' = p_port p \<and> p_http_port p' = p_http_port p)"
proof -
  obtain p' where "p' \<in> set (cl_peers (fst (merge_state now cl doc)))"
    "peer_le (cl_self_id cl) (from_leader cl doc) p p'"
    using table_le_merge [of cl doc now] assms by (auto simp: table_le_def)
  then show ?thesis by (auto simp: peer_le_def intro!: bexI [of _ p'])
qed

theorem gossip_monotone_witness:
  "\<exists>p' \<in> set (cl_peers (fst (merge_state 9 demo_saved (state_to_json demo_cluster)))). p_id p' = ''n2'' \<and> p_port p' = 7002"
proof -
  have m: "demo_member ''n2'' 7002 \<in> set (cl_peers demo_saved)" and s: "cl_self_id demo_saved = ''n2''"
    by (simp_all add: demo_saved_def demo_cluster_def)
  show ?thesis
    using gossip_monotone [OF m, of 9 "state_to_json demo_cluster"] s by (auto simp: demo_member_def)
qed

text \<open>
  Tables spread by gossip: a node that merges the state of a node with a newer live table takes
  over this table and its generation, and so places every key on the same owner; a pending target
  newer than its own is taken over as well.
\<close>

theorem gossip_adopts_tables:
  assumes "cl_generation cl < cl_generation s" "\<forall>r \<in> set (cl_ranges s). range_ok r"
    and "0 \<le> cl_target_generation cl" "cluster_inv s" "\<forall>r \<in> set (target_table s). range_ok r"
  shows "cl_ranges (fst (merge_state now cl (state_to_json s))) = cl_ranges s \<and>
    cl_generation (fst (merge_state now cl (state_to_json s))) = cl_generation s \<and>
    edb_cluster_owner (fst (merge_state now cl (state_to_json s))) key = edb_cluster_owner s key \<and>
    (0 < cl_target_generation s \<and> cl_target_generation cl < cl_target_generation s \<and> target_table s \<noteq> [] \<longrightarrow>
      target_table (fst (merge_state now cl (state_to_json s))) = target_table s \<and>
      cl_target_generation (fst (merge_state now cl (state_to_json s))) = cl_target_generation s)"
proof -
  let ?doc = "state_to_json s"
  define a where "a = fst (merge_nodes cl ?doc)"
  define b where "b = fst (merge_ranges now a ?doc)"
  have r: "fst (merge_state now cl ?doc) = fst (merge_target b ?doc)"
    by (simp add: merge_state_def split_beta a_def b_def)
  have "cl_generation a < cl_generation s" using assms(1) by (simp add: a_def)
  note rg = merge_ranges_adopts [OF this assms(2), of now, folded b_def]
  have t: "cl_target_generation b = 0 \<or> cl_target_generation b = cl_target_generation cl"
    using rg(3) by (simp add: a_def)
  have inv: "cl_target_generation s = 0 \<or> cl_generation s < cl_target_generation s"
    using assms(4) by (simp add: cluster_inv_def target_ok_def)
  have "target_table (fst (merge_target b ?doc)) = target_table s \<and>
      cl_target_generation (fst (merge_target b ?doc)) = cl_target_generation s"
    if "0 < cl_target_generation s" "cl_target_generation cl < cl_target_generation s" "target_table s \<noteq> []"
    using merge_target_adopts [of b s] that t rg(2) inv assms(3,5) by auto
  then show ?thesis using rg by (simp add: r edb_cluster_owner_def)
qed

theorem gossip_adopts_tables_witness:
  "edb_cluster_owner (fst (merge_state 9 (demo_cluster\<lparr>cl_generation := 0\<rparr>) (state_to_json demo_saved))) (replicate 32 (CHR ''a'')) =
   edb_cluster_owner demo_saved (replicate 32 (CHR ''a''))"
proof -
  have "cl_ranges demo_saved = [\<lparr>rg_node_id = ''n1'', rg_start = ''0'', rg_end = ''f''\<rparr>]" "target_table demo_saved = []"
    "cl_generation demo_saved = 1" "cl_target_generation demo_cluster = 0"
    by (simp_all add: demo_saved_def demo_cluster_def target_table_def)
  then show ?thesis
    using gossip_adopts_tables [of "demo_cluster\<lparr>cl_generation := 0\<rparr>" demo_saved 9 "replicate 32 (CHR ''a'')"] demo_saved_inv
    by (simp add: range_ok_def)
qed

section \<open>Waves\<close>

lemma leader_only_cfg: "only_cfg cl c \<Longrightarrow> leader_is_self_locked c = leader_is_self_locked cl"
  by (simp add: leader_is_self_locked_def only_cfgD)

lemma target_compliant_spec:
  assumes "cfg_ok e (cl_cfg cl)" "length (cl_peers cl) \<le> MAX_PEERS" "0 < cl_target_generation cl"
    and "length (target_table cl) \<le> MAX_PEERS"
    and "\<forall>r \<in> set (target_table cl). length (rg_node_id r) < EDB_NODE_ID_MAX"
  shows "only_cfg cl (fst (edb_cluster_target_compliant e cl))"
    "snd (edb_cluster_target_compliant e cl) \<longleftrightarrow> target_table cl \<noteq> [] \<and>
      (\<forall>r \<in> set (target_table cl). gossiped_flag cl (rg_node_id r) (cl_target_generation cl) \<or>
        done_flag e cl (rg_node_id r) (cl_target_generation cl))"
proof -
  note r = required_nodes_set [OF assms(3-5)]
  note a = all_compliant_spec [OF assms(1,2), of "cl_target_generation cl" "required_nodes cl"]
  show "only_cfg cl (fst (edb_cluster_target_compliant e cl))"
    using a by (simp add: edb_cluster_target_compliant_def)
  have "required_nodes cl = [] \<longleftrightarrow> target_table cl = []" using arg_cong [OF r, of "\<lambda>s. s = {}"] by simp
  then show "snd (edb_cluster_target_compliant e cl) \<longleftrightarrow> target_table cl \<noteq> [] \<and>
      (\<forall>r \<in> set (target_table cl). gossiped_flag cl (rg_node_id r) (cl_target_generation cl) \<or>
        done_flag e cl (rg_node_id r) (cl_target_generation cl))"
    using a r assms(3) by (auto simp: edb_cluster_target_compliant_def)
qed

text \<open>The commit section promotes whatever target is pending when it gets the lock.\<close>

lemma commit_target_spec:
  "snd (commit_target e c) \<longleftrightarrow> leader_is_self_locked c \<and> 0 < cl_target_generation c"
  "snd (commit_target e c) \<Longrightarrow> only_cfg (promote_target_locked (now_epoch e) c) (fst (commit_target e c))"
  "\<not> snd (commit_target e c) \<Longrightarrow> fst (commit_target e c) = c"
proof -
  let ?p = "promote_target_locked (now_epoch e) c"
  let ?f = "fold (\<lambda>p. setting_delete e (done_setting (p_id p))) (cl_peers ?p) ?p"
  have "only_cfg ?p ?f" by (rule only_cfg_fold) simp
  from only_cfg_trans [OF this only_cfg_settings(2) [of ?f e SETTING_LOCK]]
  have "only_cfg ?p (persist_state e (setting_delete e SETTING_LOCK ?f))" by (rule only_cfg_trans) simp
  then show "snd (commit_target e c) \<Longrightarrow> only_cfg (promote_target_locked (now_epoch e) c) (fst (commit_target e c))"
    by (simp add: commit_target_def Let_def split: if_splits)
qed (auto simp: commit_target_def Let_def)

lemma promote_tables:
  assumes "cl_target_generation c \<noteq> 0" "target_table c \<noteq> []"
  shows "cl_ranges (promote_target_locked now c) = target_table c"
    "cl_generation (promote_target_locked now c) = cl_target_generation c"
    "cl_target_generation (promote_target_locked now c) = 0"
  using assms by (auto simp: promote_target_locked_def target_table_def)

lemma commit_target_tables:
  assumes "snd (commit_target e c)" "target_table c \<noteq> []"
  shows "cl_ranges (fst (commit_target e c)) = target_table c"
    "cl_generation (fst (commit_target e c)) = cl_target_generation c"
    "cl_target_generation (fst (commit_target e c)) = 0"
  using promote_tables [of c] commit_target_spec(1) [of e c] only_cfgD [OF commit_target_spec(2) [OF assms(1)]] assms
  by simp_all


definition demo_wave :: edb_cluster where
  "demo_wave = demo_saved\<lparr>cl_leader := ''n2'', cl_target_generation := 2, cl_ntarget_ranges := 1,
     cl_peers := [demo_member ''n1'' 7001, (demo_member ''n2'' 7002)\<lparr>p_compliant_gen := 2\<rparr>],
     cl_target_ranges := [\<lparr>rg_node_id = ''n2'', rg_start = ''0'', rg_end = ''f''\<rparr>]\<rparr>"

lemma demo_wave_inv: "cluster_inv demo_wave"
  by (simp add: cluster_inv_def target_ok_def peers_ok_def peer_ok_def demo_wave_def demo_saved_def demo_member_def
      demo_cluster_def EDB_NODE_ID_MAX_def EDB_ADDR_MAX_def)

lemma demo_wave_simps [simp]:
  "cl_cfg demo_wave = demo_config" "cl_leader demo_wave = ''n2''" "cl_self_id demo_wave = ''n2''"
  "cl_target_generation demo_wave = 2" "cl_generation demo_wave = 1"
  "cl_peers demo_wave = [demo_member ''n1'' 7001, (demo_member ''n2'' 7002)\<lparr>p_compliant_gen := 2\<rparr>]"
  "target_table demo_wave = [\<lparr>rg_node_id = ''n2'', rg_start = ''0'', rg_end = ''f''\<rparr>]"
  by (simp_all add: demo_wave_def demo_saved_def demo_cluster_def target_table_def)

lemma demo_wave_promotes:
  "all_compliant (json_env 9) 2 demo_wave (required_nodes demo_wave) = (demo_wave, True)"
  by (simp add: required_nodes_def add_required_def node_compliant_def edb_cluster_peers_def demo_member_def MAX_PEERS_def
      EDB_NODE_ID_MAX_def snprintf_s_id)


lemma same_nodes_iff: "same_nodes ranges ids \<longleftrightarrow> map rg_node_id ranges = ids"
  unfolding same_nodes_def by (induction ranges arbitrary: ids) (auto simp: list_all2_Cons1)

lemma slices_nodes:
  assumes "\<forall>x \<in> set ids. length x < EDB_NODE_ID_MAX"
  shows "map rg_node_id (build_slices ids) = ids"
  using assms by (intro nth_equalityI) (auto simp: build_slices_def build_slice_def snprintf_s_id Let_def)

lemma publish_locked_spec:
  assumes "cluster_inv cl"
  defines "ids \<equiv> sort (online_ids cl)"
  shows "snd (publish_target_locked cl) \<longleftrightarrow> ids \<noteq> [] \<and>
      map rg_node_id (if cl_target_generation cl = 0 then cl_ranges cl else target_table cl) \<noteq> ids"
    "snd (publish_target_locked cl) \<Longrightarrow> target_table (fst (publish_target_locked cl)) = build_slices ids"
    "snd (publish_target_locked cl) \<Longrightarrow>
      max (cl_generation cl) (cl_target_generation cl) < cl_target_generation (fst (publish_target_locked cl))"
    "cl_ranges (fst (publish_target_locked cl)) = cl_ranges cl" "cl_peers (fst (publish_target_locked cl)) = cl_peers cl"
    "cl_self_id (fst (publish_target_locked cl)) = cl_self_id cl" "cl_leader (fst (publish_target_locked cl)) = cl_leader cl"
    "\<not> snd (publish_target_locked cl) \<Longrightarrow> fst (publish_target_locked cl) = cl"
proof -
  have t: "cl_target_generation cl = 0 \<or> 0 < cl_target_generation cl" "0 \<le> cl_generation cl"
    "cl_target_generation cl = 0 \<or> cl_generation cl < cl_target_generation cl"
    using assms(1) unfolding cluster_inv_def target_ok_def by linarith+
  have n: "cl_ntarget_ranges cl \<noteq> length ids \<Longrightarrow> map rg_node_id (target_table cl) \<noteq> ids"
    using assms(1) by (metis cluster_inv_def length_map length_take min.absorb2 target_ok_def target_table_def)
  have l: "length (cl_ranges cl) \<noteq> length ids \<Longrightarrow> map rg_node_id (cl_ranges cl) \<noteq> ids"
    by (metis length_map)
  note d = publish_target_locked_def [of cl, unfolded sort_ids_sort, folded ids_def]
  show "snd (publish_target_locked cl) \<longleftrightarrow> ids \<noteq> [] \<and>
      map rg_node_id (if cl_target_generation cl = 0 then cl_ranges cl else target_table cl) \<noteq> ids"
    using t(1) n l by (auto simp: d Let_def same_nodes_iff)
  let ?cl' = "cl\<lparr>cl_target_ranges := build_slices ids @ drop (length ids) (cl_target_ranges cl), cl_ntarget_ranges := length ids,
    cl_target_generation := (if 0 < cl_target_generation cl then cl_target_generation cl + 1 else cl_generation cl + 1)\<rparr>"
  have alt: "publish_target_locked cl = (cl, False) \<or> publish_target_locked cl = (?cl', True)"
    unfolding d Let_def by (simp only: split: if_split) simp
  then show "snd (publish_target_locked cl) \<Longrightarrow> target_table (fst (publish_target_locked cl)) = build_slices ids"
    by (elim disjE) (simp_all add: target_table_def build_slices_def)
  show "snd (publish_target_locked cl) \<Longrightarrow>
      max (cl_generation cl) (cl_target_generation cl) < cl_target_generation (fst (publish_target_locked cl))"
    using alt t by (elim disjE) simp_all
  show "cl_ranges (fst (publish_target_locked cl)) = cl_ranges cl" "cl_peers (fst (publish_target_locked cl)) = cl_peers cl"
    "cl_self_id (fst (publish_target_locked cl)) = cl_self_id cl" "cl_leader (fst (publish_target_locked cl)) = cl_leader cl"
    "\<not> snd (publish_target_locked cl) \<Longrightarrow> fst (publish_target_locked cl) = cl"
    using alt by (elim disjE; simp)+
qed

lemma sort_empty_iff: "sort xs = [] \<longleftrightarrow> xs = []"
  by (metis set_empty set_sort)

lemma online_ids_cong: "cl_peers c = cl_peers cl \<Longrightarrow> cl_self_id c = cl_self_id cl \<Longrightarrow> online_ids c = online_ids cl"
  by (simp add: online_ids_def is_online_view_def [abs_def])

lemma publish_only_cfg:
  "only_cfg (fst (if leader_is_self_locked cl then publish_target_locked cl else (cl, False))) (fst (edb_cluster_publish_target e cl))"
  "snd (edb_cluster_publish_target e cl) \<longleftrightarrow> leader_is_self_locked cl \<and> snd (publish_target_locked cl)"
  by (simp_all add: edb_cluster_publish_target_def split_beta)

text \<open>
  Starting a wave: the leader publishes a target exactly when the members it sees online are
  not those of the pending target or, with none pending, of the live table. The target then divides
  the key space among exactly these members in id order, its generation is above all earlier ones,
  the live table stays in force, and publishing again at once publishes nothing.
\<close>

theorem publish_target_fresh:
  fixes e :: sqlite_env
  assumes "cluster_inv cl"
  defines "r \<equiv> edb_cluster_publish_target e cl"
  shows "(snd r \<longleftrightarrow> leader_is_self_locked cl \<and> online_ids cl \<noteq> [] \<and>
      map rg_node_id (if cl_target_generation cl = 0 then cl_ranges cl else target_table cl) \<noteq> sort (online_ids cl)) \<and>
    (snd r \<longrightarrow> target_table (fst r) = build_slices (sort (online_ids cl)) \<and>
      cl_generation cl < cl_target_generation (fst r) \<and> cl_target_generation cl < cl_target_generation (fst r)) \<and>
    cl_ranges (fst r) = cl_ranges cl \<and> \<not> snd (edb_cluster_publish_target e (fst r))"
proof -
  note p = publish_locked_spec [OF assms(1)]
  note c = publish_only_cfg [where cl = cl and e = e, folded r_def]
  show ?thesis
  proof (cases "snd r")
    case True
    then have oc: "only_cfg (fst (publish_target_locked cl)) (fst r)" and pub: "snd (publish_target_locked cl)"
      using c by (simp_all split: if_splits)
    note o = only_cfgD [OF oc]
    have on: "online_ids (fst r) = online_ids cl" using o(1,3) p(5,6) by (intro online_ids_cong) simp_all
    have ids: "\<forall>x \<in> set (sort (online_ids cl)). length x < EDB_NODE_ID_MAX"
      using assms(1) by (auto simp: online_ids_def cluster_inv_def peers_ok_def peer_ok_def)
    have inv: "cluster_inv (fst r)"
      using evolves_publish [of cl] assms(1) oc
      by (auto simp: evolves_def only_cfg_def cluster_inv_def target_ok_def)
    have "map rg_node_id (target_table (fst r)) = sort (online_ids (fst r))" "cl_target_generation (fst r) \<noteq> 0"
      using o p(2,3) [OF pub] on slices_nodes [OF ids] assms(1) by (auto simp: cluster_inv_def target_ok_def)
    then have "\<not> snd (edb_cluster_publish_target e (fst r))"
      using publish_only_cfg(2) [where cl = "fst r" and e = e] publish_locked_spec(1) [OF inv] by simp
    then show ?thesis using True c(2) p(1-4) o by (auto simp: sort_empty_iff)
  next
    case False
    then have "r = (cl, False)" by (auto simp: r_def edb_cluster_publish_target_def split_beta p(8) prod_eq_iff)
    then show ?thesis using False c(2) p(1) by (auto simp: r_def sort_empty_iff)
  qed
qed

theorem publish_target_fresh_witness:
  "target_table (fst (edb_cluster_publish_target (json_env 9) (demo_saved\<lparr>cl_leader := ''n2''\<rparr>))) = build_slices [''n1'', ''n2'']"
proof -
  let ?cl = "demo_saved\<lparr>cl_leader := ''n2''\<rparr>"
  have inv: "cluster_inv ?cl" using demo_saved_inv by (simp add: cluster_inv_def target_ok_def)
  have "online_ids ?cl = [''n1'', ''n2'']" "leader_is_self_locked ?cl" "cl_target_generation ?cl = 0"
    "map rg_node_id (cl_ranges ?cl) = [''n1'']"
    by (simp_all add: demo_saved_def demo_cluster_def online_ids_def is_online_view_def first_match_def demo_member_def
        leader_is_self_locked_def)
  moreover from this(1) have "sort (online_ids ?cl) = [''n1'', ''n2'']" by simp
  ultimately show ?thesis using publish_target_fresh [OF inv, of "json_env 9"] by simp
qed

text \<open>
  The race between the sections of a promotion: when another thread of the leader publishes a newer
  target after the check, the last section promotes that target, over the members online now, at
  once; nothing was checked about them.
\<close>

theorem promotion_race:
  fixes e e2 :: sqlite_env
  assumes "cluster_inv cl" "leader_is_self_locked cl" "0 < cl_target_generation cl"
    and "online_ids cl \<noteq> []" "map rg_node_id (target_table cl) \<noteq> sort (online_ids cl)"
  defines "c \<equiv> fst (edb_cluster_publish_target e cl)"
  shows "cluster_step cl c \<and> cl_target_generation cl < cl_target_generation c \<and> snd (commit_target e2 c) \<and>
    cl_ranges (fst (commit_target e2 c)) = build_slices (sort (online_ids cl))"
proof -
  note p = publish_target_fresh [OF assms(1), of e, folded c_def]
  have pub: "snd (edb_cluster_publish_target e cl)" using p assms(2-5) by simp
  then have t: "target_table c = build_slices (sort (online_ids cl))" "cl_target_generation cl < cl_target_generation c"
    using p by simp_all
  have "only_cfg (fst (publish_target_locked cl)) c"
    using publish_only_cfg(1) [where cl = cl and e = e] assms(2) by (simp add: c_def)
  then have "leader_is_self_locked c"
    using only_cfgD(3,7) [of "fst (publish_target_locked cl)" c] publish_locked_spec(6,7) [OF assms(1)] assms(2)
    by (auto simp: leader_is_self_locked_def)
  then have k: "snd (commit_target e2 c)" using t(2) assms(3) by (simp add: commit_target_spec(1))
  have "target_table c \<noteq> []" using t(1) assms(4) length_build_slices [of "sort (online_ids cl)"] by (metis length_0_conv length_sort)
  from commit_target_tables(1) [OF k this] t k cluster_step.publish [of cl e] show ?thesis by (simp add: c_def)
qed

theorem promotion_race_witness:
  "snd (edb_cluster_target_compliant (json_env 9) demo_wave) \<and>
   ''n1'' \<in> rg_node_id ` set (cl_ranges (fst (commit_target (json_env 9) (fst (edb_cluster_publish_target (json_env 9) demo_wave))))) \<and>
   \<not> gossiped_flag demo_wave ''n1'' 1 \<and> \<not> done_flag (json_env 9) demo_wave ''n1'' 1"
proof -
  have on: "online_ids demo_wave = [''n1'', ''n2'']"
    by (simp add: online_ids_def is_online_view_def first_match_def demo_member_def)
  then have s: "sort (online_ids demo_wave) = [''n1'', ''n2'']" by simp
  have "leader_is_self_locked demo_wave" by (simp add: leader_is_self_locked_def)
  from promotion_race [OF demo_wave_inv this, of "json_env 9" "json_env 9"] on s
  have "cl_ranges (fst (commit_target (json_env 9) (fst (edb_cluster_publish_target (json_env 9) demo_wave)))) =
      build_slices [''n1'', ''n2'']" by simp
  moreover have "rg_node_id ` set (build_slices [''n1'', ''n2'']) = set (map rg_node_id (build_slices [''n1'', ''n2'']))" by simp
  moreover have "map rg_node_id (build_slices [''n1'', ''n2'']) = [''n1'', ''n2'']"
    by (rule slices_nodes) (simp add: EDB_NODE_ID_MAX_def)
  moreover have "snd (edb_cluster_target_compliant (json_env 9) demo_wave)"
    using demo_wave_promotes by (simp add: edb_cluster_target_compliant_def required_nodes_def add_required_def MAX_PEERS_def)
  moreover have "\<not> gossiped_flag demo_wave ''n1'' 1" by (simp add: gossiped_flag_def demo_member_def)
  moreover have "\<not> done_flag (json_env 9) demo_wave ''n1'' 1"
    by (simp add: done_flag_def edb_setting_get_def split_beta fetch_spec(1))
  ultimately show ?thesis by simp
qed

lemma collect_path: "cfg_ok e cfg \<Longrightarrow> en_path (cfg_engine (fst (collect e cfg ks))) = en_path (cfg_engine cfg)"
  using with_shard_spec [OF cfg_okD(1,2), of e cfg e cfg "\<lambda>sh. (sh, edb_shard_all e sh None)" EDB_SYSTEM_DB ks None]
  by (auto simp: collect_def edb_all_def split_beta)

lemma keyspace_list_spec:
  assumes "cfg_ok e cfg" "list_ok e"
  shows "cfg_ok e (fst (edb_keyspace_list e cfg))" "en_path (cfg_engine (fst (edb_keyspace_list e cfg))) = en_path (cfg_engine cfg)"
    "shard_view (cfg_engine (fst (edb_keyspace_list e cfg))) = shard_view (cfg_engine cfg)"
    "cfg_ok e cfg' \<Longrightarrow> shard_view (cfg_engine cfg') = shard_view (cfg_engine cfg) \<Longrightarrow>
      snd (edb_keyspace_list e cfg') = snd (edb_keyspace_list e cfg)"
  using collect_spec [OF assms(1,2)] collect_path [OF assms(1)] collect_spec(1) [OF _ assms(2)]
  by (simp_all add: edb_keyspace_list_def split_beta)

text \<open>
  C24. A shard is collected only when it is redundant: no wave is pending and no restore is going
  on, it is a shard of the directory and not one of the system database, and the holders it has under
  the replication factor that the node's own configuration records for its database are all online
  and this node is none of them. The collection touches nothing else: when unlinking works, every
  other shard has the rows it had. (The settings, the registered keyspaces and the recorded factor
  are those of the state before; the data directory's path must leave room for the file names.)
\<close>

theorem gc_redundant_safe:
  assumes "edb_cluster_gc_redundant e unlink_ok names cl = (cl', Some key)"
    and "cfg_ok e (cl_cfg cl)" "list_ok e" "short_path cl"
  shows "cl_target_generation cl = 0 \<and> \<not> snd (restore_locked e cl) \<and>
    key \<in> set (edb_engine_shard_keys names 256) \<and> key \<notin> shard_key EDB_SYSTEM_DB ` set edb_config_system_keyspaces \<and>
    (let hs = take (nat (recorded_factor e cl (snd (edb_keyspace_list e (cl_cfg cl))) key)) (edb_cluster_holders cl key MAX_PEERS)
     in hs \<noteq> [] \<and> cl_self_id cl \<notin> set hs \<and> (\<forall>h \<in> set hs. \<exists>p \<in> set (cl_peers cl). p_id p = h \<and> p_online p)) \<and>
    (unlink_ok \<longrightarrow>
      shard_view (cfg_engine (cl_cfg cl')) = (shard_view (cfg_engine (cl_cfg cl)))(key := []))"
proof -
  let ?l = "fst (restore_locked e cl)"
  let ?c0 = "?l\<lparr>cl_cfg := fst (edb_keyspace_list e (cl_cfg ?l))\<rparr>" and ?ks = "snd (edb_keyspace_list e (cl_cfg cl))"
  have t: "cl_target_generation cl = 0" "\<not> snd (restore_locked e cl)"
    using assms(1) by (auto simp: edb_cluster_gc_redundant_def split_beta Let_def split: if_splits)
  have l: "only_cfg cl ?l" "cfg_ok e (cl_cfg ?l)" "shard_view (cfg_engine (cl_cfg ?l)) = shard_view (cfg_engine (cl_cfg cl))"
    "en_path (cfg_engine (cl_cfg ?l)) = en_path (cfg_engine (cl_cfg cl))"
    using fetch_spec [OF assms(2)] by (simp_all add: restore_locked_def setting_doc_def edb_setting_get_def split_beta)
  note k = keyspace_list_spec [OF l(2) assms(3)]
  have ks: "snd (edb_keyspace_list e (cl_cfg ?l)) = ?ks"
    using keyspace_list_spec(4) [OF assms(2,3) l(2,3)] .
  have c0: "gc_frame e unlink_ok cl ?c0" "cfg_ok e (cl_cfg ?c0)" "short_path ?c0"
    using k(1-3) l only_cfg_trans [OF l(1) only_cfg_update] assms(4) by (simp_all add: gc_frame_def short_path_def)
  have "gc_keys e unlink_ok ?ks (edb_cluster_peers ?c0 MAX_PEERS) ?c0 (edb_engine_shard_keys names 256) = (cl', Some key)"
    using assms(1) t ks by (simp add: edb_cluster_gc_redundant_def split_beta Let_def)
  from gc_keys_spec [OF this c0(2,3)] obtain c where c: "gc_frame e unlink_ok ?c0 c" "key \<in> set (edb_engine_shard_keys names 256)"
    "\<not> edb_config_is_system_key (cl_cfg c) key" "only_cfg c cl'"
    "shard_redundant c (edb_cluster_peers ?c0 MAX_PEERS) (recorded_factor e c ?ks key) key"
    "unlink_ok \<longrightarrow> shard_view (cfg_engine (cl_cfg cl')) = (shard_view (cfg_engine (cl_cfg c)))(key := [])"
    using shard_keys_length by blast
  have fr: "gc_frame e unlink_ok cl c" by (rule gc_frame_trans [OF c0(1) c(1)])
  then have oc: "only_cfg cl c" and sp: "short_path c" using assms(4) by (simp_all add: gc_frame_def short_path_def)
  have rf: "recorded_factor e c ?ks key = recorded_factor e cl ?ks key"
    by (rule recorded_factor_frame [OF fr])
  let ?rf = "recorded_factor e cl ?ks key" and ?h = "edb_cluster_holders cl key MAX_PEERS"
  have h: "take (nat (if int (length ?h) < ?rf then int (length ?h) else ?rf)) ?h = take (nat ?rf) ?h" by simp
  have red: "\<not> fst (scan_holders (cl_self_id cl) (edb_cluster_peers ?c0 MAX_PEERS) (take (nat ?rf) ?h)) \<and>
      snd (scan_holders (cl_self_id cl) (edb_cluster_peers ?c0 MAX_PEERS) (take (nat ?rf) ?h))"
    "0 < ?rf" "?h \<noteq> []"
    using c(5) unfolding rf shard_redundant_def holders_only_cfg [OF oc] only_cfgD(3) [OF oc] Let_def h
    by (auto simp: split_beta split: if_splits)
  have "only_cfg cl ?c0" using c0(1) by (simp add: gc_frame_def)
  then have "set (edb_cluster_peers ?c0 MAX_PEERS) \<subseteq> set (cl_peers cl)"
    using only_cfgD(1) by (auto simp: edb_cluster_peers_def dest: in_set_takeD)
  then have on: "\<forall>h \<in> set (take (nat ?rf) ?h). \<exists>p \<in> set (cl_peers cl). p_id p = h \<and> p_online p"
    using red(1) [unfolded scan_holders_iff] by (meson subsetD)
  have "cl_self_id cl \<notin> set (take (nat ?rf) ?h)" "take (nat ?rf) ?h \<noteq> []"
    using red(1) [unfolded scan_holders_iff] red(2,3) by simp_all
  moreover have "key \<notin> shard_key EDB_SYSTEM_DB ` set edb_config_system_keyspaces"
    using c(3) by (simp add: system_key_iff [OF sp])
  ultimately show ?thesis
    using t c(2,6) fr on by (simp only: Let_def gc_frame_def) simp
qed

text \<open>A shard name no derived key has, so that it is not a key of the system database.\<close>

definition demo_key :: string where
  "demo_key = replicate 32 (CHR ''z'')"

lemma demo_key_foreign: "\<not> edb_config_is_system_key cfg demo_key"
proof -
  have "\<not> is_hex_char (CHR ''z'')" by code_simp
  then have "edb_md5_hex s \<noteq> demo_key" for s
    using edb_md5_hex_chars [of "CHR ''z''" s] by (auto simp: demo_key_def)
  then show ?thesis
    by (auto simp: edb_config_is_system_key_def edb_shard_path_def shard_key_def Let_def split: option.splits if_splits)
qed

lemma demo_gc:
  "snd (edb_cluster_gc_redundant (json_env 9) True [demo_key @ ''.sqlite''] demo_saved) = Some demo_key"
proof -
  let ?e = "json_env 9" and ?l = "fst (restore_locked (json_env 9) demo_saved)"
  have cfg: "cl_cfg demo_saved = demo_config" by (simp add: demo_saved_def demo_cluster_def)
  have ok: "cfg_ok ?e (cl_cfg demo_saved)" "sett ?e demo_saved = (\<lambda>n. None)" by (simp_all add: cfg sett_def fun_eq_iff)
  note d = setting_doc_spec [OF ok(1), of "''server.restore_lock''"]
  have l: "\<not> snd (restore_locked ?e demo_saved)" "cfg_ok ?e (cl_cfg ?l)" "only_cfg demo_saved ?l"
    using d ok(2) by (simp_all add: restore_locked_def split_beta)
  have "cl_cfg ?l = fst (fetch ?e demo_config CFG_KEYSPACE_SETTINGS ''server.restore_lock'')"
    by (simp add: restore_locked_def setting_doc_def edb_setting_get_def split_beta cfg)
  then have v: "shard_view (cfg_engine (cl_cfg ?l)) k = []" for k
    using fetch_spec(5) [of ?e demo_config CFG_KEYSPACE_SETTINGS "''server.restore_lock''"] by simp
  have ks: "snd (edb_keyspace_list ?e (cl_cfg ?l)) = []"
  proof -
    have "scan_rows ?e rows = rows" for rows by (simp add: json_env_def env_at_def)
    then have "snd (collect ?e (cl_cfg ?l) CFG_KEYSPACE_KEYSPACES) = Some (JArray [])"
      using collect_spec(1) [OF l(2)] v by (simp add: live_docs_def List.map_filter_simps)
    then show ?thesis by (simp add: edb_keyspace_list_def split_beta)
  qed
  let ?c = "?l\<lparr>cl_cfg := fst (edb_keyspace_list ?e (cl_cfg ?l))\<rparr>"
  have oc: "only_cfg demo_saved ?c" by (rule only_cfg_trans [OF l(3)]) simp
  have f: "key_factor ?e ?c [] demo_key = (?c, 1)" by (simp add: key_factor_def first_match_def)
  have h: "edb_cluster_holders ?c demo_key MAX_PEERS = [''n1'', ''n2'']"
  proof -
    have m: "member_ids demo_saved = [''n1'', ''n2'']"
      by (simp add: member_ids_def demo_saved_def demo_cluster_def demo_member_def)
    have "holder_start demo_saved demo_key [''n1'', ''n2''] = 0"
      by (simp add: holder_start_def demo_saved_def demo_cluster_def first_match_def)
    then show ?thesis
      unfolding holders_only_cfg [OF oc] using holders_rotate [of demo_saved demo_key] m
      by (simp add: demo_key_def demo_saved_def MAX_PEERS_def EDB_NODE_ID_MAX_def)
  qed
  have "shard_redundant ?c (edb_cluster_peers ?c MAX_PEERS) 1 demo_key"
    using only_cfgD(1,3) [OF oc] unfolding shard_redundant_def h
    by (simp add: edb_cluster_peers_def demo_saved_def demo_cluster_def demo_member_def MAX_PEERS_def)
  moreover have "snd (edb_shard_gc True en demo_key)" for en
    by (simp add: edb_shard_gc_def split_beta gc_unlink_def Let_def demo_key_def)
  moreover have "edb_engine_shard_keys [demo_key @ ''.sqlite''] 256 = [demo_key]"
    by (simp add: is_shard_name_def demo_key_def)
  moreover have "cl_target_generation demo_saved = 0" by (simp add: demo_saved_def demo_cluster_def)
  ultimately show ?thesis
    using l(1) ks f demo_key_foreign by (simp add: edb_cluster_gc_redundant_def split_beta Let_def)
qed

lemma demo_keyspaces: "snd (edb_keyspace_list (json_env 9) (cl_cfg demo_saved)) = []"
proof -
  let ?e = "json_env 9"
  have "cl_cfg demo_saved = demo_config" by (simp add: demo_saved_def demo_cluster_def)
  then have ok: "cfg_ok ?e (cl_cfg demo_saved)" "shard_view (cfg_engine (cl_cfg demo_saved)) k = []" for k by simp_all
  have "scan_rows ?e rows = rows" for rows by (simp add: json_env_def env_at_def)
  then have "snd (collect ?e (cl_cfg demo_saved) CFG_KEYSPACE_KEYSPACES) = Some (JArray [])"
    using collect_spec(1) [OF ok(1)] ok(2) by (simp add: live_docs_def List.map_filter_simps)
  then show ?thesis by (simp add: edb_keyspace_list_def split_beta)
qed

theorem gc_redundant_safe_witness:
  "snd (edb_cluster_gc_redundant (json_env 9) True [demo_key @ ''.sqlite''] demo_saved) = Some demo_key \<and>
   cl_self_id demo_saved \<notin> set (take 1 (edb_cluster_holders demo_saved demo_key MAX_PEERS)) \<and>
   take 1 (edb_cluster_holders demo_saved demo_key MAX_PEERS) \<noteq> []"
proof -
  obtain cl' where gc: "edb_cluster_gc_redundant (json_env 9) True [demo_key @ ''.sqlite''] demo_saved = (cl', Some demo_key)"
    using demo_gc by (metis prod.collapse)
  have "cl_cfg demo_saved = demo_config" by (simp add: demo_saved_def demo_cluster_def)
  then have "cfg_ok (json_env 9) (cl_cfg demo_saved)" "short_path demo_saved"
    by (simp add: \<open>cl_cfg demo_saved = demo_config\<close>, simp add: short_path_def demo_config_def empty_engine_def)
  from gc_redundant_safe [OF gc this(1) _ this(2)] show ?thesis
    unfolding demo_keyspaces by (simp add: gc Let_def recorded_factor_def first_match_def)
qed

end
