(* ===== verification/Membership_Props.thy ===== *)
theory Membership_Props
  imports Rebalance_Props
begin

text \<open>
  Properties of the handlers of connections: how the first node of a cluster starts, and three
  places where the handlers do something else than their comments say.
\<close>

lemma recompute_only_leader: "recompute_leader cl = cl\<lparr>cl_leader := cl_leader (recompute_leader cl)\<rparr>"
  by (auto simp: recompute_leader_def Let_def split: option.split)

lemma recompute_fields [simp]:
  "cl_peers (recompute_leader cl) = cl_peers cl" "cl_self_id (recompute_leader cl) = cl_self_id cl"
  "cl_ranges (recompute_leader cl) = cl_ranges cl" "cl_generation (recompute_leader cl) = cl_generation cl"
  "cl_target_generation (recompute_leader cl) = cl_target_generation cl" "cl_cfg (recompute_leader cl) = cl_cfg cl"
  by (subst recompute_only_leader; simp)+

section \<open>The first node\<close>

lemma restore_nothing:
  assumes "cfg_ok e (cl_cfg cl)" "sett e cl SETTING_MEMBERS = None" "sett e cl SETTING_RANGES = None"
    "sett e cl SETTING_TARGET = None"
  shows "only_cfg cl (restore_state e cl)"
proof -
  let ?a = "fst (setting_doc e SETTING_MEMBERS cl)"
  note a = setting_doc_spec [OF assms(1), of SETTING_MEMBERS]
  let ?b = "fst (setting_doc e SETTING_RANGES ?a)"
  note b = setting_doc_spec [OF a(1), of SETTING_RANGES]
  let ?c = "fst (setting_doc e SETTING_TARGET ?b)"
  note c = setting_doc_spec [OF b(1), of SETTING_TARGET]
  have n: "snd (setting_doc e SETTING_MEMBERS cl) = None" "snd (setting_doc e SETTING_RANGES ?a) = None"
    "snd (setting_doc e SETTING_TARGET ?b) = None"
    using a(2,5) b(2,5) c(5) assms(2-4) by simp_all
  have "restore_state e cl = ?c"
    unfolding restore_state_def merge_setting_def using n by (simp add: split_beta Let_def)
  moreover have "only_cfg cl ?c"
    by (rule only_cfg_trans [OF only_cfg_trans [OF only_cfg_settings(4) only_cfg_settings(4)] only_cfg_settings(4)])
  ultimately show ?thesis by simp
qed

text \<open>
  The first node of a cluster: started with no saved state, a node is the only member, leads,
  and owns every key under a live table of generation one.
\<close>

theorem first_node:
  assumes "cfg_ok e cfg" "addr \<noteq> []" "0 < port" "port \<le> 65535"
    and "cfg_doc e CFG_KEYSPACE_SETTINGS cfg SETTING_MEMBERS = None"
    and "cfg_doc e CFG_KEYSPACE_SETTINGS cfg SETTING_RANGES = None"
    and "cfg_doc e CFG_KEYSPACE_SETTINGS cfg SETTING_TARGET = None"
  shows "\<exists>cl. edb_cluster_start e cfg addr port = Some cl \<and> member_ids cl = [node_id_for addr port] \<and>
    cl_self_id cl = node_id_for addr port \<and> leader_is_self_locked cl \<and> cl_generation cl = 1 \<and>
    cl_ranges cl = build_slices [node_id_for addr port]"
proof -
  let ?n = "new_cluster cfg addr port" and ?id = "node_id_for addr port"
  define r where "r = restore_state e ?n"
  have r: "only_cfg ?n r"
    unfolding r_def using assms by (intro restore_nothing) (simp_all add: sett_def new_cluster_def)
  have id: "?id \<noteq> []" "length ?id < EDB_NODE_ID_MAX"
    by (simp_all add: node_id_for_def Let_def snprintf_s_def EDB_NODE_ID_MAX_def)
  have rf: "cl_peers r = []" "cl_self_id r = ?id" "cl_ranges r = []" "cl_generation r = 0"
    using only_cfgD [OF r] by (simp_all add: new_cluster_def)
  define a where "a = add_self_locked (now_epoch e) r"
  obtain p where p: "cl_peers a = [p]" "p_id p = ?id" "\<not> p_removed p"
    using rf id by (simp add: a_def add_self_locked_def first_match_def snprintf_s_id)
  have ids: "cl_self_id a = ?id" "cl_ranges a = []" "cl_generation a = 0"
    using rf by (simp_all add: a_def add_self_locked_def first_match_def)
  have "is_online_view a ?id" using ids(1) by (simp add: is_online_view_def)
  then have l: "recompute_leader a = a\<lparr>cl_leader := ?id\<rparr>"
    using p id by (simp add: recompute_leader_def better_leader_def snprintf_s_id)
  let ?c = "a\<lparr>cl_leader := ?id, cl_ranges := build_slices [?id], cl_generation := 1\<rparr>"
  have "edb_cluster_start e cfg addr port = Some (persist_state e ?c)"
    using assms(2-4) id(1) ids
    by (simp add: edb_cluster_start_def Let_def r_def [symmetric] a_def [symmetric] l leader_is_self_locked_def)
  moreover have "only_cfg ?c (persist_state e ?c)" by simp
  note o = only_cfgD [OF this]
  moreover have "leader_is_self_locked ?c" using ids id by (simp add: leader_is_self_locked_def)
  ultimately show ?thesis
    using p ids by (intro exI [of _ "persist_state e ?c"]) (simp add: member_ids_def leader_is_self_locked_def)
qed

theorem first_node_witness:
  "\<exists>cl. edb_cluster_start (json_env 9) demo_config ''h'' 7000 = Some cl \<and> cl_generation cl = 1"
  using first_node [of "json_env 9" demo_config "''h''" 7000] by auto

section \<open>Connections\<close>

lemma closed_only_tables:
  assumes "leader_is_self_locked (recompute_leader cl)" "node \<notin> p_id ` set (cl_peers cl)"
  shows "cl_target_generation (conn_closed e cl node) = 0" "cl_peers (conn_closed e cl node) = cl_peers cl"
proof -
  have u: "cl\<lparr>cl_peers := update_first (\<lambda>p. strcmp (p_id p) node = 0) (\<lambda>p. p\<lparr>p_online := False\<rparr>) (cl_peers cl)\<rparr> = cl"
    using assms(2) by (subst update_first_no_match) auto
  let ?a = "setting_delete e SETTING_LOCK ((recompute_leader cl)\<lparr>cl_target_generation := 0, cl_ntarget_ranges := 0\<rparr>)"
  have a: "only_cfg ((recompute_leader cl)\<lparr>cl_target_generation := 0, cl_ntarget_ranges := 0\<rparr>) ?a" by simp
  have "\<exists>b. cl_target_generation b = 0 \<and> cl_peers b = cl_peers cl \<and> conn_closed e cl node = persist_state e b"
    unfolding conn_closed_def Let_def u using assms(1) only_cfgD(1,4) [OF a]
    by (intro exI [of _ "if cl_ranges ?a \<noteq> [] \<and> 0 < length (sort_ids (online_ids ?a)) \<and>
          length (sort_ids (online_ids ?a)) \<noteq> length (cl_ranges ?a)
        then ?a\<lparr>cl_ranges := build_slices (sort_ids (online_ids ?a)), cl_generation := cl_generation ?a + 1\<rparr> else ?a"])
      simp
  then show "cl_target_generation (conn_closed e cl node) = 0" "cl_peers (conn_closed e cl node) = cl_peers cl"
    using only_cfgD(1,4) [OF only_cfg_persist] by auto
qed

text \<open>
  Any connection that ends on the leader voids the pending wave: also one of a caller that is
  no member, such as the one-shot connections of replication, reads and snapshots, although no
  member has left.
\<close>

theorem rpc_end_voids_wave:
  assumes "leader_is_self_locked (recompute_leader cl)" "''ephemeral'' \<notin> p_id ` set (cl_peers cl)"
    and "json_get (Some hello) ''node_id'' = Some (JString ''ephemeral'')" "json_get (Some hello) ''addr'' = None"
    and "cl_self_id cl \<noteq> ''ephemeral''"
  shows "\<exists>cl1. conn_hello e cl [] (Some hello) = (cl1, Registered ''ephemeral'') \<and> cl_peers cl1 = cl_peers cl \<and>
    cl_target_generation cl1 = cl_target_generation cl \<and>
    cl_target_generation (conn_closed e cl1 ''ephemeral'') = 0 \<and> cl_peers (conn_closed e cl1 ''ephemeral'') = cl_peers cl"
proof -
  have "conn_hello e cl [] (Some hello) = (cl, Registered ''ephemeral'')"
    using assms(3-5)
    by (simp add: conn_hello_def Let_def hello_node_def hello_is_self_def hello_admit_def hello_adopt_def snprintf_s_def
        EDB_NODE_ID_MAX_def)
  then show ?thesis using closed_only_tables [OF assms(1,2)] by auto
qed

definition demo_rpc :: cJSON where
  "demo_rpc = JObject [(''node_id'', JString ''ephemeral'')]"

definition demo_alone :: edb_cluster where
  "demo_alone = demo_wave\<lparr>cl_peers := [demo_member ''n2'' 7002]\<rparr>"

lemma demo_alone_leads: "leader_is_self_locked (recompute_leader demo_alone)"
  by (simp add: demo_alone_def recompute_leader_def better_leader_def is_online_view_def demo_member_def
      leader_is_self_locked_def)

theorem rpc_end_voids_wave_witness:
  "\<exists>cl1. conn_hello (json_env 9) demo_alone [] (Some demo_rpc) = (cl1, Registered ''ephemeral'') \<and>
     cl_target_generation cl1 = 2 \<and> cl_target_generation (conn_closed (json_env 9) cl1 ''ephemeral'') = 0"
  using rpc_end_voids_wave [OF demo_alone_leads, of demo_rpc "json_env 9"]
  by (auto simp: demo_alone_def demo_member_def demo_rpc_def)

lemma conn_hello_declared:
  assumes "json_get (Some hello) ''node_id'' = Some (JString node)" "json_get (Some hello) ''addr'' = Some (JString addr)"
    and "node \<noteq> []" "length node < EDB_NODE_ID_MAX" "node \<noteq> cl_self_id cl" "length addr < EDB_ADDR_MAX"
    and "node \<notin> p_id ` set (cl_peers cl)" "length (cl_peers cl) < MAX_PEERS"
    and "cl_target_generation cl = 0 \<or> node = ''ephemeral''"
  shows "conn_hello e cl [] (Some hello) =
    (cl\<lparr>cl_peers := cl_peers cl @ [declared_peer (now_epoch e) addr (Some hello) (fresh_peer node)]\<rparr>, Registered node)"
proof -
  have f: "first_match (\<lambda>p. strcmp (p_id p) node = 0) (cl_peers cl) = None"
    using assms(7) by (auto simp: first_match_def find_None_iff)
  have n: "hello_node [] (Some hello) = node" "\<not> hello_is_self cl (Some hello)"
    using assms(1,4,5) by (simp_all add: hello_node_def hello_is_self_def snprintf_s_id)
  have "hello_admit cl False node j = (cl, None)" for j
    using assms(9) f by (auto simp: hello_admit_def)
  then show ?thesis
    using n f assms(2,3,6,8) by (simp add: conn_hello_def Let_def hello_adopt_def)
qed

lemma find_append: "(\<And>x. x \<in> set xs \<Longrightarrow> \<not> P x) \<Longrightarrow> List.find P (xs @ ys) = List.find P ys"
  by (induction xs) auto

lemma update_first_append: "(\<And>x. x \<in> set xs \<Longrightarrow> \<not> P x) \<Longrightarrow> update_first P f (xs @ ys) = xs @ update_first P f ys"
  by (induction xs) auto

text \<open>A peer that was contacted before only goes online when its connection is registered.\<close>

lemma conn_register_seen:
  assumes "cl_peers cl = ps @ [p]" "p_id p = node" "node \<notin> p_id ` set ps" "p_last_seen p \<noteq> 0"
  shows "conn_register e cl node = (recompute_leader cl)\<lparr>cl_peers := ps @ [p\<lparr>p_online := True\<rparr>]\<rparr>"
proof -
  have n: "\<not> strcmp (p_id x) node = 0" if "x \<in> set ps" for x using that assms(3) by auto
  have f: "first_match (\<lambda>p. strcmp (p_id p) node = 0) (ps @ [p]) = Some p"
    using assms(2) unfolding first_match_def by (subst find_append) (auto dest: n)
  have u: "update_first (\<lambda>p. strcmp (p_id p) node = 0) (\<lambda>p. p\<lparr>p_online := True\<rparr>) (ps @ [p]) = ps @ [p\<lparr>p_online := True\<rparr>]"
    using assms(2) by (subst update_first_append) (auto dest: n)
  show ?thesis
    unfolding conn_register_def Let_def recompute_fields assms(1) f u using assms(4) by (simp add: leader_react_def)
qed

text \<open>
  A new member does not start a wave: the handshake stores the time of the contact in its entry,
  so when the connection is registered the member does not count as new and the leader publishes
  no target; the comment says the wave starts right away. Only its entry goes online.
\<close>

theorem new_member_no_wave:
  assumes "json_get (Some hello) ''node_id'' = Some (JString node)" "json_get (Some hello) ''addr'' = Some (JString addr)"
    and "node \<noteq> []" "length node < EDB_NODE_ID_MAX" "node \<noteq> cl_self_id cl" "length addr < EDB_ADDR_MAX"
    and "node \<notin> p_id ` set (cl_peers cl)" "length (cl_peers cl) < MAX_PEERS"
    and "cl_target_generation cl = 0" "0 < now_epoch e"
  shows "\<exists>cl1. conn_hello e cl [] (Some hello) = (cl1, Registered node) \<and>
    member_ids (conn_register e cl1 node) = member_ids cl @ [node] \<and>
    cl_target_generation (conn_register e cl1 node) = 0 \<and> cl_ranges (conn_register e cl1 node) = cl_ranges cl"
proof -
  let ?p = "declared_peer (now_epoch e) addr (Some hello) (fresh_peer node)"
  let ?cl1 = "cl\<lparr>cl_peers := cl_peers cl @ [?p]\<rparr>"
  have p: "p_id ?p = node" "\<not> p_removed ?p" "p_last_seen ?p = now_epoch e"
    using assms(4) by (simp_all add: declared_peer_def fresh_peer_def snprintf_s_id)
  have h: "conn_hello e cl [] (Some hello) = (?cl1, Registered node)"
    using assms by (intro conn_hello_declared) auto
  have "conn_register e ?cl1 node = (recompute_leader ?cl1)\<lparr>cl_peers := cl_peers cl @ [?p\<lparr>p_online := True\<rparr>]\<rparr>"
    using p assms(7,10) by (intro conn_register_seen) auto
  with h p assms(9) show ?thesis by (simp add: member_ids_def)
qed

definition demo_hello :: "string \<Rightarrow> cJSON" where
  "demo_hello node = JObject [(''node_id'', JString node), (''addr'', JString ''10.0.0.9''), (''port'', json_int 7009)]"

theorem new_member_no_wave_witness:
  "\<exists>cl1. conn_hello (json_env 9) demo_saved [] (Some (demo_hello ''n9'')) = (cl1, Registered ''n9'') \<and>
     cl_target_generation (conn_register (json_env 9) cl1 ''n9'') = 0"
  using new_member_no_wave [of "demo_hello ''n9''" "''n9''" "''10.0.0.9''" demo_saved "json_env 9"]
  by (auto simp: demo_hello_def demo_saved_def demo_cluster_def demo_member_def EDB_NODE_ID_MAX_def EDB_ADDR_MAX_def
      MAX_PEERS_def)

text \<open>
  A caller that is no member becomes one: the connection on which a node asks the leader to void
  a wave names itself \<open>ephemeral\<close> and carries an address, so the leader adds a member of that name;
  registering the connection marks it online, and from then on it counts as a holder of keys.
\<close>

theorem ephemeral_becomes_member:
  assumes "json_get (Some hello) ''node_id'' = Some (JString ''ephemeral'')"
    and "json_get (Some hello) ''addr'' = Some (JString addr)" "length addr < EDB_ADDR_MAX"
    and "cl_self_id cl \<noteq> ''ephemeral''" "''ephemeral'' \<notin> p_id ` set (cl_peers cl)" "length (cl_peers cl) < MAX_PEERS"
    and "0 < now_epoch e"
  shows "\<exists>cl1. conn_hello e cl [] (Some hello) = (cl1, Registered ''ephemeral'') \<and>
    member_ids cl1 = member_ids cl @ [''ephemeral''] \<and>
    (\<exists>p \<in> set (cl_peers (conn_register e cl1 ''ephemeral'')). p_id p = ''ephemeral'' \<and> p_online p)"
proof -
  let ?p = "declared_peer (now_epoch e) addr (Some hello) (fresh_peer ''ephemeral'')"
  let ?cl1 = "cl\<lparr>cl_peers := cl_peers cl @ [?p]\<rparr>"
  have p: "p_id ?p = ''ephemeral''" "\<not> p_removed ?p" "p_last_seen ?p = now_epoch e"
    by (simp_all add: declared_peer_def fresh_peer_def snprintf_s_def EDB_NODE_ID_MAX_def)
  have h: "conn_hello e cl [] (Some hello) = (?cl1, Registered ''ephemeral'')"
    using assms by (intro conn_hello_declared) (auto simp: EDB_NODE_ID_MAX_def)
  have m: "member_ids ?cl1 = member_ids cl @ [''ephemeral'']" using p by (simp add: member_ids_def)
  have "\<exists>p \<in> set (cl_peers (conn_register e ?cl1 ''ephemeral'')). p_id p = ''ephemeral'' \<and> p_online p"
    by (subst conn_register_seen [of _ "cl_peers cl" ?p]) (use p assms(5,7) in auto)
  with h m show ?thesis by blast
qed

theorem ephemeral_becomes_member_witness:
  "\<exists>cl1. conn_hello (json_env 9) demo_wave [] (Some (demo_hello ''ephemeral'')) = (cl1, Registered ''ephemeral'') \<and>
     member_ids cl1 = [''n1'', ''n2'', ''ephemeral'']"
  using ephemeral_becomes_member [of "demo_hello ''ephemeral''" "''10.0.0.9''" demo_wave "json_env 9"]
  by (auto simp: demo_hello_def demo_member_def EDB_ADDR_MAX_def MAX_PEERS_def member_ids_def)

end
