(* ===== verification/Crypto.thy ===== *)
theory Crypto
  imports Sha256
begin

unbundle bit_operations_syntax

text \<open>
  The mesh cryptography of \<open>src/src/engine/epsilon_crypto.c\<close>: the ChaCha20 stream
  cipher, HMAC-SHA256, HKDF-SHA256 and their Encrypt-then-MAC composition. Buffers are byte
  lists; a failing call is \<open>None\<close>. Allocation is taken to succeed.
\<close>

section \<open>Little-endian words\<close>

definition load32_le :: "byte list \<Rightarrow> nat \<Rightarrow> u32" where
  "load32_le p off = ucast (p ! off) OR push_bit 8 (ucast (p ! (off + 1)))
     OR push_bit 16 (ucast (p ! (off + 2))) OR push_bit 24 (ucast (p ! (off + 3)))"

definition store32_le :: "u32 \<Rightarrow> byte list" where
  "store32_le v = [ucast v, ucast (drop_bit 8 v), ucast (drop_bit 16 v), ucast (drop_bit 24 v)]"

section \<open>ChaCha20\<close>

definition ROTL32 :: "u32 \<Rightarrow> nat \<Rightarrow> u32" where
  "ROTL32 v n = push_bit n v OR drop_bit (32 - n) v"

text \<open>
  The quarter round: \<open>a += b; d ^= a; d <<<= n\<close> and \<open>c += d; b ^= c; b <<<= n\<close>, in
  turn, with the rotations 16, 12, 8 and 7, on four entries of the state.
\<close>

fun QR_ad :: "nat \<Rightarrow> u32 \<times> u32 \<times> u32 \<times> u32 \<Rightarrow> u32 \<times> u32 \<times> u32 \<times> u32" where
  "QR_ad n (a, b, c, d) = (a + b, b, c, ROTL32 (d XOR (a + b)) n)"

fun QR_cb :: "nat \<Rightarrow> u32 \<times> u32 \<times> u32 \<times> u32 \<Rightarrow> u32 \<times> u32 \<times> u32 \<times> u32" where
  "QR_cb n (a, b, c, d) = (a, ROTL32 (b XOR (c + d)) n, c + d, d)"

fun QR_store :: "nat \<Rightarrow> nat \<Rightarrow> nat \<Rightarrow> nat \<Rightarrow> u32 list \<Rightarrow> u32 \<times> u32 \<times> u32 \<times> u32 \<Rightarrow> u32 list" where
  "QR_store ia ib ic idd x (a, b, c, d) = x[ia := a, ib := b, ic := c, idd := d]"

definition QR :: "nat \<Rightarrow> nat \<Rightarrow> nat \<Rightarrow> nat \<Rightarrow> u32 list \<Rightarrow> u32 list" where
  "QR ia ib ic idd x = QR_store ia ib ic idd x
     (QR_cb 7 (QR_ad 8 (QR_cb 12 (QR_ad 16 (x ! ia, x ! ib, x ! ic, x ! idd)))))"

definition chacha20_double_round :: "u32 list \<Rightarrow> u32 list" where
  "chacha20_double_round x =
     QR 3 4 9 14 (QR 2 7 8 13 (QR 1 6 11 12 (QR 0 5 10 15
      (QR 3 7 11 15 (QR 2 6 10 14 (QR 1 5 9 13 (QR 0 4 8 12 x)))))))"

definition chacha20_block :: "u32 list \<Rightarrow> u32 list" where
  "chacha20_block inp = map2 (+) (fold (\<lambda>_. chacha20_double_round) [0..<10] inp) inp"

definition chacha20_init :: "byte list \<Rightarrow> u32 \<Rightarrow> byte list \<Rightarrow> u32 list" where
  "chacha20_init key counter nonce =
     [0x61707865, 0x3320646e, 0x79622d32, 0x6b206574]
     @ map (\<lambda>i. load32_le key (4 * i)) [0..<8] @ [counter]
     @ map (\<lambda>i. load32_le nonce (4 * i)) [0..<3]"

definition chacha20_keystream :: "byte list \<Rightarrow> byte list \<Rightarrow> u32 \<Rightarrow> byte list" where
  "chacha20_keystream key nonce counter =
     concat (map store32_le (chacha20_block (chacha20_init key counter nonce)))"

function edb_chacha20_xor :: "byte list \<Rightarrow> byte list \<Rightarrow> byte list \<Rightarrow> u32 \<Rightarrow> byte list" where
  "edb_chacha20_xor inp key nonce counter =
     (if inp = [] then []
      else map2 (XOR) (take (min (length inp) 64) inp) (chacha20_keystream key nonce counter)
           @ edb_chacha20_xor (drop (min (length inp) 64) inp) key nonce (counter + 1))"
  by pat_completeness auto
termination
  by (relation "measure (\<lambda>(inp, key, nonce, counter). length inp)") auto

declare edb_chacha20_xor.simps [simp del]

section \<open>HMAC-SHA256 and HKDF-SHA256\<close>

definition hmac_pad :: "byte \<Rightarrow> byte list \<Rightarrow> byte list" where
  "hmac_pad x k = map (\<lambda>b. b XOR x) k"

definition hmac_key_block :: "byte list \<Rightarrow> byte list" where
  "hmac_key_block key =
     (if length key > 64 then edb_sha256 key @ replicate 32 0
      else key @ replicate (64 - length key) 0)"

definition edb_hmac_sha256 :: "byte list \<Rightarrow> byte list \<Rightarrow> byte list" where
  "edb_hmac_sha256 key msg =
     edb_sha256 (hmac_pad 0x5c (hmac_key_block key)
       @ edb_sha256 (hmac_pad 0x36 (hmac_key_block key) @ msg))"

text \<open>The expansion loop; \<open>left\<close> is \<open>okm_len - offset\<close>.\<close>

function hkdf_expand :: "byte list \<Rightarrow> byte list \<Rightarrow> byte list \<Rightarrow> byte \<Rightarrow> nat \<Rightarrow> byte list" where
  "hkdf_expand prk info t counter left =
     (if left = 0 then []
      else let need = min left 32; t' = edb_hmac_sha256 prk (t @ info @ [counter])
           in take need t' @ hkdf_expand prk info t' (counter + 1) (left - need))"
  by pat_completeness auto
termination
  by (relation "measure (\<lambda>(prk, info, t, counter, left). left)") auto

declare hkdf_expand.simps [simp del]

definition edb_hkdf_sha256 :: "byte list \<Rightarrow> byte list \<Rightarrow> byte list \<Rightarrow> nat \<Rightarrow> byte list option" where
  "edb_hkdf_sha256 ikm salt info okm_len =
     (if okm_len > 255 * 32 then None
      else let prk = (if salt \<noteq> [] then edb_hmac_sha256 salt ikm
                      else edb_hmac_sha256 (replicate 32 0) ikm)
           in Some (hkdf_expand prk info [] 1 okm_len))"

section \<open>Encrypt-then-MAC\<close>

definition EDB_NONCE_LEN :: nat where "EDB_NONCE_LEN = 12"
definition EDB_TAG_LEN :: nat where "EDB_TAG_LEN = 32"

lemmas aead_lens = EDB_NONCE_LEN_def EDB_TAG_LEN_def

definition ct_equal :: "byte list \<Rightarrow> byte list \<Rightarrow> nat \<Rightarrow> bool" where
  "ct_equal a b n = (fold (\<lambda>i diff. diff OR (a ! i XOR b ! i)) [0..<n] 0 = 0)"

definition edb_aead_seal ::
  "byte list \<Rightarrow> byte list \<Rightarrow> byte list \<Rightarrow> byte list \<Rightarrow> byte list \<Rightarrow> nat \<Rightarrow> byte list option" where
  "edb_aead_seal enc_key mac_key nonce aad plain out_cap =
     (let total = EDB_NONCE_LEN + length plain + EDB_TAG_LEN
      in if out_cap < total then None
         else let cipher = edb_chacha20_xor plain enc_key nonce 1;
                  body = take EDB_NONCE_LEN nonce @ cipher;
                  tag = edb_hmac_sha256 mac_key (aad @ body)
              in Some (body @ tag))"

definition edb_aead_open ::
  "byte list \<Rightarrow> byte list \<Rightarrow> byte list \<Rightarrow> byte list \<Rightarrow> nat \<Rightarrow> byte list option" where
  "edb_aead_open enc_key mac_key aad inp out_cap =
     (if length inp < EDB_NONCE_LEN + EDB_TAG_LEN then None
      else let plain_len = length inp - EDB_NONCE_LEN - EDB_TAG_LEN
           in if plain_len > out_cap then None
              else let nonce = take EDB_NONCE_LEN inp;
                       cipher = take plain_len (drop EDB_NONCE_LEN inp);
                       tag = drop (EDB_NONCE_LEN + plain_len) inp;
                       expected = edb_hmac_sha256 mac_key (aad @ take (EDB_NONCE_LEN + plain_len) inp)
                   in if \<not> ct_equal expected tag EDB_TAG_LEN then None
                      else Some (edb_chacha20_xor cipher enc_key nonce 1))"

section \<open>Lemmas\<close>

lemma length_QR [simp]: "length (QR a b c d x) = length x"
  by (simp add: QR_def)

lemma length_double_round [simp]: "length (chacha20_double_round x) = length x"
  by (simp add: chacha20_double_round_def)

lemma length_double_rounds [simp]: "length (fold (\<lambda>_. chacha20_double_round) is x) = length x"
  by (induction "is" arbitrary: x) simp_all

lemma length_chacha20_init [simp]: "length (chacha20_init key counter nonce) = 16"
  by (simp add: chacha20_init_def)

lemma length_concat_store32: "length (concat (map store32_le xs)) = 4 * length xs"
  by (induction xs) (simp_all add: store32_le_def)

lemma length_keystream [simp]: "length (chacha20_keystream key nonce counter) = 64"
  unfolding chacha20_keystream_def length_concat_store32 by (simp add: chacha20_block_def)

lemma length_chacha20_xor [simp]: "length (edb_chacha20_xor inp key nonce counter) = length inp"
proof (induction inp key nonce counter rule: edb_chacha20_xor.induct)
  case (1 inp key nonce counter)
  then show ?case
    by (cases "inp = []")
      (simp_all add: edb_chacha20_xor.simps [of inp] edb_chacha20_xor.simps [of "[]"] Let_def)
qed

lemma map2_xor_twice:
  "length xs \<le> length ks \<Longrightarrow> map2 (XOR) (map2 (XOR) xs ks) ks = (xs :: byte list)"
proof (induction xs arbitrary: ks)
  case (Cons x xs)
  then obtain k ks' where "ks = k # ks'" by (cases ks) auto
  with Cons show ?case by (simp add: xor.assoc)
qed simp

text \<open>Decryption is encryption again.\<close>

lemma chacha20_xor_involution:
  "edb_chacha20_xor (edb_chacha20_xor inp key nonce counter) key nonce counter = inp"
proof (induction inp key nonce counter rule: edb_chacha20_xor.induct)
  case (1 inp key nonce counter)
  show ?case
  proof (cases "inp = []")
    case True
    then show ?thesis by (simp add: edb_chacha20_xor.simps [of "[]"])
  next
    case False
    let ?n = "min (length inp) 64" and ?ks = "chacha20_keystream key nonce counter"
    let ?h = "map2 (XOR) (take ?n inp) ?ks"
    let ?r = "edb_chacha20_xor (drop ?n inp) key nonce (counter + 1)"
    have e: "edb_chacha20_xor inp key nonce counter = ?h @ ?r"
      using False by (simp add: edb_chacha20_xor.simps [of inp] Let_def)
    have len: "length ?h = ?n" by simp
    have n: "min (length (?h @ ?r)) 64 = ?n" by simp
    have ne: "?h @ ?r \<noteq> []" using False by (metis e length_0_conv length_chacha20_xor)
    have "edb_chacha20_xor (?h @ ?r) key nonce counter
        = map2 (XOR) ?h ?ks @ edb_chacha20_xor ?r key nonce (counter + 1)"
      using ne by (subst edb_chacha20_xor.simps) (simp only: if_False Let_def n, simp)
    also have "map2 (XOR) ?h ?ks = take ?n inp"
      by (rule map2_xor_twice) simp
    also have "edb_chacha20_xor ?r key nonce (counter + 1) = drop ?n inp"
      using 1 [OF False] .
    finally show ?thesis by (simp add: e)
  qed
qed

lemma length_hmac [simp]: "length (edb_hmac_sha256 key msg) = 32"
  by (simp add: edb_hmac_sha256_def Let_def)

lemma length_hkdf_expand [simp]: "length (hkdf_expand prk info t counter left) = left"
proof (induction prk info t counter left rule: hkdf_expand.induct)
  case (1 prk info t counter left)
  then show ?case
    by (subst hkdf_expand.simps) (simp add: Let_def)
qed

text \<open>A shorter derivation is a prefix of a longer one.\<close>

lemma hkdf_expand_prefix:
  "n \<le> left \<Longrightarrow> hkdf_expand prk info t counter n = take n (hkdf_expand prk info t counter left)"
proof (induction prk info t counter left arbitrary: n rule: hkdf_expand.induct)
  case (1 prk info t counter left)
  show ?case
  proof (cases "n = 0")
    case True
    then show ?thesis by (simp add: hkdf_expand.simps [of prk info t counter 0])
  next
    case False
    let ?t = "edb_hmac_sha256 prk (t @ info @ [counter])"
    from False 1(2) have l: "left \<noteq> 0" by simp
    have ih: "hkdf_expand prk info ?t (counter + 1) (n - min n 32)
        = take (n - min n 32) (hkdf_expand prk info ?t (counter + 1) (left - min left 32))"
      using 1(1) [OF l refl refl, of "n - min n 32"] 1(2) by simp
    show ?thesis
      using False l ih 1(2)
      by (simp add: hkdf_expand.simps [of prk info t counter n]
          hkdf_expand.simps [of prk info t counter left] Let_def min_def)
  qed
qed

lemma fold_or_zero:
  "fold (\<lambda>i diff. diff OR (f i :: byte)) is d = 0 \<longleftrightarrow> d = 0 \<and> (\<forall>i \<in> set is. f i = 0)"
  by (induction "is" arbitrary: d) (auto simp: or_eq_0_iff)

lemma xor_eq_0_iff_eq: "(a :: byte) XOR b = 0 \<longleftrightarrow> a = b"
proof
  assume "a XOR b = 0"
  then have "(a XOR b) XOR b = b" by simp
  then show "a = b" by (simp add: xor.assoc)
qed simp

lemma ct_equal_iff:
  "length a = n \<Longrightarrow> length b = n \<Longrightarrow> ct_equal a b n \<longleftrightarrow> a = b"
  unfolding ct_equal_def fold_or_zero xor_eq_0_iff_eq list_eq_iff_nth_eq
  by (simp add: Ball_def)

lemma aead_open_iff:
  assumes "length inp = 12 + m + 32"
  shows "edb_aead_open ek mk aad inp cap = Some p \<longleftrightarrow>
    m \<le> cap \<and> drop (12 + m) inp = edb_hmac_sha256 mk (aad @ take (12 + m) inp) \<and>
    p = edb_chacha20_xor (take m (drop 12 inp)) ek (take 12 inp) 1"
proof -
  have "ct_equal (edb_hmac_sha256 mk (aad @ take (12 + m) inp)) (drop (12 + m) inp) 32
      \<longleftrightarrow> edb_hmac_sha256 mk (aad @ take (12 + m) inp) = drop (12 + m) inp"
    by (rule ct_equal_iff) (simp_all add: assms)
  then show ?thesis
    using assms by (auto simp: edb_aead_open_def aead_lens Let_def)
qed

lemma aead_seal_length:
  "edb_aead_seal ek mk nonce aad plain cap = Some s \<Longrightarrow> length nonce = 12 \<Longrightarrow>
    length s = 12 + length plain + 32"
  by (auto simp: edb_aead_seal_def aead_lens Let_def split: if_splits)

lemma aead_roundtrip:
  assumes nonce: "length nonce = 12" and cap: "length plain \<le> cap"
    and seal: "edb_aead_seal ek mk nonce aad plain scap = Some s"
  shows "edb_aead_open ek mk aad s cap = Some plain"
proof -
  let ?c = "edb_chacha20_xor plain ek nonce 1"
  have s: "s = nonce @ ?c @ edb_hmac_sha256 mk (aad @ nonce @ ?c)"
    using seal nonce by (auto simp: edb_aead_seal_def aead_lens Let_def split: if_splits)
  have len: "length s = 12 + length plain + 32"
    using seal nonce by (rule aead_seal_length)
  show ?thesis
    unfolding aead_open_iff [OF len] using nonce cap by (simp add: s chacha20_xor_involution)
qed

section \<open>Properties\<close>

text \<open>
  C33. Authenticated encryption: what \<open>edb_aead_seal\<close> produces, \<open>edb_aead_open\<close> opens to the same
  plaintext with the same keys and associated data; and \<open>edb_aead_open\<close> accepts an input only if
  its last 32 bytes are the HMAC of the associated data and everything before, so that any other
  accepted input is a forgery of HMAC-SHA-256 under the key.
\<close>

theorem aead_seal_open:
  assumes "length nonce = 12" and "length plain \<le> cap"
    and "edb_aead_seal ek mk nonce aad plain scap = Some s"
  shows "edb_aead_open ek mk aad s cap = Some plain \<and> length s = length plain + 44 \<and>
    (\<forall>inp q. length inp = length s \<longrightarrow> edb_aead_open ek mk aad inp cap = Some q \<longrightarrow>
      drop (length inp - 32) inp = edb_hmac_sha256 mk (aad @ take (length inp - 32) inp))"
proof -
  have len: "length s = 12 + length plain + 32" by (rule aead_seal_length [OF assms(3,1)])
  have "drop (12 + length plain) inp = edb_hmac_sha256 mk (aad @ take (12 + length plain) inp)"
    if "length inp = length s" "edb_aead_open ek mk aad inp cap = Some q" for inp q
    using that aead_open_iff [of inp "length plain" ek mk aad cap q] len by simp
  with len aead_roundtrip [OF assms] show ?thesis by simp
qed

theorem aead_seal_open_witness:
  "\<exists>s. edb_aead_seal (replicate 32 1) (replicate 32 2) (replicate 12 3) [9] [5, 6] 46 = Some s \<and>
     edb_aead_open (replicate 32 1) (replicate 32 2) [9] s 2 = Some [5, 6] \<and> length s = 46"
proof -
  obtain s where s: "edb_aead_seal (replicate 32 1) (replicate 32 2) (replicate 12 3) [9] [5, 6] 46 = Some s"
    by (simp add: edb_aead_seal_def aead_lens Let_def)
  show ?thesis using s aead_seal_open [OF _ _ s, of 2] by simp
qed

text \<open>
  Key derivation: for up to 255 blocks \<open>edb_hkdf_sha256\<close> yields exactly the requested number of
  bytes, and a shorter request yields a prefix of a longer one.
\<close>

theorem hkdf_output:
  assumes "n \<le> m" and "m \<le> 255 * 32"
  shows "\<exists>okm. edb_hkdf_sha256 ikm salt info m = Some okm \<and> length okm = m \<and>
    edb_hkdf_sha256 ikm salt info n = Some (take n okm)"
  using assms hkdf_expand_prefix by (simp add: edb_hkdf_sha256_def Let_def)

theorem hkdf_output_witness:
  "\<exists>okm. edb_hkdf_sha256 [1] [2] [3] 64 = Some okm \<and> length okm = 64 \<and> edb_hkdf_sha256 [1] [2] [3] 32 = Some (take 32 okm)"
  using hkdf_output [of 32 64 "[1]" "[2]" "[3]"] by simp

end
