(* ===== verification/Wire.thy ===== *)
theory Wire
  imports Crypto
begin

unbundle bit_operations_syntax

text \<open>
  The ESTP frame codec of \<open>src/src/socket/estp_wire.c\<close>. A connection is the list of
  bytes that were written to it and not yet read. What each \<open>send\<close> or \<open>recv\<close> call
  returns is not under the program's control: it is a script of results, so that short
  transfers, interrupted calls and failures are all covered. The random nonce is an argument.
\<close>

section \<open>Whole-buffer transfers over short reads and writes\<close>

datatype io_result = Xfer nat | Eintr | Io_fail

text \<open>
  \<open>write_full\<close>: the result flag, the bytes that went out and the rest of the script. A call
  transfers at most what it was asked to; a transfer of nothing is the failure branch
  (\<open>w <= 0\<close>), and so is a script that has run out.
\<close>

fun write_full :: "io_result list \<Rightarrow> byte list \<Rightarrow> bool \<times> byte list \<times> io_result list" where
  "write_full rs [] = (True, [], rs)"
| "write_full [] (b # bs) = (False, [], [])"
| "write_full (Eintr # rs) (b # bs) = write_full rs (b # bs)"
| "write_full (Io_fail # rs) (b # bs) = (False, [], rs)"
| "write_full (Xfer 0 # rs) (b # bs) = (False, [], rs)"
| "write_full (Xfer (Suc w) # rs) (b # bs) =
     (case write_full rs (drop w bs) of
        (ok, out, rs') \<Rightarrow> (ok, (b # take w bs) @ out, rs'))"

text \<open>\<open>read_full\<close>: the bytes read (\<open>None\<close> for a failure), the stream after it, the script.\<close>

fun read_full :: "io_result list \<Rightarrow> byte list \<Rightarrow> nat \<Rightarrow> byte list option \<times> byte list \<times> io_result list" where
  "read_full rs s 0 = (Some [], s, rs)"
| "read_full [] s (Suc n) = (None, s, [])"
| "read_full (Eintr # rs) s (Suc n) = read_full rs s (Suc n)"
| "read_full (Io_fail # rs) s (Suc n) = (None, s, rs)"
| "read_full (Xfer 0 # rs) s (Suc n) = (None, s, rs)"
| "read_full (Xfer (Suc r) # rs) [] (Suc n) = (None, [], rs)"
| "read_full (Xfer (Suc r) # rs) (b # bs) (Suc n) =
     (case read_full rs (drop (min r n) bs) (n - min (min r n) (length bs)) of
        (out, s', rs') \<Rightarrow> (map_option (\<lambda>o'. (b # take (min r n) bs) @ o') out, s', rs'))"

section \<open>Message types and the mesh key\<close>

datatype estp_type = ESTP_HELLO | ESTP_STATE | ESTP_REPL | ESTP_ACK | ESTP_QUERY | ESTP_RESULT
  | ESTP_SNAP_REQ | ESTP_SNAP_DATA | ESTP_SNAP_ACK | ESTP_FLUSH | ESTP_VOID

fun estp_code :: "estp_type \<Rightarrow> int" where
  "estp_code ESTP_HELLO = 1"
| "estp_code ESTP_STATE = 2"
| "estp_code ESTP_REPL = 3"
| "estp_code ESTP_ACK = 4"
| "estp_code ESTP_QUERY = 5"
| "estp_code ESTP_RESULT = 6"
| "estp_code ESTP_SNAP_REQ = 7"
| "estp_code ESTP_SNAP_DATA = 8"
| "estp_code ESTP_SNAP_ACK = 9"
| "estp_code ESTP_FLUSH = 10"
| "estp_code ESTP_VOID = 11"

definition ESTP_VERSION :: byte where "ESTP_VERSION = 1"
definition ESTP_HEADER_SIZE :: nat where "ESTP_HEADER_SIZE = 10"
definition ESTP_MAX_PAYLOAD :: nat where "ESTP_MAX_PAYLOAD = 4 * 1024 * 1024"

definition estp_type_valid :: "int \<Rightarrow> bool" where
  "estp_type_valid t \<longleftrightarrow> estp_code ESTP_HELLO \<le> t \<and> t \<le> estp_code ESTP_VOID"

record mesh_key =
  key_active :: bool
  enc_key :: "byte list"
  mac_key :: "byte list"

text \<open>\<open>None\<close> is a NULL key pointer.\<close>

definition estp_set_mesh_key :: "byte list option \<Rightarrow> byte list option \<Rightarrow> mesh_key" where
  "estp_set_mesh_key ek mk =
     (case (ek, mk) of
        (Some e, Some m) \<Rightarrow> \<lparr>key_active = True, enc_key = take 32 e, mac_key = take 32 m\<rparr>
      | _ \<Rightarrow> \<lparr>key_active = False, enc_key = replicate 32 0, mac_key = replicate 32 0\<rparr>)"

definition mesh_key_snapshot :: "mesh_key \<Rightarrow> (byte list \<times> byte list) option" where
  "mesh_key_snapshot k = (if key_active k then Some (enc_key k, mac_key k) else None)"

section \<open>Frames\<close>

text \<open>\<open>htonl\<close> and \<open>ntohl\<close> through \<open>memcpy\<close>: four bytes, most significant first.\<close>

definition store32_be :: "u32 \<Rightarrow> byte list" where
  "store32_be v = [ucast (drop_bit 24 v), ucast (drop_bit 16 v), ucast (drop_bit 8 v), ucast v]"

definition load32_be :: "byte list \<Rightarrow> nat \<Rightarrow> u32" where
  "load32_be p off = push_bit 24 (ucast (p ! off)) OR push_bit 16 (ucast (p ! (off + 1)))
     OR push_bit 8 (ucast (p ! (off + 2))) OR ucast (p ! (off + 3))"

definition estp_header :: "int \<Rightarrow> nat \<Rightarrow> byte list" where
  "estp_header t body_len =
     [0x5A, 0x53, 0x54, 0x50, ESTP_VERSION, of_int t] @ store32_be (of_nat body_len)"

text \<open>The body: the payload itself, or \<open>nonce || ciphertext || tag\<close> under a mesh key.\<close>

definition estp_body :: "mesh_key \<Rightarrow> byte list \<Rightarrow> int \<Rightarrow> byte list \<Rightarrow> byte list option" where
  "estp_body k nonce t data =
     (case mesh_key_snapshot k of
        None \<Rightarrow> Some data
      | Some (ek, mk) \<Rightarrow>
          edb_aead_seal ek mk nonce [ESTP_VERSION, of_int t] data
            (EDB_NONCE_LEN + length data + EDB_TAG_LEN))"

text \<open>\<open>estp_send_frame_raw\<close>: the return code and the bytes that reached the connection.\<close>

definition estp_send_frame_raw ::
  "mesh_key \<Rightarrow> byte list \<Rightarrow> int \<Rightarrow> byte list \<Rightarrow> io_result list \<Rightarrow> int \<times> byte list" where
  "estp_send_frame_raw k nonce t data rs =
     (if \<not> estp_type_valid t \<or> length data > ESTP_MAX_PAYLOAD then (- 1, [])
      else case estp_body k nonce t data of
        None \<Rightarrow> (- 1, [])
      | Some body \<Rightarrow>
          (case write_full rs (estp_header t (length body)) of
             (False, out, rs1) \<Rightarrow> (- 1, out)
           | (True, out, rs1) \<Rightarrow>
               if body = [] then (0, out)
               else (case write_full rs1 body of
                       (ok, out2, rs2) \<Rightarrow> (if ok then 0 else - 1, out @ out2))))"

definition estp_send_frame ::
  "mesh_key \<Rightarrow> byte list \<Rightarrow> int \<Rightarrow> string option \<Rightarrow> io_result list \<Rightarrow> int \<times> byte list" where
  "estp_send_frame k nonce t json rs =
     estp_send_frame_raw k nonce t (case json of None \<Rightarrow> [] | Some s \<Rightarrow> bytes_of_string s) rs"

definition estp_header_ok :: "byte list \<Rightarrow> bool" where
  "estp_header_ok hdr \<longleftrightarrow> hdr ! 0 = 0x5A \<and> hdr ! 1 = 0x53 \<and> hdr ! 2 = 0x54 \<and> hdr ! 3 = 0x50 \<and>
     hdr ! 4 = ESTP_VERSION \<and> estp_type_valid (uint (hdr ! 5))"

text \<open>
  Turning a received body into a payload. The payload pointer is NULL (\<open>None\<close>) only for an
  empty plaintext body.
\<close>

definition estp_open_body :: "mesh_key \<Rightarrow> byte list \<Rightarrow> byte list \<Rightarrow> byte list option option" where
  "estp_open_body k hdr body =
     (case mesh_key_snapshot k of
        None \<Rightarrow> Some (if body = [] then None else Some body)
      | Some (ek, mk) \<Rightarrow>
          if length body < EDB_NONCE_LEN + EDB_TAG_LEN then None
          else (case edb_aead_open ek mk [hdr ! 4, hdr ! 5] body
                       (length body - EDB_NONCE_LEN - EDB_TAG_LEN) of
                  None \<Rightarrow> None | Some p \<Rightarrow> Some (Some p)))"

text \<open>
  \<open>estp_recv_frame_raw\<close>: the message type or -1, the payload, and the rest of the stream and
  script. The payload length is the length of the payload.
\<close>

definition estp_recv_frame_raw ::
  "mesh_key \<Rightarrow> io_result list \<Rightarrow> byte list \<Rightarrow> int \<times> byte list option \<times> byte list \<times> io_result list" where
  "estp_recv_frame_raw k rs s =
     (case read_full rs s ESTP_HEADER_SIZE of
        (None, s1, rs1) \<Rightarrow> (- 1, None, s1, rs1)
      | (Some hdr, s1, rs1) \<Rightarrow>
          if \<not> estp_header_ok hdr then (- 1, None, s1, rs1)
          else if unat (load32_be hdr 6) > ESTP_MAX_PAYLOAD + EDB_NONCE_LEN + EDB_TAG_LEN
          then (- 1, None, s1, rs1)
          else (case read_full rs1 s1 (unat (load32_be hdr 6)) of
                  (None, s2, rs2) \<Rightarrow> (- 1, None, s2, rs2)
                | (Some body, s2, rs2) \<Rightarrow>
                    (case estp_open_body k hdr body of
                       None \<Rightarrow> (- 1, None, s2, rs2)
                     | Some payload \<Rightarrow> (uint (hdr ! 5), payload, s2, rs2))))"

section \<open>Transfers\<close>

text \<open>
  A script that keeps the connection going for \<open>n\<close> bytes: no failure, no zero transfer, and
  enough calls that are not interrupted.
\<close>

definition io_fair :: "io_result list \<Rightarrow> nat \<Rightarrow> bool" where
  "io_fair rs n \<longleftrightarrow> Io_fail \<notin> set rs \<and> Xfer 0 \<notin> set rs \<and> n \<le> length (filter (\<lambda>r. r \<noteq> Eintr) rs)"

lemma write_full_ok: "write_full rs buf = (True, out, rs') \<Longrightarrow> out = buf"
proof (induction rs buf arbitrary: out rs' rule: write_full.induct)
  case (6 w rs b bs)
  from 6(2) obtain out2 where o: "write_full rs (drop w bs) = (True, out2, rs')"
      and e: "out = (b # take w bs) @ out2"
    by (auto split: prod.splits)
  from 6(1) [OF o] e show ?case by simp
qed auto

lemma write_full_prefix: "write_full rs buf = (ok, out, rs') \<Longrightarrow> \<exists>zs. buf = out @ zs"
proof (induction rs buf arbitrary: out rs' rule: write_full.induct)
  case (6 w rs b bs)
  from 6(2) obtain out2 where o: "write_full rs (drop w bs) = (ok, out2, rs')"
      and e: "out = (b # take w bs) @ out2"
    by (auto split: prod.splits)
  from 6(1) [OF o] obtain zs where "drop w bs = out2 @ zs" by blast
  then have "bs = take w bs @ out2 @ zs" by (metis append_take_drop_id)
  then show ?case using e by auto
qed auto

lemma read_full_Some:
  "read_full rs s n = (Some out, s', rs') \<Longrightarrow> s = out @ s' \<and> length out = n"
proof (induction rs s n arbitrary: out s' rs' rule: read_full.induct)
  case (7 r rs b bs n)
  from 7(2) obtain out2 where
    o: "read_full rs (drop (min r n) bs) (n - min (min r n) (length bs)) = (Some out2, s', rs')"
    and e: "out = (b # take (min r n) bs) @ out2"
    by (auto split: prod.splits)
  from 7(1) [OF o] have "drop (min r n) bs = out2 @ s'"
      "length out2 = n - min (min r n) (length bs)" by simp_all
  moreover have "bs = take (min r n) bs @ drop (min r n) bs" by simp
  ultimately show ?case using e by auto
qed auto

lemma io_fair_ConsE:
  assumes "io_fair (r # rs) n" and "0 < n"
  obtains "r = Eintr" "io_fair rs n" | w where "r = Xfer (Suc w)" "io_fair rs (n - 1)"
proof (cases r)
  case (Xfer k)
  with assms show ?thesis using that(2) [of "k - 1"] by (cases k) (auto simp: io_fair_def)
qed (use assms that(1) in \<open>auto simp: io_fair_def\<close>)

lemma io_fair_mono: "io_fair rs n \<Longrightarrow> m \<le> n \<Longrightarrow> io_fair rs m"
  by (auto simp: io_fair_def)

text \<open>A fair script reads any number of bytes that are in the stream.\<close>

lemma read_full_fair:
  "io_fair rs m \<Longrightarrow> n \<le> m \<Longrightarrow> n \<le> length s \<Longrightarrow>
    \<exists>rs'. read_full rs s n = (Some (take n s), drop n s, rs') \<and> io_fair rs' (m - n)"
proof (induction rs arbitrary: s n m)
  case Nil
  then have "n = 0" by (auto simp: io_fair_def)
  then show ?case using Nil by auto
next
  case (Cons r rs)
  show ?case
  proof (cases n)
    case 0
    then show ?thesis using Cons.prems by auto
  next
    case (Suc k)
    then obtain b bs where s: "s = b # bs" using Cons.prems(3) by (cases s) auto
    have "0 < m" using Suc Cons.prems(2) by simp
    with Cons.prems(1) show ?thesis
    proof (cases rule: io_fair_ConsE)
      case 1
      with Cons.IH [OF 1(2) Cons.prems(2,3)] show ?thesis by (simp add: Suc)
    next
      case (2 w)
      let ?t = "min w k"
      have t: "min ?t (length bs) = ?t" using Cons.prems(3) by (simp add: s Suc)
      note ih = Cons.IH [OF 2(2), of "k - ?t" "drop ?t bs"]
      have c: "k - ?t \<le> m - 1" "k - ?t \<le> length (drop ?t bs)"
        using Cons.prems(2,3) by (simp_all add: s Suc)
      obtain rs' where rs': "read_full rs (drop ?t bs) (k - ?t)
            = (Some (take (k - ?t) (drop ?t bs)), drop (k - ?t) (drop ?t bs), rs')"
          "io_fair rs' (m - 1 - (k - ?t))"
        using ih [OF c] by blast
      have "take ?t bs @ take (k - ?t) (drop ?t bs) = take k bs"
        by (simp add: take_add [symmetric])
      then show ?thesis
        using rs' io_fair_mono [OF rs'(2), of "m - n"] t by (simp add: s Suc 2(1))
    qed
  qed
qed

section \<open>Frames\<close>

lemma length_store32_be [simp]: "length (store32_be v) = 4"
  by (simp add: store32_be_def)

lemma load_store32_be: "load32_be (xs @ store32_be v) (length xs) = v"
proof -
  have "push_bit 24 (ucast (ucast (drop_bit 24 v) :: byte)) OR push_bit 16 (ucast (ucast (drop_bit 16 v) :: byte))
     OR push_bit 8 (ucast (ucast (drop_bit 8 v) :: byte)) OR ucast (ucast v :: byte) = (v :: u32)"
  proof (rule bit_word_eqI)
    fix n assume "n < LENGTH(32)"
    then consider "n < 8" | "8 \<le> n" "n < 16" | "16 \<le> n" "n < 24" | "24 \<le> n" "n < 32"
      by fastforce
    then show "bit (push_bit 24 (ucast (ucast (drop_bit 24 v) :: byte))
        OR push_bit 16 (ucast (ucast (drop_bit 16 v) :: byte))
        OR push_bit 8 (ucast (ucast (drop_bit 8 v) :: byte)) OR ucast (ucast v :: byte) :: u32) n = bit v n"
      by cases (auto simp: bit_simps)
  qed
  then show ?thesis
    by (simp add: load32_be_def store32_be_def nth_append)
qed

lemma estp_code_valid [simp]: "estp_type_valid (estp_code t)"
  by (cases t) (simp_all add: estp_type_valid_def)

lemma estp_code_inj: "estp_code t = estp_code t' \<Longrightarrow> t = t'"
  by (cases t; cases t') simp_all

lemma estp_type_valid_code: "estp_type_valid i \<Longrightarrow> \<exists>t. estp_code t = i"
proof -
  assume "estp_type_valid i"
  then have "i = 1 \<or> i = 2 \<or> i = 3 \<or> i = 4 \<or> i = 5 \<or> i = 6 \<or> i = 7 \<or> i = 8 \<or> i = 9 \<or>
      i = 10 \<or> i = 11"
    unfolding estp_type_valid_def estp_code.simps by arith
  then show ?thesis using estp_code.simps by blast
qed

lemma uint_type_byte: "estp_type_valid t \<Longrightarrow> uint (of_int t :: byte) = t"
  by (simp add: estp_type_valid_def uint_word_of_int_eq take_bit_int_eq_self)

lemma estp_header_facts:
  assumes "estp_type_valid t" and "n < 2 ^ 32"
  shows "length (estp_header t n) = ESTP_HEADER_SIZE" "estp_header_ok (estp_header t n)"
    "unat (load32_be (estp_header t n) 6) = n" "uint (estp_header t n ! 5) = t"
    "[estp_header t n ! 4, estp_header t n ! 5] = [ESTP_VERSION, of_int t]"
proof -
  let ?pre = "[0x5A, 0x53, 0x54, 0x50, ESTP_VERSION, of_int t] :: byte list"
  have "load32_be (?pre @ store32_be (of_nat n)) (length ?pre) = of_nat n" by (rule load_store32_be)
  then have l: "load32_be (estp_header t n) 6 = of_nat n"
    by (simp add: estp_header_def numeral_eq_Suc)
  then show "unat (load32_be (estp_header t n) 6) = n"
    using assms(2) by (simp add: l unsigned_of_nat take_bit_nat_eq_self)
qed (use assms in \<open>simp_all add: estp_header_def estp_header_ok_def ESTP_HEADER_SIZE_def uint_type_byte\<close>)

lemma estp_body_length:
  "estp_body k nonce t data = Some body \<Longrightarrow> length nonce = 12 \<Longrightarrow>
    length body \<le> length data + EDB_NONCE_LEN + EDB_TAG_LEN"
  by (auto simp: estp_body_def aead_lens dest: aead_seal_length split: option.splits)

text \<open>What a successful send leaves on the connection: header and body, nothing else.\<close>

lemma estp_send_ok:
  assumes "estp_send_frame_raw k nonce t data rs = (0, out)"
  shows "\<exists>body. estp_type_valid t \<and> length data \<le> ESTP_MAX_PAYLOAD \<and>
    estp_body k nonce t data = Some body \<and> out = estp_header t (length body) @ body"
  using assms unfolding estp_send_frame_raw_def
  by (auto split: if_splits option.splits prod.splits bool.splits dest!: write_full_ok)

text \<open>The body opens to the payload under the same key.\<close>

lemma estp_open_body_roundtrip:
  assumes "estp_body k nonce t data = Some body" and "length nonce = 12"
    and "[hdr ! 4, hdr ! 5] = [ESTP_VERSION, of_int t]"
  shows "estp_open_body k hdr body =
    Some (if data = [] \<and> \<not> key_active k then None else Some data)"
proof (cases "key_active k")
  case False
  then show ?thesis
    using assms(1) by (simp add: estp_body_def estp_open_body_def mesh_key_snapshot_def)
next
  case True
  with assms(1) have seal: "edb_aead_seal (enc_key k) (mac_key k) nonce [ESTP_VERSION, of_int t]
      data (EDB_NONCE_LEN + length data + EDB_TAG_LEN) = Some body"
    by (simp add: estp_body_def mesh_key_snapshot_def)
  have len: "length body = 12 + length data + 32"
    using aead_seal_length [OF seal assms(2)] .
  have "edb_aead_open (enc_key k) (mac_key k) [hdr ! 4, hdr ! 5] body (length data) = Some data"
    unfolding assms(3) by (rule aead_roundtrip [OF assms(2) order_refl seal])
  with True len show ?thesis
    by (simp add: estp_open_body_def mesh_key_snapshot_def aead_lens)
qed

lemma estp_recv_body:
  assumes "estp_type_valid t" and "length body \<le> ESTP_MAX_PAYLOAD + EDB_NONCE_LEN + EDB_TAG_LEN"
    and "io_fair rs (ESTP_HEADER_SIZE + length body)"
    and "estp_open_body k (estp_header t (length body)) body = Some payload"
  shows "\<exists>rs'. estp_recv_frame_raw k rs (estp_header t (length body) @ body @ rest)
    = (t, payload, rest, rs')"
proof -
  have small: "length body < 2 ^ 32"
    using assms(2) by (simp add: ESTP_MAX_PAYLOAD_def aead_lens)
  note h = estp_header_facts [OF assms(1) small]
  obtain rs1 where r1: "read_full rs (estp_header t (length body) @ body @ rest) ESTP_HEADER_SIZE
      = (Some (estp_header t (length body)), body @ rest, rs1)" "io_fair rs1 (length body)"
    using read_full_fair [OF assms(3), of ESTP_HEADER_SIZE "estp_header t (length body) @ body @ rest"]
    by (auto simp: h(1))
  obtain rs2 where r2: "read_full rs1 (body @ rest) (length body) = (Some body, rest, rs2)"
    using read_full_fair [OF r1(2), of "length body" "body @ rest"] by auto
  show ?thesis
    using assms(2,4) by (simp add: estp_recv_frame_raw_def r1(1) r2 h(2,3,4))
qed

lemma estp_open_body_active:
  assumes "estp_open_body k hdr body = Some p" and "key_active k"
  shows "\<exists>q. 44 \<le> length body \<and> p = Some q \<and>
    edb_aead_open (enc_key k) (mac_key k) [hdr ! 4, hdr ! 5] body (length body - 44) = Some q"
proof (cases "edb_aead_open (enc_key k) (mac_key k) [hdr ! 4, hdr ! 5] body (length body - 44)")
  case None
  with assms show ?thesis
    by (simp add: estp_open_body_def mesh_key_snapshot_def aead_lens split: if_splits)
next
  case (Some q)
  with assms show ?thesis
    by (simp add: estp_open_body_def mesh_key_snapshot_def aead_lens split: if_splits)
qed

lemma read_full_suffix:
  "read_full rs s n = (out, s', rs') \<Longrightarrow> \<exists>u. s = u @ s' \<and> length u \<le> n"
proof (induction rs s n arbitrary: out s' rs' rule: read_full.induct)
  case (7 r rs b bs n)
  from 7(2) obtain out2 where
    o: "read_full rs (drop (min r n) bs) (n - min (min r n) (length bs)) = (out2, s', rs')"
    by (auto split: prod.splits)
  from 7(1) [OF o] obtain u where u: "drop (min r n) bs = u @ s'"
      "length u \<le> n - min (min r n) (length bs)" by blast
  have "b # bs = (b # take (min r n) bs @ u) @ s'"
    using u(1) by (simp flip: u(1))
  moreover have "length (b # take (min r n) bs @ u) \<le> Suc n"
    using u(2) by (cases "min r n \<le> length bs") auto
  ultimately show ?case by blast
qed auto

section \<open>Key derivation and the key file\<close>

definition edb_cluster_derive_keys :: "string \<Rightarrow> (byte list \<times> byte list) option" where
  "edb_cluster_derive_keys secret =
     (if secret = [] then None
      else case edb_hkdf_sha256 (bytes_of_string secret) (bytes_of_string ''epsilond-mesh'')
                  (bytes_of_string ''epsilond-mesh-v1'') 64 of
        None \<Rightarrow> None
      | Some okm \<Rightarrow> Some (take 32 okm, take 32 (drop 32 okm)))"

text \<open>
  The key file: \<open>edb_cluster_persist_keys\<close> gives the file's contents; loading reads at most
  64 bytes and refuses a shorter file. \<open>None\<close> stands for a file that does not open.
\<close>

definition edb_cluster_persist_keys :: "byte list \<Rightarrow> byte list \<Rightarrow> byte list" where
  "edb_cluster_persist_keys ek mk = take 32 ek @ take 32 mk"

definition edb_cluster_load_keys :: "byte list option \<Rightarrow> (byte list \<times> byte list) option" where
  "edb_cluster_load_keys file =
     (case file of
        None \<Rightarrow> None
      | Some bytes \<Rightarrow>
          let buf = take 64 bytes
          in if length buf \<noteq> 64 then None else Some (take 32 buf, take 32 (drop 32 buf)))"

lemma derive_keys_lengths:
  "edb_cluster_derive_keys secret = Some (ek, mk) \<Longrightarrow> length ek = 32 \<and> length mk = 32"
  by (auto simp: edb_cluster_derive_keys_def edb_hkdf_sha256_def Let_def split: if_splits)

lemma load_persist_keys:
  "length ek = 32 \<Longrightarrow> length mk = 32 \<Longrightarrow>
    edb_cluster_load_keys (Some (edb_cluster_persist_keys ek mk)) = Some (ek, mk)"
  by (simp add: edb_cluster_load_keys_def edb_cluster_persist_keys_def)

section \<open>Properties\<close>

text \<open>
  C25. Frame round trip: whatever pieces the kernel cut the transfers into, a frame that
  \<open>estp_send_frame_raw\<close> reports as sent is received by \<open>estp_recv_frame_raw\<close> under the
  same mesh key (or under none) with the same type and payload, and nothing beyond the frame is
  consumed. The only difference is that an empty payload arrives as NULL when it was sent in plain
  text; sent under a key it arrives as an empty buffer, although the comment on the receiver promises
  NULL for every empty payload.
\<close>

theorem estp_frame_roundtrip:
  assumes "length nonce = 12"
    and "estp_send_frame_raw k nonce t data ws = (0, out)"
    and "io_fair rs (length out)"
  shows "\<exists>rs'. estp_recv_frame_raw k rs (out @ rest) =
    (t, if data = [] \<and> \<not> key_active k then None else Some data, rest, rs')"
proof -
  obtain body where b: "estp_type_valid t" "length data \<le> ESTP_MAX_PAYLOAD"
      "estp_body k nonce t data = Some body" "out = estp_header t (length body) @ body"
    using estp_send_ok [OF assms(2)] by blast
  have len: "length body \<le> ESTP_MAX_PAYLOAD + EDB_NONCE_LEN + EDB_TAG_LEN"
    using estp_body_length [OF b(3) assms(1)] b(2) by simp
  then have small: "length body < 2 ^ 32" by (simp add: ESTP_MAX_PAYLOAD_def aead_lens)
  note h = estp_header_facts [OF b(1) small]
  have "io_fair rs (ESTP_HEADER_SIZE + length body)" using assms(3) by (simp add: b(4) h(1))
  from estp_recv_body [OF b(1) len this estp_open_body_roundtrip [OF b(3) assms(1) h(5)]]
  show ?thesis by (simp add: b(4))
qed

definition demo_key :: mesh_key where
  "demo_key = estp_set_mesh_key (Some (replicate 32 1)) (Some (replicate 32 2))"

theorem estp_frame_roundtrip_witness:
  "length (replicate 12 7 :: byte list) = 12 \<and>
   (\<exists>out. estp_send_frame_raw demo_key (replicate 12 7) (estp_code ESTP_REPL) [1, 2, 3]
      (replicate 57 (Xfer 1)) = (0, out) \<and> io_fair (replicate 57 (Xfer 2)) (length out) \<and>
      (\<exists>rs'. estp_recv_frame_raw demo_key (replicate 57 (Xfer 2)) (out @ [9]) =
        (estp_code ESTP_REPL, Some [1, 2, 3], [9], rs')))"
proof -
  have w: "io_fair (replicate n (Xfer (Suc k))) n" for n k by (simp add: io_fair_def)
  have wf: "write_full (replicate n (Xfer (Suc 0))) buf =
      (True, buf, replicate (n - length buf) (Xfer (Suc 0)))"
    if "length buf \<le> n" for n buf
    using that
  proof (induction buf arbitrary: n)
    case (Cons b bs)
    then obtain m where "n = Suc m" by (cases n) auto
    with Cons show ?case by simp
  qed simp
  let ?ek = "enc_key demo_key" and ?mk = "mac_key demo_key"
  obtain body where body: "edb_aead_seal ?ek ?mk (replicate 12 7) [ESTP_VERSION, of_int 3] [1, 2, 3] 47
      = Some body"
    by (simp add: edb_aead_seal_def aead_lens Let_def)
  have len: "length body = 47" using aead_seal_length [OF body] by simp
  then have ne: "body \<noteq> []" by auto
  have active: "key_active demo_key" by (simp add: demo_key_def estp_set_mesh_key_def)
  then have eb: "estp_body demo_key (replicate 12 7) (estp_code ESTP_REPL) [1, 2, 3] = Some body"
    using body by (simp add: estp_body_def mesh_key_snapshot_def aead_lens)
  have hl: "length (estp_header (estp_code ESTP_REPL) (length body)) = 10"
    by (simp add: estp_header_def)
  have sent: "estp_send_frame_raw demo_key (replicate 12 7) (estp_code ESTP_REPL) [1, 2, 3]
      (replicate 57 (Xfer 1)) = (0, estp_header (estp_code ESTP_REPL) (length body) @ body)"
    unfolding estp_send_frame_raw_def eb
    using hl len ne by (simp add: wf ESTP_MAX_PAYLOAD_def del: estp_code.simps)
  have fair: "io_fair (replicate 57 (Xfer 2))
      (length (estp_header (estp_code ESTP_REPL) (length body) @ body))"
    using w [of 57 1] hl by (simp add: len numeral_2_eq_2 del: estp_code.simps)
  have nonce: "length (replicate 12 7 :: byte list) = 12" by simp
  show ?thesis
    using estp_frame_roundtrip [OF nonce sent fair, of "[9]"] nonce sent fair active by auto
qed

text \<open>
  C27. Authenticity: with a mesh key active, \<open>estp_recv_frame_raw\<close> returns a message only for
  a frame whose tag is the HMAC, under the mesh MAC key, of the version byte, the type byte, the
  nonce and the ciphertext; the payload is the decryption of that ciphertext.
\<close>

theorem estp_recv_authentic:
  assumes "key_active k" and "estp_recv_frame_raw k rs s = (t, p, s', rs')" and "t \<noteq> - 1"
  shows "\<exists>hdr body m. s = hdr @ body @ s' \<and> length hdr = 10 \<and> length body = 12 + m + 32 \<and>
    uint (hdr ! 5) = t \<and>
    drop (12 + m) body = edb_hmac_sha256 (mac_key k) ([hdr ! 4, hdr ! 5] @ take (12 + m) body) \<and>
    p = Some (edb_chacha20_xor (take m (drop 12 body)) (enc_key k) (take 12 body) 1)"
proof -
  from assms(2,3) obtain hdr s1 rs1 body where
    h: "read_full rs s ESTP_HEADER_SIZE = (Some hdr, s1, rs1)"
    and b: "read_full rs1 s1 (unat (load32_be hdr 6)) = (Some body, s', rs')"
    and o: "estp_open_body k hdr body = Some p" and t: "t = uint (hdr ! 5)"
    unfolding estp_recv_frame_raw_def
    by (auto split: if_splits option.splits prod.splits)
  from o assms(1) obtain q where len: "44 \<le> length body" and p: "p = Some q"
    and op: "edb_aead_open (enc_key k) (mac_key k) [hdr ! 4, hdr ! 5] body (length body - 44) = Some q"
    using estp_open_body_active by blast
  define m where "m = length body - 44"
  have lb: "length body = 12 + m + 32" using len by (simp add: m_def)
  have s: "s = hdr @ body @ s'" "length hdr = 10"
    using read_full_Some [OF h] read_full_Some [OF b] by (simp_all add: ESTP_HEADER_SIZE_def)
  note open_iff = iffD1 [OF aead_open_iff [OF lb] op]
  have "drop (12 + m) body = edb_hmac_sha256 (mac_key k) ([hdr ! 4, hdr ! 5] @ take (12 + m) body)"
    "q = edb_chacha20_xor (take m (drop 12 body)) (enc_key k) (take 12 body) 1"
    using open_iff by blast+
  with s lb t p show ?thesis by blast
qed

theorem estp_recv_authentic_witness:
  "\<exists>s p rs'. key_active demo_key \<and>
     estp_recv_frame_raw demo_key (replicate 100 (Xfer 1)) s = (2, p, [], rs') \<and> (2 :: int) \<noteq> - 1 \<and>
     (\<exists>hdr body m. s = hdr @ body @ [] \<and> length hdr = 10 \<and> length body = 12 + m + 32 \<and>
       uint (hdr ! 5) = 2 \<and>
       drop (12 + m) body =
         edb_hmac_sha256 (mac_key demo_key) ([hdr ! 4, hdr ! 5] @ take (12 + m) body) \<and>
       p = Some (edb_chacha20_xor (take m (drop 12 body)) (enc_key demo_key) (take 12 body) 1))"
proof -
  have active: "key_active demo_key" by (simp add: demo_key_def estp_set_mesh_key_def)
  obtain body where body: "edb_aead_seal (enc_key demo_key) (mac_key demo_key) (replicate 12 7)
      [ESTP_VERSION, of_int 2] [5] 45 = Some body"
    by (simp add: edb_aead_seal_def aead_lens Let_def)
  have len: "length body = 45" using aead_seal_length [OF body] by simp
  have eb: "estp_body demo_key (replicate 12 7) 2 [5] = Some body"
    using body active by (simp add: estp_body_def mesh_key_snapshot_def aead_lens)
  have v: "estp_type_valid 2" by (simp add: estp_type_valid_def)
  have n: "length (replicate 12 7 :: byte list) = 12" by simp
  have "io_fair (replicate 100 (Xfer 1)) (ESTP_HEADER_SIZE + length body)"
    by (simp add: io_fair_def len ESTP_HEADER_SIZE_def)
  with estp_recv_body [OF v, of body "replicate 100 (Xfer 1)" demo_key _ "[]"]
    estp_open_body_roundtrip [OF eb n estp_header_facts(5) [OF v, of "length body"]] active
  obtain rs' where r: "estp_recv_frame_raw demo_key (replicate 100 (Xfer 1))
      (estp_header 2 (length body) @ body @ []) = (2, Some [5], [], rs')"
    by (auto simp: len ESTP_MAX_PAYLOAD_def)
  have "(2 :: int) \<noteq> - 1" by simp
  with estp_recv_authentic [OF active r this] r active show ?thesis by blast
qed

text \<open>
  Bounded input: whatever arrives, one call of \<open>estp_recv_frame_raw\<close> consumes at most a
  header and a maximal encrypted body, and returns either -1 or one of the eleven message types.
\<close>

theorem estp_recv_bounded:
  assumes "estp_recv_frame_raw k rs s = (t, p, s', rs')"
  shows "\<exists>used. s = used @ s' \<and> length used \<le> 10 + (4194304 + 12 + 32) \<and>
    (t = - 1 \<and> p = None \<or> (\<exists>ty. t = estp_code ty))"
proof -
  obtain out s1 rs1 where h: "read_full rs s ESTP_HEADER_SIZE = (out, s1, rs1)"
    by (cases "read_full rs s ESTP_HEADER_SIZE")
  obtain u1 where u1: "s = u1 @ s1" "length u1 \<le> 10"
    using read_full_suffix [OF h] by (auto simp: ESTP_HEADER_SIZE_def)
  show ?thesis
  proof (cases "\<exists>hdr. out = Some hdr \<and> estp_header_ok hdr \<and>
      unat (load32_be hdr 6) \<le> ESTP_MAX_PAYLOAD + EDB_NONCE_LEN + EDB_TAG_LEN")
    case False
    then have "t = - 1 \<and> p = None \<and> s' = s1"
      using assms h by (auto simp: estp_recv_frame_raw_def not_le split: option.splits if_splits)
    with u1 show ?thesis by (intro exI [of _ u1]) simp
  next
    case True
    then obtain hdr where hdr: "out = Some hdr" "estp_header_ok hdr"
      "unat (load32_be hdr 6) \<le> ESTP_MAX_PAYLOAD + EDB_NONCE_LEN + EDB_TAG_LEN" by blast
    obtain out2 s2 rs2 where b: "read_full rs1 s1 (unat (load32_be hdr 6)) = (out2, s2, rs2)"
      by (cases "read_full rs1 s1 (unat (load32_be hdr 6))")
    obtain u2 where u2: "s1 = u2 @ s2" "length u2 \<le> unat (load32_be hdr 6)"
      using read_full_suffix [OF b] by blast
    have "s' = s2 \<and> (t = - 1 \<and> p = None \<or> t = uint (hdr ! 5))"
      using assms h hdr b
      by (auto simp: estp_recv_frame_raw_def split: option.splits if_splits)
    moreover have "\<exists>ty. uint (hdr ! 5) = estp_code ty"
      using hdr(2) estp_type_valid_code by (metis estp_header_ok_def)
    moreover have "length (u1 @ u2) \<le> 10 + (4194304 + 12 + 32)"
      using u1(2) u2(2) hdr(3) by (simp add: ESTP_MAX_PAYLOAD_def aead_lens)
    ultimately show ?thesis
      using u1(1) u2(1) by (intro exI [of _ "u1 @ u2"]) auto
  qed
qed

theorem estp_recv_bounded_witness:
  "estp_recv_frame_raw demo_key [Xfer 4] [1, 2, 3, 4, 5, 6] = (- 1, None, [5, 6], []) \<and>
   (\<exists>used. [1, 2, 3, 4, 5, 6] = used @ [5, 6 :: byte] \<and> length used \<le> 10 + (4194304 + 12 + 32) \<and>
     (- 1 = (- 1 :: int) \<and> None = (None :: byte list option) \<or> (\<exists>ty. - 1 = estp_code ty)))"
proof -
  have r: "estp_recv_frame_raw demo_key [Xfer 4] [1, 2, 3, 4, 5, 6] = (- 1, None, [5, 6], [])"
    by (simp add: estp_recv_frame_raw_def ESTP_HEADER_SIZE_def numeral_eq_Suc)
  show ?thesis using r estp_recv_bounded [OF r] by simp
qed

text \<open>
  Mesh keys: a non-empty join secret always yields two 32-byte keys, and the key file
  written for them loads back as the same keys.
\<close>

theorem derived_keys_persist:
  assumes "secret \<noteq> []"
  shows "\<exists>ek mk. edb_cluster_derive_keys secret = Some (ek, mk) \<and> length ek = 32 \<and> length mk = 32 \<and>
    edb_cluster_load_keys (Some (edb_cluster_persist_keys ek mk)) = Some (ek, mk)"
proof -
  from assms obtain ek mk where d: "edb_cluster_derive_keys secret = Some (ek, mk)"
    by (auto simp: edb_cluster_derive_keys_def edb_hkdf_sha256_def Let_def)
  from derive_keys_lengths [OF d] d load_persist_keys show ?thesis by blast
qed

theorem derived_keys_persist_witness:
  "''s3cret'' \<noteq> [] \<and> (\<exists>ek mk. edb_cluster_derive_keys ''s3cret'' = Some (ek, mk) \<and>
    length ek = 32 \<and> length mk = 32 \<and>
    edb_cluster_load_keys (Some (edb_cluster_persist_keys ek mk)) = Some (ek, mk))"
  using derived_keys_persist [of "''s3cret''"] by simp

end
