(* ===== verification/Change_Log.thy ===== *)
theory Change_Log
  imports Main
begin

text \<open>
  The contract of the change cache: for every target node a queue of changes, each with an id that
  is unique in the queue, in the order they were queued. The client is the replay of a queue: its
  changes are sent in order, an acknowledged one is removed, and the first failure stops the pass.
  Whatever the receiver does, replay removes an acknowledged beginning of the queue and nothing
  else; when the receiver accepts everything, enough passes empty the queue.
\<close>

text \<open>
  What a receiver acknowledged while it went from one state to another: sends that fail may happen
  in between.
\<close>

inductive acked :: "('n \<Rightarrow> 'p \<Rightarrow> 'n \<times> bool) \<Rightarrow> 'n \<Rightarrow> 'p list \<Rightarrow> 'n \<Rightarrow> bool" for send where
  acked_none: "acked send n [] n"
| acked_yes: "send n p = (n1, True) \<Longrightarrow> acked send n1 ps n' \<Longrightarrow> acked send n (p # ps) n'"
| acked_no: "send n p = (n1, False) \<Longrightarrow> acked send n1 ps n' \<Longrightarrow> acked send n ps n'"

lemma acked_append: "acked send n ps n1 \<Longrightarrow> acked send n1 qs n2 \<Longrightarrow> acked send n (ps @ qs) n2"
  by (induction rule: acked.induct) (auto intro: acked.intros)

locale change_log =
  fixes ok :: "'c \<Rightarrow> bool"
    and queue :: "'c \<Rightarrow> 't \<Rightarrow> ('i \<times> 'p) list"
    and append :: "'c \<Rightarrow> 't \<Rightarrow> 'i \<Rightarrow> 'p \<Rightarrow> 'c"
    and remove :: "'c \<Rightarrow> 't \<Rightarrow> 'i \<Rightarrow> 'c"
    and load :: "'c \<Rightarrow> 't \<Rightarrow> nat \<Rightarrow> ('i \<times> 'p) list"
    and named :: "'i \<Rightarrow> bool"
  assumes queue_distinct: "ok c \<Longrightarrow> distinct (map fst (queue c t))"
    and load_queue: "ok c \<Longrightarrow> load c t n = take n (queue c t)"
    and append_ok: "ok c \<Longrightarrow> named i \<Longrightarrow> ok (append c t i p)"
    and append_queue: "ok c \<Longrightarrow> named i \<Longrightarrow> queue (append c t i p) =
      (queue c)(t := filter (\<lambda>x. fst x \<noteq> i) (queue c t) @ [(i, p)])"
    and remove_ok: "ok c \<Longrightarrow> ok (remove c t i)"
    and remove_queue: "ok c \<Longrightarrow> queue (remove c t i) = (queue c)(t := filter (\<lambda>x. fst x \<noteq> i) (queue c t))"
begin

lemma append_new:
  assumes "ok c" "named i" "i \<notin> fst ` set (queue c t)"
  shows "queue (append c t i p) t = queue c t @ [(i, p)]"
proof -
  have "filter (\<lambda>x. fst x \<noteq> i) (queue c t) = queue c t"
    using assms(3) by (intro filter_True) auto
  then show ?thesis using append_queue [OF assms(1,2)] by simp
qed

lemma append_last: "ok c \<Longrightarrow> named i \<Longrightarrow> last (queue (append c t i p) t) = (i, p)"
  by (simp add: append_queue)

text \<open>One pass over rows that were loaded: the cache, the state of the receiver, and how many were sent.\<close>

fun replay :: "('n \<Rightarrow> 'p \<Rightarrow> 'n \<times> bool) \<Rightarrow> 't \<Rightarrow> 'n \<Rightarrow> 'c \<Rightarrow> ('i \<times> 'p) list \<Rightarrow> 'n \<times> 'c \<times> nat" where
  "replay send t n c [] = (n, c, 0)"
| "replay send t n c ((i, p) # rows) =
     (let (n, acked) = send n p
      in if acked then (let (n, c, k) = replay send t n (remove c t i) rows in (n, c, Suc k)) else (n, c, 0))"

fun rounds :: "('n \<Rightarrow> 'p \<Rightarrow> 'n \<times> bool) \<Rightarrow> 't \<Rightarrow> nat \<Rightarrow> nat \<Rightarrow> 'n \<Rightarrow> 'c \<Rightarrow> 'n \<times> 'c" where
  "rounds send t limit 0 n c = (n, c)"
| "rounds send t limit (Suc m) n c =
     (let rows = load c t limit
      in if rows = [] then (n, c)
         else
           let (n, c, k) = replay send t n c rows
           in if k = 0 then (n, c) else rounds send t limit m n c)"

lemma replay_spec:
  assumes "ok c" "queue c t = rows @ rest"
  shows "ok (fst (snd (replay send t n c rows))) \<and> snd (snd (replay send t n c rows)) \<le> length rows \<and>
    queue (fst (snd (replay send t n c rows))) =
      (queue c)(t := drop (snd (snd (replay send t n c rows))) (queue c t)) \<and>
    acked send n (map snd (take (snd (snd (replay send t n c rows))) rows)) (fst (replay send t n c rows))"
  using assms
proof (induction rows arbitrary: c n)
  case (Cons row rows)
  obtain i p where row: "row = (i, p)" by (cases row)
  obtain n1 acc where send: "send n p = (n1, acc)" by (cases "send n p")
  show ?case
  proof (cases acc)
    case False
    then show ?thesis using Cons.prems(1) row send by (auto intro: acked.intros)
  next
    case True
    let ?c = "remove c t i"
    have "i \<notin> fst ` set (rows @ rest)"
      using queue_distinct [OF Cons.prems(1), of t] Cons.prems(2) row by auto
    then have "filter (\<lambda>x. fst x \<noteq> i) (rows @ rest) = rows @ rest" by (intro filter_True) auto
    then have q: "queue ?c = (queue c)(t := rows @ rest)"
      using remove_queue [OF Cons.prems(1)] Cons.prems(2) row by simp
    have "ok ?c" by (rule remove_ok [OF Cons.prems(1)])
    from Cons.IH [OF this, of n1] q Cons.prems(2) row True send show ?thesis
      by (simp add: split_beta Let_def fun_eq_iff acked_yes)
  qed
qed (simp add: fun_eq_iff acked_none)

text \<open>
  Whatever the receiver does, replay removes a beginning of the queue of that target only, and the
  receiver has acknowledged what was removed, in order.
\<close>

lemma rounds_prefix:
  assumes "ok c"
  shows "\<exists>k. ok (snd (rounds send t limit m n c)) \<and>
    queue (snd (rounds send t limit m n c)) = (queue c)(t := drop k (queue c t)) \<and>
    acked send n (map snd (take k (queue c t))) (fst (rounds send t limit m n c))"
  using assms
proof (induction m arbitrary: n c)
  case 0
  then show ?case by (intro exI [of _ 0]) (simp add: acked_none)
next
  case (Suc m)
  let ?rows = "load c t limit" and ?r = "replay send t n c (load c t limit)"
  have rows: "queue c t = ?rows @ drop limit (queue c t)" using load_queue [OF Suc.prems] by simp
  define k where "k = snd (snd ?r)"
  note r = replay_spec [OF Suc.prems rows, of send n, folded k_def]
  have tk: "take k ?rows = take k (queue c t)" using r arg_cong [OF rows, of "take k"] by simp
  show ?case
  proof (cases "?rows = []")
    case True
    then show ?thesis using Suc.prems by (intro exI [of _ 0]) (simp add: acked_none)
  next
    case False
    show ?thesis
    proof (cases "k = 0")
      case True
      then have "rounds send t limit (Suc m) n c = (fst ?r, fst (snd ?r))"
        using False by (simp add: split_beta Let_def k_def)
      then show ?thesis using r True by (intro exI [of _ 0]) simp
    next
      case k0: False
      have step: "rounds send t limit (Suc m) n c = rounds send t limit m (fst ?r) (fst (snd ?r))"
        using False k0 by (simp add: split_beta Let_def k_def)
      obtain j where "ok (snd (rounds send t limit m (fst ?r) (fst (snd ?r))))"
        "queue (snd (rounds send t limit m (fst ?r) (fst (snd ?r)))) =
          (queue (fst (snd ?r)))(t := drop j (queue (fst (snd ?r)) t))"
        "acked send (fst ?r) (map snd (take j (queue (fst (snd ?r)) t))) (fst (rounds send t limit m (fst ?r) (fst (snd ?r))))"
        using Suc.IH [of "fst (snd ?r)" "fst ?r"] r by blast
      note j = this [folded step]
      have "acked send n (map snd (take k (queue c t)) @ map snd (take j (drop k (queue c t))))
          (fst (rounds send t limit (Suc m) n c))"
        using r j(3) by (intro acked_append [of send n _ "fst ?r"]) (simp_all add: tk)
      moreover have "take (j + k) (queue c t) = take k (queue c t) @ take j (drop k (queue c t))"
        by (simp add: take_add [symmetric] add.commute)
      ultimately show ?thesis
        using r j(1,2) by (intro exI [of _ "j + k"]) (simp add: fun_eq_iff del: rounds.simps)
    qed
  qed
qed

text \<open>A receiver that accepts everything gets all of the queue, in order.\<close>

lemma replay_all:
  assumes "\<And>n p. snd (send n p)"
  shows "snd (snd (replay send t n c rows)) = length rows"
  using assms by (induction rows arbitrary: n c) (auto simp: split_beta Let_def)

lemma rounds_empty:
  assumes "ok c" "\<And>n p. snd (send n p)" "length (queue c t) \<le> m * limit" "0 < limit"
  shows "queue (snd (rounds send t limit m n c)) t = []"
  using assms(1,3)
proof (induction m arbitrary: n c)
  case (Suc m)
  let ?rows = "load c t limit" and ?r = "replay send t n c (load c t limit)"
  have l: "?rows = take limit (queue c t)" by (rule load_queue [OF Suc.prems(1)])
  then have rows: "queue c t = ?rows @ drop limit (queue c t)" by simp
  note r = replay_spec [OF Suc.prems(1) rows, of send n]
  have k: "snd (snd ?r) = length ?rows" by (rule replay_all [OF assms(2)])
  show ?case
  proof (cases "?rows = []")
    case True
    then show ?thesis using l assms(4) by simp
  next
    case False
    have "length (queue (fst (snd ?r)) t) \<le> m * limit"
      using r k l Suc.prems(2) by simp
    then have "queue (snd (rounds send t limit m (fst ?r) (fst (snd ?r)))) t = []"
      using Suc.IH r by blast
    then show ?thesis using False k by (simp add: split_beta Let_def)
  qed
qed simp

end

end
