(* ===== verification/Repl.thy ===== *)
theory Repl
  imports Membership_Props Wire Change_Log
begin

text \<open>
  Replication (epsilon_repl.c, epsilon_repl_cache.c): the persisted cache of changes peers have not
  acknowledged, the write path with its quorum, and the replay of cached changes. The cluster, its
  configuration and its engine are the state of theory \<open>Membership\<close>. The rows of the cache are
  listed in the order of their sequence numbers. The other nodes and the network are a state of any
  type with a function \<open>exchange\<close>: what a connection to an address receives before it is closed or
  its deadline passes, when the given frames were sent on it, or \<open>None\<close> when it could not be opened
  or sending failed. A SELECT of the cache that fails returns no row.
\<close>

section \<open>The change cache\<close>

record change_row =
  ch_target :: string
  ch_cid :: string
  ch_payload :: string
  ch_created :: int

text \<open>\<open>cc_db\<close>: the database is open.\<close>

record change_cache =
  cc_db :: bool
  cc_rows :: "change_row list"

definition CACHE_INSERT :: string where
  "CACHE_INSERT = ''INSERT OR REPLACE INTO PendingChanges (target, cid, payload, created) VALUES (?, ?, ?, ?)''"

definition CACHE_DELETE :: string where
  "CACHE_DELETE = ''DELETE FROM PendingChanges WHERE target = ? AND cid = ?''"

definition CACHE_SELECT :: string where
  "CACHE_SELECT = ''SELECT target, cid, payload FROM PendingChanges WHERE target = ? ORDER BY seq LIMIT ?''"

definition CACHE_COUNT :: string where
  "CACHE_COUNT = ''SELECT COUNT(*) FROM PendingChanges WHERE target = ?''"

definition CACHE_COUNT_ALL :: string where
  "CACHE_COUNT_ALL = ''SELECT COUNT(*) FROM PendingChanges''"

definition same_change :: "string \<Rightarrow> string \<Rightarrow> change_row \<Rightarrow> bool" where
  "same_change target cid r \<longleftrightarrow> ch_target r = target \<and> ch_cid r = cid"

text \<open>
  Opening copies the rows of the file into a new table with \<open>INSERT OR IGNORE\<close>: of rows with the
  same target and id the first stays. \<open>rows\<close> are those in the file; \<open>schema\<close> says whether the
  script succeeds.
\<close>

definition migrate_row :: "change_row list \<Rightarrow> change_row \<Rightarrow> change_row list" where
  "migrate_row rows r = (if \<exists>x \<in> set rows. same_change (ch_target r) (ch_cid r) x then rows else rows @ [r])"

definition cache_open :: "sqlite_env \<Rightarrow> bool \<Rightarrow> string \<Rightarrow> change_row list \<Rightarrow> change_cache \<times> bool" where
  "cache_open e schema data_dir rows =
     (if \<not> open_ok e (data_dir @ ''/changes.sqlite'') \<or> \<not> schema then (\<lparr>cc_db = False, cc_rows = rows\<rparr>, False)
      else (\<lparr>cc_db = True, cc_rows = foldl migrate_row [] rows\<rparr>, True))"

definition cache_close :: "change_cache \<Rightarrow> change_cache" where
  "cache_close cc = cc\<lparr>cc_db := False\<rparr>"

definition cache_append :: "sqlite_env \<Rightarrow> change_cache \<Rightarrow> string \<Rightarrow> string \<Rightarrow> string \<Rightarrow> change_cache" where
  "cache_append e cc target cid payload =
     (if cc_db cc \<and> prepare_ok e CACHE_INSERT \<and> step_ok e CACHE_INSERT
      then cc\<lparr>cc_rows := filter (\<lambda>r. \<not> same_change target cid r) (cc_rows cc)
             @ [\<lparr>ch_target = target, ch_cid = cid, ch_payload = payload, ch_created = now_epoch e\<rparr>]\<rparr>
      else cc)"

definition cache_remove :: "sqlite_env \<Rightarrow> change_cache \<Rightarrow> string \<Rightarrow> string \<Rightarrow> change_cache" where
  "cache_remove e cc target cid =
     (if cc_db cc \<and> prepare_ok e CACHE_DELETE \<and> step_ok e CACHE_DELETE
      then cc\<lparr>cc_rows := filter (\<lambda>r. \<not> same_change target cid r) (cc_rows cc)\<rparr>
      else cc)"

text \<open>The id and the payload of the loaded rows; the id is copied into a buffer of 96 bytes.\<close>

definition cache_load :: "sqlite_env \<Rightarrow> change_cache \<Rightarrow> string \<Rightarrow> nat \<Rightarrow> (string \<times> string) list" where
  "cache_load e cc target limit =
     (if cc_db cc \<and> prepare_ok e CACHE_SELECT \<and> step_ok e CACHE_SELECT
      then map (\<lambda>r. (snprintf_s 96 (ch_cid r), ch_payload r))
             (take limit (filter (\<lambda>r. ch_target r = target) (cc_rows cc)))
      else [])"

section \<open>State\<close>

definition MAX_PEERS_SNAPSHOT :: nat where
  "MAX_PEERS_SNAPSHOT = 64"

type_synonym apply_fn = "edb_config \<Rightarrow> cJSON \<Rightarrow> edb_config \<times> bool"
type_synonym read_fn = "edb_config \<Rightarrow> cJSON \<Rightarrow> edb_config \<times> cJSON option"

record edb_repl =
  rp_cluster :: edb_cluster
  rp_cache :: change_cache
  rp_apply :: "apply_fn option"
  rp_read :: "read_fn option"
  rp_self_id :: string
  rp_data_dir :: string
  rp_change_seq :: int
  rp_syncing :: bool
  rp_replaying :: string

definition rp_cfg :: "edb_repl \<Rightarrow> edb_config" where
  "rp_cfg rp = cl_cfg (rp_cluster rp)"

definition upd_rp_cfg :: "edb_config \<Rightarrow> edb_repl \<Rightarrow> edb_repl" where
  "upd_rp_cfg cfg rp = rp\<lparr>rp_cluster := (rp_cluster rp)\<lparr>cl_cfg := cfg\<rparr>\<rparr>"

definition upd_rp_engine :: "edb_engine \<Rightarrow> edb_repl \<Rightarrow> edb_repl" where
  "upd_rp_engine en rp = upd_rp_cfg ((rp_cfg rp)\<lparr>cfg_engine := en\<rparr>) rp"

definition rp_peers :: "edb_repl \<Rightarrow> edb_peer_info list" where
  "rp_peers rp = edb_cluster_peers (rp_cluster rp) MAX_PEERS_SNAPSHOT"

section \<open>One exchange\<close>

type_synonym frame = "estp_type \<times> string"
type_synonym 'n exchange = "'n \<Rightarrow> string \<Rightarrow> int \<Rightarrow> frame list \<Rightarrow> 'n \<times> frame list option"

text \<open>
  \<open>rpc_once\<close>: HELLO and the request are sent, frames are skipped until one has the wanted type. The
  result is the payload of that frame; every failure is \<open>None\<close>.
\<close>

definition rpc_once ::
  "sqlite_env \<Rightarrow> 'n exchange \<Rightarrow> 'n \<Rightarrow> string \<Rightarrow> int \<Rightarrow> estp_type \<Rightarrow> string \<Rightarrow> estp_type \<Rightarrow> 'n \<times> string option" where
  "rpc_once e exchange n addr port send_type payload want_type =
     (case cJSON_PrintUnformatted e (JObject [(''node_id'', JString ''ephemeral'')]) of
        None \<Rightarrow> (n, None)
      | Some hello \<Rightarrow>
          (case exchange n addr port [(ESTP_HELLO, hello), (send_type, payload)] of
             (n, None) \<Rightarrow> (n, None)
           | (n, Some frames) \<Rightarrow> (n, map_option snd (first_match (\<lambda>f. fst f = want_type) frames))))"

definition ack_ok :: "sqlite_env \<Rightarrow> string option \<Rightarrow> bool" where
  "ack_ok e reply =
     (case Option.bind reply (cJSON_ParseWithLength e) of
        None \<Rightarrow> False
      | Some doc \<Rightarrow> (case json_get (Some doc) ''ok'' of None \<Rightarrow> True | Some jok \<Rightarrow> cJSON_IsTrue (Some jok)))"

text \<open>A change is sent to a peer; the result is whether it was acknowledged.\<close>

definition send_change ::
  "sqlite_env \<Rightarrow> 'n exchange \<Rightarrow> edb_peer_info \<Rightarrow> 'n \<Rightarrow> string \<Rightarrow> 'n \<times> bool" where
  "send_change e exchange peer n payload =
     (let (n, reply) = rpc_once e exchange n (p_addr peer) (p_port peer) ESTP_REPL payload ESTP_ACK
      in (n, ack_ok e reply))"

section \<open>Holders\<close>

definition replication_factor :: "sqlite_env \<Rightarrow> edb_repl \<Rightarrow> string \<Rightarrow> edb_repl \<times> int" where
  "replication_factor e rp db =
     (let (cfg, info) = edb_database_get e (rp_cfg rp) db
      in (upd_rp_cfg cfg rp,
          case info of
            None \<Rightarrow> 1
          | Some i \<Rightarrow> if 0 < db_replication_factor i then db_replication_factor i else 1))"

definition candidate_online :: "string \<Rightarrow> edb_peer_info list \<Rightarrow> string \<Rightarrow> bool" where
  "candidate_online self peers c \<longleftrightarrow>
     strcmp c self = 0 \<or> (\<exists>p \<in> set peers. strcmp (p_id p) c = 0 \<and> p_online p)"

text \<open>The two passes of \<open>holder_ids\<close>: candidates that are online first, then the others.\<close>

definition holder_ids :: "edb_repl \<Rightarrow> string \<Rightarrow> string \<Rightarrow> int \<Rightarrow> string list" where
  "holder_ids rp part keyspace rf =
     (case edb_shard_path (cfg_engine (rp_cfg rp)) part keyspace 1024 of
        None \<Rightarrow> []
      | Some (path, key) \<Rightarrow>
          let candidates = edb_cluster_holders (rp_cluster rp) key MAX_PEERS_SNAPSHOT;
              online = candidate_online (rp_self_id rp) (rp_peers rp)
          in map (snprintf_s EDB_NODE_ID_MAX)
               (take (nat rf) (filter online candidates @ filter (\<lambda>c. \<not> online c) candidates)))"

definition id_in_holders :: "string \<Rightarrow> string list \<Rightarrow> bool" where
  "id_in_holders node holders \<longleftrightarrow> (\<exists>h \<in> set holders. strcmp node h = 0)"

section \<open>The write path\<close>

datatype edb_repl_status = EDB_REPL_OK | EDB_REPL_LOCAL_FAIL | EDB_REPL_QUORUM_LOST

definition apply_change_local :: "sqlite_env \<Rightarrow> edb_repl \<Rightarrow> cJSON \<Rightarrow> edb_repl \<times> bool" where
  "apply_change_local e rp change =
     (let member = json_get (Some change);
          origin = (case json_str (member ''origin'') of None \<Rightarrow> [] | Some o' \<Rightarrow> o');
          en = cfg_engine (rp_cfg rp)
      in case (json_str (member ''op''), json_str (member ''partition''), json_str (member ''keyspace''),
               json_str (member ''id''), json_num (member ''ts'')) of
           (Some operation, Some part, Some keyspace, Some doc, Some modified) \<Rightarrow>
             if strcmp operation ''put'' = 0
             then (case member ''value'' of
                     Some (JObject kvs) \<Rightarrow>
                       (case cJSON_PrintUnformatted e (JObject kvs) of
                          None \<Rightarrow> (rp, False)
                        | Some encoded \<Rightarrow>
                            let ttl = (case json_num (member ''ttl_abs'') of None \<Rightarrow> - 1 | Some t \<Rightarrow> t);
                                (en, ok) = edb_replica_put_origin e en part keyspace doc encoded ttl modified (Some origin)
                            in (upd_rp_engine en rp, ok))
                   | _ \<Rightarrow> (rp, False))
             else if strcmp operation ''delete'' = 0
             then (let (en, ok) = edb_replica_delete_origin e en part keyspace doc modified (Some origin)
                   in (upd_rp_engine en rp, ok))
             else (rp, False)
         | _ \<Rightarrow> (rp, False))"

text \<open>The fan-out: for each peer whether it counts as delivered, and the acknowledgements of holders.\<close>

fun fan_out ::
  "sqlite_env \<Rightarrow> 'n exchange \<Rightarrow> string \<Rightarrow> string list \<Rightarrow> string \<Rightarrow> 'n \<Rightarrow> edb_peer_info list \<Rightarrow> 'n \<times> bool list \<times> nat" where
  "fan_out e exchange self holders payload n [] = (n, [], 0)"
| "fan_out e exchange self holders payload n (p # ps) =
     (if strcmp (p_id p) self = 0
      then (let (n, ds, acks) = fan_out e exchange self holders payload n ps in (n, True # ds, acks))
      else if \<not> p_online p \<or> p_addr p = [] \<or> p_port p \<le> 0
      then (let (n, ds, acks) = fan_out e exchange self holders payload n ps in (n, False # ds, acks))
      else
        let (n, ok) = send_change e exchange p n payload;
            (n, ds, acks) = fan_out e exchange self holders payload n ps
        in (n, ok # ds, acks + (if ok \<and> id_in_holders (p_id p) holders then 1 else 0)))"

definition missed :: "string \<Rightarrow> edb_peer_info \<times> bool \<Rightarrow> bool" where
  "missed self pd \<longleftrightarrow> \<not> snd pd \<and> strcmp (p_id (fst pd)) self \<noteq> 0 \<and> p_id (fst pd) \<noteq> []"

definition cache_missed ::
  "sqlite_env \<Rightarrow> string \<Rightarrow> string \<Rightarrow> edb_peer_info list \<Rightarrow> bool list \<Rightarrow> edb_repl \<Rightarrow> edb_repl" where
  "cache_missed e cid payload peers delivered rp =
     rp\<lparr>rp_cache := foldl (\<lambda>cc pd. cache_append e cc (p_id (fst pd)) cid payload) (rp_cache rp)
          (filter (missed (rp_self_id rp)) (zip peers delivered))\<rparr>"

definition change_cid :: "string \<Rightarrow> int \<Rightarrow> int \<Rightarrow> string" where
  "change_cid self now seq = snprintf_s 96 (self @ ''-'' @ show_int now @ ''-'' @ show_int seq)"

text \<open>The change as it is sent: with its id, and with this node as origin unless it names one.\<close>

definition tag_change :: "string \<Rightarrow> string \<Rightarrow> (string \<times> cJSON) list \<Rightarrow> (string \<times> cJSON) list" where
  "tag_change self cid kvs =
     (let kvs = kvs @ [(''cid'', JString cid)]
      in if map_of kvs ''origin'' = None then kvs @ [(''origin'', JString self)] else kvs)"

text \<open>The holders of a write, this node alone when none could be computed.\<close>

definition write_holders :: "edb_repl \<Rightarrow> string \<Rightarrow> string \<Rightarrow> int \<Rightarrow> string list" where
  "write_holders rp part keyspace rf =
     (let holders = holder_ids rp part keyspace rf
      in if holders = [] then [snprintf_s EDB_NODE_ID_MAX (rp_self_id rp)] else holders)"

definition quorum :: "string list \<Rightarrow> nat" where
  "quorum holders = length holders div 2 + 1"

text \<open>The part of \<open>edb_repl_write\<close> after the change was tagged and printed.\<close>

definition write_tagged ::
  "sqlite_env \<Rightarrow> 'n exchange \<Rightarrow> string \<Rightarrow> string \<Rightarrow> string \<Rightarrow> string \<Rightarrow> cJSON \<Rightarrow> string \<Rightarrow> 'n \<Rightarrow> edb_repl \<Rightarrow>
    'n \<times> edb_repl \<times> edb_repl_status" where
  "write_tagged e exchange db part keyspace cid change payload n rp =
     (let (rp, rf) = replication_factor e rp db;
          holders = write_holders rp part keyspace rf;
          peers = rp_peers rp;
          (n, delivered, acks) = fan_out e exchange (rp_self_id rp) holders payload n peers;
          acknowledgements = (if id_in_holders (rp_self_id rp) holders then 1 else 0) + acks
      in if acknowledgements < quorum holders
         then (n, cache_missed e cid payload peers delivered rp, EDB_REPL_QUORUM_LOST)
         else
           let (rp, ok) = apply_change_local e rp change
           in (n, cache_missed e cid payload peers delivered rp, if ok then EDB_REPL_OK else EDB_REPL_LOCAL_FAIL))"

definition edb_repl_write ::
  "sqlite_env \<Rightarrow> 'n exchange \<Rightarrow> string \<Rightarrow> string \<Rightarrow> 'n \<Rightarrow> edb_repl \<Rightarrow> 'n \<times> edb_repl \<times> edb_repl_status" where
  "edb_repl_write e exchange db change_json n rp =
     (case cJSON_ParseWithLength e change_json of
        Some (JObject kvs) \<Rightarrow>
          (case (json_str (map_of kvs ''partition''), json_str (map_of kvs ''keyspace'')) of
             (Some part, Some keyspace) \<Rightarrow>
               let rp = rp\<lparr>rp_change_seq := rp_change_seq rp + 1\<rparr>;
                   cid = change_cid (rp_self_id rp) (now_epoch e) (rp_change_seq rp);
                   change = JObject (tag_change (rp_self_id rp) cid kvs)
               in (case cJSON_PrintUnformatted e change of
                     None \<Rightarrow> (n, rp, EDB_REPL_LOCAL_FAIL)
                   | Some payload \<Rightarrow> write_tagged e exchange db part keyspace cid change payload n rp)
           | _ \<Rightarrow> (n, rp, EDB_REPL_LOCAL_FAIL))
      | _ \<Rightarrow> (n, rp, EDB_REPL_LOCAL_FAIL))"

section \<open>Replay\<close>

definition deliver_cached ::
  "sqlite_env \<Rightarrow> 'n exchange \<Rightarrow> edb_peer_info \<Rightarrow> string \<Rightarrow> string \<Rightarrow> 'n \<Rightarrow> change_cache \<Rightarrow> 'n \<times> change_cache \<times> bool" where
  "deliver_cached e exchange peer cid payload n cc =
     (let (n, ok) = send_change e exchange peer n payload
      in (n, if ok then cache_remove e cc (p_id peer) cid else cc, ok))"

definition find_peer :: "edb_repl \<Rightarrow> string \<Rightarrow> edb_peer_info option" where
  "find_peer rp node =
     first_match (\<lambda>p. strcmp (p_id p) node = 0 \<and> p_addr p \<noteq> [] \<and> 0 < p_port p) (rp_peers rp)"

definition edb_repl_pending_for :: "sqlite_env \<Rightarrow> edb_repl \<Rightarrow> string \<Rightarrow> nat" where
  "edb_repl_pending_for e rp node =
     (if cc_db (rp_cache rp) \<and> prepare_ok e CACHE_COUNT \<and> step_ok e CACHE_COUNT
      then length (filter (\<lambda>r. ch_target r = node) (cc_rows (rp_cache rp))) else 0)"

definition edb_repl_pending_total :: "sqlite_env \<Rightarrow> edb_repl \<Rightarrow> nat" where
  "edb_repl_pending_total e rp =
     (if cc_db (rp_cache rp) \<and> prepare_ok e CACHE_COUNT_ALL \<and> step_ok e CACHE_COUNT_ALL
      then length (cc_rows (rp_cache rp)) else 0)"

text \<open>Loaded rows are delivered in order up to the first failure; the count is of those delivered.\<close>

fun deliver_rows ::
  "sqlite_env \<Rightarrow> 'n exchange \<Rightarrow> edb_peer_info \<Rightarrow> 'n \<Rightarrow> change_cache \<Rightarrow> (string \<times> string) list \<Rightarrow> 'n \<times> change_cache \<times> nat" where
  "deliver_rows e exchange peer n cc [] = (n, cc, 0)"
| "deliver_rows e exchange peer n cc ((cid, payload) # rows) =
     (let (n, cc, ok) = deliver_cached e exchange peer cid payload n cc
      in if ok then (let (n, cc, k) = deliver_rows e exchange peer n cc rows in (n, cc, Suc k)) else (n, cc, 0))"

fun drain_rounds ::
  "sqlite_env \<Rightarrow> 'n exchange \<Rightarrow> edb_peer_info \<Rightarrow> nat \<Rightarrow> 'n \<Rightarrow> change_cache \<Rightarrow> 'n \<times> change_cache" where
  "drain_rounds e exchange peer 0 n cc = (n, cc)"
| "drain_rounds e exchange peer (Suc m) n cc =
     (let rows = cache_load e cc (p_id peer) 256
      in if rows = [] then (n, cc)
         else
           let (n, cc, progress) = deliver_rows e exchange peer n cc rows
           in if progress = 0 then (n, cc) else drain_rounds e exchange peer m n cc)"

definition edb_repl_drain_peer ::
  "sqlite_env \<Rightarrow> 'n exchange \<Rightarrow> string \<Rightarrow> 'n \<Rightarrow> edb_repl \<Rightarrow> 'n \<times> edb_repl \<times> nat" where
  "edb_repl_drain_peer e exchange node n rp =
     (if rp_replaying rp \<noteq> [] \<and> strcmp (rp_replaying rp) node = 0
      then (n, rp, edb_repl_pending_for e rp node)
      else
        case find_peer rp node of
          None \<Rightarrow> (let rp = rp\<lparr>rp_replaying := []\<rparr> in (n, rp, edb_repl_pending_for e rp node))
        | Some peer \<Rightarrow>
            let (n, cc) = drain_rounds e exchange peer 64 n (rp_cache rp);
                rp = rp\<lparr>rp_cache := cc, rp_replaying := []\<rparr>
            in (n, rp, edb_repl_pending_for e rp node))"

definition replay_for_peer ::
  "sqlite_env \<Rightarrow> 'n exchange \<Rightarrow> edb_peer_info \<Rightarrow> 'n \<Rightarrow> edb_repl \<Rightarrow> 'n \<times> edb_repl" where
  "replay_for_peer e exchange peer n rp =
     (if strcmp (rp_replaying rp) (p_id peer) = 0 then (n, rp)
      else
        let rows = cache_load e (rp_cache rp) (p_id peer) 256;
            (n, cc, delivered) =
              (if p_addr peer = [] \<or> p_port peer \<le> 0 then (n, rp_cache rp, 0)
               else deliver_rows e exchange peer n (rp_cache rp) rows)
        in (n, rp\<lparr>rp_cache := cc, rp_replaying := []\<rparr>))"

text \<open>One pass of the maintenance thread over the peers.\<close>

fun maint_pass :: "sqlite_env \<Rightarrow> 'n exchange \<Rightarrow> 'n \<Rightarrow> edb_repl \<Rightarrow> edb_peer_info list \<Rightarrow> 'n \<times> edb_repl" where
  "maint_pass e exchange n rp [] = (n, rp)"
| "maint_pass e exchange n rp (p # ps) =
     (let (n, rp) = (if p_online p \<and> strcmp (p_id p) (rp_self_id rp) \<noteq> 0
                     then replay_for_peer e exchange p n rp else (n, rp))
      in maint_pass e exchange n rp ps)"

definition edb_repl_set_syncing :: "bool \<Rightarrow> edb_repl \<Rightarrow> edb_repl" where
  "edb_repl_set_syncing syncing rp = rp\<lparr>rp_syncing := syncing\<rparr>"

section \<open>The dispatcher\<close>

definition ack_json :: "sqlite_env \<Rightarrow> (string \<times> cJSON) list \<Rightarrow> frame option" where
  "ack_json e kvs = map_option (Pair ESTP_ACK) (cJSON_PrintUnformatted e (JObject kvs))"

definition dispatch_repl :: "sqlite_env \<Rightarrow> apply_fn \<Rightarrow> cJSON \<Rightarrow> edb_repl \<Rightarrow> edb_repl \<times> frame option" where
  "dispatch_repl e apply' req rp =
     (let (rp, ok) = (if rp_syncing rp then (rp, False)
                      else let (cfg, ok) = apply' (rp_cfg rp) req in (upd_rp_cfg cfg rp, ok))
      in (rp, ack_json e [(''ok'', JBool ok)]))"

definition dispatch_flush ::
  "sqlite_env \<Rightarrow> 'n exchange \<Rightarrow> cJSON \<Rightarrow> 'n \<Rightarrow> edb_repl \<Rightarrow> 'n \<times> edb_repl \<times> frame option" where
  "dispatch_flush e exchange req n rp =
     (let target = (case json_str (json_get (Some req) ''target'') of None \<Rightarrow> [] | Some s \<Rightarrow> take 63 s);
          (n, rp, remaining) = (if target = [] then (n, rp, 0) else edb_repl_drain_peer e exchange target n rp)
      in (n, rp, ack_json e [(''ok'', JBool (remaining = 0)), (''pending'', json_int (int remaining))]))"

definition dispatch_query :: "sqlite_env \<Rightarrow> read_fn \<Rightarrow> cJSON \<Rightarrow> edb_repl \<Rightarrow> edb_repl \<times> frame option" where
  "dispatch_query e read' req rp =
     (let (cfg, res) = read' (rp_cfg rp) req;
          doc = (case res of None \<Rightarrow> JObject [(''row'', JNull)] | Some d \<Rightarrow> d)
      in (upd_rp_cfg cfg rp, map_option (Pair ESTP_RESULT) (cJSON_PrintUnformatted e doc)))"

definition repl_dispatch ::
  "sqlite_env \<Rightarrow> 'n exchange \<Rightarrow> estp_type \<Rightarrow> string \<Rightarrow> 'n \<Rightarrow> edb_repl \<Rightarrow> 'n \<times> edb_repl \<times> frame option" where
  "repl_dispatch e exchange msg_type payload n rp =
     (case cJSON_ParseWithLength e payload of
        None \<Rightarrow> (n, rp, None)
      | Some req \<Rightarrow>
          (case (msg_type, rp_apply rp, rp_read rp) of
             (ESTP_REPL, Some apply', _) \<Rightarrow> (n, dispatch_repl e apply' req rp)
           | (ESTP_FLUSH, _, _) \<Rightarrow> dispatch_flush e exchange req n rp
           | (ESTP_QUERY, _, Some read') \<Rightarrow> (n, dispatch_query e read' req rp)
           | _ \<Rightarrow> (n, rp, None)))"

section \<open>Flush and start\<close>

definition flush_request :: "string \<Rightarrow> string" where
  "flush_request self = snprintf_s 96 (''{'' @ [CHR 0x22] @ ''target'' @ [CHR 0x22] @ '':'' @ [CHR 0x22] @ take 63 self @ [CHR 0x22] @ ''}'')"

definition flush_empty :: "sqlite_env \<Rightarrow> string option \<Rightarrow> bool" where
  "flush_empty e reply \<longleftrightarrow>
     (let doc = Option.bind reply (cJSON_ParseWithLength e)
      in cJSON_IsTrue (json_get doc ''ok'') \<and> json_get doc ''pending'' = Some (JNumber 0))"

text \<open>One round of \<open>edb_repl_flush\<close>: whether every peer reported an empty queue.\<close>

fun flush_round :: "sqlite_env \<Rightarrow> 'n exchange \<Rightarrow> string \<Rightarrow> 'n \<Rightarrow> edb_peer_info list \<Rightarrow> 'n \<times> bool" where
  "flush_round e exchange self n [] = (n, True)"
| "flush_round e exchange self n (p # ps) =
     (if strcmp (p_id p) self = 0 \<or> \<not> p_online p then flush_round e exchange self n ps
      else if p_addr p = [] \<or> p_port p \<le> 0 then (let (n, ok) = flush_round e exchange self n ps in (n, False))
      else
        let (n, reply) = rpc_once e exchange n (p_addr p) (p_port p) ESTP_FLUSH (flush_request self) ESTP_ACK;
            (n, ok) = flush_round e exchange self n ps
        in (n, flush_empty e reply \<and> ok))"

text \<open>\<open>again\<close> rounds fit before the deadline after the first one.\<close>

fun edb_repl_flush :: "sqlite_env \<Rightarrow> 'n exchange \<Rightarrow> nat \<Rightarrow> 'n \<Rightarrow> edb_repl \<Rightarrow> 'n \<times> bool" where
  "edb_repl_flush e exchange again n rp =
     (let (n, all_empty) = flush_round e exchange (rp_self_id rp) n (rp_peers rp)
      in if all_empty then (n, True)
         else case again of 0 \<Rightarrow> (n, False) | Suc again \<Rightarrow> edb_repl_flush e exchange again n rp)"

definition edb_repl_set_handlers :: "apply_fn option \<Rightarrow> read_fn option \<Rightarrow> edb_repl \<Rightarrow> edb_repl" where
  "edb_repl_set_handlers apply' read' rp = rp\<lparr>rp_apply := apply', rp_read := read'\<rparr>"

definition edb_repl_start :: "sqlite_env \<Rightarrow> bool \<Rightarrow> change_row list \<Rightarrow> edb_cluster \<Rightarrow> string \<Rightarrow> edb_repl" where
  "edb_repl_start e schema rows cluster data_dir =
     \<lparr>rp_cluster = cluster, rp_cache = fst (cache_open e schema data_dir rows), rp_apply = None, rp_read = None,
      rp_self_id = snprintf_s EDB_NODE_ID_MAX (cl_self_id cluster), rp_data_dir = snprintf_s 512 data_dir,
      rp_change_seq = 0, rp_syncing = False, rp_replaying = []\<rparr>"

definition edb_repl_stop :: "edb_repl \<Rightarrow> edb_repl" where
  "edb_repl_stop rp = rp\<lparr>rp_cache := cache_close (rp_cache rp)\<rparr>"

end
