(* ===== verification/Repl_Read.thy ===== *)
theory Repl_Read
  imports Repl
begin

text \<open>
  Quorum reads (epsilon_repl_read.c): a read is sent to the other holders that are online, and the
  answers are merged. A single document is decided by votes on the fingerprint of its value;
  collections keep the records enough copies agree on. The worker threads of a query are run one
  after the other; their answers are collected in the order of the peers, as in the source.
\<close>

definition MAX_REPLIES :: nat where
  "MAX_REPLIES = 16"

text \<open>\<open>cJSON_GetObjectItem\<close> compares names without regard to case.\<close>

definition json_get_nocase :: "cJSON option \<Rightarrow> string \<Rightarrow> cJSON option" where
  "json_get_nocase j key =
     map_option snd (first_match (\<lambda>kv. lower_ascii (fst kv) = lower_ascii key) (json_members j))"

section \<open>Asking the holders\<close>

definition query_worker :: "sqlite_env \<Rightarrow> 'n exchange \<Rightarrow> string \<Rightarrow> 'n \<Rightarrow> edb_peer_info \<Rightarrow> 'n \<times> cJSON option" where
  "query_worker e exchange payload n p =
     (let (n, reply) = rpc_once e exchange n (p_addr p) (p_port p) ESTP_QUERY payload ESTP_RESULT
      in (n, Option.bind reply (cJSON_ParseWithLength e)))"

fun query_peers ::
  "sqlite_env \<Rightarrow> 'n exchange \<Rightarrow> string \<Rightarrow> 'n \<Rightarrow> edb_peer_info list \<Rightarrow> 'n \<times> cJSON list" where
  "query_peers e exchange payload n [] = (n, [])"
| "query_peers e exchange payload n (p # ps) =
     (let (n, reply) = query_worker e exchange payload n p;
          (n, replies) = query_peers e exchange payload n ps
      in (n, (case reply of None \<Rightarrow> replies | Some r \<Rightarrow> r # replies)))"

definition queryable :: "string \<Rightarrow> string list \<Rightarrow> edb_peer_info \<Rightarrow> bool" where
  "queryable self holders p \<longleftrightarrow>
     \<not> (strcmp (p_id p) self = 0 \<or> \<not> id_in_holders (p_id p) holders \<or> \<not> p_online p \<or> p_addr p = [] \<or> p_port p \<le> 0)"

definition query_all ::
  "sqlite_env \<Rightarrow> 'n exchange \<Rightarrow> cJSON \<Rightarrow> nat \<Rightarrow> 'n \<Rightarrow> edb_repl \<Rightarrow> 'n \<times> edb_repl \<times> cJSON list" where
  "query_all e exchange request cap n rp =
     (case (cJSON_PrintUnformatted e request, json_str (json_get (Some request) ''db''),
            json_str (json_get (Some request) ''partition''), json_str (json_get (Some request) ''keyspace'')) of
        (Some payload, Some db, Some part, Some keyspace) \<Rightarrow>
          let (rp, rf) = replication_factor e rp db;
              holders = holder_ids rp part keyspace rf;
              jobs = take (min cap MAX_REPLIES) (filter (queryable (rp_self_id rp) holders) (rp_peers rp));
              (n, replies) = query_peers e exchange payload n jobs
          in (n, rp, replies)
      | _ \<Rightarrow> (n, rp, []))"

definition value_fingerprint :: "sqlite_env \<Rightarrow> cJSON \<Rightarrow> string" where
  "value_fingerprint e v = (case cJSON_PrintUnformatted e v of None \<Rightarrow> [] | Some vs \<Rightarrow> edb_md5_hex vs)"

section \<open>Merging rows\<close>

record row_entry =
  me_id :: string
  me_fp :: string
  me_best :: "cJSON option"
  me_ts :: int
  me_agree :: nat

definition new_entry :: "string \<Rightarrow> row_entry" where
  "new_entry doc = \<lparr>me_id = take 511 doc, me_fp = [], me_best = None, me_ts = 0, me_agree = 0\<rparr>"

text \<open>A copy of a record counts for its entry, and replaces the best value when it is newer.\<close>

definition merge_copy :: "sqlite_env \<Rightarrow> cJSON \<Rightarrow> int \<Rightarrow> row_entry \<Rightarrow> row_entry" where
  "merge_copy e value' ts x =
     (let fp = value_fingerprint e value';
          same = (me_best x \<noteq> None \<and> me_fp x \<noteq> [] \<and> fp \<noteq> [] \<and> strcmp fp (me_fp x) = 0);
          x = (if same then x\<lparr>me_agree := me_agree x + 1\<rparr> else x)
      in if me_best x = None \<or> me_ts x < ts
         then x\<lparr>me_best := Some value', me_fp := fp, me_ts := ts, me_agree := (if same then me_agree x else 1)\<rparr>
         else x)"

definition merge_row :: "sqlite_env \<Rightarrow> row_entry list \<Rightarrow> cJSON \<Rightarrow> row_entry list" where
  "merge_row e entries r =
     (case (json_str (json_get (Some r) ''id''), json_get (Some r) ''value'') of
        (Some doc, Some (JObject kvs)) \<Rightarrow>
          let ts = num_or_0 (json_get (Some r) ''timestamp'');
              entries = (if first_match (\<lambda>x. strcmp (me_id x) doc = 0) entries = None then entries @ [new_entry doc] else entries);
              pos = (case index_of (\<lambda>x. strcmp (me_id x) doc = 0) entries of None \<Rightarrow> length entries - 1 | Some i \<Rightarrow> i)
          in entries[pos := merge_copy e (JObject kvs) ts (entries ! pos)]
      | _ \<Rightarrow> entries)"

text \<open>The rows of a set; a set without an array of rows is skipped.\<close>

definition set_rows :: "cJSON \<Rightarrow> cJSON list" where
  "set_rows s = (case json_get_nocase (Some s) ''rows'' of Some (JArray rows) \<Rightarrow> rows | _ \<Rightarrow> [])"

definition merge_entries :: "sqlite_env \<Rightarrow> cJSON list \<Rightarrow> row_entry list" where
  "merge_entries e sets = foldl (merge_row e) [] (concat (map set_rows sets))"

definition agreed :: "nat \<Rightarrow> row_entry \<Rightarrow> bool" where
  "agreed required x \<longleftrightarrow> me_best x \<noteq> None \<and> required \<le> me_agree x"

definition merge_agreed_rows :: "sqlite_env \<Rightarrow> cJSON list \<Rightarrow> nat \<Rightarrow> cJSON" where
  "merge_agreed_rows e sets required =
     JArray (List.map_filter (\<lambda>x. if agreed required x then me_best x else None) (merge_entries e sets))"

definition merge_agreed_rows_meta :: "sqlite_env \<Rightarrow> cJSON list \<Rightarrow> nat \<Rightarrow> cJSON" where
  "merge_agreed_rows_meta e sets required =
     JArray (List.map_filter
       (\<lambda>x. if agreed required x
            then map_option (\<lambda>v. JObject [(''id'', JString (me_id x)), (''timestamp'', json_int (me_ts x)), (''value'', v)]) (me_best x)
            else None) (merge_entries e sets))"

text \<open>Ids are counted; an id longer than the buffer is cut to 511 characters.\<close>

definition count_id :: "(string \<times> nat) list \<Rightarrow> string \<Rightarrow> (string \<times> nat) list" where
  "count_id entries doc =
     (case index_of (\<lambda>x. strcmp (fst x) doc = 0) entries of
        None \<Rightarrow> entries @ [(take 511 doc, 1)]
      | Some i \<Rightarrow> entries[i := (fst (entries ! i), snd (entries ! i) + 1)])"

definition merge_agreed_ids :: "string list list \<Rightarrow> nat \<Rightarrow> string list" where
  "merge_agreed_ids id_lists required =
     map fst (filter (\<lambda>x. required \<le> snd x) (foldl count_id [] (concat id_lists)))"

section \<open>Requests\<close>

definition make_request :: "string \<Rightarrow> string \<Rightarrow> string \<Rightarrow> string \<Rightarrow> (string \<times> cJSON) list" where
  "make_request q db part keyspace =
     [(''q'', JString q), (''db'', JString db), (''partition'', JString part), (''keyspace'', JString keyspace)]"

definition filter_request :: "cJSON option \<Rightarrow> (string \<times> cJSON) list" where
  "filter_request filters = (case filters of None \<Rightarrow> [] | Some f \<Rightarrow> [(''filters'', f)])"

definition quorum_applies :: "sqlite_env \<Rightarrow> edb_repl \<Rightarrow> string \<Rightarrow> edb_repl \<times> bool" where
  "quorum_applies e rp db =
     (if rp_read rp = None then (rp, False)
      else
        let (cfg, info) = edb_database_get e (rp_cfg rp) db
        in (upd_rp_cfg cfg rp, case info of None \<Rightarrow> False | Some i \<Rightarrow> 1 < db_replication_factor i))"

text \<open>The number of copies that must agree, and whether this node is a holder.\<close>

definition read_quorum :: "sqlite_env \<Rightarrow> edb_repl \<Rightarrow> string \<Rightarrow> string \<Rightarrow> string \<Rightarrow> edb_repl \<times> nat \<times> bool" where
  "read_quorum e rp db part keyspace =
     (let (rp, rf) = replication_factor e rp db;
          holders = holder_ids rp part keyspace rf
      in if holders = [] then (rp, 1, True)
         else (rp, quorum holders, id_in_holders (rp_self_id rp) holders))"

definition strings_from_json :: "cJSON option \<Rightarrow> string list" where
  "strings_from_json j =
     (case j of Some (JArray items) \<Rightarrow> List.map_filter (\<lambda>i. json_str (Some i)) items | _ \<Rightarrow> [])"

section \<open>Single documents\<close>

record vote_group =
  g_fp :: string
  g_ts :: int
  g_sample :: cJSON
  g_votes :: nat

text \<open>A vote for a value with a fingerprint, in the group of that fingerprint.\<close>

definition add_vote :: "string \<Rightarrow> cJSON \<Rightarrow> int \<Rightarrow> vote_group list \<Rightarrow> vote_group list" where
  "add_vote fp value' ts groups =
     (let groups = (if first_match (\<lambda>g. strcmp (g_fp g) fp = 0) groups = None \<and> length groups < MAX_REPLIES + 1
                    then groups @ [\<lparr>g_fp = fp, g_ts = 0, g_sample = value', g_votes = 0\<rparr>] else groups)
      in update_first (\<lambda>g. strcmp (g_fp g) fp = 0)
           (\<lambda>g. g\<lparr>g_votes := g_votes g + 1, g_ts := (if g_ts g < ts then ts else g_ts g)\<rparr>) groups)"

text \<open>The value a reply carries, with its time stamp.\<close>

definition reply_value :: "cJSON \<Rightarrow> (cJSON \<times> int) option" where
  "reply_value reply =
     (case json_get_nocase (Some reply) ''row'' of
        Some (JObject row) \<Rightarrow>
          (case map_of row ''value'' of
             Some (JObject kvs) \<Rightarrow> Some (JObject kvs, num_or_0 (map_of row ''timestamp''))
           | _ \<Rightarrow> None)
      | _ \<Rightarrow> None)"

definition count_reply :: "sqlite_env \<Rightarrow> vote_group list \<times> nat \<Rightarrow> cJSON \<Rightarrow> vote_group list \<times> nat" where
  "count_reply e st reply =
     (case st of (groups, absent) \<Rightarrow>
        (case reply_value reply of
           None \<Rightarrow> (groups, absent + 1)
         | Some (v, ts) \<Rightarrow>
             if value_fingerprint e v = [] then (groups, absent)
             else (add_vote (value_fingerprint e v) v ts groups, absent)))"

definition count_local :: "sqlite_env \<Rightarrow> (cJSON \<times> int) option \<Rightarrow> vote_group list \<Rightarrow> vote_group list" where
  "count_local e local' groups =
     (case local' of
        None \<Rightarrow> groups
      | Some (v, ts) \<Rightarrow>
          if value_fingerprint e v = [] then groups else add_vote (value_fingerprint e v) v ts groups)"

definition better_group :: "nat \<Rightarrow> vote_group option \<Rightarrow> vote_group \<Rightarrow> vote_group option" where
  "better_group required winner g =
     (if required \<le> g_votes g \<and> (case winner of None \<Rightarrow> True | Some w \<Rightarrow> g_ts w < g_ts g) then Some g else winner)"

text \<open>The decision on the replies and the local value, when enough answered.\<close>

definition decide_get :: "sqlite_env \<Rightarrow> nat \<Rightarrow> bool \<Rightarrow> (cJSON \<times> int) option \<Rightarrow> cJSON list \<Rightarrow> cJSON option" where
  "decide_get e required self_holder local' replies =
     (if length replies + (if self_holder then 1 else 0) < required then None
      else
        let (groups, absent) = foldl (count_reply e) ([], if self_holder \<and> local' = None then 1 else 0) replies;
            groups = count_local e local' groups
        in if absent < required then map_option g_sample (foldl (better_group required) None groups) else None)"

text \<open>The local read as a value with its time stamp.\<close>

definition local_value :: "cJSON option \<times> int option \<Rightarrow> (cJSON \<times> int) option" where
  "local_value vt = map_option (\<lambda>v. (v, case snd vt of None \<Rightarrow> 0 | Some t \<Rightarrow> t)) (fst vt)"

definition edb_repl_read_get ::
  "sqlite_env \<Rightarrow> 'n exchange \<Rightarrow> string \<Rightarrow> string \<Rightarrow> string \<Rightarrow> string \<Rightarrow> 'n \<Rightarrow> edb_repl \<Rightarrow> 'n \<times> edb_repl \<times> cJSON option" where
  "edb_repl_read_get e exchange db part keyspace doc n rp =
     (let (rp, applies) = quorum_applies e rp db;
          (rp, required, self_holder) = (if applies then read_quorum e rp db part keyspace else (rp, 1, True));
          (rp, local') = (if self_holder
                          then let (en, vt) = edb_get_ts e (cfg_engine (rp_cfg rp)) part keyspace doc
                               in (upd_rp_engine en rp, local_value vt)
                          else (rp, None));
          (rp, applies) = quorum_applies e rp db
      in if \<not> applies then (n, rp, map_option fst local')
         else
           let (n, rp, replies) =
                 query_all e exchange (JObject (make_request ''get'' db part keyspace @ [(''id'', JString doc)])) MAX_REPLIES n rp
           in (n, rp, decide_get e required self_holder local' replies))"

section \<open>Collections\<close>

text \<open>The local rows as a set, if this node is a holder and could read them.\<close>

definition wrap_rows :: "cJSON option \<Rightarrow> cJSON list" where
  "wrap_rows rows = (case rows of None \<Rightarrow> [] | Some r \<Rightarrow> [JObject [(''rows'', r)]])"

text \<open>
  The common part of the three collection reads: \<open>q\<close> names the request, \<open>local'\<close> is the local read,
  \<open>merge\<close> the merge of the sets.
\<close>

definition read_rows ::
  "sqlite_env \<Rightarrow> 'n exchange \<Rightarrow> string \<Rightarrow> (edb_engine \<Rightarrow> edb_engine \<times> cJSON option) \<Rightarrow> (cJSON list \<Rightarrow> nat \<Rightarrow> cJSON) \<Rightarrow>
    string \<Rightarrow> string \<Rightarrow> string \<Rightarrow> cJSON option \<Rightarrow> 'n \<Rightarrow> edb_repl \<Rightarrow> 'n \<times> edb_repl \<times> cJSON" where
  "read_rows e exchange q local' merge db part keyspace filters n rp =
     (let (rp, required, self_holder) = read_quorum e rp db part keyspace;
          (rp, rows) = (if self_holder
                        then let (en, rows) = local' (cfg_engine (rp_cfg rp)) in (upd_rp_engine en rp, rows)
                        else (rp, None));
          (n, rp, replies) = query_all e exchange (JObject (make_request q db part keyspace @ filter_request filters)) MAX_REPLIES n rp;
          sets = wrap_rows rows @ replies
      in (n, rp, if length sets < required then JArray [] else merge sets required))"

definition edb_repl_read_all ::
  "sqlite_env \<Rightarrow> 'n exchange \<Rightarrow> string \<Rightarrow> string \<Rightarrow> string \<Rightarrow> cJSON option \<Rightarrow> 'n \<Rightarrow> edb_repl \<Rightarrow> 'n \<times> edb_repl \<times> cJSON option" where
  "edb_repl_read_all e exchange db part keyspace filters n rp =
     (let (rp, applies) = quorum_applies e rp db
      in if \<not> applies
         then (let (en, r) = edb_all e (cfg_engine (rp_cfg rp)) part keyspace filters in (n, upd_rp_engine en rp, r))
         else (let (n, rp, r) = read_rows e exchange ''all_ts'' (\<lambda>en. edb_all_ts e en part keyspace filters)
                                  (merge_agreed_rows e) db part keyspace filters n rp in (n, rp, Some r)))"

definition edb_repl_read_query ::
  "sqlite_env \<Rightarrow> 'n exchange \<Rightarrow> string \<Rightarrow> string \<Rightarrow> string \<Rightarrow> cJSON option \<Rightarrow> 'n \<Rightarrow> edb_repl \<Rightarrow> 'n \<times> edb_repl \<times> cJSON option" where
  "edb_repl_read_query e exchange db part keyspace filters n rp =
     (let (rp, applies) = quorum_applies e rp db
      in if \<not> applies
         then (let (en, r) = edb_query e (cfg_engine (rp_cfg rp)) part keyspace filters in (n, upd_rp_engine en rp, r))
         else (let (n, rp, r) = read_rows e exchange ''query_ts'' (\<lambda>en. edb_query_ts e en part keyspace filters)
                                  (merge_agreed_rows e) db part keyspace filters n rp in (n, rp, Some r)))"

definition edb_repl_read_query_meta ::
  "sqlite_env \<Rightarrow> 'n exchange \<Rightarrow> string \<Rightarrow> string \<Rightarrow> string \<Rightarrow> cJSON option \<Rightarrow> 'n \<Rightarrow> edb_repl \<Rightarrow> 'n \<times> edb_repl \<times> cJSON option" where
  "edb_repl_read_query_meta e exchange db part keyspace filters n rp =
     (let (rp, applies) = quorum_applies e rp db
      in if \<not> applies
         then (let (en, r) = edb_query_ts e (cfg_engine (rp_cfg rp)) part keyspace filters in (n, upd_rp_engine en rp, r))
         else (let (n, rp, r) = read_rows e exchange ''query_ts'' (\<lambda>en. edb_query_ts e en part keyspace filters)
                                  (merge_agreed_rows_meta e) db part keyspace filters n rp in (n, rp, Some r)))"

definition edb_repl_read_ids ::
  "sqlite_env \<Rightarrow> 'n exchange \<Rightarrow> string \<Rightarrow> string \<Rightarrow> string \<Rightarrow> cJSON option \<Rightarrow> 'n \<Rightarrow> edb_repl \<Rightarrow> 'n \<times> edb_repl \<times> string list option" where
  "edb_repl_read_ids e exchange db part keyspace filters n rp =
     (let (rp, applies) = quorum_applies e rp db
      in if \<not> applies
         then (let (en, ids) = edb_ids e (cfg_engine (rp_cfg rp)) part keyspace filters in (n, upd_rp_engine en rp, ids))
         else
           let (rp, required, self_holder) = read_quorum e rp db part keyspace;
               (rp, own) = (if self_holder
                            then let (en, ids) = edb_ids e (cfg_engine (rp_cfg rp)) part keyspace filters
                                 in (upd_rp_engine en rp, [case ids of None \<Rightarrow> [] | Some xs \<Rightarrow> xs])
                            else (rp, []));
               (n, rp, replies) = query_all e exchange (JObject (make_request ''ids'' db part keyspace @ filter_request filters)) MAX_REPLIES n rp;
               id_lists = take (MAX_REPLIES + 1) (own @ map (\<lambda>r. strings_from_json (json_get_nocase (Some r) ''ids'')) replies)
           in (n, rp, if length id_lists < required then None else Some (merge_agreed_ids id_lists required)))"

end
