(* ===== verification/Eql_Exec.thy ===== *)
theory Eql_Exec
  imports Eql_Rewrite Repl_Read
begin

text \<open>
  Executing a statement (epsilon_eql.c, perm_denied to edb_eql_execute): the documents of the
  referenced shards are copied into tables of a private SQLite database, the rewritten statement runs
  there, and the rows it changed are written back. SQLite is a parameter: the record \<open>shadow\<close> holds
  what each call returns.
\<close>

section \<open>The private database\<close>

datatype col_val = CNull | CInt int | CFloat rat | CText string | CBlob "byte list"

datatype sqlite_action =
    ACT_INSERT | ACT_UPDATE | ACT_DELETE | ACT_ATTACH | ACT_DETACH | ACT_CREATE_INDEX | ACT_CREATE_TABLE
  | ACT_CREATE_TEMP_INDEX | ACT_CREATE_TEMP_TABLE | ACT_CREATE_TEMP_TRIGGER | ACT_CREATE_TEMP_VIEW
  | ACT_CREATE_TRIGGER | ACT_CREATE_VIEW | ACT_PRAGMA | ACT_TRANSACTION | ACT_SAVEPOINT | ACT_REINDEX
  | ACT_ANALYZE | ACT_ALTER_TABLE | ACT_OTHER

type_synonym authorizer = "sqlite_action \<Rightarrow> string option \<Rightarrow> bool"

text \<open>The end of stepping a statement, with the error message.\<close>

datatype step_end = StepDone | StepInterrupt | StepError "string option"

text \<open>Preparing the user's statement: an error with its message and whether it is \<open>SQLITE_AUTH\<close>, or
  the rest of the text, whether the statement is read-only, and its column names. An empty text
  gives no statement.\<close>

datatype prepared = PrepareError "string option" bool | Prepared string "(bool \<times> string list) option"

text \<open>\<open>q_insert\<close> is a bound INSERT that ends with \<open>SQLITE_DONE\<close>, with \<open>sqlite3_last_insert_rowid\<close>;
  \<open>q_dml\<close> gives the events of the update hook, \<open>q_text\<close> is \<open>sqlite3_column_text\<close>.\<close>

record 'd shadow =
  q_open :: "'d option"
  q_exec :: "'d \<Rightarrow> string \<Rightarrow> 'd option"
  q_prepare :: "'d \<Rightarrow> string \<Rightarrow> bool"
  q_insert :: "'d \<Rightarrow> string \<Rightarrow> col_val list \<Rightarrow> ('d \<times> int) option"
  q_user :: "'d \<Rightarrow> authorizer \<Rightarrow> string \<Rightarrow> prepared"
  q_select :: "'d \<Rightarrow> string \<Rightarrow> col_val list list \<times> step_end"
  q_dml :: "'d \<Rightarrow> string \<Rightarrow> 'd \<times> (sqlite_action \<times> string \<times> int) list \<times> step_end"
  q_row :: "'d \<Rightarrow> string \<Rightarrow> int \<Rightarrow> col_val list option"
  q_text :: "col_val \<Rightarrow> string"

section \<open>Where documents are kept\<close>

text \<open>A node without replication, or with it; both reach the engine through the configuration.\<close>

datatype eql_store = Single edb_config | Clustered edb_repl

fun store_cfg :: "eql_store \<Rightarrow> edb_config" where
  "store_cfg (Single cfg) = cfg"
| "store_cfg (Clustered rp) = rp_cfg rp"

fun set_store_cfg :: "edb_config \<Rightarrow> eql_store \<Rightarrow> eql_store" where
  "set_store_cfg cfg (Single _) = Single cfg"
| "set_store_cfg cfg (Clustered rp) = Clustered (upd_rp_cfg cfg rp)"

definition set_store_engine :: "edb_engine \<Rightarrow> eql_store \<Rightarrow> eql_store" where
  "set_store_engine en st = set_store_cfg ((store_cfg st)\<lparr>cfg_engine := en\<rparr>) st"

section \<open>Permissions\<close>

datatype edb_permission = EDB_PERM_CREATE | EDB_PERM_READ | EDB_PERM_UPDATE | EDB_PERM_DELETE

definition perm_mask :: "edb_permission \<Rightarrow> edb_partition_info \<Rightarrow> u64" where
  "perm_mask perm part =
     (case perm of
        EDB_PERM_CREATE \<Rightarrow> pt_create_mask part
      | EDB_PERM_UPDATE \<Rightarrow> pt_update_mask part
      | EDB_PERM_DELETE \<Rightarrow> pt_delete_mask part
      | EDB_PERM_READ \<Rightarrow> pt_read_mask part)"

definition perm_denied ::
  "sqlite_env \<Rightarrow> eql_store \<Rightarrow> eql_table \<Rightarrow> u64 \<Rightarrow> bool \<Rightarrow> edb_permission \<Rightarrow> eql_store \<times> bool" where
  "perm_denied e st t groups trusted perm =
     (if trusted then (st, False)
      else
        let (cfg, part) = edb_partition_get e (store_cfg st) (t_db t) (t_part t)
        in (set_store_cfg cfg st,
            case part of None \<Rightarrow> False | Some p \<Rightarrow> \<not> edb_check_perm (perm_mask perm p) groups))"

text \<open>The loop over the tables ends at the first that is denied.\<close>

fun any_denied ::
  "sqlite_env \<Rightarrow> u64 \<Rightarrow> bool \<Rightarrow> edb_permission \<Rightarrow> eql_store \<Rightarrow> eql_table list \<Rightarrow> eql_store \<times> bool" where
  "any_denied e groups trusted perm st [] = (st, False)"
| "any_denied e groups trusted perm st (t # ts) =
     (let (st, denied) = perm_denied e st t groups trusted perm
      in if denied then (st, True) else any_denied e groups trusted perm st ts)"

definition needed_perm :: "eql_kind \<Rightarrow> edb_permission" where
  "needed_perm kind =
     (case kind of
        EQL_KIND_DELETE \<Rightarrow> EDB_PERM_DELETE
      | EQL_KIND_UPDATE \<Rightarrow> EDB_PERM_UPDATE
      | EQL_KIND_INSERT \<Rightarrow> EDB_PERM_CREATE
      | _ \<Rightarrow> EDB_PERM_READ)"

section \<open>Documents of a table\<close>

definition read_meta ::
  "sqlite_env \<Rightarrow> 'n exchange \<Rightarrow> string \<Rightarrow> string \<Rightarrow> string \<Rightarrow> 'n \<Rightarrow> eql_store \<Rightarrow> 'n \<times> eql_store \<times> cJSON option" where
  "read_meta e exchange db part ks n st =
     (case st of
        Clustered rp \<Rightarrow>
          let (n, rp, meta) = edb_repl_read_query_meta e exchange db part ks None n rp in (n, Clustered rp, meta)
      | Single cfg \<Rightarrow>
          let (en, meta) = edb_query_ts e (cfg_engine cfg) part ks None in (n, set_store_engine en st, meta))"

text \<open>The id and the document of a row of a shard.\<close>

definition shard_doc :: "cJSON \<Rightarrow> (string \<times> cJSON) option" where
  "shard_doc row =
     (case json_get (Some row) ''value'' of
        Some (JObject kvs) \<Rightarrow>
          Some (case json_str (json_get (Some row) ''id'') of None \<Rightarrow> [] | Some i \<Rightarrow> i, JObject kvs)
      | _ \<Rightarrow> None)"

definition fetch_shard_docs ::
  "sqlite_env \<Rightarrow> 'n exchange \<Rightarrow> string \<Rightarrow> string \<Rightarrow> string \<Rightarrow> 'n \<Rightarrow> eql_store \<Rightarrow> 'n \<times> eql_store \<times> (string \<times> cJSON) list" where
  "fetch_shard_docs e exchange db part ks n st =
     (let (n, st, meta) = read_meta e exchange db part ks n st
      in (n, st, List.map_filter shard_doc (json_items meta)))"

text \<open>The rows of several keyspaces, each with its keyspace.\<close>

fun fetch_keyspaces ::
  "sqlite_env \<Rightarrow> 'n exchange \<Rightarrow> string \<Rightarrow> string \<Rightarrow> 'n \<Rightarrow> eql_store \<Rightarrow> string list \<Rightarrow>
    'n \<times> eql_store \<times> (string \<times> cJSON \<times> string) list" where
  "fetch_keyspaces e exchange db part n st [] = (n, st, [])"
| "fetch_keyspaces e exchange db part n st (k # ks) =
     (let (n, st, docs) = fetch_shard_docs e exchange db part k n st;
          (n, st, rest) = fetch_keyspaces e exchange db part n st ks
      in (n, st, map (\<lambda>(i, d). (i, d, k)) docs @ rest))"

definition partition_keyspaces :: "string \<Rightarrow> string \<Rightarrow> edb_keyspace_info list \<Rightarrow> string list" where
  "partition_keyspaces db part infos =
     map (\<lambda>k. snprintf_s 128 (ks_name k))
       (take 64 (filter (\<lambda>k. strcmp (ks_database k) db = 0 \<and> strcmp (ks_partition k) part = 0) infos))"

definition fetch_docs ::
  "sqlite_env \<Rightarrow> 'n exchange \<Rightarrow> eql_table \<Rightarrow> 'n \<Rightarrow> eql_store \<Rightarrow>
    'n \<times> eql_store \<times> eql_table \<times> (string \<times> cJSON \<times> string) list" where
  "fetch_docs e exchange t n st =
     (if \<not> t_pw t
      then (let (n, st, docs) = fetch_shard_docs e exchange (t_db t) (t_part t) (t_ks t) n st
            in (n, st, t, map (\<lambda>(i, d). (i, d, t_ks t)) docs))
      else
        let (cfg, infos) = edb_keyspace_list e (store_cfg st);
            st = set_store_cfg cfg st;
            ks = partition_keyspaces (t_db t) (t_part t) infos;
            (n, st, rows) = fetch_keyspaces e exchange (t_db t) (t_part t) n st ks
        in (n, st, t\<lparr>t_keyspaces := ks\<rparr>, rows))"

section \<open>Columns and values\<close>

definition is_nested :: "cJSON \<Rightarrow> bool" where
  "is_nested j \<longleftrightarrow> cJSON_IsObject j \<or> cJSON_IsArray j"

definition union_column :: "(string \<times> bool) list \<Rightarrow> string \<times> cJSON \<Rightarrow> (string \<times> bool) list" where
  "union_column cols kv =
     (if \<exists>c \<in> set cols. strcmp (fst c) (fst kv) = 0
      then if is_nested (snd kv) then update_first (\<lambda>c. strcmp (fst c) (fst kv) = 0) (\<lambda>c. (fst c, True)) cols else cols
      else if length cols < EQL_MAX_COLS then cols @ [(snprintf_s 128 (fst kv), is_nested (snd kv))] else cols)"

definition union_columns :: "cJSON \<Rightarrow> eql_table \<Rightarrow> eql_table" where
  "union_columns doc t = t\<lparr>t_cols := foldl union_column (t_cols t) (json_members (Some doc))\<rparr>"

definition bind_json :: "sqlite_env \<Rightarrow> cJSON option \<Rightarrow> col_val" where
  "bind_json e v =
     (case v of
        None \<Rightarrow> CNull
      | Some JNull \<Rightarrow> CNull
      | Some (JBool b) \<Rightarrow> CInt (if b then 1 else 0)
      | Some (JNumber d) \<Rightarrow>
          if - 9200000000000000000 \<le> d \<and> d \<le> 9200000000000000000 \<and> d = of_int (trunc_rat d) then CInt (trunc_rat d) else CFloat d
      | Some (JString s) \<Rightarrow> CText s
      | Some j \<Rightarrow> (case cJSON_PrintUnformatted e j of None \<Rightarrow> CNull | Some txt \<Rightarrow> CText txt))"

text \<open>The value of a column of a result; a column of nested values is parsed back.\<close>

definition column_value :: "sqlite_env \<Rightarrow> bool \<Rightarrow> col_val \<Rightarrow> cJSON" where
  "column_value e nested v =
     (case v of
        CNull \<Rightarrow> JNull
      | CInt i \<Rightarrow> json_int i
      | CFloat r \<Rightarrow> JNumber r
      | CText s \<Rightarrow> (case (if nested then cJSON_ParseWithLength e s else None) of None \<Rightarrow> JString s | Some j \<Rightarrow> j)
      | CBlob bs \<Rightarrow> JString (hex_of_bytes bs))"

definition row_to_doc :: "sqlite_env \<Rightarrow> eql_table \<Rightarrow> col_val list \<Rightarrow> cJSON" where
  "row_to_doc e t row =
     JObject (map (\<lambda>(c, v). (fst c, column_value e (snd c) v)) (zip (drop 1 (t_cols t)) (drop 1 row)))"

section \<open>The map of rows\<close>

text \<open>Which record a row of a shadow table stands for; tables are told apart by their aliases.\<close>

record eql_rowrec =
  rr_table :: string
  rr_rowid :: int
  rr_id :: string
  rr_ks :: string

definition EQL_ID_CAP :: nat where "EQL_ID_CAP = 512"

definition map_add_ks :: "string \<Rightarrow> int \<Rightarrow> string \<Rightarrow> string \<Rightarrow> eql_rowrec list \<Rightarrow> eql_rowrec list" where
  "map_add_ks tname rowid doc ks m =
     m @ [\<lparr>rr_table = tname, rr_rowid = rowid, rr_id = snprintf_s EQL_ID_CAP doc, rr_ks = snprintf_s 128 ks\<rparr>]"

definition is_row :: "string \<Rightarrow> int \<Rightarrow> eql_rowrec \<Rightarrow> bool" where
  "is_row tname rowid r \<longleftrightarrow> rr_table r = tname \<and> rr_rowid r = rowid"

text \<open>The last entry of a row is taken out.\<close>

definition map_take :: "string \<Rightarrow> int \<Rightarrow> eql_rowrec list \<Rightarrow> eql_rowrec list \<times> (string \<times> string) option" where
  "map_take tname rowid m =
     (case index_of (is_row tname rowid) (rev m) of
        None \<Rightarrow> (m, None)
      | Some i \<Rightarrow>
          let k = length m - 1 - i in (take k m @ drop (k + 1) m, Some (rr_id (m ! k), rr_ks (m ! k))))"

section \<open>Materialising a table\<close>

definition quoted :: "string \<Rightarrow> string" where
  "quoted name = chr_dquote # name @ [chr_dquote]"

definition create_prefix :: "eql_table \<Rightarrow> string" where
  "create_prefix t =
     ''CREATE TABLE '' @ quoted (t_alias t) @ '' ('' @ quoted ''id'' @ '' TEXT PRIMARY KEY'' @
     concat (map (\<lambda>c. '', '' @ quoted (fst c)) (drop 1 (t_cols t)))"

text \<open>The statement is built in a buffer of 4096 bytes.\<close>

definition create_sql :: "eql_table \<Rightarrow> string option" where
  "create_sql t =
     (if 4096 \<le> length (create_prefix t) \<or> t_cols t = [] then None else Some (snprintf_s 4096 (create_prefix t @ '')'')))"

definition insert_sql :: "eql_table \<Rightarrow> string" where
  "insert_sql t =
     ''INSERT OR REPLACE INTO '' @ quoted (t_alias t) @ '' VALUES (?'' @ concat (map (\<lambda>c. '',?'') (drop 1 (t_cols t))) @ '')''"

definition bind_row :: "sqlite_env \<Rightarrow> eql_table \<Rightarrow> string \<Rightarrow> cJSON \<Rightarrow> col_val list" where
  "bind_row e t doc_id doc = CText doc_id # map (\<lambda>c. bind_json e (json_get (Some doc) (fst c))) (drop 1 (t_cols t))"

fun insert_rows ::
  "sqlite_env \<Rightarrow> 'd shadow \<Rightarrow> eql_table \<Rightarrow> 'd \<Rightarrow> eql_rowrec list \<Rightarrow> (string \<times> cJSON \<times> string) list \<Rightarrow>
    ('d \<times> eql_rowrec list) option" where
  "insert_rows e q t d m [] = Some (d, m)"
| "insert_rows e q t d m ((doc_id, doc, ks) # rows) =
     (case q_insert q d (insert_sql t) (bind_row e t doc_id doc) of
        None \<Rightarrow> None
      | Some (d, rowid) \<Rightarrow> insert_rows e q t d (map_add_ks (t_alias t) rowid doc_id ks m) rows)"

text \<open>\<open>materialize\<close>: \<open>None\<close> stands for the status 500.\<close>

definition materialize ::
  "sqlite_env \<Rightarrow> 'd shadow \<Rightarrow> eql_table \<Rightarrow> (string \<times> cJSON \<times> string) list \<Rightarrow> 'd \<Rightarrow> eql_rowrec list \<Rightarrow>
    ('d \<times> eql_rowrec list) option" where
  "materialize e q t rows d m =
     (case create_sql t of
        None \<Rightarrow> None
      | Some create \<Rightarrow>
          (case q_exec q d create of
             None \<Rightarrow> None
           | Some d \<Rightarrow>
               if length create + 16 \<le> length (insert_sql t) - 1 \<or> \<not> q_prepare q d (insert_sql t) then None
               else insert_rows e q t d m rows))"

section \<open>What a statement may do\<close>

definition denied_actions :: "sqlite_action set" where
  "denied_actions =
     {ACT_ATTACH, ACT_DETACH, ACT_CREATE_INDEX, ACT_CREATE_TABLE, ACT_CREATE_TEMP_INDEX, ACT_CREATE_TEMP_TABLE,
      ACT_CREATE_TEMP_TRIGGER, ACT_CREATE_TEMP_VIEW, ACT_CREATE_TRIGGER, ACT_CREATE_VIEW, ACT_PRAGMA,
      ACT_TRANSACTION, ACT_SAVEPOINT, ACT_REINDEX, ACT_ANALYZE, ACT_ALTER_TABLE}"

definition deny_authorizer :: "eql_table list \<Rightarrow> sqlite_action option \<Rightarrow> authorizer" where
  "deny_authorizer tables allow_op action a1 =
     (if action \<notin> {ACT_INSERT, ACT_UPDATE, ACT_DELETE} then action \<notin> denied_actions
      else allow_op = Some action \<and> (case a1 of None \<Rightarrow> False | Some name \<Rightarrow> \<exists>t \<in> set tables. strcmp (t_alias t) name = 0))"

definition allowed_op :: "eql_kind \<Rightarrow> sqlite_action option" where
  "allowed_op kind =
     (case kind of
        EQL_KIND_DELETE \<Rightarrow> Some ACT_DELETE
      | EQL_KIND_UPDATE \<Rightarrow> Some ACT_UPDATE
      | EQL_KIND_INSERT \<Rightarrow> Some ACT_INSERT
      | _ \<Rightarrow> None)"

text \<open>The buffer of row events: those of known tables; it doubles from 256 up to \<open>2 ^ 20\<close> entries.\<close>

definition EQL_MAX_EVENTS :: nat where "EQL_MAX_EVENTS = 2 ^ 20"

definition trap_events ::
  "eql_table list \<Rightarrow> (sqlite_action \<times> string \<times> int) list \<Rightarrow> (eql_table \<times> sqlite_action \<times> int) list" where
  "trap_events tables hooks =
     List.map_filter (\<lambda>(action, tname, rowid).
       map_option (\<lambda>t. (t, action, rowid)) (first_match (\<lambda>t. strcmp (t_alias t) tname = 0) tables)) hooks"

definition trap_overflow :: "(eql_table \<times> sqlite_action \<times> int) list \<Rightarrow> bool" where
  "trap_overflow evs \<longleftrightarrow> EQL_MAX_EVENTS < length evs"

section \<open>Writing back\<close>

type_synonym lua_hook = "sqlite_action \<Rightarrow> bool \<Rightarrow> string \<Rightarrow> string \<Rightarrow> string \<Rightarrow> string \<Rightarrow> cJSON option \<Rightarrow> edb_config \<Rightarrow> edb_config"

text \<open>The change document of a put is built as text, without escaping the names in it.\<close>

definition jstr :: "string \<Rightarrow> string \<Rightarrow> string" where
  "jstr name s = quoted name @ '':'' @ quoted s"

definition put_text :: "sqlite_env \<Rightarrow> eql_table \<Rightarrow> string \<Rightarrow> string \<Rightarrow> cJSON \<Rightarrow> string" where
  "put_text e t ks doc_id v =
     ''{'' @ jstr ''op'' ''put'' @ '','' @ jstr ''db'' (t_db t) @ '','' @ jstr ''partition'' (t_part t) @ '','' @
     jstr ''keyspace'' ks @ '','' @ jstr ''id'' doc_id @ '','' @ quoted ''value'' @ '':'' @
     (case cJSON_PrintUnformatted e v of None \<Rightarrow> [] | Some s \<Rightarrow> s) @ '','' @ quoted ''ttl_abs'' @ '':-1,'' @ quoted ''ts'' @ '':'' @
     show_int (now_epoch e) @ ''}''"

definition delete_change :: "sqlite_env \<Rightarrow> eql_table \<Rightarrow> string \<Rightarrow> string \<Rightarrow> cJSON" where
  "delete_change e t ks doc_id =
     JObject [(''op'', JString ''delete''), (''db'', JString (t_db t)), (''partition'', JString (t_part t)),
       (''keyspace'', JString ks), (''id'', JString doc_id), (''ts'', json_int (now_epoch e))]"

text \<open>One attempt to write: the new state and the status code.\<close>

definition write_attempt ::
  "sqlite_env \<Rightarrow> 'n exchange \<Rightarrow> eql_table \<Rightarrow> string \<Rightarrow> string \<Rightarrow> cJSON option \<Rightarrow> string \<Rightarrow> 'n \<Rightarrow> eql_store \<Rightarrow>
    'n \<times> eql_store \<times> nat" where
  "write_attempt e exchange t ks doc_id v txt n st =
     (case st of
        Clustered rp \<Rightarrow>
          let (n, rp, status) = edb_repl_write e exchange (t_db t) txt n rp
          in (n, Clustered rp, case status of EDB_REPL_OK \<Rightarrow> 200 | EDB_REPL_QUORUM_LOST \<Rightarrow> 503 | EDB_REPL_LOCAL_FAIL \<Rightarrow> 500)
      | Single cfg \<Rightarrow>
          (case v of
             Some j \<Rightarrow>
               (case cJSON_PrintUnformatted e j of
                  None \<Rightarrow> (n, st, 500)
                | Some body \<Rightarrow>
                    let (en, ok) = edb_put e (cfg_engine cfg) (t_part t) ks doc_id body (- 1)
                    in (n, set_store_engine en st, if ok then 200 else 500))
           | None \<Rightarrow>
               let (en, ok) = edb_delete e (cfg_engine cfg) (t_part t) ks doc_id
               in (n, set_store_engine en st, if ok then 200 else 500)))"

fun write_attempts ::
  "sqlite_env \<Rightarrow> 'n exchange \<Rightarrow> eql_table \<Rightarrow> string \<Rightarrow> string \<Rightarrow> cJSON option \<Rightarrow> string \<Rightarrow> nat \<Rightarrow> 'n \<Rightarrow> eql_store \<Rightarrow>
    'n \<times> eql_store \<times> nat" where
  "write_attempts e exchange t ks doc_id v txt 0 n st = (n, st, 0)"
| "write_attempts e exchange t ks doc_id v txt (Suc k) n st =
     (let (n, st, code) = write_attempt e exchange t ks doc_id v txt n st
      in if code = 200 \<or> k = 0 then (n, st, code) else write_attempts e exchange t ks doc_id v txt k n st)"

definition EQL_WRITE_ATTEMPTS :: nat where "EQL_WRITE_ATTEMPTS = 3"

definition after_write ::
  "sqlite_env \<Rightarrow> lua_hook \<Rightarrow> eql_table \<Rightarrow> string \<Rightarrow> string \<Rightarrow> cJSON option \<Rightarrow> cJSON option \<Rightarrow> eql_store \<Rightarrow> eql_store" where
  "after_write e lua t ks doc_id v existing st =
     (let st = (if v = None then st
                else set_store_cfg (fst (edb_partition_ensure e (store_cfg st) (t_db t) (t_part t) ks)) st)
      in case st of
           Clustered rp \<Rightarrow> st
         | Single cfg \<Rightarrow>
             if strcmp (t_db t) EDB_SYSTEM_DB = 0 then st
             else Single (if v = None then lua ACT_DELETE True (t_db t) (t_part t) ks doc_id existing cfg
                          else lua (if existing = None then ACT_INSERT else ACT_UPDATE) True (t_db t) (t_part t) ks doc_id None cfg))"

definition replicate_record ::
  "sqlite_env \<Rightarrow> 'n exchange \<Rightarrow> lua_hook \<Rightarrow> eql_table \<Rightarrow> string \<Rightarrow> string \<Rightarrow> cJSON option \<Rightarrow> 'n \<Rightarrow> eql_store \<Rightarrow>
    'n \<times> eql_store \<times> nat" where
  "replicate_record e exchange lua t ks doc_id v n st =
     (case (case v of Some j \<Rightarrow> Some (put_text e t ks doc_id j)
                    | None \<Rightarrow> cJSON_PrintUnformatted e (delete_change e t ks doc_id)) of
        None \<Rightarrow> (n, st, 500)
      | Some txt \<Rightarrow>
          let (en, existing) = edb_get e (cfg_engine (store_cfg st)) (t_part t) ks doc_id;
              st = set_store_engine en st;
              (n, st, code) = write_attempts e exchange t ks doc_id v txt EQL_WRITE_ATTEMPTS n st
          in (n, if code = 200 then after_write e lua t ks doc_id v existing st else st, code))"

section \<open>Applying the events\<close>

definition reader_sql :: "eql_table \<Rightarrow> string" where
  "reader_sql t =
     ''SELECT '' @ (case map (\<lambda>c. quoted (fst c)) (t_cols t) of [] \<Rightarrow> [] | c # cs \<Rightarrow> c @ concat (map (\<lambda>x. '','' @ x) cs)) @
     '' FROM '' @ quoted (t_alias t) @ '' WHERE rowid=?''"

text \<open>What applying events has done: the row map, the ids applied and the ids that failed.\<close>

record eql_outcome =
  oc_map :: "eql_rowrec list"
  oc_applied :: "string list"
  oc_failed :: "string list"

definition report :: "nat \<Rightarrow> string \<Rightarrow> eql_outcome \<Rightarrow> eql_outcome" where
  "report code doc_id oc =
     (if code = 200 then oc\<lparr>oc_applied := oc_applied oc @ [doc_id]\<rparr> else oc\<lparr>oc_failed := oc_failed oc @ [doc_id]\<rparr>)"

text \<open>
  One event. \<open>stack_ks\<close> is what the uninitialised buffer \<open>old_ks\<close> holds: it is copied into the row map
  when the row was not known.
\<close>

definition apply_event ::
  "sqlite_env \<Rightarrow> 'n exchange \<Rightarrow> lua_hook \<Rightarrow> string \<Rightarrow> 'd shadow \<Rightarrow> 'd \<Rightarrow> 'n \<times> eql_store \<times> eql_outcome \<Rightarrow>
    eql_table \<times> sqlite_action \<times> int \<Rightarrow> 'n \<times> eql_store \<times> eql_outcome" where
  "apply_event e exchange lua stack_ks q d s ev =
     (case (s, ev) of ((n, st, oc), (t, action, rowid)) \<Rightarrow>
        if action = ACT_DELETE
        then (case map_take (t_alias t) rowid (oc_map oc) of
                (m, None) \<Rightarrow> (n, st, report 500 ''-'' oc)
              | (m, Some (doc_id, ks)) \<Rightarrow>
                  let (n, st, code) = replicate_record e exchange lua t ks doc_id None n st
                  in (n, st, report code doc_id (oc\<lparr>oc_map := m\<rparr>)))
        else if \<not> q_prepare q d (reader_sql t) then (n, st, report 500 ''-'' oc)
        else
          let (m, known) = map_take (t_alias t) rowid (oc_map oc)
          in case q_row q d (reader_sql t) rowid of
               None \<Rightarrow> (n, st, (case known of None \<Rightarrow> report 500 ''-'' oc | Some (doc_id, ks) \<Rightarrow> report 200 doc_id (oc\<lparr>oc_map := m\<rparr>)))
             | Some row \<Rightarrow>
                 let cur = snprintf_s EQL_ID_CAP (case row of [] \<Rightarrow> [] | v # _ \<Rightarrow> q_text q v);
                     old_ks = (case known of None \<Rightarrow> stack_ks | Some (_, ks) \<Rightarrow> ks);
                     oc = oc\<lparr>oc_map := map_add_ks (t_alias t) rowid cur old_ks m\<rparr>;
                     (n, st, oc) =
                       (case known of
                          Some (old, ks) \<Rightarrow>
                            if strcmp old cur \<noteq> 0
                            then (let (n, st, code) = replicate_record e exchange lua t ks old None n st in (n, st, report code old oc))
                            else (n, st, oc)
                        | None \<Rightarrow> (n, st, oc));
                     ks = (case known of None \<Rightarrow> if t_pw t then [] else t_ks t | Some (_, ks) \<Rightarrow> ks);
                     (n, st, code) = replicate_record e exchange lua t ks cur (Some (row_to_doc e t row)) n st
                 in (n, st, report code cur oc))"

definition process_events ::
  "sqlite_env \<Rightarrow> 'n exchange \<Rightarrow> lua_hook \<Rightarrow> string \<Rightarrow> 'd shadow \<Rightarrow> 'd \<Rightarrow> eql_rowrec list \<Rightarrow>
    (eql_table \<times> sqlite_action \<times> int) list \<Rightarrow> 'n \<Rightarrow> eql_store \<Rightarrow> 'n \<times> eql_store \<times> eql_outcome" where
  "process_events e exchange lua stack_ks q d m evs n st =
     foldl (apply_event e exchange lua stack_ks q d) (n, st, \<lparr>oc_map = m, oc_applied = [], oc_failed = []\<rparr>) evs"

section \<open>Executing a statement\<close>

definition error_response :: "sqlite_env \<Rightarrow> string \<Rightarrow> string option" where
  "error_response e message = cJSON_PrintUnformatted e (JObject [(''status'', JString ''error''), (''message'', JString message)])"

definition message_or :: "string option \<Rightarrow> string \<Rightarrow> string" where
  "message_or msg alt = (case msg of None \<Rightarrow> alt | Some m \<Rightarrow> m)"

definition time_limit_message :: string where
  "time_limit_message = ''statement exceeded the execution time limit''"

definition encode_result :: "sqlite_env \<Rightarrow> nat \<Rightarrow> cJSON \<Rightarrow> nat \<times> string option" where
  "encode_result e code result =
     (case cJSON_PrintUnformatted e result of
        None \<Rightarrow> (500, error_response e ''encode failed'')
      | Some txt \<Rightarrow> (code, Some txt))"

definition select_result :: "sqlite_env \<Rightarrow> string list \<Rightarrow> col_val list list \<Rightarrow> cJSON" where
  "select_result e names rows =
     JObject [(''columns'', JArray (map JString names)),
       (''rows'', JArray (map (\<lambda>row. JArray (map (column_value e False) row)) rows)), (''status'', JString ''ok'')]"

definition run_select :: "sqlite_env \<Rightarrow> 'd shadow \<Rightarrow> 'd \<Rightarrow> string \<Rightarrow> (bool \<times> string list) option \<Rightarrow> nat \<times> string option" where
  "run_select e q d sql stmt =
     (case stmt of
        Some (True, names) \<Rightarrow>
          (case q_select q d sql of
             (rows, StepDone) \<Rightarrow> encode_result e 200 (select_result e names rows)
           | (rows, StepInterrupt) \<Rightarrow> (400, error_response e time_limit_message)
           | (rows, StepError msg) \<Rightarrow> (400, error_response e (message_or msg ''statement execution failed'')))
      | _ \<Rightarrow> (400, error_response e ''only SELECT statements are supported''))"

definition op_name :: "eql_kind \<Rightarrow> string" where
  "op_name kind = (case kind of EQL_KIND_DELETE \<Rightarrow> ''delete'' | EQL_KIND_UPDATE \<Rightarrow> ''update'' | _ \<Rightarrow> ''insert'')"

definition dml_result :: "eql_kind \<Rightarrow> eql_outcome \<Rightarrow> nat \<times> cJSON" where
  "dml_result kind oc =
     (let total = length (oc_applied oc) + length (oc_failed oc);
          tail' = [(''count'', json_int (int total)), (''applied'', JArray (map JString (oc_applied oc))),
                   (''failed'', JArray (map JString (oc_failed oc)))]
      in if oc_applied oc \<noteq> [] \<or> total = 0
         then (200, JObject ([(''status'', JString ''ok''), (''op'', JString (op_name kind))] @ tail'))
         else (503, JObject ([(''status'', JString ''error''), (''message'', JString ''no records were replicated for this statement'')] @ tail')))"

definition run_dml ::
  "sqlite_env \<Rightarrow> 'n exchange \<Rightarrow> lua_hook \<Rightarrow> string \<Rightarrow> 'd shadow \<Rightarrow> eql_kind \<Rightarrow> eql_table list \<Rightarrow> 'd \<Rightarrow> eql_rowrec list \<Rightarrow>
    string \<Rightarrow> 'n \<Rightarrow> eql_store \<Rightarrow> 'n \<times> eql_store \<times> nat \<times> string option" where
  "run_dml e exchange lua stack_ks q kind tables d m sql n st =
     (let (d, hooks, step) = q_dml q d sql;
          evs = trap_events tables hooks
      in if step \<noteq> StepDone \<or> trap_overflow evs
         then (n, st, 400, error_response e
                 (case step of
                    StepInterrupt \<Rightarrow> time_limit_message
                  | StepError msg \<Rightarrow> if trap_overflow evs then ''too many changes for one statement'' else message_or msg ''statement failed''
                  | StepDone \<Rightarrow> ''too many changes for one statement''))
         else
           let (n, st, oc) = process_events e exchange lua stack_ks q d m evs n st;
               (code, result) = dml_result kind oc
           in (n, st, encode_result e code result))"

text \<open>Every table gets its documents; \<open>None\<close> is the status 500.\<close>

fun materialize_all ::
  "sqlite_env \<Rightarrow> 'n exchange \<Rightarrow> 'd shadow \<Rightarrow> 'n \<Rightarrow> eql_store \<Rightarrow> 'd \<Rightarrow> eql_rowrec list \<Rightarrow> eql_table list \<Rightarrow>
    'n \<times> eql_store \<times> (eql_table list \<times> 'd \<times> eql_rowrec list) option" where
  "materialize_all e exchange q n st d m [] = (n, st, Some ([], d, m))"
| "materialize_all e exchange q n st d m (t # ts) =
     (let (n, st, t, rows) = fetch_docs e exchange t n st;
          t = fold (\<lambda>row t. union_columns (fst (snd row)) t) rows t
      in case materialize e q t rows d m of
           None \<Rightarrow> (n, st, None)
         | Some (d, m) \<Rightarrow>
             let (n, st, r) = materialize_all e exchange q n st d m ts
             in (n, st, map_option (\<lambda>(ts, d, m). (t # ts, d, m)) r))"

definition add_id_column :: "eql_table \<Rightarrow> eql_table" where
  "add_id_column t = t\<lparr>t_cols := t_cols t @ [(''id'', False)]\<rparr>"

definition statement_tables :: "eql_kind \<Rightarrow> string \<Rightarrow> eql_table list \<Rightarrow> eql_table list" where
  "statement_tables kind sql tables =
     (let tables = map add_id_column tables
      in case kind of
           EQL_KIND_INSERT \<Rightarrow> scan_insert_columns sql tables
         | EQL_KIND_UPDATE \<Rightarrow> scan_update_columns sql tables
         | _ \<Rightarrow> tables)"

definition is_tail_char :: "char \<Rightarrow> bool" where
  "is_tail_char c \<longleftrightarrow> c \<in> {CHR '';'', CHR '' '', CHR 0x0A, CHR 0x0D, CHR 0x09}"

text \<open>From the permission check on.\<close>

definition run_statement ::
  "sqlite_env \<Rightarrow> 'n exchange \<Rightarrow> lua_hook \<Rightarrow> string \<Rightarrow> 'd shadow \<Rightarrow> eql_kind \<Rightarrow> string \<Rightarrow> eql_table list \<Rightarrow> 'n \<Rightarrow> eql_store \<Rightarrow>
    'n \<times> eql_store \<times> nat \<times> string option" where
  "run_statement e exchange lua stack_ks q kind sql tables n st =
     (let tables = statement_tables kind sql tables;
          rewritten = rewrite_sql sql tables
      in case q_open q of
           None \<Rightarrow> (n, st, 500, None)
         | Some d \<Rightarrow>
             (case materialize_all e exchange q n st d [] tables of
                (n, st, None) \<Rightarrow> (n, st, 500, None)
              | (n, st, Some (tables, d, m)) \<Rightarrow>
                  (case q_user q d (deny_authorizer tables (allowed_op kind)) rewritten of
                     PrepareError msg auth \<Rightarrow>
                       (n, st, 400, error_response e
                          (if allowed_op kind = None \<and> auth then ''only SELECT statements are supported''
                           else message_or msg ''prepare failed''))
                   | Prepared tail' stmt \<Rightarrow>
                       if dropWhile is_tail_char tail' \<noteq> [] then (n, st, 400, error_response e ''one statement per request'')
                       else if allowed_op kind = None then (n, st, run_select e q d rewritten stmt)
                       else run_dml e exchange lua stack_ks q kind tables d m rewritten n st)))"

definition edb_eql_execute ::
  "sqlite_env \<Rightarrow> 'n exchange \<Rightarrow> lua_hook \<Rightarrow> string \<Rightarrow> 'd shadow \<Rightarrow> string \<Rightarrow> u64 \<Rightarrow> bool \<Rightarrow> 'n \<Rightarrow> eql_store \<Rightarrow>
    'n \<times> eql_store \<times> nat \<times> string option" where
  "edb_eql_execute e exchange lua stack_ks q sql user_groups trusted n st =
     (if sql = [] then (n, st, 400, None)
      else
        let kind = classify_statement sql; tables = collect_refs sql []
        in if tables = []
           then (n, st, 400, error_response e ''no Database.Partition.Keyspace reference found in FROM/JOIN'')
           else if kind = EQL_KIND_INSERT \<and> (\<exists>t \<in> set tables. t_pw t)
           then (n, st, 400, error_response e ''INSERT requires an explicit Database.Partition.Keyspace reference'')
           else
             let (st, denied) = any_denied e user_groups trusted (needed_perm kind) st tables
             in if denied then (n, st, 403, error_response e ''permission denied'')
                else run_statement e exchange lua stack_ks q kind sql tables n st)"

end
