(* ===== verification/Api_Auth.thy ===== *)
theory Api_Auth
  imports Http_Server Eql_Exec
begin

text \<open>
  Authentication of the HTTP API (api/epsilon_api.c, api/epsilon_api_console.c): the table of failed
  attempts per source address, console sessions, the credentials of a request, and the permission
  check of a partition. The time is that of the environment; random tokens are arguments.
\<close>

section \<open>Failed attempts\<close>

definition EDB_AUTH_MAX_FAILS :: int where
  "EDB_AUTH_MAX_FAILS = 8"

definition EDB_AUTH_LOCKOUT_SECS :: int where
  "EDB_AUTH_LOCKOUT_SECS = 30"

definition EDB_AUTH_ATTEMPT_SLOTS :: nat where
  "EDB_AUTH_ATTEMPT_SLOTS = 64"

record edb_auth_attempt =
  at_ip :: string
  at_fails :: int
  at_locked_until :: int

definition empty_attempt :: edb_auth_attempt where
  "empty_attempt = \<lparr>at_ip = [], at_fails = 0, at_locked_until = 0\<rparr>"

text \<open>The slot of an address, or the first one that is empty or not locked.\<close>

fun auth_slot_from :: "int \<Rightarrow> string \<Rightarrow> nat \<Rightarrow> nat option \<Rightarrow> edb_auth_attempt list \<Rightarrow> nat option" where
  "auth_slot_from now ip i free_slot [] = free_slot"
| "auth_slot_from now ip i free_slot (a # as) =
     (if at_ip a \<noteq> [] \<and> strcmp (at_ip a) ip = 0 then Some i
      else auth_slot_from now ip (Suc i)
             (if free_slot = None \<and> (at_ip a = [] \<or> at_locked_until a \<le> now) then Some i else free_slot) as)"

definition auth_slot :: "int \<Rightarrow> string \<Rightarrow> edb_auth_attempt list \<Rightarrow> nat option" where
  "auth_slot now ip ats = auth_slot_from now ip 0 None ats"

definition edb_auth_throttled :: "int \<Rightarrow> string \<Rightarrow> edb_auth_attempt list \<Rightarrow> bool" where
  "edb_auth_throttled now ip ats \<longleftrightarrow>
     ip \<noteq> [] \<and>
     (case auth_slot now ip ats of
        None \<Rightarrow> False
      | Some i \<Rightarrow> EDB_AUTH_MAX_FAILS \<le> at_fails (ats ! i) \<and> now < at_locked_until (ats ! i))"

definition count_fail :: "int \<Rightarrow> string \<Rightarrow> edb_auth_attempt \<Rightarrow> edb_auth_attempt" where
  "count_fail now ip a =
     (let a = (if at_ip a = [] then a\<lparr>at_ip := snprintf_s 64 ip\<rparr> else a)
      in if now < at_locked_until a \<and> EDB_AUTH_MAX_FAILS \<le> at_fails a
         then a\<lparr>at_locked_until := now + EDB_AUTH_LOCKOUT_SECS\<rparr>
         else
           let a = (if at_locked_until a \<le> now then a\<lparr>at_fails := 0\<rparr> else a);
               a = a\<lparr>at_fails := at_fails a + 1\<rparr>
           in if EDB_AUTH_MAX_FAILS \<le> at_fails a then a\<lparr>at_locked_until := now + EDB_AUTH_LOCKOUT_SECS\<rparr> else a)"

definition edb_auth_throttle_fail :: "int \<Rightarrow> string \<Rightarrow> edb_auth_attempt list \<Rightarrow> edb_auth_attempt list" where
  "edb_auth_throttle_fail now ip ats =
     (if ip = [] then ats
      else case auth_slot now ip ats of
             None \<Rightarrow> ats
           | Some i \<Rightarrow> ats[i := count_fail now ip (ats ! i)])"

definition edb_auth_throttle_reset :: "string \<Rightarrow> edb_auth_attempt list \<Rightarrow> edb_auth_attempt list" where
  "edb_auth_throttle_reset ip ats =
     (if ip = [] then ats else update_first (\<lambda>a. strcmp (at_ip a) ip = 0) (\<lambda>_. empty_attempt) ats)"

section \<open>Console sessions\<close>

definition EDB_SESSION_CAPACITY :: nat where
  "EDB_SESSION_CAPACITY = 256"

definition EDB_SESSION_TTL :: int where
  "EDB_SESSION_TTL = 43200"

record edb_session =
  se_token :: string
  se_username :: string
  se_groups :: u64
  se_expires :: int
  se_used :: bool

text \<open>The sessions, and the name and groups of the session found; an expired one is released.\<close>

definition session_lookup :: "int \<Rightarrow> string \<Rightarrow> edb_session list \<Rightarrow> edb_session list \<times> (string \<times> u64) option" where
  "session_lookup now token ss =
     (case index_of (\<lambda>s. se_used s \<and> strcmp (se_token s) token = 0) ss of
        None \<Rightarrow> (ss, None)
      | Some i \<Rightarrow>
          if se_expires (ss ! i) \<le> now then (ss[i := (ss ! i)\<lparr>se_used := False\<rparr>], None)
          else (ss, Some (snprintf_s 128 (se_username (ss ! i)), se_groups (ss ! i))))"

definition session_slot :: "int \<Rightarrow> edb_session list \<Rightarrow> nat" where
  "session_slot now ss =
     (case index_of (\<lambda>s. \<not> se_used s \<or> se_expires s \<le> now) ss of None \<Rightarrow> 0 | Some i \<Rightarrow> i)"

definition session_create :: "int \<Rightarrow> string \<Rightarrow> u64 \<Rightarrow> string \<Rightarrow> edb_session list \<Rightarrow> edb_session list" where
  "session_create now username groups token ss =
     ss[session_slot now ss :=
          \<lparr>se_token = snprintf_s 65 token, se_username = snprintf_s 128 username, se_groups = groups,
           se_expires = now + EDB_SESSION_TTL, se_used = True\<rparr>]"

definition session_destroy :: "string \<Rightarrow> edb_session list \<Rightarrow> edb_session list" where
  "session_destroy token ss =
     update_first (\<lambda>s. se_used s \<and> strcmp (se_token s) token = 0) (\<lambda>s. s\<lparr>se_used := False\<rparr>) ss"

section \<open>State of the API\<close>

text \<open>
  The store (with or without replication), the network, the restore lock and the two tables. The
  counters of the analytics are left out.
\<close>

record 'n api =
  ap_net :: 'n
  ap_store :: eql_store
  ap_restore_locked :: bool
  ap_attempts :: "edb_auth_attempt list"
  ap_sessions :: "edb_session list"

abbreviation ap_cfg :: "'n api \<Rightarrow> edb_config" where
  "ap_cfg ap \<equiv> store_cfg (ap_store ap)"

definition set_ap_cfg :: "edb_config \<Rightarrow> 'n api \<Rightarrow> 'n api" where
  "set_ap_cfg cfg ap = ap\<lparr>ap_store := set_store_cfg cfg (ap_store ap)\<rparr>"

section \<open>Requests\<close>

definition body_json :: "sqlite_env \<Rightarrow> http_request \<Rightarrow> cJSON option" where
  "body_json e req = (if rq_body req = [] then None else cJSON_ParseWithLength e (rq_body req))"

text \<open>The value of the first segment \<open>name=value\<close> of the query with a value.\<close>

function query_scan :: "string \<Rightarrow> string \<Rightarrow> string option" where
  "query_scan name q =
     (if q = [] then None
      else
        let seg = takeWhile (\<lambda>c. c \<noteq> CHR ''&'') q
        in if length name + 1 < length seg \<and> prefix (name @ ''='') seg then Some (drop (length name + 1) seg)
           else case dropWhile (\<lambda>c. c \<noteq> CHR ''&'') q of
                  [] \<Rightarrow> None
                | _ # rest \<Rightarrow> query_scan name rest)"
  by pat_completeness auto
termination
proof (relation "measure (\<lambda>(name, q). length q)", goal_cases)
  case (2 name q seg c rest)
  have "length (dropWhile (\<lambda>c. c \<noteq> CHR ''&'') q) \<le> length q" by (rule length_dropWhile_le)
  with 2 show ?case by simp
qed simp

declare query_scan.simps [simp del]

definition query_param :: "http_request \<Rightarrow> string \<Rightarrow> nat \<Rightarrow> string option" where
  "query_param req name cap = map_option (snprintf_s cap) (query_scan name (rq_query req))"

text \<open>\<open>snprintf\<close> into a buffer of \<open>cap\<close> bytes, taken only if nothing is cut.\<close>

definition fitting :: "nat \<Rightarrow> string \<Rightarrow> string option" where
  "fitting cap s = (if length s < cap then Some s else None)"

definition strip_bearer :: "string \<Rightarrow> string" where
  "strip_bearer v = (if prefix ''Bearer '' v then drop 7 v else v)"

definition header_token :: "http_request \<Rightarrow> string option" where
  "header_token req =
     (case Option.bind (edb_http_header req ''Authorization'') (\<lambda>v. fitting 256 (strip_bearer v)) of
        Some t \<Rightarrow> Some t
      | None \<Rightarrow>
          (case Option.bind (edb_http_header req ''authorization'') (fitting 256) of
             Some t \<Rightarrow> Some t
           | None \<Rightarrow> if rq_query req \<noteq> [] then query_param req ''authorization'' 256 else None))"

definition header_password :: "http_request \<Rightarrow> string option" where
  "header_password req =
     (case edb_http_header req ''X-Epsilon-Password'' of
        None \<Rightarrow> None
      | Some v \<Rightarrow> if v = [] then None else fitting 1024 v)"

text \<open>
  The token after the body was read: a text that does not fit is no token, but what was cut is left in
  the buffer, which a token found before shares.
\<close>

definition body_token :: "string option \<Rightarrow> string option \<Rightarrow> string option" where
  "body_token token v =
     (case v of
        None \<Rightarrow> token
      | Some v \<Rightarrow> if length v < 256 then Some v else map_option (\<lambda>_. snprintf_s 256 v) token)"

text \<open>The token and the password of the request, from the body where they are missing.\<close>

definition credentials :: "sqlite_env \<Rightarrow> http_request \<Rightarrow> string option \<times> string option" where
  "credentials e req =
     (let token = header_token req; password = header_password req
      in if (password = None \<or> token = None) \<and> rq_body req \<noteq> []
         then case body_json e req of
                None \<Rightarrow> (token, password)
              | Some body \<Rightarrow>
                  (body_token token (json_str (json_get (Some body) ''authorization'')),
                   if password = None
                   then case json_str (json_get (Some body) ''password'') of
                          None \<Rightarrow> None
                        | Some v \<Rightarrow> if v = [] then None else fitting 1024 v
                   else password)
         else (token, password))"

section \<open>Authentication\<close>

text \<open>A user name with a password: the state, and the groups unless the check fails.\<close>

definition password_login ::
  "sqlite_env \<Rightarrow> string \<Rightarrow> string \<Rightarrow> string option \<Rightarrow> 'n api \<Rightarrow> 'n api \<times> u64 option" where
  "password_login e ip token password ap =
     (let (cfg, verified) =
            (case password of
               None \<Rightarrow> (ap_cfg ap, False)
             | Some pw \<Rightarrow>
                 if pw = [] then (ap_cfg ap, False)
                 else let (cfg, has) = edb_user_has_password e (ap_cfg ap) token
                      in if \<not> has then (cfg, False) else edb_user_verify_password e cfg token pw);
          ap = set_ap_cfg cfg ap
      in if \<not> verified
         then (ap\<lparr>ap_attempts := edb_auth_throttle_fail (now_epoch e) ip (ap_attempts ap)\<rparr>, None)
         else
           let ap = ap\<lparr>ap_attempts := edb_auth_throttle_reset ip (ap_attempts ap)\<rparr>;
               (cfg, user) = edb_user_get e (ap_cfg ap) token
           in (set_ap_cfg cfg ap, map_option us_groups user))"

text \<open>The groups and \<open>ok\<close>.\<close>

definition authenticate :: "sqlite_env \<Rightarrow> http_request \<Rightarrow> 'n api \<Rightarrow> 'n api \<times> u64 \<times> bool" where
  "authenticate e req ap =
     (if rq_trusted req then (ap, - 1, True)
      else if edb_auth_throttled (now_epoch e) (rq_peer_ip req) (ap_attempts ap) then (ap, 0, False)
      else
        let (token, password) = credentials e req
        in if token \<noteq> None \<and> token \<noteq> Some []
           then let (ss, found) = session_lookup (now_epoch e) (the token) (ap_sessions ap);
                    ap = ap\<lparr>ap_sessions := ss\<rparr>
                in case found of
                     Some (_, groups) \<Rightarrow> (ap, groups, True)
                   | None \<Rightarrow>
                       let (ap, groups) = password_login e (rq_peer_ip req) (the token) password ap
                       in (case groups of Some g \<Rightarrow> (ap, g, True) | None \<Rightarrow> (ap, 0, False))
           else
             let (cfg, users) = edb_user_list e (ap_cfg ap)
             in (set_ap_cfg cfg ap, if users \<noteq> [] then 0 else - 1, True))"

section \<open>Responses and permissions\<close>

definition respond_json :: "sqlite_env \<Rightarrow> int \<Rightarrow> cJSON option \<Rightarrow> http_response" where
  "respond_json e status obj =
     \<lparr>rs_status = status, rs_content_type = Some ''application/json'',
      rs_body = Option.bind obj (cJSON_PrintUnformatted e)\<rparr>"

definition respond_error :: "sqlite_env \<Rightarrow> int \<Rightarrow> string \<Rightarrow> http_response" where
  "respond_error e status message = respond_json e status (Some (JObject [(''error'', JString message)]))"

definition authorize_partition ::
  "sqlite_env \<Rightarrow> string \<Rightarrow> string \<Rightarrow> u64 \<Rightarrow> edb_permission \<Rightarrow> 'n api \<Rightarrow> 'n api \<times> bool" where
  "authorize_partition e database part groups perm ap =
     (let (cfg, p) = edb_partition_get e (ap_cfg ap) database part
      in (set_ap_cfg cfg ap, case p of None \<Rightarrow> True | Some p \<Rightarrow> edb_check_perm (perm_mask perm p) groups))"

text \<open>\<open>strtok_r (s, "/", &save)\<close>: the next token and the rest.\<close>

definition next_token :: "string \<Rightarrow> (string \<times> string) option" where
  "next_token s =
     (let t = dropWhile (\<lambda>c. c = CHR ''/'') s
      in if t = [] then None
         else Some (takeWhile (\<lambda>c. c \<noteq> CHR ''/'') t, tl (dropWhile (\<lambda>c. c \<noteq> CHR ''/'') t)))"

definition split_data_path :: "string \<Rightarrow> (string \<times> string \<times> string \<times> string) option" where
  "split_data_path path =
     (if \<not> prefix ''/data/'' path then None
      else
        let work = snprintf_s 1024 (drop 6 path);
            work = (if work \<noteq> [] \<and> last work = CHR ''/'' then butlast work else work)
        in case next_token work of
             None \<Rightarrow> None
           | Some (db, r) \<Rightarrow>
               (case next_token r of
                  None \<Rightarrow> None
                | Some (part, r) \<Rightarrow>
                    (case next_token r of
                       None \<Rightarrow> None
                     | Some (ks, rest) \<Rightarrow>
                         if rest = [] \<or> CHR ''/'' \<in> set rest then None
                         else Some (snprintf_s 128 db, snprintf_s 256 part, snprintf_s 128 ks, snprintf_s 512 rest))))"

end
