(* ===== verification/Api_Data.thy ===== *)
theory Api_Data
  imports Api_Auth
begin

text \<open>
  The data routes of the HTTP API (api/epsilon_api_data.c) and the two callbacks the replication
  service calls (api/epsilon_api.c): writing, reading, deleting and listing documents, applying a
  replicated change and answering a replicated read. Scripts are a parameter: what a script does to the
  network and the store, its verdict, and the document it leaves. \<open>cJSON_CreateObject\<close> succeeds.
\<close>

section \<open>Scripts\<close>

datatype lua_event =
    EDB_LUA_BEFORE_INSERT | EDB_LUA_AFTER_INSERT | EDB_LUA_BEFORE_UPDATE | EDB_LUA_AFTER_UPDATE
  | EDB_LUA_BEFORE_DELETE | EDB_LUA_AFTER_DELETE

datatype lua_result = EDB_LUA_OK | EDB_LUA_ROLLBACK "string option" | EDB_LUA_ERROR

type_synonym 'n lua_fire =
  "lua_event \<Rightarrow> string \<Rightarrow> string \<Rightarrow> string \<Rightarrow> string \<Rightarrow> cJSON option \<Rightarrow> u64 \<Rightarrow> bool \<Rightarrow> 'n \<times> eql_store \<Rightarrow>
    ('n \<times> eql_store) \<times> lua_result \<times> cJSON option"

text \<open>Writes to the system database run no script.\<close>

definition api_fire_lua ::
  "'n lua_fire \<Rightarrow> lua_event \<Rightarrow> string \<Rightarrow> string \<Rightarrow> string \<Rightarrow> string \<Rightarrow> cJSON option \<Rightarrow> u64 \<Rightarrow> bool \<Rightarrow> 'n api \<Rightarrow>
    'n api \<times> lua_result \<times> cJSON option" where
  "api_fire_lua fire event db part ks doc_id v groups trusted ap =
     (if strcmp db EDB_SYSTEM_DB = 0 then (ap, EDB_LUA_OK, v)
      else
        let ((n, st), r, v) = fire event db part ks doc_id v groups trusted (ap_net ap, ap_store ap)
        in (ap\<lparr>ap_net := n, ap_store := st\<rparr>, r, v))"

text \<open>The response to a veto or a failing script, if there is one.\<close>

definition script_refusal :: "sqlite_env \<Rightarrow> lua_result \<Rightarrow> http_response option" where
  "script_refusal e r =
     (case r of
        EDB_LUA_OK \<Rightarrow> None
      | EDB_LUA_ROLLBACK reason \<Rightarrow>
          Some (respond_error e 403
            (snprintf_s 640 (''rejected: '' @ (case reason of None \<Rightarrow> ''script rollback'' | Some s \<Rightarrow> s))))
      | EDB_LUA_ERROR \<Rightarrow> Some (respond_error e 500 ''script error''))"

section \<open>The engine and the replication service\<close>

definition ap_engine_op :: "(edb_engine \<Rightarrow> edb_engine \<times> 'r) \<Rightarrow> 'n api \<Rightarrow> 'n api \<times> 'r" where
  "ap_engine_op f ap =
     (let (en, r) = f (cfg_engine (ap_cfg ap)) in (set_ap_cfg ((ap_cfg ap)\<lparr>cfg_engine := en\<rparr>) ap, r))"

definition ap_repl_op :: "('n \<Rightarrow> edb_repl \<Rightarrow> 'n \<times> edb_repl \<times> 'r) \<Rightarrow> edb_repl \<Rightarrow> 'n api \<Rightarrow> 'n api \<times> 'r" where
  "ap_repl_op f rp ap =
     (let (n, rp, r) = f (ap_net ap) rp in (ap\<lparr>ap_net := n, ap_store := Clustered rp\<rparr>, r))"

definition status_body :: "string \<Rightarrow> string \<Rightarrow> string" where
  "status_body status doc_id =
     [CHR ''{'', CHR 0x22] @ ''status'' @ [CHR 0x22, CHR '':'', CHR 0x22] @ status @ [CHR 0x22, CHR '','', CHR 0x22] @
     ''id'' @ [CHR 0x22, CHR '':'', CHR 0x22] @ doc_id @ [CHR 0x22, CHR ''}'']"

definition ok_response :: "string \<Rightarrow> string \<Rightarrow> http_response" where
  "ok_response status doc_id =
     \<lparr>rs_status = 200, rs_content_type = Some ''application/json'', rs_body = Some (status_body status doc_id)\<rparr>"

text \<open>The outcome of a write: refused with a response, or whether the store took it.\<close>

type_synonym write_result = "http_response + bool"

section \<open>PUT\<close>

definition put_change :: "string \<Rightarrow> string \<Rightarrow> string \<Rightarrow> string \<Rightarrow> cJSON \<Rightarrow> int \<Rightarrow> int \<Rightarrow> cJSON" where
  "put_change db part ks doc_id v ttl ts =
     JObject [(''op'', JString ''put''), (''db'', JString db), (''partition'', JString part), (''keyspace'', JString ks),
       (''id'', JString doc_id), (''value'', v), (''ttl_abs'', json_int (if 0 \<le> ttl then ts + ttl else - 1)),
       (''ts'', json_int ts)]"

definition store_put ::
  "sqlite_env \<Rightarrow> 'n exchange \<Rightarrow> string \<Rightarrow> string \<Rightarrow> string \<Rightarrow> string \<Rightarrow> string \<Rightarrow> int \<Rightarrow> 'n api \<Rightarrow> 'n api \<times> write_result" where
  "store_put e exchange db part ks doc_id json ttl ap =
     (case ap_store ap of
        Single cfg \<Rightarrow>
          let (ap, ok) = ap_engine_op (\<lambda>en. edb_put e en part ks doc_id json ttl) ap in (ap, Inr ok)
      | Clustered rp \<Rightarrow>
          (case cJSON_ParseWithLength e json of
             None \<Rightarrow> (ap, Inl (respond_error e 500 ''encode failed''))
           | Some v \<Rightarrow>
               (case cJSON_PrintUnformatted e (put_change db part ks doc_id v ttl (now_epoch e)) of
                  None \<Rightarrow> (ap, Inr False)
                | Some change_json \<Rightarrow>
                    let (ap, status) = ap_repl_op (edb_repl_write e exchange db change_json) rp ap
                    in if status = EDB_REPL_QUORUM_LOST
                       then (ap, Inl (respond_error e 503 ''quorum unavailable: write rejected''))
                       else (ap, Inr (status = EDB_REPL_OK)))))"

definition is_single :: "'n api \<Rightarrow> bool" where
  "is_single ap = (case ap_store ap of Single _ \<Rightarrow> True | Clustered _ \<Rightarrow> False)"

text \<open>From the printed document on.\<close>

definition finish_put ::
  "sqlite_env \<Rightarrow> 'n exchange \<Rightarrow> 'n lua_fire \<Rightarrow> string \<Rightarrow> string \<Rightarrow> string \<Rightarrow> string \<Rightarrow> string \<Rightarrow> int \<Rightarrow> bool \<Rightarrow> u64 \<Rightarrow> 'n api \<Rightarrow>
    'n api \<times> http_response" where
  "finish_put e exchange fire db part ks doc_id json ttl is_update groups ap =
     (let (ap, r) = store_put e exchange db part ks doc_id json ttl ap
      in case r of
           Inl res \<Rightarrow> (ap, res)
         | Inr ok \<Rightarrow>
             if \<not> ok then (ap, respond_error e 500 ''storage failed'')
             else
               let (cfg, _) = edb_partition_ensure e (ap_cfg ap) db part ks;
                   ap = set_ap_cfg cfg ap;
                   ap = (if is_single ap
                         then fst (api_fire_lua fire (if is_update then EDB_LUA_AFTER_UPDATE else EDB_LUA_AFTER_INSERT)
                                     db part ks doc_id None groups False ap)
                         else ap)
               in (ap, ok_response ''ok'' doc_id))"

definition put_ttl :: "http_request \<Rightarrow> int" where
  "put_ttl req = (case query_param req ''ttl'' 32 of None \<Rightarrow> - 1 | Some s \<Rightarrow> fst (strtoll s))"

text \<open>After authentication, with a document as body.\<close>

definition put_document ::
  "sqlite_env \<Rightarrow> 'n exchange \<Rightarrow> 'n lua_fire \<Rightarrow> http_request \<Rightarrow> string \<Rightarrow> string \<Rightarrow> string \<Rightarrow> string \<Rightarrow> cJSON \<Rightarrow> u64 \<Rightarrow> 'n api \<Rightarrow>
    'n api \<times> http_response" where
  "put_document e exchange fire req db part ks doc_id doc groups ap =
     (let (ap, existing) = ap_engine_op (\<lambda>en. edb_get e en part ks doc_id) ap;
          is_update = (existing \<noteq> None);
          (ap, allowed) = authorize_partition e db part groups (if is_update then EDB_PERM_UPDATE else EDB_PERM_CREATE) ap
      in if \<not> allowed then (ap, respond_error e 403 ''permission denied'')
         else
           let (ap, lr, doc) = api_fire_lua fire (if is_update then EDB_LUA_BEFORE_UPDATE else EDB_LUA_BEFORE_INSERT)
                                 db part ks doc_id (Some doc) groups False ap
           in case script_refusal e lr of
                Some res \<Rightarrow> (ap, res)
              | None \<Rightarrow>
                  (case Option.bind doc (cJSON_PrintUnformatted e) of
                     None \<Rightarrow> (ap, respond_error e 500 ''encode failed'')
                   | Some json \<Rightarrow> finish_put e exchange fire db part ks doc_id json (put_ttl req) is_update groups ap))"

definition handle_data_put ::
  "sqlite_env \<Rightarrow> 'n exchange \<Rightarrow> 'n lua_fire \<Rightarrow> http_request \<Rightarrow> 'n api \<Rightarrow> 'n api \<times> http_response" where
  "handle_data_put e exchange fire req ap =
     (case split_data_path (rq_path req) of
        None \<Rightarrow> (ap, respond_error e 400 ''expected /data/{db}/{partition}/{keyspace}/{id}'')
      | Some (db, part, ks, doc_id) \<Rightarrow>
          if strstr_found (rq_query req) ''filter='' then (ap, respond_error e 400 ''filters apply to reads, not stored records'')
          else if ap_restore_locked ap then (ap, respond_error e 503 ''restore in progress'')
          else
            let (ap, groups, auth_ok) = authenticate e req ap
            in if \<not> auth_ok then (ap, respond_error e 401 ''unauthorized'')
               else
                 case body_json e req of
                   Some (JObject kvs) \<Rightarrow> put_document e exchange fire req db part ks doc_id (JObject kvs) groups ap
                 | _ \<Rightarrow> (ap, respond_error e 400 ''body must be a JSON object''))"

section \<open>GET\<close>

definition read_document ::
  "sqlite_env \<Rightarrow> 'n exchange \<Rightarrow> string \<Rightarrow> string \<Rightarrow> string \<Rightarrow> string \<Rightarrow> 'n api \<Rightarrow> 'n api \<times> cJSON option" where
  "read_document e exchange db part ks doc_id ap =
     (case ap_store ap of
        Single cfg \<Rightarrow> ap_engine_op (\<lambda>en. edb_get e en part ks doc_id) ap
      | Clustered rp \<Rightarrow> ap_repl_op (edb_repl_read_get e exchange db part ks doc_id) rp ap)"

definition handle_data_get ::
  "sqlite_env \<Rightarrow> 'n exchange \<Rightarrow> http_request \<Rightarrow> 'n api \<Rightarrow> 'n api \<times> http_response" where
  "handle_data_get e exchange req ap =
     (case split_data_path (rq_path req) of
        None \<Rightarrow> (ap, respond_error e 400 ''expected /data/{db}/{partition}/{keyspace}/{id}'')
      | Some (db, part, ks, doc_id) \<Rightarrow>
          if ap_restore_locked ap then (ap, respond_error e 503 ''restore in progress'')
          else
            let (ap, groups, auth_ok) = authenticate e req ap
            in if \<not> auth_ok then (ap, respond_error e 401 ''unauthorized'')
               else
                 let (ap, allowed) = authorize_partition e db part groups EDB_PERM_READ ap
                 in if \<not> allowed then (ap, respond_error e 403 ''permission denied'')
                    else
                      let (ap, doc) = read_document e exchange db part ks doc_id ap
                      in (ap, case doc of
                                None \<Rightarrow> respond_error e 404 ''not found''
                              | Some d \<Rightarrow> respond_json e 200 (Some d)))"

section \<open>DELETE\<close>

definition delete_record_change :: "string \<Rightarrow> string \<Rightarrow> string \<Rightarrow> string \<Rightarrow> int \<Rightarrow> cJSON" where
  "delete_record_change db part ks doc_id ts =
     JObject [(''op'', JString ''delete''), (''db'', JString db), (''partition'', JString part), (''keyspace'', JString ks),
       (''id'', JString doc_id), (''ts'', json_int ts)]"

definition store_delete ::
  "sqlite_env \<Rightarrow> 'n exchange \<Rightarrow> string \<Rightarrow> string \<Rightarrow> string \<Rightarrow> string \<Rightarrow> 'n api \<Rightarrow> 'n api \<times> write_result" where
  "store_delete e exchange db part ks doc_id ap =
     (case ap_store ap of
        Single cfg \<Rightarrow> let (ap, ok) = ap_engine_op (\<lambda>en. edb_delete e en part ks doc_id) ap in (ap, Inr ok)
      | Clustered rp \<Rightarrow>
          (case cJSON_PrintUnformatted e (delete_record_change db part ks doc_id (now_epoch e)) of
             None \<Rightarrow> (ap, Inl (respond_error e 500 ''encode failed''))
           | Some change_json \<Rightarrow>
               let (ap, status) = ap_repl_op (edb_repl_write e exchange db change_json) rp ap
               in (ap, case status of
                         EDB_REPL_LOCAL_FAIL \<Rightarrow> Inl (respond_error e 500 ''delete failed'')
                       | EDB_REPL_QUORUM_LOST \<Rightarrow> Inl (respond_error e 503 ''quorum unavailable: delete rejected'')
                       | EDB_REPL_OK \<Rightarrow> Inr True)))"

definition delete_document ::
  "sqlite_env \<Rightarrow> 'n exchange \<Rightarrow> 'n lua_fire \<Rightarrow> string \<Rightarrow> string \<Rightarrow> string \<Rightarrow> string \<Rightarrow> u64 \<Rightarrow> 'n api \<Rightarrow> 'n api \<times> http_response" where
  "delete_document e exchange fire db part ks doc_id groups ap =
     (let (ap, deleted) = ap_engine_op (\<lambda>en. edb_get e en part ks doc_id) ap;
          (ap, lr, deleted) = api_fire_lua fire EDB_LUA_BEFORE_DELETE db part ks doc_id deleted groups False ap
      in case script_refusal e lr of
           Some res \<Rightarrow> (ap, res)
         | None \<Rightarrow>
             let (ap, r) = store_delete e exchange db part ks doc_id ap
             in case r of
                  Inl res \<Rightarrow> (ap, res)
                | Inr ok \<Rightarrow>
                    if \<not> ok then (ap, respond_error e 500 ''delete failed'')
                    else (if is_single ap
                          then fst (api_fire_lua fire EDB_LUA_AFTER_DELETE db part ks doc_id deleted groups False ap)
                          else ap,
                          ok_response ''deleted'' doc_id))"

definition handle_data_delete ::
  "sqlite_env \<Rightarrow> 'n exchange \<Rightarrow> 'n lua_fire \<Rightarrow> http_request \<Rightarrow> 'n api \<Rightarrow> 'n api \<times> http_response" where
  "handle_data_delete e exchange fire req ap =
     (case split_data_path (rq_path req) of
        None \<Rightarrow> (ap, respond_error e 400 ''expected /data/{db}/{partition}/{keyspace}/{id}'')
      | Some (db, part, ks, doc_id) \<Rightarrow>
          if ap_restore_locked ap then (ap, respond_error e 503 ''restore in progress'')
          else
            let (ap, groups, auth_ok) = authenticate e req ap
            in if \<not> auth_ok then (ap, respond_error e 401 ''unauthorized'')
               else
                 let (ap, allowed) = authorize_partition e db part groups EDB_PERM_DELETE ap
                 in if \<not> allowed then (ap, respond_error e 403 ''permission denied'')
                    else delete_document e exchange fire db part ks doc_id groups ap)"

section \<open>Collections\<close>

text \<open>At most \<open>n\<close> tokens of \<open>strtok_r\<close>.\<close>

fun tokens :: "nat \<Rightarrow> string \<Rightarrow> string list" where
  "tokens 0 s = []"
| "tokens (Suc n) s = (case next_token s of None \<Rightarrow> [] | Some (t, rest) \<Rightarrow> t # tokens n rest)"

definition doc_with_id :: "cJSON \<Rightarrow> string \<Rightarrow> cJSON" where
  "doc_with_id v doc_id =
     JObject ((''id'', JString doc_id) # filter (\<lambda>kv. strcmp (fst kv) ''id'' \<noteq> 0) (json_members (Some v)))"

definition row_id :: "cJSON \<Rightarrow> string" where
  "row_id r = (case json_str (json_get (Some r) ''id'') of None \<Rightarrow> [] | Some s \<Rightarrow> s)"

definition row_object :: "cJSON \<Rightarrow> cJSON option" where
  "row_object r = (case json_get (Some r) ''value'' of Some (JObject kvs) \<Rightarrow> Some (JObject kvs) | _ \<Rightarrow> None)"

definition flatten_meta_rows :: "cJSON \<Rightarrow> cJSON" where
  "flatten_meta_rows meta =
     JArray (List.map_filter (\<lambda>r. map_option (\<lambda>v. doc_with_id v (row_id r)) (row_object r)) (json_items (Some meta)))"

definition row_ts :: "cJSON \<Rightarrow> int" where
  "row_ts r = (case json_num (json_get (Some r) ''timestamp'') of None \<Rightarrow> 0 | Some t \<Rightarrow> t)"

definition query_meta ::
  "sqlite_env \<Rightarrow> 'n exchange \<Rightarrow> string \<Rightarrow> string \<Rightarrow> string \<Rightarrow> cJSON option \<Rightarrow> 'n api \<Rightarrow> 'n api \<times> cJSON option" where
  "query_meta e exchange db part ks filters ap =
     (case ap_store ap of
        Single cfg \<Rightarrow> ap_engine_op (\<lambda>en. edb_query_ts e en part ks filters) ap
      | Clustered rp \<Rightarrow> ap_repl_op (edb_repl_read_query_meta e exchange db part ks filters) rp ap)"

fun query_keyspaces ::
  "sqlite_env \<Rightarrow> 'n exchange \<Rightarrow> string \<Rightarrow> string \<Rightarrow> cJSON option \<Rightarrow> string list \<Rightarrow> 'n api \<Rightarrow> 'n api \<times> cJSON list" where
  "query_keyspaces e exchange db part filters [] ap = (ap, [])"
| "query_keyspaces e exchange db part filters (k # ks) ap =
     (let (ap, meta) = query_meta e exchange db part k filters ap;
          (ap, rest) = query_keyspaces e exchange db part filters ks ap
      in (ap, json_items meta @ rest))"

text \<open>\<open>qsort\<close> by descending time; the order of rows of equal time, which it leaves open, is the stable one here.\<close>

definition partition_wide_query ::
  "sqlite_env \<Rightarrow> 'n exchange \<Rightarrow> string \<Rightarrow> string \<Rightarrow> cJSON option \<Rightarrow> 'n api \<Rightarrow> 'n api \<times> cJSON" where
  "partition_wide_query e exchange db part filters ap =
     (let (cfg, infos) = edb_keyspace_list e (ap_cfg ap);
          (ap, rows) = query_keyspaces e exchange db part filters (partition_keyspaces db part infos) (set_ap_cfg cfg ap)
      in (ap, JArray (List.map_filter (\<lambda>r. map_option (\<lambda>v. doc_with_id v (row_id r)) (row_object r))
                (sort_key (\<lambda>r. - row_ts r) (filter (\<lambda>r. row_object r \<noteq> None) rows)))))"

definition read_ids ::
  "sqlite_env \<Rightarrow> 'n exchange \<Rightarrow> string \<Rightarrow> string \<Rightarrow> string \<Rightarrow> cJSON option \<Rightarrow> 'n api \<Rightarrow> 'n api \<times> string list option" where
  "read_ids e exchange db part ks filters ap =
     (case ap_store ap of
        Single cfg \<Rightarrow> ap_engine_op (\<lambda>en. edb_ids e en part ks filters) ap
      | Clustered rp \<Rightarrow> ap_repl_op (edb_repl_read_ids e exchange db part ks filters) rp ap)"

text \<open>The operation with its filters: the response is always 200.\<close>

definition run_collect ::
  "sqlite_env \<Rightarrow> 'n exchange \<Rightarrow> string \<Rightarrow> string \<Rightarrow> string \<Rightarrow> string \<Rightarrow> bool \<Rightarrow> cJSON option \<Rightarrow> 'n api \<Rightarrow> 'n api \<times> http_response" where
  "run_collect e exchange operation db part ks keyspace_omitted filters ap =
     (if operation = ''ids''
      then (let (ap, ids) = read_ids e exchange db part ks filters ap
            in (ap, respond_json e 200 (Some (JArray (map JString (case ids of None \<Rightarrow> [] | Some xs \<Rightarrow> xs))))))
      else if keyspace_omitted
      then (let (ap, docs) = partition_wide_query e exchange db part filters ap in (ap, respond_json e 200 (Some docs)))
      else (let (ap, meta) = query_meta e exchange db part ks filters ap
            in (ap, respond_json e 200 (Some (case meta of None \<Rightarrow> JArray [] | Some m \<Rightarrow> flatten_meta_rows m)))))"

text \<open>The filters of a body: its member \<open>filters\<close>, or the body itself; \<open>None\<close> for a bad body.\<close>

definition collect_filters :: "sqlite_env \<Rightarrow> http_request \<Rightarrow> string + cJSON option" where
  "collect_filters e req =
     (if rq_body req = [] then Inr None
      else case body_json e req of
             None \<Rightarrow> Inl ''body must be valid JSON''
           | Some body \<Rightarrow>
               let filters = (case json_get (Some body) ''filters'' of Some w \<Rightarrow> w | None \<Rightarrow> body)
               in if edb_filters_valid (Some filters) then Inr (Some filters) else Inl ''invalid JSON filter'')"

definition handle_data_collect ::
  "sqlite_env \<Rightarrow> 'n exchange \<Rightarrow> http_request \<Rightarrow> 'n api \<Rightarrow> 'n api \<times> http_response" where
  "handle_data_collect e exchange req ap =
     (if \<not> prefix ''/data/'' (rq_path req) then (ap, respond_error e 400 ''expected /data/...'')
      else if ap_restore_locked ap then (ap, respond_error e 503 ''restore in progress'')
      else
        let toks = tokens 8 (snprintf_s 1024 (drop 6 (rq_path req)));
            operation = (if toks = [] then [] else last toks)
        in if operation \<notin> {''ids'', ''all'', ''query''}
           then if rq_method req = ''GET'' then handle_data_get e exchange req ap
                else (ap, respond_error e 404 ''unknown operation'')
           else if \<not> (length toks = 4 \<or> length toks = 3 \<and> operation = ''query'')
           then (ap, respond_error e 400 ''expected /data/{db}/{partition}/{keyspace}/<op>'')
           else
             let db = snprintf_s 128 (toks ! 0); part = snprintf_s 256 (toks ! 1);
                 keyspace_omitted = (length toks = 3);
                 ks = (if keyspace_omitted then [] else snprintf_s 128 (toks ! 2));
                 (ap, groups, auth_ok) = authenticate e req ap
             in if \<not> auth_ok then (ap, respond_error e 401 ''unauthorized'')
                else
                  let (ap, allowed) = authorize_partition e db part groups EDB_PERM_READ ap
                  in if \<not> allowed then (ap, respond_error e 403 ''permission denied'')
                     else
                       case collect_filters e req of
                         Inl message \<Rightarrow> (ap, respond_error e 400 message)
                       | Inr filters \<Rightarrow>
                           if strstr_found (rq_query req) ''filter='' \<or> strstr_found (rq_query req) ''field=''
                           then (ap, respond_error e 400 ''use structured JSON filters in the body'')
                           else run_collect e exchange operation db part ks keyspace_omitted filters ap)"

section \<open>Callbacks of the replication service\<close>

type_synonym apply_lua =
  "lua_event \<Rightarrow> string \<Rightarrow> string \<Rightarrow> string \<Rightarrow> string \<Rightarrow> cJSON option \<Rightarrow> edb_config \<Rightarrow> edb_config"

definition replay_fire ::
  "apply_lua \<Rightarrow> lua_event \<Rightarrow> string \<Rightarrow> string \<Rightarrow> string \<Rightarrow> string \<Rightarrow> cJSON option \<Rightarrow> edb_config \<Rightarrow> edb_config" where
  "replay_fire fire event db part ks doc_id v cfg =
     (if strcmp db EDB_SYSTEM_DB = 0 then cfg else fire event db part ks doc_id v cfg)"

definition is_bool :: "cJSON option \<Rightarrow> bool" where
  "is_bool j = (case j of Some (JBool _) \<Rightarrow> True | _ \<Rightarrow> False)"

text \<open>The members of a change that must be there: operation, database, partition, keyspace, id, time.\<close>

definition change_fields :: "cJSON \<Rightarrow> (string \<times> string \<times> string \<times> string \<times> string \<times> int) option" where
  "change_fields change =
     (let member = json_get (Some change)
      in case (json_str (member ''op''), json_str (member ''db''), json_str (member ''partition''),
               json_str (member ''keyspace''), json_str (member ''id''), json_num (member ''ts'')) of
           (Some op, Some db, Some part, Some ks, Some doc_id, Some ts) \<Rightarrow> Some (op, db, part, ks, doc_id, ts)
         | _ \<Rightarrow> None)"

definition change_origin :: "cJSON \<Rightarrow> string" where
  "change_origin change = (case json_str (json_get (Some change) ''origin'') of None \<Rightarrow> [] | Some s \<Rightarrow> s)"

definition apply_put ::
  "sqlite_env \<Rightarrow> apply_lua \<Rightarrow> cJSON \<Rightarrow> string \<Rightarrow> string \<Rightarrow> string \<Rightarrow> string \<Rightarrow> int \<Rightarrow> edb_config \<Rightarrow> edb_config \<times> bool" where
  "apply_put e fire change db part ks doc_id ts cfg =
     (let (en, prior) = edb_get e (cfg_engine cfg) part ks doc_id;
          cfg = cfg\<lparr>cfg_engine := en\<rparr>
      in case json_get (Some change) ''value'' of
           Some (JObject kvs) \<Rightarrow>
             (case cJSON_PrintUnformatted e (JObject kvs) of
                None \<Rightarrow> (cfg, False)
              | Some encoded \<Rightarrow>
                  let ttl = (case json_num (json_get (Some change) ''ttl_abs'') of None \<Rightarrow> - 1 | Some t \<Rightarrow> t);
                      (en, ok) = edb_replica_put_origin e (cfg_engine cfg) part ks doc_id encoded ttl ts (Some (change_origin change));
                      cfg = cfg\<lparr>cfg_engine := en\<rparr>;
                      cfg = (if ok \<and> strcmp db EDB_SYSTEM_DB \<noteq> 0 then fst (edb_partition_ensure e cfg db part ks) else cfg);
                      cfg = (if ok \<and> \<not> is_bool (json_get (Some change) ''lua'')
                             then replay_fire fire (if prior \<noteq> None then EDB_LUA_AFTER_UPDATE else EDB_LUA_AFTER_INSERT)
                                    db part ks doc_id (Some (JObject [])) cfg
                             else cfg)
                  in (cfg, ok))
         | _ \<Rightarrow> (cfg, False))"

definition apply_delete ::
  "sqlite_env \<Rightarrow> apply_lua \<Rightarrow> cJSON \<Rightarrow> string \<Rightarrow> string \<Rightarrow> string \<Rightarrow> string \<Rightarrow> int \<Rightarrow> edb_config \<Rightarrow> edb_config \<times> bool" where
  "apply_delete e fire change db part ks doc_id ts cfg =
     (let (en, deleted) = edb_get e (cfg_engine cfg) part ks doc_id;
          (en, ok) = edb_replica_delete_origin e en part ks doc_id ts (Some (change_origin change));
          cfg = cfg\<lparr>cfg_engine := en\<rparr>
      in (if ok \<and> \<not> is_bool (json_get (Some change) ''lua'')
          then replay_fire fire EDB_LUA_AFTER_DELETE db part ks doc_id deleted cfg else cfg, ok))"

text \<open>
  The document handed to scripts after a put is \<open>cJSON_Duplicate (value, 0)\<close>, which copies the object
  without its members.
\<close>

definition api_apply_change_impl :: "sqlite_env \<Rightarrow> apply_lua \<Rightarrow> bool \<Rightarrow> apply_fn" where
  "api_apply_change_impl e fire locked cfg change =
     (if locked then (cfg, False)
      else case change_fields change of
             None \<Rightarrow> (cfg, False)
           | Some (op, db, part, ks, doc_id, ts) \<Rightarrow>
               if strcmp op ''put'' = 0 then apply_put e fire change db part ks doc_id ts cfg
               else if strcmp op ''delete'' = 0 then apply_delete e fire change db part ks doc_id ts cfg
               else (cfg, False))"

definition cfg_engine_op :: "(edb_engine \<Rightarrow> edb_engine \<times> 'r) \<Rightarrow> edb_config \<Rightarrow> edb_config \<times> 'r" where
  "cfg_engine_op f cfg = (let (en, r) = f (cfg_engine cfg) in (cfg\<lparr>cfg_engine := en\<rparr>, r))"

definition api_read_request :: "sqlite_env \<Rightarrow> read_fn" where
  "api_read_request e cfg request =
     (let member = json_get (Some request); filters = member ''filters''
      in case (json_str (member ''q''), json_str (member ''partition''), json_str (member ''keyspace'')) of
           (Some q, Some part, Some ks) \<Rightarrow>
             if \<not> edb_filters_valid filters then (cfg, None)
             else if strcmp q ''get'' = 0
             then (case json_str (member ''id'') of
                     None \<Rightarrow> (cfg, Some (JObject [(''row'', JNull)]))
                   | Some doc_id \<Rightarrow>
                       let (cfg, doc, ts) = cfg_engine_op (\<lambda>en. edb_get_ts e en part ks doc_id) cfg
                       in (cfg, Some (JObject [(''row'',
                            case doc of
                              None \<Rightarrow> JNull
                            | Some d \<Rightarrow> JObject [(''id'', JString doc_id),
                                          (''timestamp'', json_int (case ts of None \<Rightarrow> 0 | Some t \<Rightarrow> t)), (''value'', d)])])))
             else if strcmp q ''all_ts'' = 0 \<or> strcmp q ''query_ts'' = 0
             then (let (cfg, rows) = cfg_engine_op (\<lambda>en. (if strcmp q ''all_ts'' = 0 then edb_all_ts else edb_query_ts) e en part ks filters) cfg
                   in (cfg, Some (JObject [(''rows'', case rows of None \<Rightarrow> JArray [] | Some r \<Rightarrow> r)])))
             else if strcmp q ''ids'' = 0
             then (let (cfg, ids) = cfg_engine_op (\<lambda>en. edb_ids e en part ks filters) cfg
                   in (cfg, Some (JObject [(''ids'', JArray (map JString (case ids of None \<Rightarrow> [] | Some xs \<Rightarrow> xs)))])))
             else (cfg, None)
         | _ \<Rightarrow> (cfg, None))"

end
