(* ===== verification/Eql_Scan_Props.thy ===== *)
theory Eql_Scan_Props
  imports Eql_Rewrite "HOL-Library.Sublist"
begin

text \<open>
  What the scanner guarantees: rewriting fits its buffer and touches nothing but references, names
  that are quoted read back, references are collected within bounds. And where it goes wrong:
  sources of a comma list, brackets and backslashes.
\<close>

section \<open>The cursor\<close>

lemma until_append [simp]: "until (x @ r) r = x"
  by (simp add: until_def)

lemma until_suffix: "suffix r s \<Longrightarrow> until s r @ r = s"
  by (auto simp: suffix_def)

lemma skip_quoted_body_suffix: "suffix (skip_quoted_body q s) s"
proof (induction q s rule: skip_quoted_body.induct)
  case (2 q c s)
  have tl: "suffix x (c # s)" if "suffix x (tl s)" for x
    using that suffix_tl suffix_ConsI suffix_order.trans by metis
  show ?case
  proof (cases "c = q")
    case True
    then show ?thesis using 2(1) tl by (auto simp: suffix_ConsI)
  next
    case False
    then show ?thesis using 2(2,3) tl by (cases "q = chr_quote \<and> c = chr_backslash \<and> s \<noteq> []") (auto simp: suffix_ConsI)
  qed
qed simp

lemma skip_quoted_raw_suffix: "suffix (skip_quoted_raw s) s"
  unfolding skip_quoted_raw_def using skip_quoted_body_suffix suffix_tl suffix_order.trans by metis

lemma after_comment_suffix: "suffix (after_comment s) s"
proof (induction s)
  case (Cons c s)
  have "suffix (tl s) (c # s)" using suffix_tl suffix_ConsI by metis
  then show ?case using Cons by (simp add: suffix_ConsI)
qed simp

lemma comment_suffix: "suffix (after_comment (tl (tl s))) s"
  using after_comment_suffix suffix_tl suffix_order.trans by metis

section \<open>Rewriting touches references only\<close>

lemma match_ref_no_tables [simp]: "match_ref [] s = None"
  by (cases "probe3 s"; cases "probe2 s") (auto simp: match_ref_def first_match_def)

text \<open>
  Without tables the statement is unchanged, whatever quotes and comments it has.
\<close>

lemma rewrite_no_tables: "rewrite [] s = s"
proof (induction "[] :: eql_table list" s rule: rewrite.induct)
  case (1 s)
  show ?case
  proof (cases "s = []")
    case ne: False
    have u: "until s (skip_quoted_raw s) @ skip_quoted_raw s = s" by (rule until_suffix [OF skip_quoted_raw_suffix])
    have c: "until s (after_comment (tl (tl s))) @ after_comment (tl (tl s)) = s" by (rule until_suffix [OF comment_suffix])
    show ?thesis
      using 1 ne u c by (subst rewrite.simps) auto
  qed (simp add: rewrite.simps)
qed

section \<open>Rewriting fits its buffer\<close>

text \<open>A word ends where no further character of an identifier follows.\<close>

definition word_ends :: "string \<Rightarrow> bool" where
  "word_ends s \<longleftrightarrow> s = [] \<or> \<not> is_ident_char (hd s)"

lemma word_ends_dropWhile [simp]: "word_ends (dropWhile is_ident_char s)"
  by (induction s) (auto simp: word_ends_def)

lemma quoted_body_consumes: "quoted_body q s = Some (x, r) \<Longrightarrow> length r + 1 \<le> length s"
  by (drule length_quoted_body) simp

lemma read_ident_consumes:
  assumes "read_ident cap s = Some (x, r)"
  shows "length r + 1 \<le> length s" "word_ends r \<or> length r + 2 \<le> length s"
    "opens_name (hd s) \<Longrightarrow> length r + 2 \<le> length s"
proof -
  show "length r + 1 \<le> length s" using length_read_ident [OF assms] by simp
  obtain c t where s: "s = c # t" using assms by (cases s) (auto simp: read_ident_def)
  have quoted: "length r + 2 \<le> length s" if "opens_name c"
  proof (cases "c = CHR ''[''")
    case True
    then obtain d where "dropWhile (\<lambda>d. d \<noteq> CHR '']'') t = d # r"
      using assms s by (auto simp: read_ident_def split: list.splits)
    then have "length (d # r) \<le> length t" using length_dropWhile_le [of "\<lambda>d. d \<noteq> CHR '']''" t] by simp
    then show ?thesis using s by simp
  next
    case False
    then have q: "c = chr_dquote \<or> c = chr_backtick" using that by (simp add: opens_name_def)
    then have "read_ident cap s = map_option (apfst (snprintf_s cap)) (quoted_body c t)"
      using s by (simp only: read_ident_def list.case if_True)
    then obtain y where "quoted_body c t = Some (y, r)" using assms by (cases "quoted_body c t") auto
    then show ?thesis using s by (auto dest: quoted_body_consumes)
  qed
  then show "opens_name (hd s) \<Longrightarrow> length r + 2 \<le> length s" using s by simp
  have "word_ends r" if "\<not> opens_name c"
  proof -
    have "r = dropWhile is_ident_char s"
      using assms s that by (auto simp: read_ident_def opens_name_def split: if_splits)
    then show ?thesis by simp
  qed
  then show "word_ends r \<or> length r + 2 \<le> length s" using quoted by blast
qed

lemma probe2_consumes:
  assumes "probe2 s = Some (x, r)"
  shows "length r + 3 \<le> length s" "word_ends r \<or> length r + 4 \<le> length s" "opens_name (hd s) \<Longrightarrow> length r + 4 \<le> length s"
proof -
  from assms obtain a s1 b where i: "read_ident 256 s = Some (a, s1)" "at_dot (skip_spaces_comments s1)"
    "read_ident 256 (skip_spaces_comments (tl (skip_spaces_comments s1))) = Some (b, r)"
    by (auto simp: probe2_def Let_def split: option.splits if_splits)
  have gap: "length (skip_spaces_comments (tl (skip_spaces_comments s1))) + 1 \<le> length s1"
    using i(2) length_skip [of s1] length_skip [of "tl (skip_spaces_comments s1)"]
    by (cases "skip_spaces_comments s1") (auto simp: at_dot_def)
  note a = read_ident_consumes [OF i(1)] and b = read_ident_consumes [OF i(3)]
  show "length r + 3 \<le> length s" using a(1) b(1) gap by simp
  show "word_ends r \<or> length r + 4 \<le> length s" using a(1) b(2) gap by auto
  show "length r + 4 \<le> length s" if "opens_name (hd s)" using a(3) [OF that] b(1) gap by simp
qed

lemma probe3_consumes:
  assumes "probe3 s = Some (x, r)"
  shows "length r + 5 \<le> length s"
proof -
  from assms obtain a s1 b s3 c where i: "read_ident 256 s = Some (a, s1)" "at_dot (skip_spaces_comments s1)"
    "read_ident 256 (skip_spaces_comments (tl (skip_spaces_comments s1))) = Some (b, s3)" "at_dot (skip_spaces_comments s3)"
    "read_ident 256 (skip_spaces_comments (tl (skip_spaces_comments s3))) = Some (c, r)"
    by (auto simp: probe3_def Let_def split: option.splits if_splits)
  have gap: "length (skip_spaces_comments (tl (skip_spaces_comments t))) + 1 \<le> length t"
    if "at_dot (skip_spaces_comments t)" for t
    using that length_skip [of t] length_skip [of "tl (skip_spaces_comments t)"]
    by (cases "skip_spaces_comments t") (auto simp: at_dot_def)
  show ?thesis
    using read_ident_consumes(1) [OF i(1)] gap [OF i(2)] read_ident_consumes(1) [OF i(3)] gap [OF i(4)]
      read_ident_consumes(1) [OF i(5)] by simp
qed

lemma first_match_in: "first_match P xs = Some x \<Longrightarrow> x \<in> set xs"
  by (auto simp: first_match_def find_Some_iff)

lemma match_ref_consumes:
  assumes "match_ref tables s = Some (x, r)"
  shows "length r + 3 \<le> length s" "word_ends r \<or> length r + 4 \<le> length s" "opens_name (hd s) \<Longrightarrow> length r + 4 \<le> length s"
    "x \<in> t_alias ` set tables"
proof -
  from assms consider cand t where "probe3 s = Some (cand, r)" "t \<in> set tables" "x = t_alias t"
    | cand t where "probe2 s = Some (cand, r)" "t \<in> set tables" "x = t_alias t"
    by (auto simp: match_ref_def bind_eq_Some_conv split: option.splits dest!: first_match_in)
  then have "length r + 3 \<le> length s \<and> (word_ends r \<or> length r + 4 \<le> length s) \<and>
      (opens_name (hd s) \<longrightarrow> length r + 4 \<le> length s) \<and> x \<in> t_alias ` set tables"
  proof cases
    case 1
    then show ?thesis using probe3_consumes [OF 1(1)] by auto
  next
    case 2
    then show ?thesis using probe2_consumes [OF 2(1)] by auto
  qed
  then show "length r + 3 \<le> length s" "word_ends r \<or> length r + 4 \<le> length s"
    "opens_name (hd s) \<Longrightarrow> length r + 4 \<le> length s" "x \<in> t_alias ` set tables" by blast+
qed

text \<open>Two bounds together: the second where the text does not go on with an identifier.\<close>

lemma rewrite_length:
  assumes short: "\<forall>t \<in> set tables. length (t_alias t) \<le> 7"
  shows "length (rewrite tables s) \<le> 2 * length s + 1 \<and> (word_ends s \<longrightarrow> length (rewrite tables s) \<le> 2 * length s)"
proof (induction "length s" arbitrary: s rule: less_induct)
  case less
  let ?n = "\<lambda>s. length (rewrite tables s)"
  have part: "?n s \<le> 2 * length s"
    if "rewrite tables s = until s r @ rewrite tables r" "suffix r s" "length r < length s" for r
  proof -
    have "length (until s r) + length r = length s" using until_suffix [OF that(2)] by (metis length_append)
    then show ?thesis using less [OF that(3)] that by simp
  qed
  consider "s = []" | "s \<noteq> []" "hd s = chr_quote" | "s \<noteq> []" "hd s \<noteq> chr_quote" "starts2 (CHR ''-'') (CHR ''-'') s"
    | "s \<noteq> []" "hd s \<noteq> chr_quote" "\<not> starts2 (CHR ''-'') (CHR ''-'') s" "starts2 (CHR ''/'') (CHR ''*'') s"
    | "s \<noteq> []" "hd s \<noteq> chr_quote" "\<not> starts2 (CHR ''-'') (CHR ''-'') s" "\<not> starts2 (CHR ''/'') (CHR ''*'') s"
      "\<not> opens_name (hd s)" "\<not> is_ident_char (hd s)"
    | "s \<noteq> []" "hd s \<noteq> chr_quote" "\<not> starts2 (CHR ''-'') (CHR ''-'') s" "\<not> starts2 (CHR ''/'') (CHR ''*'') s"
      "opens_name (hd s) \<or> is_ident_char (hd s)" by blast
  then show ?case
  proof cases
    case 1
    then show ?thesis by (simp add: rewrite.simps)
  next
    case 2
    then have "rewrite tables s = until s (skip_quoted_raw s) @ rewrite tables (skip_quoted_raw s)"
      by (subst rewrite.simps) simp
    then have "?n s \<le> 2 * length s" using length_skip_quoted_raw [OF 2(1)] by (rule part [OF _ skip_quoted_raw_suffix])
    then show ?thesis by simp
  next
    case 3
    let ?r = "dropWhile (\<lambda>c. c \<noteq> chr_newline) s"
    have "rewrite tables s = takeWhile (\<lambda>c. c \<noteq> chr_newline) s @ rewrite tables ?r"
      using 3 by (subst rewrite.simps) simp
    moreover have "takeWhile (\<lambda>c. c \<noteq> chr_newline) s = until s ?r"
      by (metis takeWhile_dropWhile_id until_append)
    ultimately have eq: "rewrite tables s = until s ?r @ rewrite tables ?r" by (simp only:)
    have "length ?r < length s" using 3 by (intro word_rest word_ne) (auto simp: starts2_def)
    with eq have "?n s \<le> 2 * length s" by (rule part [OF _ suffix_dropWhile])
    then show ?thesis by simp
  next
    case 4
    let ?r = "after_comment (tl (tl s))"
    have "rewrite tables s = until s ?r @ rewrite tables ?r" using 4 by (subst rewrite.simps) simp
    moreover have "length ?r < length s" using length_after_comment [of "tl (tl s)"] 4(1) by (cases s) auto
    ultimately have "?n s \<le> 2 * length s" by (rule part [OF _ comment_suffix])
    then show ?thesis by simp
  next
    case 5
    then have "rewrite tables s = hd s # rewrite tables (tl s)" by (subst rewrite.simps) simp
    moreover have "length (tl s) < length s" using 5(1) by (cases s) auto
    ultimately show ?thesis using less [of "tl s"] by (cases s) auto
  next
    case 6
    show ?thesis
    proof (cases "match_ref tables s")
      case (Some xr)
      obtain x r where xr: "xr = (x, r)" by (cases xr)
      have eq: "rewrite tables s = x @ rewrite tables r" using 6 Some xr by (subst rewrite.simps) auto
      note m = match_ref_consumes [OF Some [unfolded xr]]
      have x: "length x \<le> 7" using m(4) short by auto
      have r: "?n r \<le> 2 * length r + 1" "word_ends r \<longrightarrow> ?n r \<le> 2 * length r" using less [of r] m(1) by simp_all
      have "opens_name (hd s)" if "word_ends s" using that 6 by (auto simp: word_ends_def)
      then show ?thesis using eq x r m(1-3) by auto
    next
      case None
      show ?thesis
      proof (cases "opens_name (hd s)")
        case True
        then have "rewrite tables s = until s (skip_quoted_raw s) @ rewrite tables (skip_quoted_raw s)"
          using 6 None by (subst rewrite.simps) simp
        then have "?n s \<le> 2 * length s" using length_skip_quoted_raw [OF 6(1)] by (rule part [OF _ skip_quoted_raw_suffix])
        then show ?thesis by simp
      next
        case False
        let ?r = "dropWhile is_ident_char s"
        have "rewrite tables s = takeWhile is_ident_char s @ rewrite tables ?r"
          using 6 None False by (subst rewrite.simps) simp
        moreover have "takeWhile is_ident_char s = until s ?r" by (metis takeWhile_dropWhile_id until_append)
        ultimately have eq: "rewrite tables s = until s ?r @ rewrite tables ?r" by (simp only:)
        have "length ?r < length s" using 6 False by (intro word_rest word_ne) auto
        with eq have "?n s \<le> 2 * length s" by (rule part [OF _ suffix_dropWhile])
        then show ?thesis by simp
      qed
    qed
  qed
qed

section \<open>The table of references\<close>

definition refs_ok :: "eql_table list \<Rightarrow> bool" where
  "refs_ok tables \<longleftrightarrow>
     length tables \<le> EQL_MAX_TABLES \<and>
     map t_alias tables = map (\<lambda>i. ''eql_t'' @ show_nat i) [0..<length tables] \<and>
     (\<forall>t \<in> set tables. length (t_db t) < 128 \<and> length (t_part t) < 256 \<and> length (t_ks t) < 128 \<and>
        t_pw t = (t_ks t = []) \<and> t_cols t = [] \<and>
        t_dotted t = (if t_pw t then t_db t @ ''.'' @ t_part t else t_db t @ ''.'' @ t_part t @ ''.'' @ t_ks t))"

lemma length_show_nat_16: "n < 16 \<Longrightarrow> length (show_nat n) \<le> 2"
  by (cases "n < 10") (simp_all add: show_nat.simps)

lemma add_table_ok:
  assumes "refs_ok tables"
  shows "refs_ok (add_table tables parts)"
proof (cases "add_table tables parts = tables")
  case False
  obtain p0 p1 p2 where p: "parts = (p0, p1, p2)" by (cases parts)
  let ?db = "snprintf_s 128 p0" and ?part = "snprintf_s 256 p1" and ?ks = "snprintf_s 128 p2"
  let ?dotted = "if p2 = [] then ?db @ ''.'' @ ?part else ?db @ ''.'' @ ?part @ ''.'' @ ?ks"
  let ?t = "\<lparr>t_db = ?db, t_part = ?part, t_ks = ?ks, t_dotted = snprintf_s EQL_MAX_NAME ?dotted,
    t_alias = snprintf_s 16 (''eql_t'' @ show_nat (length tables)), t_cols = [], t_pw = (p2 = []), t_keyspaces = []\<rparr>"
  have room: "length tables < 16" and eq: "add_table tables parts = tables @ [?t]"
    using False p by (auto simp: add_table_def Let_def EQL_MAX_TABLES_def split: if_splits)
  have len: "length ?db < 128" "length ?part < 256" "length ?ks < 128" by (simp_all add: snprintf_s_length)
  have "length ?dotted < EQL_MAX_NAME" using len by (simp add: EQL_MAX_NAME_def)
  then have dotted: "t_dotted ?t = ?dotted" by (simp add: snprintf_s_id)
  have "?ks = [] \<longleftrightarrow> p2 = []" by (simp add: snprintf_s_def)
  moreover have "t_alias ?t = ''eql_t'' @ show_nat (length tables)"
    using length_show_nat_16 [OF room] by (simp add: snprintf_s_id)
  ultimately show ?thesis
    using assms room len dotted by (auto simp: eq refs_ok_def EQL_MAX_TABLES_def)
qed (use assms in simp)

lemma more_refs_ok: "refs_ok tables \<Longrightarrow> refs_ok (fst (more_refs tables s))"
proof (induction tables s rule: more_refs.induct)
  case (1 tables s)
  then show ?case
    by (subst more_refs.simps) (auto simp: Let_def add_table_ok split: prod.splits option.splits)
qed

lemma collect_refs_ok: "refs_ok tables \<Longrightarrow> refs_ok (collect_refs s tables)"
proof (induction s tables rule: collect_refs.induct)
  case (1 s tables)
  then show ?case
    by (subst collect_refs.simps) (auto simp: Let_def add_table_ok more_refs_ok split: prod.splits option.splits)
qed

lemma refs_ok_Nil [simp]: "refs_ok []"
  by (simp add: refs_ok_def)

lemma refs_ok_alias:
  assumes "refs_ok tables" "t \<in> set tables"
  shows "length (t_alias t) \<le> 7"
proof -
  have "t_alias t \<in> set (map t_alias tables)" using assms(2) by simp
  then obtain i where "i < length tables" "t_alias t = ''eql_t'' @ show_nat i"
    using assms(1) unfolding refs_ok_def by auto
  then show ?thesis using length_show_nat_16 [of i] assms(1) by (simp add: refs_ok_def EQL_MAX_TABLES_def)
qed

section \<open>Words and references\<close>

definition is_word :: "string \<Rightarrow> bool" where
  "is_word a \<longleftrightarrow> a \<noteq> [] \<and> (\<forall>c \<in> set a. is_ident_char c)"

lemma ident_char_ne:
  assumes "is_ident_char c"
  shows "\<not> is_space c" "c \<noteq> CHR ''-''" "c \<noteq> CHR ''/''" "c \<noteq> CHR ''.''" "c \<noteq> CHR '',''" "\<not> opens_quoted c" "c \<noteq> chr_quote"
  using assms by (auto simp: is_ident_char_def is_space_def opens_quoted_def opens_name_def Let_def)

lemma word_hd: "is_word a \<Longrightarrow> is_ident_char (hd (a @ r))"
  by (cases a) (auto simp: is_word_def)

lemma take_word: "is_word a \<Longrightarrow> word_ends r \<Longrightarrow> takeWhile is_ident_char (a @ r) = a"
  unfolding is_word_def word_ends_def by (cases r) (auto simp: takeWhile_append)

lemma drop_word: "is_word a \<Longrightarrow> word_ends r \<Longrightarrow> dropWhile is_ident_char (a @ r) = r"
  unfolding is_word_def word_ends_def by (cases r) (auto simp: dropWhile_append)

lemma skip_stops: "s = [] \<or> \<not> is_space (hd s) \<and> hd s \<noteq> CHR ''-'' \<and> hd s \<noteq> CHR ''/'' \<Longrightarrow> skip_spaces_comments s = s"
  by (subst skip_spaces_comments.simps) (cases s; auto simp: starts2_def)

lemma skip_word: "is_word a \<Longrightarrow> skip_spaces_comments (a @ r) = a @ r"
  using word_hd [of a r] ident_char_ne by (intro skip_stops) auto

lemma skip_space [simp]: "skip_spaces_comments (CHR '' '' # s) = skip_spaces_comments s"
  by (subst (1 2) skip_spaces_comments.simps) (simp add: is_space_def)

lemma skip_dot [simp]: "skip_spaces_comments (CHR ''.'' # s) = CHR ''.'' # s"
  by (rule skip_stops) (simp add: is_space_def)

lemma read_ident_word:
  assumes "is_word a" "word_ends r" "length a < cap"
  shows "read_ident cap (a @ r) = Some (a, r)"
proof -
  obtain c t where a: "a = c # t" using assms(1) by (cases a) (auto simp: is_word_def)
  have c: "is_ident_char c" using assms(1) a by (simp add: is_word_def)
  then have "c \<noteq> chr_dquote" "c \<noteq> chr_backtick" "c \<noteq> CHR ''[''"
    using ident_char_ne(6) [OF c] by (auto simp: opens_quoted_def opens_name_def)
  then have "read_ident cap (a @ r) = Some (snprintf_s cap (takeWhile is_ident_char (a @ r)), dropWhile is_ident_char (a @ r))"
    using a c by (simp add: read_ident_def)
  then show ?thesis using assms by (simp add: take_word drop_word snprintf_s_id)
qed

lemma word_ends_dot [simp]: "word_ends (CHR ''.'' # r)"
  by (simp add: word_ends_def is_ident_char_def)

definition dotted3 :: "string \<Rightarrow> string \<Rightarrow> string \<Rightarrow> string" where
  "dotted3 a b c = a @ CHR ''.'' # b @ CHR ''.'' # c"

lemma parse_ref2_words:
  assumes w: "is_word a" "is_word b" "is_word c" and r: "word_ends r"
    and len: "length a < 256" "length b < 256" "length c < 256"
  shows "parse_ref2 (dotted3 a b c @ r) = (r, Some (a, b, c))"
  using read_ident_word [OF w(1) word_ends_dot len(1)] read_ident_word [OF w(2) word_ends_dot len(2)]
    read_ident_word [OF w(3) r len(3)]
  by (simp add: parse_ref2_def dotted3_def at_dot_def skip_word w)

lemma probe3_words:
  assumes w: "is_word a" "is_word b" "is_word c" and r: "word_ends r"
    and len: "length a < 128" "length b < 256" "length c < 128"
  shows "probe3 (dotted3 a b c @ r) = Some (dotted3 a b c, r)"
  using read_ident_word [OF w(1) word_ends_dot, of 256] read_ident_word [OF w(2) word_ends_dot len(2)]
    read_ident_word [OF w(3) r, of 256] len
  by (simp add: probe3_def dotted3_def at_dot_def skip_word w snprintf_s_id EQL_MAX_NAME_def)

lemma match_ref_words:
  assumes "is_word a" "is_word b" "is_word c" "word_ends r" "length a < 128" "length b < 256" "length c < 128"
    and "first_match (\<lambda>t. dotted3 a b c = t_dotted t) tables = Some t"
  shows "match_ref tables (dotted3 a b c @ r) = Some (t_alias t, r)"
  using assms probe3_words [OF assms(1-7)] by (simp add: match_ref_def)

lemma rewrite_reference:
  assumes "is_word a" "is_word b" "is_word c" "word_ends r" "length a < 128" "length b < 256" "length c < 128"
    and "first_match (\<lambda>t. dotted3 a b c = t_dotted t) tables = Some t"
  shows "rewrite tables (dotted3 a b c @ r) = t_alias t @ rewrite tables r"
proof -
  let ?s = "dotted3 a b c @ r"
  have hd: "is_ident_char (hd ?s)" using word_hd [OF assms(1)] by (simp add: dotted3_def)
  have ne: "dotted3 a b c \<noteq> []" by (simp add: dotted3_def)
  have "\<not> starts2 (CHR ''-'') x ?s" "\<not> starts2 (CHR ''/'') x ?s" for x
    using ident_char_ne [OF hd] by (auto simp: starts2_def)
  then show ?thesis
    using ne hd ident_char_ne(7) [OF hd] match_ref_words [OF assms] by (subst rewrite.simps) simp
qed

text \<open>The column-free entry of a reference.\<close>

definition ref_table :: "string \<Rightarrow> string \<Rightarrow> string \<Rightarrow> nat \<Rightarrow> eql_table" where
  "ref_table a b c i =
     \<lparr>t_db = a, t_part = b, t_ks = c, t_dotted = dotted3 a b c, t_alias = ''eql_t'' @ show_nat i, t_cols = [],
      t_pw = False, t_keyspaces = []\<rparr>"

lemma add_table_words:
  assumes "is_word c" "length a < 128" "length b < 256" "length c < 128"
  shows "add_table [] (a, b, c) = [ref_table a b c 0]"
  using assms length_show_nat_16 [of 0]
  by (simp add: add_table_def ref_table_def dotted3_def is_word_def snprintf_s_id EQL_MAX_TABLES_def EQL_MAX_NAME_def)

section \<open>Quoted names and literals\<close>

text \<open>A name as SQL quotes it: double quotes are doubled.\<close>

fun escape_name :: "string \<Rightarrow> string" where
  "escape_name [] = []"
| "escape_name (c # s) = (if c = chr_dquote then [chr_dquote, chr_dquote] else [c]) @ escape_name s"

lemma quoted_body_escape:
  "r = [] \<or> hd r \<noteq> chr_dquote \<Longrightarrow> quoted_body chr_dquote (escape_name name @ chr_dquote # r) = Some (name, r)"
  by (induction name) auto

lemma read_ident_quoted:
  assumes "r = [] \<or> hd r \<noteq> chr_dquote" "length name < cap"
  shows "read_ident cap (chr_dquote # escape_name name @ chr_dquote # r) = Some (name, r)"
  using quoted_body_escape [OF assms(1), of name] assms(2) by (simp add: read_ident_def snprintf_s_id)

lemma skip_literal:
  assumes "chr_quote \<notin> set body" "chr_backslash \<notin> set body" "r = [] \<or> hd r \<noteq> chr_quote"
  shows "skip_quoted_body chr_quote (body @ chr_quote # r) = r"
  using assms by (induction body) auto

lemma rewrite_literal:
  assumes "chr_quote \<notin> set body" "chr_backslash \<notin> set body" "r = [] \<or> hd r \<noteq> chr_quote"
  shows "rewrite tables (chr_quote # body @ chr_quote # r) = chr_quote # body @ chr_quote # rewrite tables r"
proof -
  let ?s = "chr_quote # body @ chr_quote # r"
  have "skip_quoted_raw ?s = r" using skip_literal [OF assms] by (simp add: skip_quoted_raw_def)
  moreover have "until ?s r = chr_quote # body @ [chr_quote]"
    using until_append [of "chr_quote # body @ [chr_quote]" r] by simp
  ultimately show ?thesis by (subst rewrite.simps) simp
qed

section \<open>A whole statement\<close>

lemma word_SELECT: "is_word ''SELECT''" "is_word ''FROM''"
  by (simp_all add: is_word_def is_ident_char_def)

lemma word_ends_char [simp]: "word_ends (CHR '' '' # r)" "word_ends (CHR ''*'' # r)" "word_ends []"
  by (simp_all add: word_ends_def is_ident_char_def)

lemma collect_word:
  assumes "is_word w" "word_ends r"
  shows "collect_refs (w @ r) tables =
    (if \<not> source_keyword w then collect_refs r tables
     else case parse_ref2 r of
            (s2, None) \<Rightarrow> collect_refs s2 tables
          | (s2, Some parts) \<Rightarrow>
              collect_refs (snd (more_refs (add_table tables parts) (skip_alias s2)))
                (fst (more_refs (add_table tables parts) (skip_alias s2))))"
proof -
  have "\<not> opens_quoted (hd (w @ r))" using ident_char_ne(6) [OF word_hd [OF assms(1)]] .
  moreover have "w \<noteq> []" using assms(1) by (simp add: is_word_def)
  ultimately show ?thesis
    by (subst collect_refs.simps) (simp add: skip_word take_word drop_word assms Let_def)
qed

lemma collect_space [simp]: "collect_refs (CHR '' '' # s) tables = collect_refs s tables"
  by (subst (1 2) collect_refs.simps) simp

lemma collect_star [simp]: "collect_refs (CHR ''*'' # s) tables = collect_refs s tables"
proof -
  have "skip_spaces_comments (CHR ''*'' # s) = CHR ''*'' # s" by (rule skip_stops) (simp add: is_space_def)
  then show ?thesis
    by (subst collect_refs.simps) (simp add: opens_quoted_def opens_name_def is_ident_char_def)
qed

lemma skip_Nil [simp]: "skip_spaces_comments [] = []"
  by (rule skip_stops) simp

lemma collect_Nil [simp]: "collect_refs [] tables = tables" "skip_alias [] = []" "more_refs tables [] = (tables, [])"
  by (simp_all add: collect_refs.simps skip_alias_def more_refs.simps)

lemma parse_ref2_space [simp]: "parse_ref2 (CHR '' '' # s) = parse_ref2 s"
  by (simp add: parse_ref2_def)

lemma rewrite_word:
  assumes "is_word w" "word_ends r" "match_ref tables (w @ r) = None"
  shows "rewrite tables (w @ r) = w @ rewrite tables r"
proof -
  have hd: "is_ident_char (hd (w @ r))" by (rule word_hd [OF assms(1)])
  have ne: "w \<noteq> []" using assms(1) by (simp add: is_word_def)
  have "\<not> starts2 (CHR ''-'') x (w @ r)" "\<not> starts2 (CHR ''/'') x (w @ r)" "\<not> opens_name (hd (w @ r))" for x
    using ident_char_ne [OF hd] by (auto simp: starts2_def opens_quoted_def)
  then show ?thesis
    using hd ne ident_char_ne(7) [OF hd] assms(3)
    by (subst rewrite.simps) (simp add: take_word [OF assms(1,2)] drop_word [OF assms(1,2)])
qed

lemma rewrite_other:
  assumes "\<not> opens_quoted c" "\<not> is_ident_char c" "c \<noteq> CHR ''-''" "c \<noteq> CHR ''/''"
  shows "rewrite tables (c # s) = c # rewrite tables s"
  using assms by (subst rewrite.simps) (simp add: starts2_def opens_quoted_def)

lemma match_ref_no_dot:
  assumes "is_word w" "word_ends r" "length w < 256" "\<not> at_dot (skip_spaces_comments r)"
  shows "match_ref tables (w @ r) = None"
  using read_ident_word [OF assms(1-3)] assms(4) by (simp add: match_ref_def probe3_def probe2_def)

lemma rewrite_Nil [simp]: "rewrite tables [] = []"
  by (simp add: rewrite.simps)

lemma select_collects:
  assumes "is_word a" "is_word b" "is_word c" "length a < 128" "length b < 256" "length c < 128"
  shows "collect_refs (''SELECT * FROM '' @ dotted3 a b c) [] = [ref_table a b c 0]"
proof -
  have k: "\<not> source_keyword ''SELECT''" "source_keyword ''FROM''" by code_simp+
  have p: "parse_ref2 (dotted3 a b c) = ([], Some (a, b, c))"
    using parse_ref2_words [OF assms(1-3), of "[]"] assms(4-6) by simp
  show ?thesis
    using collect_word [OF word_SELECT(1), of "'' * FROM '' @ dotted3 a b c" "[]"]
      collect_word [OF word_SELECT(2), of "CHR '' '' # dotted3 a b c" "[]"]
    by (simp add: k p add_table_words assms)
qed

lemma select_rewrites:
  assumes "is_word a" "is_word b" "is_word c" "length a < 128" "length b < 256" "length c < 128"
  shows "rewrite [ref_table a b c 0] (''SELECT * FROM '' @ dotted3 a b c) = ''SELECT * FROM eql_t0''"
proof -
  let ?ts = "[ref_table a b c 0]"
  have zero: "show_nat 0 = ''0''" by code_simp
  have r: "rewrite ?ts (dotted3 a b c) = ''eql_t'' @ show_nat 0"
    using rewrite_reference [OF assms(1-3), of "[]" ?ts] assms(4-6)
    by (simp add: first_match_def ref_table_def)
  have from': "match_ref ?ts (''FROM'' @ CHR '' '' # dotted3 a b c) = None"
    using word_hd [OF assms(1), of "CHR ''.'' # b @ CHR ''.'' # c"] ident_char_ne(4)
    by (intro match_ref_no_dot word_SELECT) (auto simp: at_dot_def dotted3_def skip_word assms(1))
  have star: "skip_spaces_comments (CHR ''*'' # s) = CHR ''*'' # s" for s by (rule skip_stops) (simp add: is_space_def)
  have select': "match_ref ?ts (''SELECT'' @ '' * FROM '' @ dotted3 a b c) = None"
    by (intro match_ref_no_dot word_SELECT) (simp_all add: at_dot_def star)
  have other: "rewrite ?ts (CHR '' '' # s) = CHR '' '' # rewrite ?ts s" "rewrite ?ts (CHR ''*'' # s) = CHR ''*'' # rewrite ?ts s" for s
    by (intro rewrite_other; simp add: opens_quoted_def opens_name_def is_ident_char_def)+
  show ?thesis
    using rewrite_word [OF word_SELECT(1) _ select'] rewrite_word [OF word_SELECT(2) _ from']
    by (simp add: other r zero)
qed

section \<open>Properties\<close>

text \<open>
  C13. Rewriting never overruns or cuts its output: for every statement, with the tables collected
  from it, the text written fits the buffer of twice the length plus 16 bytes including the final
  NUL, and without tables the statement is unchanged. The aliases are at most seven characters long,
  a reference is at least three, and references that follow each other directly are longer.
\<close>

theorem rewrite_fits_buffer:
  "length (rewrite (collect_refs sql []) sql) + 1 \<le> 2 * length sql + 16 \<and>
   rewrite_sql sql (collect_refs sql []) = rewrite (collect_refs sql []) sql \<and>
   rewrite_sql sql [] = sql"
proof -
  have ok: "refs_ok (collect_refs sql [])" by (rule collect_refs_ok) simp
  have "length (rewrite (collect_refs sql []) sql) \<le> 2 * length sql + 1"
    using rewrite_length [of "collect_refs sql []" sql] refs_ok_alias [OF ok] by blast
  then show ?thesis by (simp add: rewrite_sql_def rewrite_cap_def rewrite_no_tables)
qed

text \<open>
  C14. A reference resolves: the statement \<open>SELECT * FROM a.b.c\<close> over any three names that fit their
  buffers refers to exactly that shard, and is rewritten to read its shadow table. Where the rewriting
  stands at this reference, followed by something that ends a word, it writes the alias of its table
  and goes on behind it; where it stands at a string literal without quotes and backslashes inside, it
  copies the literal unchanged. (Comments are copied unchanged too, with the references in them.)
\<close>

theorem reference_resolves:
  assumes "is_word a" "is_word b" "is_word c" "length a < 128" "length b < 256" "length c < 128"
  shows "collect_refs (''SELECT * FROM '' @ dotted3 a b c) [] = [ref_table a b c 0] \<and>
    rewrite_sql (''SELECT * FROM '' @ dotted3 a b c) [ref_table a b c 0] = ''SELECT * FROM eql_t0'' \<and>
    (\<forall>r. word_ends r \<longrightarrow> rewrite [ref_table a b c 0] (dotted3 a b c @ r) = ''eql_t0'' @ rewrite [ref_table a b c 0] r) \<and>
    (\<forall>body r. chr_quote \<notin> set body \<and> chr_backslash \<notin> set body \<and> (r = [] \<or> hd r \<noteq> chr_quote) \<longrightarrow>
       rewrite [ref_table a b c 0] (chr_quote # body @ chr_quote # r) =
       chr_quote # body @ chr_quote # rewrite [ref_table a b c 0] r)"
proof -
  have zero: "t_alias (ref_table a b c 0) = ''eql_t0''"
  proof -
    have "show_nat 0 = ''0''" by code_simp
    then show ?thesis by (simp add: ref_table_def)
  qed
  have find: "first_match (\<lambda>t. dotted3 a b c = t_dotted t) [ref_table a b c 0] = Some (ref_table a b c 0)"
    by (simp add: first_match_def ref_table_def)
  have "rewrite [ref_table a b c 0] (dotted3 a b c @ r) = ''eql_t0'' @ rewrite [ref_table a b c 0] r" if "word_ends r" for r
    using rewrite_reference [OF assms(1-3) that assms(4-6) find] zero by simp
  moreover have "rewrite_sql (''SELECT * FROM '' @ dotted3 a b c) [ref_table a b c 0] = ''SELECT * FROM eql_t0''"
    unfolding rewrite_sql_def rewrite_cap_def select_rewrites [OF assms] by simp
  ultimately show ?thesis using select_collects [OF assms] rewrite_literal by blast
qed

theorem reference_resolves_witness:
  "rewrite_sql (''SELECT * FROM '' @ dotted3 ''shop'' ''main'' ''orders'') [ref_table ''shop'' ''main'' ''orders'' 0]
     = ''SELECT * FROM eql_t0''"
  using reference_resolves [of "''shop''" "''main''" "''orders''"] by (simp add: is_word_def is_ident_char_def)

text \<open>
  Quoted names read back: a name in double quotes, with its double quotes doubled, is read as
  exactly that name, whatever characters it has, and the cursor stops behind the closing quote.
\<close>

theorem quoted_name_roundtrip:
  assumes "length name < cap" "r = [] \<or> hd r \<noteq> chr_dquote"
  shows "read_ident cap (chr_dquote # escape_name name @ chr_dquote # r) = Some (name, r)"
  by (rule read_ident_quoted [OF assms(2,1)])

theorem quoted_name_roundtrip_witness:
  "read_ident 256 (chr_dquote # escape_name [CHR ''a'', chr_dquote, CHR ''.''] @ chr_dquote # '' x'')
     = Some ([CHR ''a'', chr_dquote, CHR ''.''], '' x'')"
  using quoted_name_roundtrip [of "[CHR ''a'', chr_dquote, CHR ''.'']" 256 "'' x''"] by simp

text \<open>
  The references a statement may have, and the size of the table they are kept in: at most 16, each
  under its own alias, with the names cut to their buffers.
\<close>

theorem references_bounded:
  "refs_ok (collect_refs sql []) \<and> length (edb_eql_references sql cap) \<le> min cap 16"
proof -
  have ok: "refs_ok (collect_refs sql [])" by (rule collect_refs_ok) simp
  then show ?thesis by (auto simp: edb_eql_references_def refs_ok_def EQL_MAX_TABLES_def)
qed

section \<open>References the scanner misses\<close>

text \<open>
  In a list of sources only the alias of the first one is skipped, so the third source of
  \<open>FROM a.b.c x, a.b.d y, a.b.e z\<close> is not collected; the statement then fails in SQLite.
\<close>

lemma third_source_lost:
  "map t_dotted (collect_refs ''SELECT 1 FROM a.b.c x, a.b.d y, a.b.e z'' []) = [''a.b.c'', ''a.b.d'']"
  by code_simp

text \<open>An alias of four or five characters is not skipped either.\<close>

lemma alias_hides_source:
  "map t_dotted (collect_refs ''SELECT 1 FROM a.b.c user, a.b.d'' []) = [''a.b.c'']"
  by code_simp

text \<open>
  A name in brackets is skipped up to the next opening bracket, so a bracketed column before FROM
  hides every reference of the statement.
\<close>

lemma bracket_hides_reference: "collect_refs ''SELECT [v] FROM a.b.c'' [] = []"
  by code_simp

text \<open>A backslash is taken as an escape in a literal, which SQL does not have.\<close>

lemma backslash_hides_reference:
  "collect_refs (''SELECT '' @ [chr_quote, chr_backslash, chr_quote] @ '' FROM a.b.c'') [] = []"
  by code_simp

end
