(* ===== verification/Repl_Rows.thy ===== *)
theory Repl_Rows
  imports Repl_Read
begin

text \<open>
  What the merge of row sets promises: every value it returns is held, with the same fingerprint, by
  the required number of copies of its record, and no copy of the record is newer; a record all of
  whose copies agree is returned when there are enough of them. Long ids are the exception, and a
  newer minority hides a majority.
\<close>

section \<open>Copies of records\<close>

text \<open>A row as a copy of a record: its id, its value and its time stamp.\<close>

definition row_copy :: "cJSON \<Rightarrow> (string \<times> cJSON \<times> int) option" where
  "row_copy r =
     (case (json_str (json_get (Some r) ''id''), json_get (Some r) ''value'') of
        (Some doc, Some (JObject kvs)) \<Rightarrow> Some (doc, JObject kvs, num_or_0 (json_get (Some r) ''timestamp''))
      | _ \<Rightarrow> None)"

definition row_copies :: "cJSON list \<Rightarrow> (string \<times> cJSON \<times> int) list" where
  "row_copies sets = List.map_filter row_copy (concat (map set_rows sets))"

text \<open>The copies of a record with a fingerprint.\<close>

definition agreeing :: "sqlite_env \<Rightarrow> (string \<times> cJSON \<times> int) list \<Rightarrow> string \<Rightarrow> string \<Rightarrow> nat" where
  "agreeing e cs doc fp = length (filter (\<lambda>c. fst c = doc \<and> value_fingerprint e (fst (snd c)) = fp) cs)"

lemma agreeing_Nil [simp]: "agreeing e [] doc fp = 0"
  by (simp add: agreeing_def)

lemma agreeing_snoc:
  "agreeing e (cs @ [c]) doc fp =
     agreeing e cs doc fp + (if fst c = doc \<and> value_fingerprint e (fst (snd c)) = fp then 1 else 0)"
  by (simp add: agreeing_def)

definition put_copy :: "sqlite_env \<Rightarrow> row_entry list \<Rightarrow> string \<times> cJSON \<times> int \<Rightarrow> row_entry list" where
  "put_copy e es c =
     (case index_of (\<lambda>x. me_id x = fst c) es of
        None \<Rightarrow> es @ [merge_copy e (fst (snd c)) (snd (snd c)) (new_entry (fst c))]
      | Some i \<Rightarrow> es[i := merge_copy e (fst (snd c)) (snd (snd c)) (es ! i)])"

lemma index_of_append:
  "index_of P (xs @ ys) =
     (case index_of P xs of Some i \<Rightarrow> Some i | None \<Rightarrow> map_option (\<lambda>i. length xs + i) (index_of P ys))"
  by (cases "index_of P ys"; induction xs) (auto split: option.splits)

lemma first_match_index: "first_match P xs = None \<longleftrightarrow> index_of P xs = None"
  by (auto simp: first_match_def find_None_iff index_of_None_iff)

lemma merge_row_copy: "merge_row e es r = (case row_copy r of None \<Rightarrow> es | Some c \<Rightarrow> put_copy e es c)"
  by (auto simp: merge_row_def row_copy_def put_copy_def Let_def first_match_index index_of_append
      list_update_append nth_append split: option.splits cJSON.splits if_splits)

lemma merge_entries_copies: "merge_entries e sets = foldl (put_copy e) [] (row_copies sets)"
proof -
  have "foldl (merge_row e) es rs = foldl (put_copy e) es (List.map_filter row_copy rs)" for es rs
    by (induction rs arbitrary: es) (auto simp: merge_row_copy List.map_filter_simps split: option.splits)
  then show ?thesis by (simp add: merge_entries_def row_copies_def)
qed

section \<open>The entry of a record\<close>

definition entry_ok :: "sqlite_env \<Rightarrow> (string \<times> cJSON \<times> int) list \<Rightarrow> row_entry \<Rightarrow> bool" where
  "entry_ok e cs x \<longleftrightarrow>
     (\<exists>v. me_best x = Some v \<and> me_fp x = value_fingerprint e v \<and> (me_id x, v, me_ts x) \<in> set cs) \<and>
     (\<forall>c \<in> set cs. fst c = me_id x \<longrightarrow> snd (snd c) \<le> me_ts x) \<and>
     me_agree x \<le> agreeing e cs (me_id x) (me_fp x) \<and>
     (me_fp x \<noteq> [] \<longrightarrow> (\<forall>c \<in> set cs. fst c = me_id x \<longrightarrow> value_fingerprint e (fst (snd c)) = me_fp x) \<longrightarrow>
        me_agree x = agreeing e cs (me_id x) (me_fp x))"

lemma me_id_merge_copy [simp]: "me_id (merge_copy e v ts x) = me_id x"
  by (simp add: merge_copy_def Let_def)

lemma me_id_new_entry [simp]: "me_id (new_entry doc) = take 511 doc"
  by (simp add: new_entry_def)

lemma entry_ok_other:
  assumes "entry_ok e cs x" and "fst c \<noteq> me_id x"
  shows "entry_ok e (cs @ [c]) x"
  using assms by (simp add: entry_ok_def agreeing_snoc) blast

lemma entry_ok_new:
  assumes "\<forall>c \<in> set cs. fst c \<noteq> fst d" and "length (fst d) < 512"
  shows "entry_ok e (cs @ [d]) (merge_copy e (fst (snd d)) (snd (snd d)) (new_entry (fst d)))"
proof -
  have "filter (\<lambda>c. fst c = fst d \<and> P c) cs = []" for P
    using assms(1) by (auto simp: filter_empty_conv)
  then have "agreeing e cs (fst d) fp = 0" for fp by (simp add: agreeing_def)
  then show ?thesis
    using assms by (cases d) (auto simp: entry_ok_def agreeing_snoc merge_copy_def new_entry_def Let_def)
qed

lemma entry_ok_hit:
  assumes ok: "entry_ok e cs x" and hit: "fst d = me_id x"
  shows "entry_ok e (cs @ [d]) (merge_copy e (fst (snd d)) (snd (snd d)) x)"
proof -
  from ok obtain v where v: "me_best x = Some v" "me_fp x = value_fingerprint e v" "(me_id x, v, me_ts x) \<in> set cs"
    by (auto simp: entry_ok_def)
  have bound: "snd (snd c) \<le> me_ts x" if "c \<in> set cs" "fst c = me_id x" for c
    using ok that by (simp add: entry_ok_def)
  obtain doc w t where d: "d = (doc, w, t)" by (cases d)
  have le: "me_agree x \<le> agreeing e cs (me_id x) (me_fp x)" using ok by (simp add: entry_ok_def)
  have exact: "me_agree x = agreeing e cs (me_id x) (me_fp x)"
    if "me_fp x \<noteq> []" "\<forall>c \<in> set cs. fst c = me_id x \<longrightarrow> value_fingerprint e (fst (snd c)) = me_fp x"
    using ok that by (simp add: entry_ok_def)
  have snoc: "entry_ok e (cs @ [d]) y"
    if "me_id y = me_id x" "me_best y = Some u" "me_fp y = value_fingerprint e u" "(me_id x, u, me_ts y) \<in> insert d (set cs)"
      "t \<le> me_ts y" "me_ts x \<le> me_ts y"
      "me_agree y \<le> agreeing e (cs @ [d]) (me_id x) (me_fp y)"
      "me_fp y \<noteq> [] \<Longrightarrow> \<forall>c \<in> insert d (set cs). fst c = me_id x \<longrightarrow> value_fingerprint e (fst (snd c)) = me_fp y \<Longrightarrow>
        me_agree y = agreeing e (cs @ [d]) (me_id x) (me_fp y)" for y u
    using that d by (auto simp: entry_ok_def dest!: bound)
  show ?thesis
  proof (cases "me_ts x < t")
    case newer: True
    show ?thesis
    proof (rule snoc [where u = w])
      show "me_agree (merge_copy e (fst (snd d)) (snd (snd d)) x)
          \<le> agreeing e (cs @ [d]) (me_id x) (me_fp (merge_copy e (fst (snd d)) (snd (snd d)) x))"
        using le d hit newer v by (auto simp: agreeing_snoc merge_copy_def Let_def)
    next
      assume ne: "me_fp (merge_copy e (fst (snd d)) (snd (snd d)) x) \<noteq> []"
        and all: "\<forall>c \<in> insert d (set cs). fst c = me_id x \<longrightarrow>
          value_fingerprint e (fst (snd c)) = me_fp (merge_copy e (fst (snd d)) (snd (snd d)) x)"
      have fp: "me_fp (merge_copy e w t x) = value_fingerprint e w" using newer by (simp add: merge_copy_def Let_def)
      then have "value_fingerprint e v = value_fingerprint e w" using all v(3) d by auto
      then show "me_agree (merge_copy e (fst (snd d)) (snd (snd d)) x) =
          agreeing e (cs @ [d]) (me_id x) (me_fp (merge_copy e (fst (snd d)) (snd (snd d)) x))"
        using exact all ne d hit newer v fp by (simp add: agreeing_snoc merge_copy_def Let_def)
    qed (use d hit newer in \<open>simp_all add: merge_copy_def Let_def\<close>)
  next
    case older: False
    have m: "merge_copy e w t x =
        (if value_fingerprint e w = me_fp x \<and> me_fp x \<noteq> [] then x\<lparr>me_agree := me_agree x + 1\<rparr> else x)"
      using older v by (auto simp: merge_copy_def Let_def)
    show ?thesis
    proof (rule snoc [where u = v])
      show "me_agree (merge_copy e (fst (snd d)) (snd (snd d)) x)
          \<le> agreeing e (cs @ [d]) (me_id x) (me_fp (merge_copy e (fst (snd d)) (snd (snd d)) x))"
        using le d hit by (simp add: m agreeing_snoc)
    next
      assume ne: "me_fp (merge_copy e (fst (snd d)) (snd (snd d)) x) \<noteq> []"
        and all: "\<forall>c \<in> insert d (set cs). fst c = me_id x \<longrightarrow>
          value_fingerprint e (fst (snd c)) = me_fp (merge_copy e (fst (snd d)) (snd (snd d)) x)"
      have fp: "me_fp (merge_copy e w t x) = me_fp x" by (simp add: m)
      then have "value_fingerprint e w = me_fp x" using all d hit by auto
      then show "me_agree (merge_copy e (fst (snd d)) (snd (snd d)) x) =
          agreeing e (cs @ [d]) (me_id x) (me_fp (merge_copy e (fst (snd d)) (snd (snd d)) x))"
        using exact all ne d hit fp by (simp add: agreeing_snoc m)
    qed (use d v older in \<open>simp_all add: m\<close>)
  qed
qed


section \<open>The entries of a merge\<close>

definition entries_ok :: "sqlite_env \<Rightarrow> (string \<times> cJSON \<times> int) list \<Rightarrow> row_entry list \<Rightarrow> bool" where
  "entries_ok e cs es \<longleftrightarrow>
     distinct (map me_id es) \<and> me_id ` set es = fst ` set cs \<and> (\<forall>x \<in> set es. entry_ok e cs x)"

lemma entries_ok_put:
  assumes ok: "entries_ok e cs es" and short: "length (fst c) < 512"
  shows "entries_ok e (cs @ [c]) (put_copy e es c)"
proof (cases "index_of (\<lambda>x. me_id x = fst c) es")
  case None
  then have fresh: "\<forall>x \<in> set es. me_id x \<noteq> fst c" by (simp add: index_of_None_iff)
  with ok have other: "\<forall>d \<in> set cs. fst d \<noteq> fst c" by (force simp: entries_ok_def)
  then have new: "entry_ok e (cs @ [c]) (merge_copy e (fst (snd c)) (snd (snd c)) (new_entry (fst c)))"
    using short by (rule entry_ok_new)
  have "entry_ok e (cs @ [c]) x" if "x \<in> set es" for x
  proof (rule entry_ok_other)
    show "entry_ok e cs x" using ok that by (simp add: entries_ok_def)
    show "fst c \<noteq> me_id x" using fresh that by metis
  qed
  then show ?thesis using None ok fresh other new short by (simp add: entries_ok_def put_copy_def) (metis imageE)
next
  case (Some i)
  then have i: "i < length es" "me_id (es ! i) = fst c" by (auto dest: index_of_SomeD)
  let ?y = "merge_copy e (fst (snd c)) (snd (snd c)) (es ! i)"
  have ids: "map me_id (es[i := ?y]) = map me_id es" using list_update_id [of "map me_id es" i] i by (simp add: map_update)
  have hit: "entry_ok e (cs @ [c]) ?y"
    using ok i by (auto intro: entry_ok_hit simp: entries_ok_def)
  have "entry_ok e (cs @ [c]) (es[i := ?y] ! j)" if j: "j < length es" for j
  proof (cases "j = i")
    case False
    then have "me_id (es ! j) \<noteq> me_id (es ! i)"
      using ok i j nth_eq_iff_index_eq [of "map me_id es" j i] by (simp add: entries_ok_def)
    then show ?thesis using ok i j False by (auto intro: entry_ok_other simp: entries_ok_def)
  qed (use hit i in simp)
  then have "\<forall>x \<in> set (es[i := ?y]). entry_ok e (cs @ [c]) x" by (auto simp: in_set_conv_nth)
  moreover have "me_id ` set (es[i := ?y]) = fst ` set (cs @ [c])"
  proof -
    have "me_id ` set (es[i := ?y]) = me_id ` set es" using ids by (metis set_map)
    moreover have "fst c \<in> me_id ` set es" using i nth_mem by (metis imageI)
    ultimately show ?thesis using ok by (auto simp: entries_ok_def)
  qed
  moreover have "distinct (map me_id (es[i := ?y]))" using ok unfolding ids by (simp add: entries_ok_def)
  ultimately show ?thesis using Some by (simp only: entries_ok_def put_copy_def option.case)
qed

lemma entries_ok_merge:
  assumes "\<forall>c \<in> set (row_copies sets). length (fst c) < 512"
  shows "entries_ok e (row_copies sets) (merge_entries e sets)"
proof -
  have "entries_ok e cs (foldl (put_copy e) [] cs)" if "\<forall>c \<in> set cs. length (fst c) < 512" for cs
    using that by (induction cs rule: rev_induct) (simp_all add: entries_ok_put, simp add: entries_ok_def)
  then show ?thesis using assms by (simp add: merge_entries_copies)
qed

lemma set_map_filter: "set (List.map_filter f xs) = {y. \<exists>x \<in> set xs. f x = Some y}"
  by (induction xs) (auto simp: List.map_filter_simps split: option.splits)

lemma agreed_values:
  "json_items (Some (merge_agreed_rows e sets required)) =
     List.map_filter (\<lambda>x. if agreed required x then me_best x else None) (merge_entries e sets)"
  by (simp add: merge_agreed_rows_def)

lemma merge_rows_sound:
  assumes inv: "entries_ok e (row_copies sets) (merge_entries e sets)"
    and v: "v \<in> set (json_items (Some (merge_agreed_rows e sets required)))"
  shows "\<exists>doc ts. (doc, v, ts) \<in> set (row_copies sets) \<and>
     required \<le> agreeing e (row_copies sets) doc (value_fingerprint e v) \<and>
     (\<forall>c \<in> set (row_copies sets). fst c = doc \<longrightarrow> snd (snd c) \<le> ts)"
proof -
  from v obtain x where x: "x \<in> set (merge_entries e sets)" "required \<le> me_agree x" "me_best x = Some v"
    by (auto simp: agreed_values set_map_filter agreed_def split: if_splits)
  then have "entry_ok e (row_copies sets) x" using inv by (simp add: entries_ok_def)
  then show ?thesis
    using x by (intro exI [of _ "me_id x"] exI [of _ "me_ts x"]) (auto simp: entry_ok_def)
qed

lemma merge_rows_complete:
  assumes inv: "entries_ok e (row_copies sets) (merge_entries e sets)"
    and pos: "0 < required" and fp: "fp \<noteq> []" and enough: "required \<le> agreeing e (row_copies sets) doc fp"
    and all: "\<forall>c \<in> set (row_copies sets). fst c = doc \<longrightarrow> value_fingerprint e (fst (snd c)) = fp"
  shows "\<exists>w \<in> set (json_items (Some (merge_agreed_rows e sets required))). value_fingerprint e w = fp"
proof -
  from enough pos have "filter (\<lambda>c. fst c = doc \<and> value_fingerprint e (fst (snd c)) = fp) (row_copies sets) \<noteq> []"
    by (auto simp: agreeing_def)
  then have "doc \<in> fst ` set (row_copies sets)" by (auto simp: filter_empty_conv)
  then have "doc \<in> me_id ` set (merge_entries e sets)" using inv by (simp add: entries_ok_def)
  then obtain x where x: "x \<in> set (merge_entries e sets)" "me_id x = doc" by auto
  then have ok: "entry_ok e (row_copies sets) x" using inv by (simp add: entries_ok_def)
  then obtain w where w: "me_best x = Some w" "me_fp x = value_fingerprint e w" "(doc, w, me_ts x) \<in> set (row_copies sets)"
    using x by (auto simp: entry_ok_def)
  then have wfp: "value_fingerprint e w = fp" using all by force
  then have "me_agree x = agreeing e (row_copies sets) doc fp"
    using ok x w all fp by (simp add: entry_ok_def)
  then have "w \<in> set (json_items (Some (merge_agreed_rows e sets required)))"
    using x w enough by (auto simp: agreed_values set_map_filter agreed_def)
  then show ?thesis using wfp by blast
qed

text \<open>
  C9. Collections are merged soundly and completely when every id is shorter than 512 bytes, the size
  of the buffer it is kept in (a record with a longer id is lost, \<open>long_id_lost\<close>). A value in the
  result of \<open>merge_agreed_rows\<close> belongs to some record: at least the required number of copies of that
  record carry the same fingerprint, and one of them is as new as every copy of the record. And when
  all copies of a record have one fingerprint and there are enough of them, its value is in the result.
\<close>

theorem merge_rows_agreement:
  assumes short: "\<forall>c \<in> set (row_copies sets). length (fst c) < 512" and pos: "0 < required"
  shows "(\<forall>v \<in> set (json_items (Some (merge_agreed_rows e sets required))).
      \<exists>doc ts. (doc, v, ts) \<in> set (row_copies sets) \<and>
         required \<le> agreeing e (row_copies sets) doc (value_fingerprint e v) \<and>
         (\<forall>c \<in> set (row_copies sets). fst c = doc \<longrightarrow> snd (snd c) \<le> ts)) \<and>
    (\<forall>doc fp. fp \<noteq> [] \<and> required \<le> agreeing e (row_copies sets) doc fp \<and>
       (\<forall>c \<in> set (row_copies sets). fst c = doc \<longrightarrow> value_fingerprint e (fst (snd c)) = fp) \<longrightarrow>
       (\<exists>w \<in> set (json_items (Some (merge_agreed_rows e sets required))). value_fingerprint e w = fp))"
proof -
  note inv = entries_ok_merge [OF short, of e]
  show ?thesis using merge_rows_sound [OF inv] merge_rows_complete [OF inv pos] by blast
qed

end
