(* ===== verification/Repl_Props.thy ===== *)
theory Repl_Props
  imports Repl
begin

text \<open>
  What replication promises: the change cache is a \<open>change_log\<close> (the interpretation \<open>cache\<close> below), so
  replay keeps the order of changes and loses none; a write that succeeds was acknowledged by a
  majority of the holders and is queued for every other peer.
\<close>

declare edb_repl_flush.simps [simp del]

section \<open>The cache as a change log\<close>

definition cache_works :: "sqlite_env \<Rightarrow> bool" where
  "cache_works e \<longleftrightarrow>
     (\<forall>q \<in> {CACHE_INSERT, CACHE_DELETE, CACHE_SELECT, CACHE_COUNT, CACHE_COUNT_ALL}. prepare_ok e q \<and> step_ok e q)"

definition row_key :: "change_row \<Rightarrow> string \<times> string" where
  "row_key r = (ch_target r, ch_cid r)"

definition cache_wf :: "change_cache \<Rightarrow> bool" where
  "cache_wf cc \<longleftrightarrow> cc_db cc \<and> distinct (map row_key (cc_rows cc)) \<and> (\<forall>r \<in> set (cc_rows cc). length (ch_cid r) < 96)"

definition cache_queue :: "change_cache \<Rightarrow> string \<Rightarrow> (string \<times> string) list" where
  "cache_queue cc target = map (\<lambda>r. (ch_cid r, ch_payload r)) (filter (\<lambda>r. ch_target r = target) (cc_rows cc))"

lemma cache_worksD:
  assumes "cache_works e"
  shows "prepare_ok e CACHE_INSERT" "step_ok e CACHE_INSERT" "prepare_ok e CACHE_DELETE" "step_ok e CACHE_DELETE"
    "prepare_ok e CACHE_SELECT" "step_ok e CACHE_SELECT" "prepare_ok e CACHE_COUNT" "step_ok e CACHE_COUNT"
  using assms by (simp_all add: cache_works_def)

lemma queue_filter:
  "map (\<lambda>r. (ch_cid r, ch_payload r)) (filter (\<lambda>r. \<not> same_change t i r \<and> ch_target r = t') rows) =
    (if t' = t then filter (\<lambda>x. fst x \<noteq> i) (map (\<lambda>r. (ch_cid r, ch_payload r)) (filter (\<lambda>r. ch_target r = t) rows))
     else map (\<lambda>r. (ch_cid r, ch_payload r)) (filter (\<lambda>r. ch_target r = t') rows))"
  by (induction rows) (auto simp: same_change_def)

lemma distinct_queue: "distinct (map row_key rows) \<Longrightarrow> distinct (map ch_cid (filter (\<lambda>r. ch_target r = t) rows))"
  by (induction rows) (auto simp: row_key_def image_iff)

interpretation cache: change_log "\<lambda>cc. cache_works e \<and> cache_wf cc" cache_queue "cache_append e" "cache_remove e"
  "cache_load e" "\<lambda>i. length i < 96" for e
proof (unfold_locales, goal_cases)
  case (1 c t)
  then have "distinct (map ch_cid (filter (\<lambda>r. ch_target r = t) (cc_rows c)))"
    by (intro distinct_queue) (simp add: cache_wf_def)
  then show ?case by (simp add: cache_queue_def comp_def)
next
  case (2 c t n)
  have "map (\<lambda>r. (snprintf_s 96 (ch_cid r), ch_payload r)) (take n (filter (\<lambda>r. ch_target r = t) (cc_rows c))) =
      map (\<lambda>r. (ch_cid r, ch_payload r)) (take n (filter (\<lambda>r. ch_target r = t) (cc_rows c)))"
    using 2 by (intro map_cong refl) (auto simp: cache_wf_def snprintf_s_id dest: in_set_takeD)
  then show ?case
    using 2 by (simp add: cache_load_def cache_queue_def cache_worksD cache_wf_def take_map)
next
  case (3 c i t p)
  have "distinct (map row_key (filter (\<lambda>r. \<not> same_change t i r) (cc_rows c)))"
    using 3 by (simp add: cache_wf_def distinct_map_filter)
  with 3 show ?case
    by (auto simp: cache_append_def cache_worksD cache_wf_def same_change_def row_key_def)
next
  case (4 c i t p)
  then show ?case
    by (auto simp: cache_append_def cache_worksD cache_wf_def cache_queue_def fun_eq_iff queue_filter)
next
  case (5 c t i)
  then show ?case
    by (auto simp: cache_remove_def cache_worksD cache_wf_def distinct_map_filter)
next
  case (6 c t i)
  then show ?case
    by (auto simp: cache_remove_def cache_worksD cache_wf_def cache_queue_def fun_eq_iff queue_filter)
qed

section \<open>Replay\<close>

lemma deliver_rows_replay:
  "deliver_rows e exchange peer n cc rows = cache.replay e (send_change e exchange peer) (p_id peer) n cc rows"
  by (induction rows arbitrary: n cc)
    (auto simp: deliver_cached_def split_beta Let_def)

lemma drain_rounds_rounds:
  "drain_rounds e exchange peer m n cc = cache.rounds e (send_change e exchange peer) (p_id peer) 256 m n cc"
  by (induction m arbitrary: n cc) (auto simp: deliver_rows_replay split_beta Let_def)

lemma pending_for_queue:
  assumes "cache_works e" "cc_db (rp_cache rp)"
  shows "edb_repl_pending_for e rp t = length (cache_queue (rp_cache rp) t)"
  using assms by (simp add: edb_repl_pending_for_def cache_worksD cache_queue_def)

text \<open>
  C7. Replay keeps the order and loses nothing: whatever the peer and the network answer, draining
  the queue of a peer removes a beginning of this queue, which was acknowledged in order, leaves the queues of all other peers
  alone and reports exactly how many changes are left. When the peer acknowledges every change, 64 rounds of 256
  empty the queue.
\<close>

theorem drain_in_order:
  fixes e :: sqlite_env and exchange :: "'n exchange" and n :: 'n and node :: string
  assumes "cache_works e" "cache_wf (rp_cache rp)"
  defines "r \<equiv> edb_repl_drain_peer e exchange node n rp"
  shows "(\<exists>k. cache_queue (rp_cache (fst (snd r))) = (cache_queue (rp_cache rp))(node := drop k (cache_queue (rp_cache rp) node)) \<and>
      (0 < k \<longrightarrow> (\<exists>peer. find_peer rp node = Some peer \<and>
        acked (send_change e exchange peer) n (map snd (take k (cache_queue (rp_cache rp) node))) (fst r)))) \<and>
    snd (snd r) = length (cache_queue (rp_cache (fst (snd r))) node) \<and> cache_wf (rp_cache (fst (snd r))) \<and>
    (\<forall>peer. find_peer rp node = Some peer \<and> rp_replaying rp \<noteq> node \<and> node \<noteq> [] \<and>
      (\<forall>m payload. snd (send_change e exchange peer m payload)) \<and> length (cache_queue (rp_cache rp) node) \<le> 64 * 256 \<longrightarrow>
      snd (snd r) = 0)"
proof -
  have ok: "cache_works e \<and> cache_wf (rp_cache rp)" using assms by simp
  show ?thesis
  proof (cases "(rp_replaying rp \<noteq> [] \<and> strcmp (rp_replaying rp) node = 0) \<or> find_peer rp node = None")
    case True
    then have "rp_cache (fst (snd r)) = rp_cache rp" "snd (snd r) = edb_repl_pending_for e rp node"
      by (auto simp: r_def edb_repl_drain_peer_def Let_def edb_repl_pending_for_def)
    then show ?thesis
      using pending_for_queue [OF assms(1)] assms(2) True
      by (auto simp: cache_wf_def intro!: exI [of _ 0])
  next
    case False
    then obtain peer where peer: "find_peer rp node = Some peer" by blast
    then have id: "p_id peer = node" by (auto simp: find_peer_def first_match_def find_Some_iff)
    let ?d = "snd (cache.rounds e (send_change e exchange peer) node 256 64 n (rp_cache rp))"
    have r: "rp_cache (fst (snd r)) = ?d" "fst r = fst (cache.rounds e (send_change e exchange peer) node 256 64 n (rp_cache rp))"
      "snd (snd r) = edb_repl_pending_for e (fst (snd r)) node"
      using False peer by (auto simp: r_def edb_repl_drain_peer_def split_beta Let_def drain_rounds_rounds id)
    obtain k where k: "cache_works e \<and> cache_wf ?d"
      "cache_queue ?d = (cache_queue (rp_cache rp))(node := drop k (cache_queue (rp_cache rp) node))"
      "acked (send_change e exchange peer) n (map snd (take k (cache_queue (rp_cache rp) node))) (fst r)"
      unfolding r(2)
      using cache.rounds_prefix [OF ok, of "send_change e exchange peer" node 256 64 n] by blast
    have n: "snd (snd r) = length (cache_queue ?d node)"
      using r pending_for_queue [OF assms(1)] k(1) by (simp add: cache_wf_def)
    have "length (cache_queue ?d node) = 0"
      if "\<forall>m payload. snd (send_change e exchange peer m payload)" "length (cache_queue (rp_cache rp) node) \<le> 64 * 256"
      using cache.rounds_empty [OF ok, of "send_change e exchange peer" node 64 256 n] that by simp
    then show ?thesis using k n r(1) peer by (auto intro!: exI [of _ k])
  qed
qed

section \<open>Writes\<close>

text \<open>
  Who acknowledges a write: the change is sent to the other peers that are online and have an
  address, in the order of the table, each on the network state the one before left. The result is
  the state after the last and the ids of those that acknowledged.
\<close>

fun acked_by ::
  "sqlite_env \<Rightarrow> 'n exchange \<Rightarrow> string \<Rightarrow> string \<Rightarrow> 'n \<Rightarrow> edb_peer_info list \<Rightarrow> 'n \<times> string list" where
  "acked_by e exchange self payload n [] = (n, [])"
| "acked_by e exchange self payload n (p # ps) =
     (if p_id p \<noteq> self \<and> p_online p \<and> p_addr p \<noteq> [] \<and> 0 < p_port p
      then (case send_change e exchange p n payload of
              (n1, ok) \<Rightarrow> (case acked_by e exchange self payload n1 ps of
                 (n2, ids) \<Rightarrow> (n2, if ok then p_id p # ids else ids)))
      else acked_by e exchange self payload n ps)"

lemma fan_out_spec:
  fixes e :: sqlite_env and exchange :: "'n exchange" and self payload :: string and holders :: "string list"
  defines "r \<equiv> \<lambda>n ps. fan_out e exchange self holders payload n ps"
  defines "a \<equiv> \<lambda>n ps. acked_by e exchange self payload n ps"
  shows "fst (r n ps) = fst (a n ps) \<and> length (fst (snd (r n ps))) = length ps \<and>
    snd (snd (r n ps)) = length (filter (\<lambda>i. i \<in> set holders) (snd (a n ps))) \<and>
    (\<forall>pd \<in> set (zip ps (fst (snd (r n ps)))). snd pd \<longrightarrow> p_id (fst pd) = self \<or> p_id (fst pd) \<in> set (snd (a n ps)))"
proof (induction ps arbitrary: n)
  case (Cons p ps)
  show ?case
  proof (cases "p_id p = self \<or> \<not> p_online p \<or> p_addr p = [] \<or> p_port p \<le> 0")
    case True
    then have "\<not> (p_id p \<noteq> self \<and> p_online p \<and> p_addr p \<noteq> [] \<and> 0 < p_port p)" by auto
    with True show ?thesis using Cons [of n] by (auto simp: r_def a_def split_beta Let_def)
  next
    case False
    then show ?thesis
      using Cons [of "fst (send_change e exchange p n payload)"]
      by (auto simp: r_def a_def split_beta Let_def id_in_holders_def)
  qed
qed (simp add: r_def a_def)

lemma acked_by_ids:
  "set (snd (acked_by e exchange self payload n ps)) \<subseteq> set (map p_id ps) - {self}"
  "distinct (map p_id ps) \<Longrightarrow> distinct (snd (acked_by e exchange self payload n ps))"
proof -
  show sub: "set (snd (acked_by e exchange self payload n ps)) \<subseteq> set (map p_id ps) - {self}" for n ps
  proof (induction ps arbitrary: n)
    case (Cons p ps)
    from Cons [of n] Cons [of "fst (send_change e exchange p n payload)"] show ?case by (auto simp: split_beta)
  qed simp
  show "distinct (map p_id ps) \<Longrightarrow> distinct (snd (acked_by e exchange self payload n ps))"
  proof (induction ps arbitrary: n)
    case (Cons p ps)
    have "p_id p \<notin> set (snd (acked_by e exchange self payload m ps))" for m using Cons.prems sub [of m ps] by auto
    then show ?case using Cons by (simp add: split_beta)
  qed simp
qed

lemma cache_missed_queue:
  assumes "cache_works e" "cache_wf cc" "length cid < 96"
  shows "cache_wf (foldl (\<lambda>cc pd. cache_append e cc (p_id (fst pd)) cid payload) cc qs) \<and>
    (\<forall>pd \<in> set qs. last (cache_queue (foldl (\<lambda>cc pd. cache_append e cc (p_id (fst pd)) cid payload) cc qs) (p_id (fst pd))) =
      (cid, payload)) \<and>
    (\<forall>t. (\<forall>pd \<in> set qs. p_id (fst pd) \<noteq> t) \<longrightarrow>
      cache_queue (foldl (\<lambda>cc pd. cache_append e cc (p_id (fst pd)) cid payload) cc qs) t = cache_queue cc t)"
proof (induction qs rule: rev_induct)
  case (snoc q qs)
  let ?c = "foldl (\<lambda>cc pd. cache_append e cc (p_id (fst pd)) cid payload) cc qs"
  have ok: "cache_works e \<and> cache_wf ?c" using snoc assms(1) by simp
  note q = cache.append_queue [OF ok assms(3), of "p_id (fst q)" payload]
  have "cache_wf (cache_append e ?c (p_id (fst q)) cid payload)" using cache.append_ok [OF ok assms(3)] by simp
  moreover have "last (cache_queue (cache_append e ?c (p_id (fst q)) cid payload) t) = (cid, payload)"
    if "t = p_id (fst q) \<or> last (cache_queue ?c t) = (cid, payload)" for t
    using that q by auto
  ultimately show ?case using snoc q by auto
qed (simp add: assms(2))

lemma write_acks:
  assumes "distinct (map p_id peers)" "fan_out e exchange self holders payload n peers = (n', ds, acks)"
    and "quorum holders \<le> (if id_in_holders self holders then 1 else 0) + acks"
  shows "length holders < 2 * card {h \<in> set holders. h = self \<or> h \<in> set (snd (acked_by e exchange self payload n peers))}"
proof -
  let ?I = "snd (acked_by e exchange self payload n peers)"
  let ?B = "set (filter (\<lambda>i. i \<in> set holders) ?I)"
  have "acks = length (filter (\<lambda>i. i \<in> set holders) ?I)"
    using fan_out_spec [of e exchange self holders payload n peers] assms(2) by simp
  also have "\<dots> = card ?B" by (rule distinct_card [symmetric]) (simp add: acked_by_ids(2) [OF assms(1)])
  finally have acks: "acks = card ?B" .
  have "self \<notin> ?B" using acked_by_ids(1) [of e exchange self payload n peers] by auto
  then have "card (insert self ?B) = Suc (card ?B)" by (intro card_insert_disjoint) simp_all
  moreover have "{h \<in> set holders. h = self \<or> h \<in> set ?I} = ?B \<union> (if self \<in> set holders then {self} else {})" by auto
  ultimately have "card {h \<in> set holders. h = self \<or> h \<in> set ?I} = (if self \<in> set holders then 1 else 0) + acks"
    by (simp add: acks del: set_filter)
  then show ?thesis using assms(3) by (simp add: quorum_def id_in_holders_def split: if_splits)
qed

lemma fan_out_offline:
  "\<forall>pd \<in> set (zip ps (fst (snd (fan_out e exchange self holders payload n ps)))).
    p_id (fst pd) \<noteq> self \<and> \<not> p_online (fst pd) \<longrightarrow> \<not> snd pd"
  by (induction ps arbitrary: n) (auto simp: split_beta Let_def)

lemma factor_keeps [simp]:
  "rp_self_id (fst (replication_factor e rp db)) = rp_self_id rp" "rp_cache (fst (replication_factor e rp db)) = rp_cache rp"
  "rp_peers (fst (replication_factor e rp db)) = rp_peers rp"
  by (simp_all add: replication_factor_def split_beta upd_rp_cfg_def rp_peers_def edb_cluster_peers_def)

lemma apply_local_keeps [simp]:
  "rp_self_id (fst (apply_change_local e rp change)) = rp_self_id rp"
  "rp_cache (fst (apply_change_local e rp change)) = rp_cache rp"
  by (auto simp: apply_change_local_def upd_rp_engine_def upd_rp_cfg_def Let_def split_beta
      split: option.split cJSON.split)

lemma cache_missed_keeps [simp]: "rp_cfg (cache_missed e cid payload ps ds rp) = rp_cfg rp"
  by (simp add: cache_missed_def rp_cfg_def)

text \<open>What \<open>write_tagged\<close> leaves behind, whatever its status.\<close>

lemma write_tagged_spec:
  fixes e :: sqlite_env and exchange :: "'n exchange" and rp :: edb_repl and db part keyspace :: string
  assumes "write_tagged e exchange db part keyspace cid change payload n rp = (n', rp', st)"
    and "cache_works e" "cache_wf (rp_cache rp)" "length cid < 96" "distinct (map p_id (rp_peers rp))"
  defines "rp2 \<equiv> fst (replication_factor e rp db)"
  defines "holders \<equiv> write_holders rp2 part keyspace (snd (replication_factor e rp db))"
  shows "st = EDB_REPL_OK \<Longrightarrow>
      n' = fst (acked_by e exchange (rp_self_id rp) payload n (rp_peers rp)) \<and>
      length holders < 2 * card {h \<in> set holders. h = rp_self_id rp \<or>
        h \<in> set (snd (acked_by e exchange (rp_self_id rp) payload n (rp_peers rp)))} \<and>
      apply_change_local e rp2 change = (fst (apply_change_local e rp2 change), True) \<and>
      rp_cfg rp' = rp_cfg (fst (apply_change_local e rp2 change))"
    "st = EDB_REPL_QUORUM_LOST \<Longrightarrow> rp_cfg rp' = rp_cfg rp2"
    "cache_wf (rp_cache rp')"
    "\<And>p. p \<in> set (rp_peers rp) \<Longrightarrow> p_id p \<noteq> rp_self_id rp \<Longrightarrow> p_id p \<noteq> [] \<Longrightarrow>
      (p_online p \<and> p_id p \<in> set (snd (acked_by e exchange (rp_self_id rp) payload n (rp_peers rp)))) \<or>
      last (cache_queue (rp_cache rp') (p_id p)) = (cid, payload)"
proof -
  let ?peers = "rp_peers rp" and ?self = "rp_self_id rp"
  obtain n1 ds acks where fo: "fan_out e exchange ?self holders payload n ?peers = (n1, ds, acks)"
    by (metis prod_cases3)
  let ?acks = "(if id_in_holders ?self holders then 1 else 0) + acks"
  have "write_tagged e exchange db part keyspace cid change payload n rp = (if ?acks < quorum holders then (n1, cache_missed e cid payload ?peers ds rp2, EDB_REPL_QUORUM_LOST)
      else (n1, cache_missed e cid payload ?peers ds (fst (apply_change_local e rp2 change)),
        if snd (apply_change_local e rp2 change) then EDB_REPL_OK else EDB_REPL_LOCAL_FAIL))"
    unfolding write_tagged_def Let_def split_beta rp2_def [symmetric] holders_def [symmetric]
    using fo by (simp add: rp2_def)
  note unfolded = this [unfolded assms(1), symmetric]
  have cases: "?acks < quorum holders \<and> rp' = cache_missed e cid payload ?peers ds rp2 \<and> st = EDB_REPL_QUORUM_LOST \<or>
      n' = n1 \<and> \<not> ?acks < quorum holders \<and> rp' = cache_missed e cid payload ?peers ds (fst (apply_change_local e rp2 change)) \<and>
      st = (if snd (apply_change_local e rp2 change) then EDB_REPL_OK else EDB_REPL_LOCAL_FAIL)"
    using unfolded by (cases "?acks < quorum holders") simp_all
  have cc: "rp_cache rp' = foldl (\<lambda>cc pd. cache_append e cc (p_id (fst pd)) cid payload) (rp_cache rp)
      (filter (missed ?self) (zip ?peers ds))"
    using cases by (elim disjE) (simp_all add: cache_missed_def rp2_def)
  note q = cache_missed_queue [OF assms(2-4), where payload = payload and qs = "filter (missed ?self) (zip ?peers ds)", folded cc]
  show "st = EDB_REPL_OK \<Longrightarrow>
      n' = fst (acked_by e exchange ?self payload n ?peers) \<and>
      length holders < 2 * card {h \<in> set holders. h = ?self \<or> h \<in> set (snd (acked_by e exchange ?self payload n ?peers))} \<and>
      apply_change_local e rp2 change = (fst (apply_change_local e rp2 change), True) \<and>
      rp_cfg rp' = rp_cfg (fst (apply_change_local e rp2 change))"
  proof -
    assume "st = EDB_REPL_OK"
    then have ok: "n' = n1" "quorum holders \<le> ?acks" "snd (apply_change_local e rp2 change)"
      "rp' = cache_missed e cid payload ?peers ds (fst (apply_change_local e rp2 change))"
      using cases by (auto split: if_splits)
    show ?thesis
      using write_acks [OF assms(5) fo ok(2)] ok(1,3,4) fan_out_spec [of e exchange ?self holders payload n ?peers] fo
      by (simp add: prod_eq_iff)
  qed
  show "st = EDB_REPL_QUORUM_LOST \<Longrightarrow> rp_cfg rp' = rp_cfg rp2" using cases by (auto split: if_splits)
  show "cache_wf (rp_cache rp')" using q by blast
  fix p assume p: "p \<in> set ?peers" "p_id p \<noteq> ?self" "p_id p \<noteq> []"
  have f: "length ds = length ?peers" "\<forall>pd \<in> set (zip ?peers ds). snd pd \<longrightarrow> p_id (fst pd) = ?self \<or>
      p_id (fst pd) \<in> set (snd (acked_by e exchange ?self payload n ?peers))"
    "\<forall>pd \<in> set (zip ?peers ds). p_id (fst pd) \<noteq> ?self \<and> \<not> p_online (fst pd) \<longrightarrow> \<not> snd pd"
    using fan_out_spec [of e exchange ?self holders payload n ?peers]
      fan_out_offline [of ?peers e exchange ?self holders payload n] fo by simp_all
  obtain d where d: "(p, d) \<in> set (zip ?peers ds)"
    using p(1) f(1) by (metis in_set_impl_in_set_zip1)
  show "(p_online p \<and> p_id p \<in> set (snd (acked_by e exchange ?self payload n ?peers))) \<or> last (cache_queue (rp_cache rp') (p_id p)) = (cid, payload)"
  proof (cases d)
    case True
    then show ?thesis using f(2,3) d p(2) by force
  next
    case False
    then have "(p, d) \<in> set (filter (missed ?self) (zip ?peers ds))" using d p by (simp add: missed_def)
    then show ?thesis using q by force
  qed
qed

lemma length_change_cid [simp]: "length (change_cid self now s) < 96"
  using snprintf_s_length [of 96] by (simp add: change_cid_def)

lemma distinct_rp_peers: "distinct (map p_id (cl_peers (rp_cluster rp))) \<Longrightarrow> distinct (map p_id (rp_peers rp))"
  by (simp add: rp_peers_def edb_cluster_peers_def take_map [symmetric])

lemma seq_keeps [simp]:
  "rp_peers (rp\<lparr>rp_change_seq := s\<rparr>) = rp_peers rp" "rp_cfg (rp\<lparr>rp_change_seq := s\<rparr>) = rp_cfg rp"
  by (simp_all add: rp_peers_def rp_cfg_def)

lemma repl_write_tagged:
  assumes "cJSON_ParseWithLength e json = Some (JObject kvs)"
    and "json_str (map_of kvs ''partition'') = Some part" "json_str (map_of kvs ''keyspace'') = Some keyspace"
    and "cJSON_PrintUnformatted e (JObject (tag_change (rp_self_id rp)
      (change_cid (rp_self_id rp) (now_epoch e) (rp_change_seq rp + 1)) kvs)) = Some payload"
  shows "edb_repl_write e exchange db json n rp =
    write_tagged e exchange db part keyspace (change_cid (rp_self_id rp) (now_epoch e) (rp_change_seq rp + 1))
      (JObject (tag_change (rp_self_id rp) (change_cid (rp_self_id rp) (now_epoch e) (rp_change_seq rp + 1)) kvs))
      payload n (rp\<lparr>rp_change_seq := rp_change_seq rp + 1\<rparr>)"
  using assms by (simp add: edb_repl_write_def Let_def)

lemma repl_write_printed:
  assumes "cJSON_ParseWithLength e json = Some (JObject kvs)"
    and "json_str (map_of kvs ''partition'') = Some part" "json_str (map_of kvs ''keyspace'') = Some keyspace"
    and "snd (snd (edb_repl_write e exchange db json n rp)) \<noteq> EDB_REPL_LOCAL_FAIL"
  shows "\<exists>payload. cJSON_PrintUnformatted e (JObject (tag_change (rp_self_id rp)
    (change_cid (rp_self_id rp) (now_epoch e) (rp_change_seq rp + 1)) kvs)) = Some payload"
proof (rule ccontr)
  assume "\<not> ?thesis"
  then have "snd (snd (edb_repl_write e exchange db json n rp)) = EDB_REPL_LOCAL_FAIL"
    using assms(1-3) by (simp add: edb_repl_write_def Let_def)
  then show False using assms(4) by simp
qed

text \<open>
  C6. A write that reports success is replicated: more than half of the holders of its shard took it,
  this node (when it is a holder) and the peers that acknowledged it while the change was sent
  round in this run (\<open>acked_by\<close>, which also leads to the final state of the network); it is applied to
  the local engine; and every other peer either acknowledged it in this run or has it as the last
  change of its queue.
\<close>

theorem write_ok_replicated:
  fixes e :: sqlite_env and exchange :: "'n exchange" and n n' :: 'n and rp :: edb_repl and db :: string
    and kvs :: "(string \<times> cJSON) list"
  assumes "edb_repl_write e exchange db json n rp = (n', rp', EDB_REPL_OK)"
    and "cJSON_ParseWithLength e json = Some (JObject kvs)"
    and "json_str (map_of kvs ''partition'') = Some part" "json_str (map_of kvs ''keyspace'') = Some keyspace"
    and "cache_works e" "cache_wf (rp_cache rp)" "distinct (map p_id (cl_peers (rp_cluster rp)))"
  defines "rp1 \<equiv> rp\<lparr>rp_change_seq := rp_change_seq rp + 1\<rparr>"
  defines "cid \<equiv> change_cid (rp_self_id rp) (now_epoch e) (rp_change_seq rp + 1)"
  defines "change \<equiv> JObject (tag_change (rp_self_id rp) cid kvs)"
  defines "rp2 \<equiv> fst (replication_factor e rp1 db)"
  defines "holders \<equiv> write_holders rp2 part keyspace (snd (replication_factor e rp1 db))"
  defines "took \<equiv> \<lambda>payload. acked_by e exchange (rp_self_id rp) payload n (rp_peers rp)"
  shows "\<exists>payload. cJSON_PrintUnformatted e change = Some payload \<and> n' = fst (took payload) \<and>
    length holders < 2 * card {h \<in> set holders. h = rp_self_id rp \<or> h \<in> set (snd (took payload))} \<and>
    snd (apply_change_local e rp2 change) \<and> rp_cfg rp' = rp_cfg (fst (apply_change_local e rp2 change)) \<and>
    (\<forall>p \<in> set (rp_peers rp). p_id p = rp_self_id rp \<or> p_id p = [] \<or>
      p_id p \<in> set (snd (took payload)) \<or> last (cache_queue (rp_cache rp') (p_id p)) = (cid, payload))"
proof -
  obtain payload where p: "cJSON_PrintUnformatted e change = Some payload"
    using repl_write_printed [OF assms(2-4), of exchange db n rp] assms(1) by (auto simp: change_def cid_def)
  have w: "write_tagged e exchange db part keyspace cid change payload n rp1 = (n', rp', EDB_REPL_OK)"
    using assms(1) repl_write_tagged [OF assms(2-4), of rp payload exchange db n] p
    by (simp add: change_def cid_def rp1_def)
  have c: "cache_wf (rp_cache rp1)" "length cid < 96" "distinct (map p_id (rp_peers rp1))"
    using assms(6) distinct_rp_peers [OF assms(7)] by (simp_all add: rp1_def cid_def)
  note s = write_tagged_spec [OF w assms(5) c, folded rp2_def, folded holders_def]
  have keep: "rp_self_id rp1 = rp_self_id rp" "rp_peers rp1 = rp_peers rp" by (simp_all add: rp1_def)
  have q: "p_id x = rp_self_id rp \<or> p_id x = [] \<or> p_id x \<in> set (snd (took payload)) \<or>
      last (cache_queue (rp_cache rp') (p_id x)) = (cid, payload)" if "x \<in> set (rp_peers rp)" for x
    using s(4) [of x] that unfolding keep took_def by blast
  from s(1) have m: "n' = fst (took payload) \<and>
      length holders < 2 * card {h \<in> set holders. h = rp_self_id rp \<or> h \<in> set (snd (took payload))}"
      "apply_change_local e rp2 change = (fst (apply_change_local e rp2 change), True)"
      "rp_cfg rp' = rp_cfg (fst (apply_change_local e rp2 change))"
    unfolding keep took_def by simp_all
  have "snd (apply_change_local e rp2 change)" by (subst m(2)) simp
  with p m(1,3) q show ?thesis by blast
qed

text \<open>
  C40. A write refused for want of a quorum takes effect all the same: the local engine is as before,
  but the change stays queued for every peer that is offline, to be applied there later. The
  documentation says that nothing is accepted and queued.
\<close>

theorem quorum_lost_still_queued:
  fixes e :: sqlite_env and exchange :: "'n exchange" and rp :: edb_repl
  assumes "edb_repl_write e exchange db json n rp = (n', rp', EDB_REPL_QUORUM_LOST)"
    and "cJSON_ParseWithLength e json = Some (JObject kvs)"
    and "json_str (map_of kvs ''partition'') = Some part" "json_str (map_of kvs ''keyspace'') = Some keyspace"
    and "cache_works e" "cache_wf (rp_cache rp)" "distinct (map p_id (cl_peers (rp_cluster rp)))"
    and "cfg_ok e (rp_cfg rp)"
    and "p \<in> set (rp_peers rp)" "p_id p \<noteq> rp_self_id rp" "p_id p \<noteq> []" "\<not> p_online p"
  shows "shard_view (cfg_engine (rp_cfg rp')) = shard_view (cfg_engine (rp_cfg rp)) \<and>
    (\<exists>cid payload. last (cache_queue (rp_cache rp') (p_id p)) = (cid, payload) \<and>
      cJSON_PrintUnformatted e (JObject (tag_change (rp_self_id rp) cid kvs)) = Some payload)"
proof -
  let ?rp1 = "rp\<lparr>rp_change_seq := rp_change_seq rp + 1\<rparr>"
  let ?cid = "change_cid (rp_self_id rp) (now_epoch e) (rp_change_seq rp + 1)"
  let ?change = "JObject (tag_change (rp_self_id rp) ?cid kvs)"
  obtain payload where pr: "cJSON_PrintUnformatted e ?change = Some payload"
    using repl_write_printed [OF assms(2-4), of exchange db n rp] assms(1) by auto
  have w: "write_tagged e exchange db part keyspace ?cid ?change payload n ?rp1 = (n', rp', EDB_REPL_QUORUM_LOST)"
    using assms(1) repl_write_tagged [OF assms(2-4), of rp payload exchange db n] pr by simp
  have c: "cache_wf (rp_cache ?rp1)" "length ?cid < 96" "distinct (map p_id (rp_peers ?rp1))"
    using assms(6) distinct_rp_peers [OF assms(7)] by simp_all
  note s = write_tagged_spec [OF w assms(5) c]
  have "last (cache_queue (rp_cache rp') (p_id p)) = (?cid, payload)"
    using s(4) [of p] assms(9-12) by simp
  moreover have "rp_cfg rp' = fst (edb_database_get e (rp_cfg rp) db)"
    using s(2) by (simp add: replication_factor_def split_beta upd_rp_cfg_def rp_cfg_def)
  then have "shard_view (cfg_engine (rp_cfg rp')) = shard_view (cfg_engine (rp_cfg rp))"
    using fetch_spec(5) [OF assms(8)] by (simp add: edb_database_get_def split_beta)
  ultimately show ?thesis using pr by blast
qed

end
