(* ===== verification/Repl_Converge.thy ===== *)
theory Repl_Converge
  imports Repl_Props
begin

text \<open>
  Nodes converge: a change document applied to the engine of a node, by the node that writes it
  (\<open>apply_change_local\<close>), acts on the documents of all its shards as a last-write-wins operation.
  This is a second interpretation of \<open>lww_register\<close>, for whole nodes.
\<close>

section \<open>Changes as operations on a node\<close>

text \<open>The shard key and the operation a change document stands for, if it is well-formed.\<close>

definition change_op :: "sqlite_env \<Rightarrow> cJSON \<Rightarrow> (string \<times> replica_op) option" where
  "change_op e change =
     (let member = json_get (Some change);
          origin = (case json_str (member ''origin'') of None \<Rightarrow> [] | Some o' \<Rightarrow> o')
      in case (json_str (member ''op''), json_str (member ''partition''), json_str (member ''keyspace''),
               json_str (member ''id''), json_num (member ''ts'')) of
           (Some operation, Some part, Some keyspace, Some doc, Some modified) \<Rightarrow>
             if operation = ''put''
             then (case member ''value'' of
                     Some (JObject kvs) \<Rightarrow>
                       map_option (\<lambda>encoded. (shard_key part keyspace,
                         RPut doc encoded (case json_num (member ''ttl_abs'') of None \<Rightarrow> - 1 | Some t \<Rightarrow> t) modified (Some origin)))
                         (cJSON_PrintUnformatted e (JObject kvs))
                   | _ \<Rightarrow> None)
             else if operation = ''delete'' then Some (shard_key part keyspace, RDel doc modified (Some origin))
             else None
         | _ \<Rightarrow> None)"

text \<open>All documents of a node, by shard key and id.\<close>

definition node_docs :: "edb_engine \<Rightarrow> (string \<times> string) \<rightharpoonup> row" where
  "node_docs en kd = find_row (snd kd) (shard_view en (fst kd))"

definition node_apply :: "string \<times> replica_op \<Rightarrow> ((string \<times> string) \<rightharpoonup> row) \<Rightarrow> ((string \<times> string) \<rightharpoonup> row)" where
  "node_apply ka m =
     (if stored_wins (Option.bind (m (fst ka, rop_key (snd ka))) row_ver) (rop_time (snd ka)) (rop_origin (snd ka)) then m
      else m((fst ka, rop_key (snd ka)) \<mapsto> rop_val (snd ka)))"

interpretation node: lww_register "\<lambda>ka. rop_valid (snd ka)" "\<lambda>ka. (fst ka, rop_key (snd ka))"
  "\<lambda>ka. rop_ver (snd ka)" "\<lambda>ka. rop_val (snd ka)" row_ver node_apply
proof
  fix a :: "string \<times> replica_op"
  show "rop_valid (snd a) \<Longrightarrow> row_ver (rop_val (snd a)) = Some (rop_ver (snd a))" by (rule row_ver_rop_val)
next
  fix m :: "(string \<times> string) \<rightharpoonup> row" and a r v
  assume "m (fst a, rop_key (snd a)) = Some r" "row_ver r = Some v" "rop_ver (snd a) < v"
  then show "node_apply a m = m" by (simp add: node_apply_def stored_wins_less)
next
  fix m :: "(string \<times> string) \<rightharpoonup> row" and a
  assume *: "\<And>r v. m (fst a, rop_key (snd a)) = Some r \<Longrightarrow> row_ver r = Some v \<Longrightarrow> v \<le> rop_ver (snd a)"
  have "\<not> stored_wins (Option.bind (m (fst a, rop_key (snd a))) row_ver) (rop_time (snd a)) (rop_origin (snd a))"
    using * by (cases "Option.bind (m (fst a, rop_key (snd a))) row_ver")
      (auto simp: stored_wins_less not_less split: bind_splits)
  then show "node_apply a m = m((fst a, rop_key (snd a)) \<mapsto> rop_val (snd a))" by (simp add: node_apply_def)
qed

section \<open>The engine implements the contract\<close>

lemma stored_version_key [simp]: "sh_key (fst (stored_version_locked e sh d)) = sh_key sh"
  by (auto simp: stored_version_locked_def Let_def split_beta split: option.splits)

lemma do_put_key [simp]: "sh_key (fst (do_put_locked e sh d v ttl ts origin)) = sh_key sh"
  by (simp add: do_put_locked_def Let_def split_beta)

lemma replica_key [simp]: "sh_key (fst (apply_replica e a sh)) = sh_key sh"
  by (cases a) (simp_all add: edb_shard_replica_put_def edb_shard_replica_delete_def split_beta Let_def)

lemma engine_replica:
  fixes a :: replica_op
  assumes "engine_ok en" "env_ok e"
  defines "r \<equiv> \<lambda>p k. with_shard e en p k False (apply_replica e a)"
  shows "node_docs (fst (r p k)) = node_apply (shard_key p k, a) (node_docs en) \<and> snd (r p k) \<and> engine_ok (fst (r p k)) \<and>
    en_path (fst (r p k)) = en_path en"
proof -
  have w: "sqlite_works e" using assms(2) by (simp add: env_ok_def)
  obtain sh where sh: "sh_rows sh = shard_view en (shard_key p k)" "snd (r p k) = snd (apply_replica e a sh)"
    "shard_view (fst (r p k)) = (shard_view en)(shard_key p k := sh_rows (fst (apply_replica e a sh)))"
    "engine_ok (fst (r p k))" "en_path (fst (r p k)) = en_path en"
    using with_shard_spec [OF assms(1,2), of "apply_replica e a" p k False] by (auto simp: r_def)
  have m: "find_row d (sh_rows (fst (apply_replica e a sh))) = lww_apply a (shard_map sh) d" for d
    using apply_replica_refines [OF w, of a sh] by (simp add: shard_map_def fun_eq_iff)
  have "node_docs (fst (r p k)) kd = node_apply (shard_key p k, a) (node_docs en) kd" for kd
    using m sh(1,3) by (cases kd) (auto simp: node_docs_def node_apply_def lww_apply_def shard_map_def)
  then show ?thesis using sh apply_replica_refines [OF w, of a sh] by (simp add: fun_eq_iff)
qed

lemma replica_origin_ops:
  "edb_replica_put_origin e en p k d v ttl ts origin = with_shard e en p k False (apply_replica e (RPut d v ttl ts origin))"
  "edb_replica_delete_origin e en p k d ts origin = with_shard e en p k False (apply_replica e (RDel d ts origin))"
  by (simp_all add: edb_replica_put_origin_def edb_replica_delete_origin_def apply_replica.simps [abs_def])

lemma rp_cfg_upd [simp]: "rp_cfg (upd_rp_engine en rp) = (rp_cfg rp)\<lparr>cfg_engine := en\<rparr>"
  by (simp add: upd_rp_engine_def upd_rp_cfg_def rp_cfg_def)

lemma apply_local_spec:
  assumes "cfg_ok e (rp_cfg rp)"
  shows "case change_op e change of
      None \<Rightarrow> apply_change_local e rp change = (rp, False)
    | Some ka \<Rightarrow> snd (apply_change_local e rp change) \<and> cfg_ok e (rp_cfg (fst (apply_change_local e rp change))) \<and>
        node_docs (cfg_engine (rp_cfg (fst (apply_change_local e rp change)))) = node_apply ka (node_docs (cfg_engine (rp_cfg rp)))"
proof -
  have en: "engine_ok (cfg_engine (rp_cfg rp))" "env_ok e" using cfg_okD [OF assms] by auto
  note r = engine_replica [OF en]
  show ?thesis
    using r cfg_okD [OF assms] assms
    by (auto simp: change_op_def apply_change_local_def Let_def split_beta replica_origin_ops cfg_ok_def
        split: option.split cJSON.split)
qed

section \<open>Convergence\<close>

definition apply_changes :: "(sqlite_env \<times> cJSON) list \<Rightarrow> edb_repl \<Rightarrow> edb_repl" where
  "apply_changes xs rp = fold (\<lambda>(e, change) rp. fst (apply_change_local e rp change)) xs rp"

definition change_ops :: "(sqlite_env \<times> cJSON) list \<Rightarrow> (string \<times> replica_op) list" where
  "change_ops xs = List.map_filter (\<lambda>(e, change). change_op e change) xs"

definition env_sane :: "sqlite_env \<Rightarrow> bool" where
  "env_sane e \<longleftrightarrow> env_ok e \<and> json_faithful e \<and> 0 \<le> now_epoch e"

lemma apply_changes_docs:
  assumes "engine_ok (cfg_engine (rp_cfg rp))" "\<forall>x \<in> set xs. env_sane (fst x)"
  shows "node_docs (cfg_engine (rp_cfg (apply_changes xs rp))) = fold node_apply (change_ops xs) (node_docs (cfg_engine (rp_cfg rp)))"
  using assms
proof (induction xs arbitrary: rp)
  case (Cons x xs)
  obtain e change where x: "x = (e, change)" by (cases x)
  let ?rp = "fst (apply_change_local e rp change)"
  have ok: "cfg_ok e (rp_cfg rp)" using Cons.prems x by (simp add: cfg_ok_def env_sane_def)
  have step: "apply_changes (x # xs) rp = apply_changes xs ?rp" by (simp add: apply_changes_def x)
  show ?case
  proof (cases "change_op e change")
    case None
    then have "?rp = rp" using apply_local_spec [OF ok, of change] by simp
    then show ?thesis using Cons None x step by (simp add: change_ops_def List.map_filter_simps)
  next
    case (Some ka)
    note s = apply_local_spec [OF ok, of change, unfolded Some option.case]
    have "engine_ok (cfg_engine (rp_cfg ?rp))" using s by (simp add: cfg_ok_def)
    then show ?thesis
      using Cons.IH [of ?rp] Cons.prems(2) s Some x step by (simp add: change_ops_def List.map_filter_simps)
  qed
qed (simp add: apply_changes_def change_ops_def List.map_filter_simps)

text \<open>
  C5. Nodes converge: two nodes that store the same documents and then apply the same change
  documents, each in its own order and at its own times, store the same documents in every shard,
  tombstones included, provided no two different changes of a document have the same timestamp (in
  seconds) and origin; without this the order of arrival decides. Malformed changes are refused and
  do nothing.
\<close>

theorem nodes_converge:
  assumes "engine_ok (cfg_engine (rp_cfg rp1))" "engine_ok (cfg_engine (rp_cfg rp2))"
    and "node_docs (cfg_engine (rp_cfg rp1)) = node_docs (cfg_engine (rp_cfg rp2))"
    and "\<forall>x \<in> set xs \<union> set ys. env_sane (fst x)"
    and "mset (change_ops xs) = mset (change_ops ys)"
    and "\<forall>ka \<in> set (change_ops xs). rop_valid (snd ka)"
    and "\<forall>a \<in> set (change_ops xs). \<forall>b \<in> set (change_ops xs). fst a = fst b \<and> rop_key (snd a) = rop_key (snd b) \<and>
      rop_ver (snd a) = rop_ver (snd b) \<longrightarrow> a = b"
  shows "node_docs (cfg_engine (rp_cfg (apply_changes xs rp1))) = node_docs (cfg_engine (rp_cfg (apply_changes ys rp2)))"
proof -
  have "fold node_apply (change_ops xs) (node_docs (cfg_engine (rp_cfg rp1))) =
      fold node_apply (change_ops ys) (node_docs (cfg_engine (rp_cfg rp1)))"
    by (rule node.converges [OF _ _ assms(5)]) (use assms(6,7) in auto)
  then show ?thesis
    using apply_changes_docs [OF assms(1), of xs] apply_changes_docs [OF assms(2), of ys] assms(3,4) by simp
qed

definition demo_change :: "string \<Rightarrow> int \<Rightarrow> string \<Rightarrow> (string \<times> cJSON) list" where
  "demo_change op ts origin = [(''op'', JString op), (''db'', JString ''d''), (''partition'', JString ''p''),
     (''keyspace'', JString ''k''), (''id'', JString ''a''), (''ts'', json_int ts), (''origin'', JString origin),
     (''value'', JObject [])]"

definition demo_repl :: edb_repl where
  "demo_repl = \<lparr>rp_cluster = demo_saved\<lparr>cl_peers := [(demo_member ''n1'' 7001)\<lparr>p_online := False\<rparr>, demo_member ''n2'' 7002]\<rparr>,
     rp_cache = \<lparr>cc_db = True, cc_rows = []\<rparr>, rp_apply = None, rp_read = None, rp_self_id = ''n2'', rp_data_dir = ''d'',
     rp_change_seq = 0, rp_syncing = False, rp_replaying = []\<rparr>"

lemma demo_repl_simps [simp]:
  "rp_cfg demo_repl = demo_config" "rp_self_id demo_repl = ''n2''" "rp_change_seq demo_repl = 0"
  "rp_cache demo_repl = \<lparr>cc_db = True, cc_rows = []\<rparr>"
  "rp_peers demo_repl = [(demo_member ''n1'' 7001)\<lparr>p_online := False\<rparr>, demo_member ''n2'' 7002]"
  by (simp_all add: demo_repl_def rp_cfg_def demo_saved_def demo_cluster_def rp_peers_def edb_cluster_peers_def
      MAX_PEERS_SNAPSHOT_def)

lemma env_sane_json_env [simp]: "0 \<le> t \<Longrightarrow> env_sane (json_env t)"
  by (simp add: env_sane_def)

theorem nodes_converge_witness:
  "node_docs (cfg_engine (rp_cfg (apply_changes [(json_env 9, JObject (demo_change ''put'' 5 ''n1'')),
       (json_env 9, JObject (demo_change ''delete'' 6 ''n2''))] demo_repl))) =
   node_docs (cfg_engine (rp_cfg (apply_changes [(json_env 8, JObject (demo_change ''delete'' 6 ''n2'')),
       (json_env 8, JObject (demo_change ''put'' 5 ''n1''))] demo_repl)))"
proof -
  have p: "cJSON_PrintUnformatted (json_env t) j = Some (replicate (Suc (to_nat j)) (CHR ''x''))" for t j
    by (simp add: json_env_def)
  have put: "change_op (json_env t) (JObject (demo_change ''put'' 5 ''n1'')) =
      Some (shard_key ''p'' ''k'', RPut ''a'' (replicate (Suc (to_nat (JObject []))) (CHR ''x'')) (- 1) 5 (Some ''n1''))" for t
    by (simp add: change_op_def demo_change_def p)
  have del: "change_op (json_env t) (JObject (demo_change ''delete'' 6 ''n2'')) =
      Some (shard_key ''p'' ''k'', RDel ''a'' 6 (Some ''n2''))" for t
    by (simp add: change_op_def demo_change_def)
  have en: "engine_ok (cfg_engine (rp_cfg demo_repl))"
    using demo_config_ok(1) [of 9] by (simp add: cfg_ok_def)
  show ?thesis
    by (rule nodes_converge [OF en en refl])
      (auto simp: change_ops_def List.map_filter_simps put del rop_valid_def rop_ver_def or_empty_def)
qed

section \<open>Witnesses for the write path\<close>

definition no_net :: "unit exchange" where
  "no_net n addr port frames = (n, None)"

definition demo_text :: "cJSON \<Rightarrow> string" where
  "demo_text j = replicate (Suc (to_nat j)) (CHR ''x'')"

lemma demo_text_json [simp]:
  "cJSON_PrintUnformatted (json_env t) j = Some (demo_text j)" "cJSON_ParseWithLength (json_env t) (demo_text j) = Some j"
  by (simp_all add: json_env_def demo_text_def demo_parse_def)

lemma json_env_cache [simp]: "cache_works (json_env t)"
  by (simp add: cache_works_def json_env_def env_at_def)

lemma rotate_two: "rotate s [a, b] = [a, b] \<or> rotate s [a, b] = [b, a]"
  by (induction s) (auto simp: rotate1_def)

text \<open>A node whose members are \<open>n1\<close> and \<open>n2\<close>, after reading the factor of a database that is not registered.\<close>

lemma demo_factor:
  assumes "rp_cfg rp = demo_config"
  defines "r \<equiv> replication_factor (json_env 9) rp ''d''"
  shows "snd r = 1" "only_cfg (rp_cluster rp) (rp_cluster (fst r))" "cfg_ok (json_env 9) (rp_cfg (fst r))"
    "en_path (cfg_engine (rp_cfg (fst r))) = ''d''"
proof -
  let ?f = "fetch (json_env 9) demo_config CFG_KEYSPACE_DATABASES ''d''"
  have ok: "cfg_ok (json_env 9) demo_config" and path: "en_path (cfg_engine demo_config) = ''d''"
    by (simp_all, simp add: demo_config_def empty_engine_def)
  note f = fetch_spec [OF ok, of CFG_KEYSPACE_DATABASES "''d''"]
  have "edb_database_get (json_env 9) demo_config ''d'' = (fst ?f, None)"
    using f(1) by (simp add: edb_database_get_def split_beta)
  then have "r = (upd_rp_cfg (fst ?f) rp, 1)"
    unfolding r_def replication_factor_def assms(1) by simp
  then show "snd r = 1" "only_cfg (rp_cluster rp) (rp_cluster (fst r))" "cfg_ok (json_env 9) (rp_cfg (fst r))"
    "en_path (cfg_engine (rp_cfg (fst r))) = ''d''"
    using f(2,6) path by (simp_all add: upd_rp_cfg_def rp_cfg_def)
qed

lemma demo_holder_ids:
  assumes "only_cfg cl (rp_cluster rp)" "member_ids cl = ms" "ms = [''n1'', ''n2''] \<or> ms = [''n1'']"
    and "length (cl_peers cl) \<le> 64" "en_path (cfg_engine (rp_cfg rp)) = ''d''"
    and "candidate_online (rp_self_id rp) (rp_peers rp) ''n1'' = False"
    and "candidate_online (rp_self_id rp) (rp_peers rp) ''n2'' = True"
  shows "holder_ids rp ''p'' ''k'' 1 = (if ms = [''n1''] then [''n1''] else [''n2''])"
proof -
  let ?key = "shard_key ''p'' ''k''"
  have path: "edb_shard_path (cfg_engine (rp_cfg rp)) ''p'' ''k'' 1024 = Some (shard_file ''d'' ?key, ?key)"
    using assms(5) by (simp add: edb_shard_path_def Let_def shard_file_def)
  have s: "sort ms = ms" using assms(3) by auto
  have "edb_cluster_holders (rp_cluster rp) ?key MAX_PEERS_SNAPSHOT =
      rotate (holder_start cl ?key ms) ms"
    using holders_only_cfg [OF assms(1), of ?key MAX_PEERS] holders_rotate [of cl ?key] assms(2-4) s
    by (auto simp: MAX_PEERS_def MAX_PEERS_SNAPSHOT_def EDB_NODE_ID_MAX_def)
  then have "edb_cluster_holders (rp_cluster rp) ?key MAX_PEERS_SNAPSHOT \<in>
      (if ms = [''n1''] then {[''n1'']} else {[''n1'', ''n2''], [''n2'', ''n1'']})"
    using assms(3) rotate_two [of "holder_start cl ?key ms" "''n1''" "''n2''"] by auto
  then show ?thesis
    using path assms(3,6,7) by (auto simp: holder_ids_def Let_def snprintf_s_def EDB_NODE_ID_MAX_def split: if_splits)
qed

definition demo_json :: string where
  "demo_json = demo_text (JObject (demo_change ''put'' 5 ''n2''))"

lemma demo_write_ok: "\<exists>rp'. edb_repl_write (json_env 9) no_net ''d'' demo_json () demo_repl = ((), rp', EDB_REPL_OK)"
proof -
  let ?rp1 = "demo_repl\<lparr>rp_change_seq := 1\<rparr>" and ?cid = "change_cid ''n2'' 9 1"
  let ?change = "JObject (tag_change ''n2'' ?cid (demo_change ''put'' 5 ''n2''))"
  have cfg: "rp_cfg ?rp1 = demo_config" by simp
  note f = demo_factor [OF cfg]
  let ?rp2 = "fst (replication_factor (json_env 9) ?rp1 ''d'')"
  have m: "member_ids (rp_cluster ?rp1) = [''n1'', ''n2'']"
    by (simp add: demo_repl_def member_ids_def demo_member_def)
  have len: "length (cl_peers (rp_cluster ?rp1)) \<le> 64" by (simp add: demo_repl_def)
  have on: "candidate_online (rp_self_id ?rp2) (rp_peers ?rp2) ''n1'' = False"
    "candidate_online (rp_self_id ?rp2) (rp_peers ?rp2) ''n2'' = True"
    by (simp_all add: candidate_online_def demo_member_def)
  have "holder_ids ?rp2 ''p'' ''k'' 1 = [''n2'']"
    using demo_holder_ids [OF f(2) m _ len f(4) on] by simp
  then have h: "write_holders ?rp2 ''p'' ''k'' 1 = [''n2'']" by (simp add: write_holders_def)
  have "change_op (json_env 9) ?change \<noteq> None"
    by (simp add: change_op_def tag_change_def demo_change_def Let_def)
  then have "snd (apply_change_local (json_env 9) ?rp2 ?change)"
    using apply_local_spec [OF f(3), of ?change] by auto
  moreover have "edb_repl_write (json_env 9) no_net ''d'' demo_json () demo_repl =
      write_tagged (json_env 9) no_net ''d'' ''p'' ''k'' ?cid ?change (demo_text ?change) () ?rp1"
    by (subst repl_write_tagged [of _ _ "demo_change ''put'' 5 ''n2''" "''p''" "''k''"])
      (simp_all add: demo_json_def demo_change_def)
  ultimately show ?thesis
    using f(1) h by (simp add: write_tagged_def split_beta Let_def demo_member_def id_in_holders_def quorum_def)
qed

lemma demo_repl_ok:
  "cache_wf (rp_cache demo_repl)" "distinct (map p_id (cl_peers (rp_cluster demo_repl)))"
  by (simp_all add: cache_wf_def) (simp add: demo_repl_def demo_member_def)

theorem write_ok_replicated_witness:
  "\<exists>rp' payload cid. edb_repl_write (json_env 9) no_net ''d'' demo_json () demo_repl = ((), rp', EDB_REPL_OK) \<and>
     last (cache_queue (rp_cache rp') ''n1'') = (cid, payload)"
proof -
  obtain rp' where w: "edb_repl_write (json_env 9) no_net ''d'' demo_json () demo_repl = ((), rp', EDB_REPL_OK)"
    using demo_write_ok by blast
  have j: "cJSON_ParseWithLength (json_env 9) demo_json = Some (JObject (demo_change ''put'' 5 ''n2''))"
    "json_str (map_of (demo_change ''put'' 5 ''n2'') ''partition'') = Some ''p''"
    "json_str (map_of (demo_change ''put'' 5 ''n2'') ''keyspace'') = Some ''k''"
    by (simp_all add: demo_json_def demo_change_def)
  have "\<not> snd (send_change (json_env 9) no_net p m payload)" for p m payload
    by (simp add: send_change_def rpc_once_def no_net_def ack_ok_def)
  then have "snd (acked_by (json_env 9) no_net self payload () ps) = []" for self payload ps
    by (induction ps) (simp_all add: split_beta)
  then have "\<exists>payload. last (cache_queue (rp_cache rp') ''n1'') = (change_cid ''n2'' 9 1, payload)"
    using write_ok_replicated [OF w j json_env_cache demo_repl_ok] by (auto simp: demo_member_def)
  with w show ?thesis by blast
qed

definition demo_lost :: edb_repl where
  "demo_lost = demo_repl\<lparr>rp_cluster := demo_saved\<lparr>cl_peers :=
     [(demo_member ''n1'' 7001)\<lparr>p_online := False\<rparr>, (demo_member ''n2'' 7002)\<lparr>p_removed := True\<rparr>]\<rparr>\<rparr>"

lemma demo_lost_simps [simp]:
  "rp_cfg demo_lost = demo_config" "rp_self_id demo_lost = ''n2''" "rp_change_seq demo_lost = 0"
  "rp_cache demo_lost = \<lparr>cc_db = True, cc_rows = []\<rparr>"
  "rp_peers demo_lost = [(demo_member ''n1'' 7001)\<lparr>p_online := False\<rparr>, (demo_member ''n2'' 7002)\<lparr>p_removed := True\<rparr>]"
  by (simp_all add: demo_lost_def demo_repl_def rp_cfg_def demo_saved_def demo_cluster_def rp_peers_def
      edb_cluster_peers_def MAX_PEERS_SNAPSHOT_def)

lemma demo_write_lost: "\<exists>rp'. edb_repl_write (json_env 9) no_net ''d'' demo_json () demo_lost = ((), rp', EDB_REPL_QUORUM_LOST)"
proof -
  let ?rp1 = "demo_lost\<lparr>rp_change_seq := 1\<rparr>" and ?cid = "change_cid ''n2'' 9 1"
  let ?change = "JObject (tag_change ''n2'' ?cid (demo_change ''put'' 5 ''n2''))"
  have cfg: "rp_cfg ?rp1 = demo_config" by simp
  note f = demo_factor [OF cfg]
  let ?rp2 = "fst (replication_factor (json_env 9) ?rp1 ''d'')"
  have m: "member_ids (rp_cluster ?rp1) = [''n1'']"
    by (simp add: demo_lost_def member_ids_def demo_member_def)
  have len: "length (cl_peers (rp_cluster ?rp1)) \<le> 64" by (simp add: demo_lost_def)
  have on: "candidate_online (rp_self_id ?rp2) (rp_peers ?rp2) ''n1'' = False"
    "candidate_online (rp_self_id ?rp2) (rp_peers ?rp2) ''n2'' = True"
    by (simp_all add: candidate_online_def demo_member_def)
  have "holder_ids ?rp2 ''p'' ''k'' 1 = [''n1'']"
    using demo_holder_ids [OF f(2) m _ len f(4) on] by simp
  then have h: "write_holders ?rp2 ''p'' ''k'' 1 = [''n1'']" by (simp add: write_holders_def)
  have "edb_repl_write (json_env 9) no_net ''d'' demo_json () demo_lost =
      write_tagged (json_env 9) no_net ''d'' ''p'' ''k'' ?cid ?change (demo_text ?change) () ?rp1"
    by (subst repl_write_tagged [of _ _ "demo_change ''put'' 5 ''n2''" "''p''" "''k''"])
      (simp_all add: demo_json_def demo_change_def)
  then show ?thesis
    using f(1) h by (simp add: write_tagged_def split_beta Let_def demo_member_def id_in_holders_def quorum_def)
qed

theorem quorum_lost_still_queued_witness:
  "\<exists>rp' payload cid. edb_repl_write (json_env 9) no_net ''d'' demo_json () demo_lost = ((), rp', EDB_REPL_QUORUM_LOST) \<and>
     last (cache_queue (rp_cache rp') ''n1'') = (cid, payload)"
proof -
  obtain rp' where w: "edb_repl_write (json_env 9) no_net ''d'' demo_json () demo_lost = ((), rp', EDB_REPL_QUORUM_LOST)"
    using demo_write_lost by blast
  have j: "cJSON_ParseWithLength (json_env 9) demo_json = Some (JObject (demo_change ''put'' 5 ''n2''))"
    "json_str (map_of (demo_change ''put'' 5 ''n2'') ''partition'') = Some ''p''"
    "json_str (map_of (demo_change ''put'' 5 ''n2'') ''keyspace'') = Some ''k''"
    by (simp_all add: demo_json_def demo_change_def)
  have ok: "cache_wf (rp_cache demo_lost)" "distinct (map p_id (cl_peers (rp_cluster demo_lost)))"
    "cfg_ok (json_env 9) (rp_cfg demo_lost)"
    by (simp_all add: cache_wf_def) (simp add: demo_lost_def demo_member_def)
  show ?thesis
    using quorum_lost_still_queued [OF w j json_env_cache ok, of "(demo_member ''n1'' 7001)\<lparr>p_online := False\<rparr>"] w
    by (auto simp: demo_member_def)
qed

definition ack_net :: "unit exchange" where
  "ack_net n addr port frames = (n, Some [(ESTP_HELLO, []), (ESTP_ACK, demo_text (JObject []))])"

theorem drain_in_order_witness:
  "snd (snd (edb_repl_drain_peer (json_env 9) ack_net ''n1'' () (demo_repl\<lparr>rp_cache :=
     \<lparr>cc_db = True, cc_rows = [\<lparr>ch_target = ''n1'', ch_cid = ''c'', ch_payload = ''x'', ch_created = 3\<rparr>]\<rparr>\<rparr>))) = 0"
proof -
  let ?rp = "demo_repl\<lparr>rp_cache := \<lparr>cc_db = True, cc_rows = [\<lparr>ch_target = ''n1'', ch_cid = ''c'', ch_payload = ''x'', ch_created = 3\<rparr>]\<rparr>\<rparr>"
  have wf: "cache_wf (rp_cache ?rp)" by (simp add: cache_wf_def)
  have "snd (send_change (json_env 9) ack_net p m payload)" for p m payload
    by (simp add: send_change_def rpc_once_def ack_net_def first_match_def ack_ok_def)
  moreover have "find_peer ?rp ''n1'' = Some ((demo_member ''n1'' 7001)\<lparr>p_online := False\<rparr>)"
    by (simp add: find_peer_def first_match_def demo_repl_def rp_peers_def edb_cluster_peers_def demo_member_def
        MAX_PEERS_SNAPSHOT_def)
  moreover have "rp_replaying ?rp = []" "cache_queue (rp_cache ?rp) ''n1'' = [(''c'', ''x'')]"
    by (simp_all add: demo_repl_def cache_queue_def)
  ultimately show ?thesis
    using spec [OF conjunct2 [OF conjunct2 [OF conjunct2 [OF drain_in_order [OF json_env_cache [of 9] wf,
      where exchange = ack_net and node = "''n1''" and n = "()"]]]],
      of "(demo_member ''n1'' 7001)\<lparr>p_online := False\<rparr>"] by simp
qed

end
