(* ===== verification/Repl_Votes.thy ===== *)
theory Repl_Votes
  imports Repl_Rows Repl_Converge
begin

text \<open>
  Reads of a single document: the votes are counted right, and with the quorum of the holders the
  value a majority holds is the value that is returned.
\<close>

section \<open>Counting votes\<close>

text \<open>The copies a read has collected, the local one last.\<close>

definition get_copies :: "(cJSON \<times> int) option \<Rightarrow> cJSON list \<Rightarrow> (cJSON \<times> int) list" where
  "get_copies local' replies =
     List.map_filter reply_value replies @ (case local' of None \<Rightarrow> [] | Some c \<Rightarrow> [c])"

definition votes :: "sqlite_env \<Rightarrow> (cJSON \<times> int) list \<Rightarrow> string \<Rightarrow> nat" where
  "votes e cs fp = length (filter (\<lambda>c. value_fingerprint e (fst c) = fp) cs)"

definition tally :: "sqlite_env \<Rightarrow> vote_group list \<Rightarrow> cJSON \<times> int \<Rightarrow> vote_group list" where
  "tally e gs c =
     (if value_fingerprint e (fst c) = [] then gs else add_vote (value_fingerprint e (fst c)) (fst c) (snd c) gs)"

lemma votes_simps [simp]:
  "votes e [] fp = 0"
  "votes e (cs @ [c]) fp = votes e cs fp + (if value_fingerprint e (fst c) = fp then 1 else 0)"
  by (simp_all add: votes_def)

lemma votes_append: "votes e (cs @ ds) fp = votes e cs fp + votes e ds fp"
  by (simp add: votes_def)

lemma votes_le: "votes e cs fp \<le> length cs"
  by (simp add: votes_def)

lemma count_replies:
  "foldl (count_reply e) (gs, a) replies =
     (foldl (tally e) gs (List.map_filter reply_value replies),
      a + (length replies - length (List.map_filter reply_value replies)))"
proof (induction replies arbitrary: gs a)
  case (Cons r rs)
  have "length (List.map_filter reply_value rs) \<le> length rs"
    by (simp add: List.map_filter_def)
  with Cons show ?case
    by (cases "reply_value r") (auto simp: count_reply_def tally_def List.map_filter_simps)
qed (simp add: List.map_filter_simps)

lemma count_local_tally:
  "count_local e local' gs = foldl (tally e) gs (case local' of None \<Rightarrow> [] | Some c \<Rightarrow> [c])"
  by (auto simp: count_local_def tally_def split: option.splits)

section \<open>The groups\<close>

definition groups_ok :: "sqlite_env \<Rightarrow> (cJSON \<times> int) list \<Rightarrow> vote_group list \<Rightarrow> bool" where
  "groups_ok e cs gs \<longleftrightarrow>
     distinct (map g_fp gs) \<and> length gs \<le> length cs \<and>
     g_fp ` set gs = {fp. fp \<noteq> [] \<and> (\<exists>c \<in> set cs. value_fingerprint e (fst c) = fp)} \<and>
     (\<forall>g \<in> set gs. g_votes g = votes e cs (g_fp g) \<and> value_fingerprint e (g_sample g) = g_fp g \<and>
        g_sample g \<in> fst ` set cs)"

lemma update_first_distinct:
  assumes "distinct (map f xs)" "\<And>x. f (g x) = f x"
  shows "set (update_first (\<lambda>x. f x = k) g xs) = {x \<in> set xs. f x \<noteq> k} \<union> g ` {x \<in> set xs. f x = k}"
  using assms(1) by (induction xs) (auto simp: image_iff)

definition vote_for :: "int \<Rightarrow> vote_group \<Rightarrow> vote_group" where
  "vote_for ts g = g\<lparr>g_votes := g_votes g + 1, g_ts := (if g_ts g < ts then ts else g_ts g)\<rparr>"

lemma vote_for_simps [simp]:
  "g_fp (vote_for ts g) = g_fp g" "g_votes (vote_for ts g) = g_votes g + 1" "g_sample (vote_for ts g) = g_sample g"
  by (simp_all add: vote_for_def)

lemma add_vote_cases:
  "add_vote fp v ts gs =
     update_first (\<lambda>g. g_fp g = fp) (vote_for ts)
       (if fp \<notin> g_fp ` set gs \<and> length gs < 17 then gs @ [\<lparr>g_fp = fp, g_ts = 0, g_sample = v, g_votes = 0\<rparr>] else gs)"
proof -
  have "first_match (\<lambda>g. g_fp g = fp) gs = None \<longleftrightarrow> fp \<notin> g_fp ` set gs"
    by (auto simp: first_match_def find_None_iff)
  moreover have "vote_for ts = (\<lambda>g. g\<lparr>g_votes := g_votes g + 1, g_ts := (if g_ts g < ts then ts else g_ts g)\<rparr>)"
    by (simp add: fun_eq_iff vote_for_def)
  ultimately show ?thesis by (simp add: add_vote_def MAX_REPLIES_def Let_def)
qed

lemma groups_ok_tally:
  assumes ok: "groups_ok e cs gs" and room: "length cs < 17"
  shows "groups_ok e (cs @ [c]) (tally e gs c)"
proof (cases "value_fingerprint e (fst c) = []")
  case True
  have "votes e (cs @ [c]) (g_fp g) = votes e cs (g_fp g)" if "g \<in> set gs" for g
    using ok True that by (auto simp: groups_ok_def)
  then show ?thesis using ok True by (simp add: groups_ok_def tally_def) fastforce
next
  case False
  let ?fp = "value_fingerprint e (fst c)"
  let ?new = "\<lparr>g_fp = ?fp, g_ts = 0, g_sample = fst c, g_votes = 0\<rparr>"
  let ?gs = "if ?fp \<notin> g_fp ` set gs then gs @ [?new] else gs"
  have lg: "length gs < 17" using ok room by (simp add: groups_ok_def)
  then have t: "tally e gs c = update_first (\<lambda>g. g_fp g = ?fp) (vote_for (snd c)) ?gs"
    using False by (simp add: tally_def add_vote_cases)
  have d: "distinct (map g_fp ?gs)" using ok by (auto simp: groups_ok_def)
  have fps: "map g_fp (tally e gs c) = map g_fp ?gs"
    unfolding t by (rule map_update_first_same) simp
  have elems: "set (tally e gs c) = {g \<in> set ?gs. g_fp g \<noteq> ?fp} \<union> vote_for (snd c) ` {g \<in> set ?gs. g_fp g = ?fp}"
    unfolding t by (rule update_first_distinct [OF d]) simp
  have count: "g_votes g = votes e cs (g_fp g) \<and> value_fingerprint e (g_sample g) = g_fp g \<and>
      g_sample g \<in> insert (fst c) (fst ` set cs)" if "g \<in> set ?gs" for g
  proof (cases "g \<in> set gs")
    case False
    with that have new: "g = ?new" "?fp \<notin> g_fp ` set gs" by (auto split: if_splits)
    then have "\<forall>x \<in> set cs. value_fingerprint e (fst x) \<noteq> ?fp" using ok \<open>?fp \<noteq> []\<close> by (simp add: groups_ok_def)
    then have "votes e cs ?fp = 0" by (simp add: votes_def filter_empty_conv)
    then show ?thesis using new by simp
  qed (use ok in \<open>auto simp: groups_ok_def\<close>)
  have "g_fp ` set (tally e gs c) = insert ?fp (g_fp ` set gs)"
    using arg_cong [OF fps, of set] by (auto split: if_splits)
  then have "g_fp ` set (tally e gs c) = {fp. fp \<noteq> [] \<and> (\<exists>x \<in> set (cs @ [c]). value_fingerprint e (fst x) = fp)}"
    using ok False by (auto simp: groups_ok_def)
  moreover have "length (tally e gs c) \<le> length (cs @ [c])"
    using ok map_eq_imp_length_eq [OF fps] by (auto simp: groups_ok_def split: if_splits)
  moreover have "\<forall>g \<in> set (tally e gs c). g_votes g = votes e (cs @ [c]) (g_fp g) \<and>
      value_fingerprint e (g_sample g) = g_fp g \<and> g_sample g \<in> fst ` set (cs @ [c])"
  proof
    fix g assume "g \<in> set (tally e gs c)"
    then consider "g \<in> set ?gs" "g_fp g \<noteq> ?fp" | h where "h \<in> set ?gs" "g_fp h = ?fp" "g = vote_for (snd c) h"
      unfolding elems by blast
    then show "g_votes g = votes e (cs @ [c]) (g_fp g) \<and> value_fingerprint e (g_sample g) = g_fp g \<and>
        g_sample g \<in> fst ` set (cs @ [c])"
    proof cases
      case 1
      then show ?thesis using count [OF 1(1)] by simp
    next
      case 2
      then show ?thesis using count [OF 2(1)] by simp
    qed
  qed
  moreover have "distinct (map g_fp (tally e gs c))" unfolding fps by (rule d)
  ultimately show ?thesis unfolding groups_ok_def by blast
qed

lemma groups_ok_fold: "length cs \<le> 17 \<Longrightarrow> groups_ok e cs (foldl (tally e) [] cs)"
  by (induction cs rule: rev_induct) (simp_all add: groups_ok_tally, simp add: groups_ok_def)

lemma best_group:
  "foldl (better_group required) w gs = Some g \<Longrightarrow> w = Some g \<or> g \<in> set gs \<and> required \<le> g_votes g"
  by (induction gs arbitrary: w) (auto simp: better_group_def split: option.splits if_splits)

lemma best_group_None:
  "foldl (better_group required) w gs = None \<longleftrightarrow> w = None \<and> (\<forall>g \<in> set gs. g_votes g < required)"
  by (induction gs arbitrary: w) (auto simp: better_group_def not_le split: option.splits if_splits)

section \<open>The decision\<close>

lemma decide_get_tally:
  assumes "local' \<noteq> None \<longrightarrow> self_holder"
  shows "decide_get e required self_holder local' replies =
    (let cs = get_copies local' replies; responses = length replies + (if self_holder then 1 else 0)
     in if responses < required \<or> required \<le> responses - length cs then None
        else map_option g_sample (foldl (better_group required) None (foldl (tally e) [] cs)))"
proof -
  have "length (List.map_filter reply_value replies) \<le> length replies" by (simp add: List.map_filter_def)
  then show ?thesis
    using assms by (auto simp: decide_get_def count_replies count_local_tally get_copies_def Let_def split: option.splits)
qed

lemma length_get_copies: "length (get_copies local' replies) \<le> length replies + (if local' = None then 0 else 1)"
  by (auto simp: get_copies_def List.map_filter_def split: option.splits)

text \<open>The value returned has the required votes; a value with the required votes is found.\<close>

lemma decide_get_sound:
  assumes "local' \<noteq> None \<longrightarrow> self_holder" "length replies \<le> MAX_REPLIES"
    and some: "decide_get e required self_holder local' replies = Some v"
  shows "value_fingerprint e v \<noteq> []" "required \<le> votes e (get_copies local' replies) (value_fingerprint e v)"
    "v \<in> fst ` set (get_copies local' replies)"
proof -
  let ?cs = "get_copies local' replies"
  have "length ?cs \<le> 17"
    using length_get_copies [of local' replies] assms(2) by (simp add: MAX_REPLIES_def split: if_splits)
  then have ok: "groups_ok e ?cs (foldl (tally e) [] ?cs)" by (rule groups_ok_fold)
  obtain g where g: "foldl (better_group required) None (foldl (tally e) [] ?cs) = Some g" "v = g_sample g"
    using some unfolding decide_get_tally [OF assms(1)] by (auto simp: Let_def split: if_splits)
  have m: "g \<in> set (foldl (tally e) [] ?cs)" and q: "required \<le> g_votes g" using best_group [OF g(1)] by auto
  then have "g_fp g \<in> g_fp ` set (foldl (tally e) [] ?cs)" by simp
  then have "g_fp g \<noteq> []" using ok unfolding groups_ok_def by (metis (mono_tags, lifting) mem_Collect_eq)
  moreover have "g_votes g = votes e ?cs (g_fp g)" "value_fingerprint e (g_sample g) = g_fp g" "g_sample g \<in> fst ` set ?cs"
    using ok m unfolding groups_ok_def by blast+
  ultimately show "value_fingerprint e v \<noteq> []" "required \<le> votes e ?cs (value_fingerprint e v)" "v \<in> fst ` set ?cs"
    using g q by simp_all
qed

lemma decide_get_complete:
  assumes "local' \<noteq> None \<longrightarrow> self_holder" "length replies \<le> MAX_REPLIES"
    and majority: "length replies + (if self_holder then 1 else 0) < 2 * required"
    and fp: "fp \<noteq> []" "required \<le> votes e (get_copies local' replies) fp"
  shows "\<exists>v. decide_get e required self_holder local' replies = Some v \<and> value_fingerprint e v = fp"
proof -
  let ?cs = "get_copies local' replies"
  have lcs: "length ?cs \<le> length replies + (if self_holder then 1 else 0)"
    using length_get_copies [of local' replies] assms(1) by (auto split: if_splits)
  then have "length ?cs \<le> 17" using assms(2) by (simp add: MAX_REPLIES_def split: if_splits)
  then have ok: "groups_ok e ?cs (foldl (tally e) [] ?cs)" by (rule groups_ok_fold)
  have pos: "0 < required" using majority by simp
  have enough: "required \<le> length ?cs" using fp(2) votes_le le_trans by blast
  have "\<exists>c \<in> set ?cs. value_fingerprint e (fst c) = fp"
  proof -
    have "0 < length (filter (\<lambda>c. value_fingerprint e (fst c) = fp) ?cs)" using fp(2) pos by (simp only: votes_def)
    then show ?thesis by (auto simp: filter_empty_conv)
  qed
  then have "fp \<in> {fp. fp \<noteq> [] \<and> (\<exists>c \<in> set ?cs. value_fingerprint e (fst c) = fp)}" using fp(1) by simp
  moreover have "g_fp ` set (foldl (tally e) [] ?cs) = {fp. fp \<noteq> [] \<and> (\<exists>c \<in> set ?cs. value_fingerprint e (fst c) = fp)}"
    using ok unfolding groups_ok_def by (elim conjE)
  ultimately have "fp \<in> g_fp ` set (foldl (tally e) [] ?cs)" by (simp only:)
  then obtain g where g: "g \<in> set (foldl (tally e) [] ?cs)" "g_fp g = fp" by (elim imageE) simp
  then have "g_votes g = votes e ?cs fp" using ok unfolding groups_ok_def by blast
  then obtain w where w: "foldl (better_group required) None (foldl (tally e) [] ?cs) = Some w"
    using best_group_None [of required None "foldl (tally e) [] ?cs"] g fp(2) by (metis not_le option.exhaust)
  then have some: "decide_get e required self_holder local' replies = Some (g_sample w)"
    using enough lcs majority fp(2) unfolding decide_get_tally [OF assms(1)] by (simp add: Let_def)
  note s = decide_get_sound [OF assms(1,2) some]
  have "value_fingerprint e (g_sample w) = fp"
  proof (rule ccontr)
    assume ne: "value_fingerprint e (g_sample w) \<noteq> fp"
    have "votes e cs a + votes e cs b \<le> length cs" if "a \<noteq> b" for a b cs
      using that by (induction cs) (auto simp: votes_def)
    from this [OF ne, of ?cs] s(2) fp(2) lcs majority show False by linarith
  qed
  then show ?thesis using some by blast
qed

section \<open>Reads leave what they depend on unchanged\<close>

definition get_ts_rows :: "sqlite_env \<Rightarrow> row list \<Rightarrow> string \<Rightarrow> cJSON option \<times> int option" where
  "get_ts_rows e rows d =
     (case find_row d rows of
        None \<Rightarrow> (None, None)
      | Some r \<Rightarrow>
          if \<not> row_live (now_epoch e) r then (None, None)
          else (parse_value e r, if r_value r = None \<or> r_value r = Some [] then None else r_timestamp r))"

lemma shard_get_ts_rows:
  assumes "sqlite_works e"
  shows "snd (edb_shard_get_ts e sh d) = get_ts_rows e (sh_rows sh) d"
    "sh_rows (fst (edb_shard_get_ts e sh d)) = sh_rows sh" "sh_key (fst (edb_shard_get_ts e sh d)) = sh_key sh"
  using assms by (auto simp: edb_shard_get_ts_def get_ts_rows_def Let_def split_beta split: option.splits)

lemma engine_get_ts:
  assumes "engine_ok en" "env_ok e"
  shows "snd (edb_get_ts e en p k d) = get_ts_rows e (shard_view en (shard_key p k)) d"
    "shard_view (fst (edb_get_ts e en p k d)) = shard_view en" "engine_ok (fst (edb_get_ts e en p k d))"
    "en_path (fst (edb_get_ts e en p k d)) = en_path en"
proof -
  have works: "sqlite_works e" using assms(2) by (simp add: env_ok_def)
  obtain sh where sh: "sh_rows sh = shard_view en (shard_key p k)"
    "snd (edb_get_ts e en p k d) = snd (edb_shard_get_ts e sh d)"
    "shard_view (fst (edb_get_ts e en p k d)) = (shard_view en)(shard_key p k := sh_rows (fst (edb_shard_get_ts e sh d)))"
    "engine_ok (fst (edb_get_ts e en p k d))" "en_path (fst (edb_get_ts e en p k d)) = en_path en"
    using with_shard_spec [OF assms, of "\<lambda>sh. edb_shard_get_ts e sh d" p k "(None, None)"] shard_get_ts_rows(3) [OF works]
    unfolding edb_get_ts_def by auto
  then show "snd (edb_get_ts e en p k d) = get_ts_rows e (shard_view en (shard_key p k)) d"
    "shard_view (fst (edb_get_ts e en p k d)) = shard_view en" "engine_ok (fst (edb_get_ts e en p k d))"
    "en_path (fst (edb_get_ts e en p k d)) = en_path en"
    using shard_get_ts_rows [OF works] by (auto simp: fun_eq_iff)
qed

text \<open>Two states of the replication that differ at most in cached handles of the engine.\<close>

definition same_reads :: "sqlite_env \<Rightarrow> edb_repl \<Rightarrow> edb_repl \<Rightarrow> bool" where
  "same_reads e rp rp' \<longleftrightarrow>
     cfg_ok e (rp_cfg rp) \<and> cfg_ok e (rp_cfg rp') \<and> only_cfg (rp_cluster rp) (rp_cluster rp') \<and>
     shard_view (cfg_engine (rp_cfg rp')) = shard_view (cfg_engine (rp_cfg rp)) \<and>
     en_path (cfg_engine (rp_cfg rp')) = en_path (cfg_engine (rp_cfg rp)) \<and>
     rp_self_id rp' = rp_self_id rp \<and> rp_read rp' = rp_read rp"

lemma same_reads_trans: "same_reads e a b \<Longrightarrow> same_reads e b c \<Longrightarrow> same_reads e a c"
  by (auto simp: same_reads_def only_cfg_def)

lemma database_get_spec:
  assumes "cfg_ok e cfg"
  shows "snd (edb_database_get e cfg db) =
      (case cfg_doc e CFG_KEYSPACE_DATABASES cfg db of
         None \<Rightarrow> None | Some obj \<Rightarrow> if db_name (db_info obj) \<noteq> [] then Some (db_info obj) else None)"
    "cfg_ok e (fst (edb_database_get e cfg db))"
    "shard_view (cfg_engine (fst (edb_database_get e cfg db))) = shard_view (cfg_engine cfg)"
    "en_path (cfg_engine (fst (edb_database_get e cfg db))) = en_path (cfg_engine cfg)"
  using fetch_spec [OF assms, of CFG_KEYSPACE_DATABASES db] by (simp_all add: edb_database_get_def split_beta)

lemma rp_upd_select [simp]: "rp_cfg (upd_rp_cfg cfg rp) = cfg" "rp_self_id (upd_rp_cfg cfg rp) = rp_self_id rp"
  "rp_read (upd_rp_cfg cfg rp) = rp_read rp" "rp_cluster (upd_rp_cfg cfg rp) = (rp_cluster rp)\<lparr>cl_cfg := cfg\<rparr>"
  by (simp_all add: rp_cfg_def upd_rp_cfg_def)

lemma same_reads_cfg:
  assumes "cfg_ok e (rp_cfg rp)" "cfg_ok e cfg" "shard_view (cfg_engine cfg) = shard_view (cfg_engine (rp_cfg rp))"
    "en_path (cfg_engine cfg) = en_path (cfg_engine (rp_cfg rp))"
  shows "same_reads e rp (upd_rp_cfg cfg rp)"
  using assms by (simp add: same_reads_def)

lemma same_reads_database:
  assumes "same_reads e rp rp'"
  shows "snd (edb_database_get e (rp_cfg rp') db) = snd (edb_database_get e (rp_cfg rp) db)"
  using assms by (auto simp: same_reads_def database_get_spec(1) cfg_doc_def)

lemma same_reads_factor:
  assumes "same_reads e rp rp'"
  shows "snd (replication_factor e rp' db) = snd (replication_factor e rp db)"
    "same_reads e rp (fst (replication_factor e rp' db))"
proof -
  have ok: "cfg_ok e (rp_cfg rp')" using assms by (simp add: same_reads_def)
  show "snd (replication_factor e rp' db) = snd (replication_factor e rp db)"
    using same_reads_database [OF assms, of db] by (simp add: replication_factor_def split_beta)
  show "same_reads e rp (fst (replication_factor e rp' db))"
    using same_reads_trans [OF assms same_reads_cfg [OF ok database_get_spec(2-4) [OF ok, of db]]]
    by (simp add: replication_factor_def split_beta)
qed

lemma same_reads_applies:
  assumes "same_reads e rp rp'"
  shows "snd (quorum_applies e rp' db) = snd (quorum_applies e rp db)" "same_reads e rp (fst (quorum_applies e rp' db))"
proof -
  have ok: "cfg_ok e (rp_cfg rp')" using assms by (simp add: same_reads_def)
  show "snd (quorum_applies e rp' db) = snd (quorum_applies e rp db)"
    using same_reads_database [OF assms, of db] assms by (simp add: quorum_applies_def split_beta same_reads_def)
  show "same_reads e rp (fst (quorum_applies e rp' db))"
    using assms same_reads_trans [OF assms same_reads_cfg [OF ok database_get_spec(2-4) [OF ok, of db]]]
    by (simp add: quorum_applies_def split_beta)
qed

lemma same_reads_peers: "same_reads e rp rp' \<Longrightarrow> rp_peers rp' = rp_peers rp"
  by (auto simp: same_reads_def only_cfg_def rp_peers_def edb_cluster_peers_def)

lemma same_reads_holders:
  assumes "same_reads e rp rp'"
  shows "holder_ids rp' part keyspace rf = holder_ids rp part keyspace rf"
proof -
  have "only_cfg (rp_cluster rp) (rp_cluster rp')" "en_path (cfg_engine (rp_cfg rp')) = en_path (cfg_engine (rp_cfg rp))"
    "rp_self_id rp' = rp_self_id rp"
    using assms by (simp_all add: same_reads_def)
  then show ?thesis
    unfolding holder_ids_def edb_shard_path_def Let_def
    by (simp only: holders_only_cfg same_reads_peers [OF assms])
qed

section \<open>A read and its quorum\<close>

lemma query_peers_length: "length (snd (query_peers e exchange payload n ps)) \<le> length ps"
  by (induction ps arbitrary: n) (auto simp: split_beta Let_def le_SucI split: option.splits)

text \<open>The peers that are asked, and whether the local copy counts.\<close>

definition read_jobs :: "edb_repl \<Rightarrow> string list \<Rightarrow> edb_peer_info list" where
  "read_jobs rp holders = take MAX_REPLIES (filter (queryable (rp_self_id rp) holders) (rp_peers rp))"

definition reads_local :: "edb_repl \<Rightarrow> string list \<Rightarrow> bool" where
  "reads_local rp holders \<longleftrightarrow> holders = [] \<or> id_in_holders (rp_self_id rp) holders"

lemma id_in_holders_iff: "id_in_holders x holders \<longleftrightarrow> x \<in> set holders"
  by (auto simp: id_in_holders_def)

lemma read_jobs_majority:
  assumes "distinct (map p_id (cl_peers (rp_cluster rp)))"
  shows "length (read_jobs rp holders) + (if reads_local rp holders then 1 else 0) < 2 * quorum holders"
proof -
  let ?jobs = "read_jobs rp holders" and ?self = "rp_self_id rp"
  have "distinct (map p_id (filter (queryable ?self holders) (rp_peers rp)))"
    using distinct_rp_peers [OF assms] by (simp add: distinct_map_filter)
  then have d: "distinct (map p_id ?jobs)" by (simp add: read_jobs_def distinct_take flip: take_map)
  have sub: "set (map p_id ?jobs) \<subseteq> set holders - {?self}"
    by (auto simp: read_jobs_def queryable_def id_in_holders_iff dest!: in_set_takeD)
  have "length ?jobs = card (set (map p_id ?jobs))" using d by (metis distinct_card length_map)
  also have "\<dots> \<le> card (set holders - {?self})" using sub by (intro card_mono) auto
  finally have le: "length ?jobs \<le> card (set holders - {?self})" .
  have "card (set holders - {?self}) + (if ?self \<in> set holders then 1 else 0) \<le> length holders"
    using card_length [of holders] card_Suc_Diff1 [of "set holders" ?self] by (auto simp: card_Diff_singleton)
  then show ?thesis
    using le by (auto simp: quorum_def reads_local_def id_in_holders_iff split: if_splits)
qed

lemma query_all_get:
  assumes view: "same_reads e rp rp'"
    and printed: "cJSON_PrintUnformatted e (JObject (make_request q db part keyspace @ xs)) = Some payload"
  shows "snd (snd (query_all e exchange (JObject (make_request q db part keyspace @ xs)) MAX_REPLIES n rp')) =
    snd (query_peers e exchange payload n
      (read_jobs rp (holder_ids rp part keyspace (snd (replication_factor e rp db)))))"
proof -
  note f = same_reads_factor [OF view, of db]
  have self: "rp_self_id (fst (replication_factor e rp' db)) = rp_self_id rp" using f(2) by (simp add: same_reads_def)
  show ?thesis
    using printed self same_reads_peers [OF f(2)] f(1) same_reads_holders [OF f(2)]
    by (simp add: query_all_def make_request_def split_beta Let_def read_jobs_def)
qed

lemma read_quorum_view:
  fixes db part keyspace :: string
  assumes "same_reads e rp rp'"
  defines "holders \<equiv> holder_ids rp part keyspace (snd (replication_factor e rp db))"
  shows "snd (read_quorum e rp' db part keyspace) = (quorum holders, reads_local rp holders)"
    "same_reads e rp (fst (read_quorum e rp' db part keyspace))"
proof -
  note f = same_reads_factor [OF assms(1), of db]
  have self: "rp_self_id (fst (replication_factor e rp' db)) = rp_self_id rp" using f(2) by (simp add: same_reads_def)
  show "snd (read_quorum e rp' db part keyspace) = (quorum holders, reads_local rp holders)"
    using self f(1) same_reads_holders [OF f(2)]
    by (simp add: read_quorum_def split_beta Let_def holders_def quorum_def reads_local_def)
  show "same_reads e rp (fst (read_quorum e rp' db part keyspace))"
    using f(2) by (simp add: read_quorum_def split_beta Let_def)
qed

lemma same_reads_get:
  assumes "same_reads e rp rp'"
  shows "snd (edb_get_ts e (cfg_engine (rp_cfg rp')) p k d) = snd (edb_get_ts e (cfg_engine (rp_cfg rp)) p k d)"
    "same_reads e rp (upd_rp_engine (fst (edb_get_ts e (cfg_engine (rp_cfg rp')) p k d)) rp')"
proof -
  have ok: "cfg_ok e (rp_cfg rp')" "cfg_ok e (rp_cfg rp)" using assms by (simp_all add: same_reads_def)
  note g = engine_get_ts [OF cfg_okD(1,2) [OF ok(1)], of p k d] and h = engine_get_ts [OF cfg_okD(1,2) [OF ok(2)], of p k d]
  show "snd (edb_get_ts e (cfg_engine (rp_cfg rp')) p k d) = snd (edb_get_ts e (cfg_engine (rp_cfg rp)) p k d)"
    using g(1) h(1) assms by (simp add: same_reads_def)
  have "same_reads e rp' (upd_rp_engine (fst (edb_get_ts e (cfg_engine (rp_cfg rp')) p k d)) rp')"
    unfolding upd_rp_engine_def using g ok by (intro same_reads_cfg) (simp_all add: cfg_ok_def)
  then show "same_reads e rp (upd_rp_engine (fst (edb_get_ts e (cfg_engine (rp_cfg rp')) p k d)) rp')"
    by (rule same_reads_trans [OF assms])
qed

text \<open>The result of a read that needs a quorum, as a decision on the replies and the local copy.\<close>

lemma read_get_decides:
  assumes ok: "cfg_ok e (rp_cfg rp)" and applies: "snd (quorum_applies e rp db)"
    and printed: "cJSON_PrintUnformatted e (JObject (make_request ''get'' db part keyspace @ [(''id'', JString doc)])) = Some payload"
  defines "holders \<equiv> holder_ids rp part keyspace (snd (replication_factor e rp db))"
  shows "snd (snd (edb_repl_read_get e exchange db part keyspace doc n rp)) =
    decide_get e (quorum holders) (reads_local rp holders)
      (if reads_local rp holders then local_value (snd (edb_get_ts e (cfg_engine (rp_cfg rp)) part keyspace doc)) else None)
      (snd (query_peers e exchange payload n (read_jobs rp holders)))"
proof -
  have v0: "same_reads e rp rp" using ok by (simp add: same_reads_def)
  note v1 = same_reads_applies [OF v0, of db]
  let ?rp1 = "fst (quorum_applies e rp db)"
  note q = read_quorum_view [OF v1(2), of db part keyspace, folded holders_def]
  let ?rp2 = "fst (read_quorum e ?rp1 db part keyspace)"
  note g = same_reads_get [OF q(2), of part keyspace doc]
  let ?rp3 = "if reads_local rp holders
    then upd_rp_engine (fst (edb_get_ts e (cfg_engine (rp_cfg ?rp2)) part keyspace doc)) ?rp2 else ?rp2"
  have v3: "same_reads e rp ?rp3" using q(2) g(2) by simp
  note v4 = same_reads_applies [OF v3, of db]
  note r = query_all_get [OF v4(2) printed, where exchange = exchange and n = n, folded holders_def]
  have q': "fst (snd (read_quorum e ?rp1 db part keyspace)) = quorum holders"
    "snd (snd (read_quorum e ?rp1 db part keyspace)) = reads_local rp holders" using q(1) by simp_all
  show ?thesis
    using applies v4(1) r g(1) q'
    by (cases "reads_local rp holders") (simp_all add: edb_repl_read_get_def split_beta Let_def)
qed

text \<open>
  C8. A read of one document returns what a majority of the holders has: with at most one copy from
  each holder, a value that is returned was sent by at least a quorum of the holders (this node
  counts when it is one), with the same fingerprint; and a value of which a quorum of the holders
  sent copies is returned, whatever the other holders answer. What is returned is the bare value of
  the document; the header \<open>epsilon_repl.h\<close> announces an object with the members id, timestamp and
  value, which the code does not build.
\<close>

theorem read_get_majority:
  fixes exchange :: "'n exchange" and n :: 'n
  assumes "cfg_ok e (rp_cfg rp)" and "snd (quorum_applies e rp db)"
    and "distinct (map p_id (cl_peers (rp_cluster rp)))"
    and "cJSON_PrintUnformatted e (JObject (make_request ''get'' db part keyspace @ [(''id'', JString doc)])) = Some payload"
  defines "holders \<equiv> holder_ids rp part keyspace (snd (replication_factor e rp db))"
  defines "copies \<equiv> get_copies
    (if reads_local rp holders then local_value (snd (edb_get_ts e (cfg_engine (rp_cfg rp)) part keyspace doc)) else None)
    (snd (query_peers e exchange payload n (read_jobs rp holders)))"
  defines "result \<equiv> snd (snd (edb_repl_read_get e exchange db part keyspace doc n rp))"
  shows "(\<forall>v. result = Some v \<longrightarrow>
      v \<in> fst ` set copies \<and> quorum holders \<le> votes e copies (value_fingerprint e v)) \<and>
    (\<forall>fp. fp \<noteq> [] \<and> quorum holders \<le> votes e copies fp \<longrightarrow> (\<exists>v. result = Some v \<and> value_fingerprint e v = fp))"
proof -
  let ?replies = "snd (query_peers e exchange payload n (read_jobs rp holders))"
  let ?local = "if reads_local rp holders then local_value (snd (edb_get_ts e (cfg_engine (rp_cfg rp)) part keyspace doc)) else None"
  have r: "result = decide_get e (quorum holders) (reads_local rp holders) ?local ?replies"
    unfolding result_def holders_def by (rule read_get_decides [OF assms(1,2,4)])
  have own: "?local \<noteq> None \<longrightarrow> reads_local rp holders" by simp
  have len: "length ?replies \<le> length (read_jobs rp holders)" by (rule query_peers_length)
  then have few: "length ?replies \<le> MAX_REPLIES" by (simp add: read_jobs_def)
  have major: "length ?replies + (if reads_local rp holders then 1 else 0) < 2 * quorum holders"
    using len read_jobs_majority [OF assms(3), of holders] by simp
  show ?thesis
    unfolding r copies_def using decide_get_sound [OF own few] decide_get_complete [OF own few major] by blast
qed

section \<open>Where the merges differ\<close>

text \<open>An environment in which the empty object prints as one text and every other value as another.\<close>

definition two_texts :: sqlite_env where
  "two_texts = (json_env 9)\<lparr>cJSON_PrintUnformatted := (\<lambda>j. Some (if j = JObject [] then ''a'' else ''b''))\<rparr>"

lemma md5_differs: "edb_md5_hex ''a'' \<noteq> edb_md5_hex ''b''"
  by code_simp

lemma md5_not_empty [simp]: "edb_md5_hex s \<noteq> []"
  using length_edb_md5_hex [of s] by (metis list.size(3) zero_neq_numeral)

lemma two_texts_fingerprint:
  "value_fingerprint two_texts j = (if j = JObject [] then edb_md5_hex ''a'' else edb_md5_hex ''b'')"
  by (simp add: value_fingerprint_def two_texts_def)

definition row_reply :: "string \<Rightarrow> cJSON \<Rightarrow> int \<Rightarrow> cJSON" where
  "row_reply doc v ts = JObject [(''id'', JString doc), (''timestamp'', json_int ts), (''value'', v)]"

definition rows_of :: "cJSON list \<Rightarrow> cJSON" where
  "rows_of rs = JObject [(''rows'', JArray rs)]"

lemma row_copy_reply [simp]: "row_copy (row_reply doc (JObject kvs) ts) = Some (doc, JObject kvs, ts)"
  by (simp add: row_copy_def row_reply_def num_or_0_def)

lemma set_rows_of [simp]: "set_rows (rows_of rs) = rs"
  by (simp add: set_rows_def rows_of_def json_get_nocase_def first_match_def)

end
