(* ===== verification/Repl_Read_Props.thy ===== *)
theory Repl_Read_Props
  imports Repl_Votes
begin

text \<open>
  Concrete runs of the quorum reads, and the places where they lose records: a newer minority hides
  a majority in a collection, and ids that do not fit the buffer never reach a quorum.
\<close>

section \<open>Records a collection read loses\<close>

lemma merge_two:
  "merge_agreed_rows e [rows_of [r], rows_of [s]] required =
     JArray (List.map_filter (\<lambda>x. if agreed required x then me_best x else None)
       (foldl (put_copy e) [] (List.map_filter row_copy [r, s])))"
  by (simp add: merge_agreed_rows_def merge_entries_copies row_copies_def)

text \<open>
  A record whose id has 512 or more characters is lost by every collection read that needs more
  than one copy, although both holders sent the same row: the ids are cut to 511 characters in the
  table and never compare equal to the full id.
\<close>

theorem long_id_lost:
  assumes "512 \<le> length doc"
  shows "merge_agreed_rows e [rows_of [row_reply doc (JObject kvs) ts], rows_of [row_reply doc (JObject kvs) ts]] 2 = JArray [] \<and>
    merge_agreed_ids [[doc], [doc]] 2 = []"
proof -
  have ne: "take 511 doc \<noteq> doc"
  proof
    assume "take 511 doc = doc"
    then have "length (take 511 doc) = length doc" by simp
    then show False using assms by simp
  qed
  let ?c = "(doc, JObject kvs, ts)"
  let ?x = "merge_copy e (JObject kvs) ts (new_entry doc)"
  have x: "me_id ?x = take 511 doc" "me_agree ?x = 1" by (simp_all add: merge_copy_def new_entry_def Let_def)
  have "foldl (put_copy e) [] [?c, ?c] = [?x, ?x]" using x(1) ne by (simp add: put_copy_def)
  moreover have "foldl count_id [] (concat [[doc], [doc]]) = [(take 511 doc, 1), (take 511 doc, 1)]"
    using ne by (simp add: count_id_def)
  ultimately show ?thesis
    using x(2) unfolding merge_two by (simp add: merge_agreed_ids_def List.map_filter_simps agreed_def)
qed

theorem long_id_lost_witness:
  "merge_agreed_rows (json_env 9)
     [rows_of [row_reply (replicate 600 (CHR ''x'')) (JObject []) 5], rows_of [row_reply (replicate 600 (CHR ''x'')) (JObject []) 5]] 2
     = JArray []"
  using long_id_lost [of "replicate 600 (CHR ''x'')" "json_env 9" "[]" 5] by simp

text \<open>
  A get and a collection read disagree about the same three copies: two holders have a value, a
  third has a newer one. The get returns the value of the majority; the collection read considers
  only the newest value, which has one vote, and returns nothing.
\<close>

theorem newer_minority_hides_majority:
  "decide_get two_texts 2 True (Some (JObject [], 5))
     [JObject [(''row'', row_reply ''x'' (JObject [(''k'', JNull)]) 7)], JObject [(''row'', row_reply ''x'' (JObject []) 5)]]
     = Some (JObject []) \<and>
   merge_agreed_rows two_texts [rows_of [row_reply ''x'' (JObject []) 5],
       rows_of [row_reply ''x'' (JObject [(''k'', JNull)]) 7], rows_of [row_reply ''x'' (JObject []) 5]] 2 = JArray []"
proof -
  let ?a = "edb_md5_hex ''a''" and ?b = "edb_md5_hex ''b''"
  have fp: "value_fingerprint two_texts (JObject []) = ?a" "value_fingerprint two_texts (JObject [(''k'', JNull)]) = ?b"
    by (simp_all add: two_texts_fingerprint)
  note ab = md5_differs md5_differs [symmetric]
  have reply: "reply_value (JObject [(''row'', row_reply ''x'' (JObject kvs) ts)]) = Some (JObject kvs, ts)" for kvs ts
    by (simp add: reply_value_def row_reply_def json_get_nocase_def first_match_def num_or_0_def)
  have "foldl (tally two_texts) [] [(JObject [(''k'', JNull)], 7), (JObject [], 5), (JObject [], 5)] =
      [\<lparr>g_fp = ?b, g_ts = 7, g_sample = JObject [(''k'', JNull)], g_votes = 1\<rparr>,
       \<lparr>g_fp = ?a, g_ts = 5, g_sample = JObject [], g_votes = 2\<rparr>]"
    using ab by (simp add: tally_def fp add_vote_def first_match_def MAX_REPLIES_def Let_def)
  then have "decide_get two_texts 2 True (Some (JObject [], 5))
     [JObject [(''row'', row_reply ''x'' (JObject [(''k'', JNull)]) 7)], JObject [(''row'', row_reply ''x'' (JObject []) 5)]]
     = Some (JObject [])"
    by (simp add: decide_get_tally get_copies_def List.map_filter_simps reply Let_def better_group_def)
  moreover have "foldl (put_copy two_texts) [] [(''x'', JObject [], 5), (''x'', JObject [(''k'', JNull)], 7), (''x'', JObject [], 5)] =
      [\<lparr>me_id = ''x'', me_fp = ?b, me_best = Some (JObject [(''k'', JNull)]), me_ts = 7, me_agree = 1\<rparr>]"
    using ab by (simp add: put_copy_def merge_copy_def new_entry_def fp Let_def)
  then have "merge_agreed_rows two_texts [rows_of [row_reply ''x'' (JObject []) 5],
       rows_of [row_reply ''x'' (JObject [(''k'', JNull)]) 7], rows_of [row_reply ''x'' (JObject []) 5]] 2 = JArray []"
    by (simp add: merge_agreed_rows_def merge_entries_copies row_copies_def List.map_filter_simps agreed_def)
  ultimately show ?thesis ..
qed

text \<open>
  After an acknowledged write the document can be unreadable: of three holders two have the new
  value and one the old value; when one of the two is down, the two that answer disagree, and the
  read returns nothing.
\<close>

theorem acknowledged_write_unreadable:
  "decide_get two_texts 2 True (Some (JObject [], 7)) [JObject [(''row'', row_reply ''x'' (JObject [(''k'', JNull)]) 5)]] = None"
proof -
  have fp: "value_fingerprint two_texts (JObject []) = edb_md5_hex ''a''"
    "value_fingerprint two_texts (JObject [(''k'', JNull)]) = edb_md5_hex ''b''"
    by (simp_all add: two_texts_fingerprint)
  have reply: "reply_value (JObject [(''row'', row_reply ''x'' (JObject kvs) ts)]) = Some (JObject kvs, ts)" for kvs ts
    by (simp add: reply_value_def row_reply_def json_get_nocase_def first_match_def num_or_0_def)
  show ?thesis
    using md5_differs md5_differs [symmetric]
    by (simp add: decide_get_tally get_copies_def List.map_filter_simps reply Let_def tally_def fp add_vote_def
        first_match_def MAX_REPLIES_def better_group_def)
qed

theorem merge_rows_agreement_witness:
  "\<exists>w. json_items (Some (merge_agreed_rows (json_env 9) [rows_of [row_reply ''x'' (JObject []) 5], rows_of [row_reply ''x'' (JObject []) 6]] 2)) = [w]
    \<and> value_fingerprint (json_env 9) w = value_fingerprint (json_env 9) (JObject [])"
proof -
  let ?sets = "[rows_of [row_reply ''x'' (JObject []) 5], rows_of [row_reply ''x'' (JObject []) 6]]"
  let ?fp = "value_fingerprint (json_env 9) (JObject [])"
  have c: "row_copies ?sets = [(''x'', JObject [], 5), (''x'', JObject [], 6)]"
    by (simp add: row_copies_def List.map_filter_simps)
  have ne: "?fp \<noteq> []" by (simp add: value_fingerprint_def)
  have one: "length (json_items (Some (merge_agreed_rows (json_env 9) ?sets 2))) = 1"
    using ne by (simp add: agreed_values merge_entries_copies c put_copy_def merge_copy_def new_entry_def Let_def
        List.map_filter_simps agreed_def)
  have "\<exists>w \<in> set (json_items (Some (merge_agreed_rows (json_env 9) ?sets 2))). value_fingerprint (json_env 9) w = ?fp"
    using merge_rows_agreement [of ?sets 2 "json_env 9"] ne unfolding c by (simp add: agreeing_def)
  then show ?thesis using one by (auto simp: length_Suc_conv)
qed

section \<open>A run of a read\<close>

text \<open>A node that holds nothing asks the only holder, of a database with two copies.\<close>

definition reader_cfg :: edb_config where
  "reader_cfg = fst (store (json_env 9) demo_config CFG_KEYSPACE_DATABASES ''d'' (db_record ''d'' 2))"

definition reader :: edb_repl where
  "reader = demo_repl\<lparr>rp_read := Some (\<lambda>cfg j. (cfg, None)), rp_cluster := demo_saved\<lparr>cl_cfg := reader_cfg,
     cl_peers := [demo_member ''n1'' 7001, (demo_member ''n2'' 7002)\<lparr>p_removed := True\<rparr>]\<rparr>\<rparr>"

definition row_net :: "unit exchange" where
  "row_net n addr port frames =
     (n, Some [(ESTP_RESULT, demo_text (JObject [(''row'', row_reply ''x'' (JObject []) 5)]))])"

lemma reader_cfg_ok:
  "cfg_ok (json_env 9) reader_cfg" "en_path (cfg_engine reader_cfg) = ''d''"
  "snd (edb_database_get (json_env 9) reader_cfg ''d'') = Some \<lparr>db_name = ''d'', db_replication_factor = 2\<rparr>"
proof -
  have ok: "cfg_ok (json_env 9) demo_config" "cfg_local (json_env 9) demo_config" by simp_all
  have plain: "json_plain (db_record ''d'' 2)" by (simp add: db_record_def)
  note s = store_spec [OF ok(1) disjI1 [OF ok(2)] plain, of CFG_KEYSPACE_DATABASES "''d''", folded reader_cfg_def]
  show "cfg_ok (json_env 9) reader_cfg" by (rule s(2))
  show "en_path (cfg_engine reader_cfg) = ''d''" using s(6) by (simp add: demo_config_def empty_engine_def)
  show "snd (edb_database_get (json_env 9) reader_cfg ''d'') = Some \<lparr>db_name = ''d'', db_replication_factor = 2\<rparr>"
    unfolding database_get_spec(1) [OF s(2)] s(3)
    by (simp add: db_info_def db_record_def copy_name_def snprintf_s_def json_int_def valueint_def trunc_rat_def)
qed

lemma reader_simps [simp]:
  "rp_cfg reader = reader_cfg" "rp_self_id reader = ''n2''" "rp_read reader \<noteq> None"
  "rp_peers reader = [demo_member ''n1'' 7001, (demo_member ''n2'' 7002)\<lparr>p_removed := True\<rparr>]"
  by (simp_all add: reader_def demo_repl_def rp_cfg_def rp_peers_def edb_cluster_peers_def MAX_PEERS_SNAPSHOT_def)

lemma reader_factor: "snd (replication_factor (json_env 9) reader ''d'') = 2" "snd (quorum_applies (json_env 9) reader ''d'')"
  using reader_cfg_ok(3) by (simp_all add: replication_factor_def quorum_applies_def split_beta)

lemma reader_holders: "holder_ids reader ''p'' ''k'' 2 = [''n1'']"
proof -
  let ?key = "shard_key ''p'' ''k''"
  have path: "edb_shard_path (cfg_engine (rp_cfg reader)) ''p'' ''k'' 1024 = Some (shard_file ''d'' ?key, ?key)"
    using reader_cfg_ok(2) by (simp add: edb_shard_path_def Let_def shard_file_def)
  have m: "member_ids (rp_cluster reader) = [''n1'']" by (simp add: reader_def member_ids_def demo_member_def)
  have "edb_cluster_holders (rp_cluster reader) ?key MAX_PEERS_SNAPSHOT = [''n1'']"
    using holders_rotate [of "rp_cluster reader" ?key] m
    by (simp add: MAX_PEERS_def MAX_PEERS_SNAPSHOT_def EDB_NODE_ID_MAX_def reader_def)
  then show ?thesis
    using path by (auto simp: holder_ids_def Let_def snprintf_s_def EDB_NODE_ID_MAX_def candidate_online_def demo_member_def)
qed

theorem read_get_majority_witness:
  "\<exists>v. snd (snd (edb_repl_read_get (json_env 9) row_net ''d'' ''p'' ''k'' ''x'' () reader)) = Some v \<and>
     value_fingerprint (json_env 9) v = value_fingerprint (json_env 9) (JObject [])"
proof -
  have d: "distinct (map p_id (cl_peers (rp_cluster reader)))" by (simp add: reader_def demo_member_def)
  have ok: "cfg_ok (json_env 9) (rp_cfg reader)" using reader_cfg_ok(1) by simp
  have jobs: "read_jobs reader [''n1''] = [demo_member ''n1'' 7001]"
    by (simp add: read_jobs_def queryable_def id_in_holders_def demo_member_def MAX_REPLIES_def)
  have reply: "snd (query_worker (json_env 9) row_net payload m p) = Some (JObject [(''row'', row_reply ''x'' (JObject []) 5)])"
    for payload m p
    by (simp add: query_worker_def rpc_once_def row_net_def first_match_def split_beta)
  have val: "reply_value (JObject [(''row'', row_reply ''x'' (JObject []) 5)]) = Some (JObject [], 5)"
    by (simp add: reply_value_def row_reply_def json_get_nocase_def first_match_def num_or_0_def)
  have own: "\<not> reads_local reader [''n1'']" by (simp add: reads_local_def id_in_holders_def)
  have ne: "value_fingerprint (json_env 9) (JObject []) \<noteq> []" by (simp add: value_fingerprint_def)
  show ?thesis
    using conjunct2 [OF read_get_majority [OF ok reader_factor(2) d, where part = "''p''" and keyspace = "''k''"
      and doc = "''x''" and exchange = row_net and n = "()", OF demo_text_json(1)]] ne
    unfolding reader_factor(1) reader_holders jobs
    by (simp add: own get_copies_def split_beta Let_def reply List.map_filter_simps val votes_def quorum_def)
qed

end
