(* ===== verification/Eql_Props.thy ===== *)
theory Eql_Props
  imports Eql_Exec Eql_Scan_Props Repl_Read_Props
begin

text \<open>
  What executing a statement guarantees: a statement that is not INSERT, UPDATE or DELETE changes no
  stored document, permissions are checked for every referenced partition before anything runs, and
  a row that is written back unchanged is the document it came from, with three exceptions.
\<close>

section \<open>Reads change no document\<close>

lemma with_shard_read:
  assumes "engine_ok en" "env_ok e" "\<And>sh. fst (f sh) = sh"
  shows "shard_view (fst (with_shard e en p k missing f)) = shard_view en"
    "engine_ok (fst (with_shard e en p k missing f))" "en_path (fst (with_shard e en p k missing f)) = en_path en"
proof -
  obtain sh where "sh_rows sh = shard_view en (shard_key p k)"
    "shard_view (fst (with_shard e en p k missing f)) = (shard_view en)(shard_key p k := sh_rows (fst (f sh)))"
    "engine_ok (fst (with_shard e en p k missing f))" "en_path (fst (with_shard e en p k missing f)) = en_path en"
    using with_shard_spec [OF assms(1,2), of f p k missing] assms(3) by auto
  then show "shard_view (fst (with_shard e en p k missing f)) = shard_view en"
    "engine_ok (fst (with_shard e en p k missing f))" "en_path (fst (with_shard e en p k missing f)) = en_path en"
    using assms(3) by (auto simp: fun_eq_iff)
qed

lemma query_ts_keeps:
  fixes p k :: string and filters :: "cJSON option"
  assumes "cfg_ok e cfg"
  defines "en \<equiv> fst (edb_query_ts e (cfg_engine cfg) p k filters)"
  shows "cfg_ok e (cfg\<lparr>cfg_engine := en\<rparr>)" "shard_view en = shard_view (cfg_engine cfg)" "en_path en = en_path (cfg_engine cfg)"
  using with_shard_read [OF cfg_okD(1,2) [OF assms(1)], of "\<lambda>sh. (sh, edb_shard_query_ts e sh filters)" p k None] assms(1)
  unfolding en_def edb_query_ts_def by (simp_all add: cfg_ok_def)

text \<open>Two states of the store with the same documents.\<close>

definition same_docs :: "sqlite_env \<Rightarrow> eql_store \<Rightarrow> eql_store \<Rightarrow> bool" where
  "same_docs e st st' \<longleftrightarrow>
     cfg_ok e (store_cfg st) \<and> cfg_ok e (store_cfg st') \<and>
     shard_view (cfg_engine (store_cfg st')) = shard_view (cfg_engine (store_cfg st))"

lemma same_docs_trans: "same_docs e a b \<Longrightarrow> same_docs e b c \<Longrightarrow> same_docs e a c"
  by (simp add: same_docs_def)

lemma same_docs_refl: "cfg_ok e (store_cfg st) \<Longrightarrow> same_docs e st st"
  by (simp add: same_docs_def)

lemma store_cfg_set [simp]: "store_cfg (set_store_cfg cfg st) = cfg"
  by (cases st) simp_all

lemma same_docs_set:
  assumes "cfg_ok e (store_cfg st)" "cfg_ok e cfg" "shard_view (cfg_engine cfg) = shard_view (cfg_engine (store_cfg st))"
  shows "same_docs e st (set_store_cfg cfg st)"
  using assms by (simp add: same_docs_def)

lemma same_reads_query:
  assumes "same_reads e rp rp'"
  shows "same_reads e rp (upd_rp_engine (fst (edb_query_ts e (cfg_engine (rp_cfg rp')) p k filters)) rp')"
proof -
  have ok: "cfg_ok e (rp_cfg rp')" using assms by (simp add: same_reads_def)
  have "same_reads e rp' (upd_rp_engine (fst (edb_query_ts e (cfg_engine (rp_cfg rp')) p k filters)) rp')"
    unfolding upd_rp_engine_def using query_ts_keeps [OF ok, of p k filters] ok by (intro same_reads_cfg) simp_all
  then show ?thesis by (rule same_reads_trans [OF assms])
qed

lemma same_reads_query_all:
  assumes "same_reads e rp rp'"
  shows "same_reads e rp (fst (snd (query_all e exchange request cap n rp')))"
  using assms same_reads_factor(2) [OF assms]
  by (auto simp: query_all_def split_beta Let_def split: option.splits)

lemma read_query_meta_keeps:
  assumes "cfg_ok e (rp_cfg rp)"
  shows "same_reads e rp (fst (snd (edb_repl_read_query_meta e exchange db part ks filters n rp)))"
proof -
  have v0: "same_reads e rp rp" using assms by (simp add: same_reads_def)
  note v1 = same_reads_applies(2) [OF v0, of db]
  note v2 = read_quorum_view(2) [OF v1, of db part ks]
  note v3 = same_reads_query [OF v2, of part ks filters]
  show ?thesis
    using same_reads_query [OF v1, of part ks filters] same_reads_query_all [OF v2] same_reads_query_all [OF v3]
    by (auto simp: edb_repl_read_query_meta_def read_rows_def split_beta Let_def)
qed

lemma read_meta_keeps:
  assumes "cfg_ok e (store_cfg st)"
  shows "same_docs e st (fst (snd (read_meta e exchange db part ks n st)))"
proof (cases st)
  case (Single cfg)
  then show ?thesis
    using assms query_ts_keeps [of e cfg part ks None]
    by (simp add: read_meta_def split_beta set_store_engine_def same_docs_def)
next
  case (Clustered rp)
  then show ?thesis
    using assms read_query_meta_keeps [of e rp exchange db part ks None n]
    by (simp add: read_meta_def split_beta same_docs_def same_reads_def)
qed

lemma fetch_shard_docs_keeps:
  assumes "cfg_ok e (store_cfg st)"
  shows "same_docs e st (fst (snd (fetch_shard_docs e exchange db part ks n st)))"
  using read_meta_keeps [OF assms] by (simp add: fetch_shard_docs_def split_beta)

lemma fetch_keyspaces_keeps:
  "cfg_ok e (store_cfg st) \<Longrightarrow> same_docs e st (fst (snd (fetch_keyspaces e exchange db part n st ks)))"
proof (induction ks arbitrary: n st)
  case (Cons k ks)
  let ?f = "fetch_shard_docs e exchange db part k n st"
  have f: "same_docs e st (fst (snd ?f))" by (rule fetch_shard_docs_keeps [OF Cons.prems])
  then have "same_docs e (fst (snd ?f)) (fst (snd (fetch_keyspaces e exchange db part (fst ?f) (fst (snd ?f)) ks)))"
    by (intro Cons.IH) (simp add: same_docs_def)
  from same_docs_trans [OF f this] show ?case by (simp add: split_beta Let_def)
qed (simp add: same_docs_refl)

lemma keyspace_list_keeps:
  assumes "cfg_ok e (store_cfg st)" "list_ok e"
  shows "same_docs e st (set_store_cfg (fst (edb_keyspace_list e (store_cfg st))) st)"
  using collect_spec [OF assms, of CFG_KEYSPACE_KEYSPACES] assms(1)
  by (intro same_docs_set) (simp_all add: edb_keyspace_list_def split_beta)

lemma fetch_docs_keeps:
  assumes "cfg_ok e (store_cfg st)" "list_ok e"
  shows "same_docs e st (fst (snd (fetch_docs e exchange t n st)))"
proof (cases "t_pw t")
  case False
  then show ?thesis
    using fetch_shard_docs_keeps [OF assms(1)] by (simp add: fetch_docs_def split_beta Let_def)
next
  case True
  note k = keyspace_list_keeps [OF assms]
  have "cfg_ok e (store_cfg (set_store_cfg (fst (edb_keyspace_list e (store_cfg st))) st))"
    using k by (simp add: same_docs_def)
  from same_docs_trans [OF k fetch_keyspaces_keeps [OF this]] show ?thesis
    using True by (simp add: fetch_docs_def split_beta Let_def)
qed

lemma materialize_all_keeps:
  "cfg_ok e (store_cfg st) \<Longrightarrow> list_ok e \<Longrightarrow>
     same_docs e st (fst (snd (materialize_all e exchange q n st d m ts)))"
proof (induction ts arbitrary: n st d m)
  case (Cons t ts)
  let ?f = "fetch_docs e exchange t n st"
  have f: "same_docs e st (fst (snd ?f))" by (rule fetch_docs_keeps [OF Cons.prems])
  then have "same_docs e (fst (snd ?f)) (fst (snd (materialize_all e exchange q (fst ?f) (fst (snd ?f)) d' m' ts)))" for d' m'
    using Cons.prems(2) by (intro Cons.IH) (simp_all add: same_docs_def)
  then show ?case
    using f same_docs_trans [OF f] by (simp add: split_beta Let_def split: option.splits)
qed (simp add: same_docs_refl)

lemma partition_get_spec:
  assumes "cfg_ok e cfg"
  shows "snd (edb_partition_get e cfg db part) =
      (case cfg_doc e CFG_KEYSPACE_PARTITIONS cfg (partition_id db part) of
         None \<Rightarrow> None
       | Some obj \<Rightarrow> if pt_name (partition_info obj) \<noteq> [] then Some (partition_info obj) else None)"
    "cfg_ok e (fst (edb_partition_get e cfg db part))"
    "shard_view (cfg_engine (fst (edb_partition_get e cfg db part))) = shard_view (cfg_engine cfg)"
  using fetch_spec [OF assms, of CFG_KEYSPACE_PARTITIONS "partition_id db part"]
  by (simp_all add: edb_partition_get_def split_beta)

section \<open>Permissions\<close>

text \<open>The record of a partition, and whether it keeps a user out.\<close>

definition table_partition :: "sqlite_env \<Rightarrow> eql_store \<Rightarrow> eql_table \<Rightarrow> edb_partition_info option" where
  "table_partition e st t = snd (edb_partition_get e (store_cfg st) (t_db t) (t_part t))"

definition keeps_out :: "sqlite_env \<Rightarrow> eql_store \<Rightarrow> edb_permission \<Rightarrow> u64 \<Rightarrow> eql_table \<Rightarrow> bool" where
  "keeps_out e st perm groups t \<longleftrightarrow>
     (case table_partition e st t of None \<Rightarrow> False | Some p \<Rightarrow> perm_mask perm p \<noteq> 0 \<and> perm_mask perm p AND groups = 0)"

lemma same_docs_partition:
  assumes "same_docs e st st'"
  shows "table_partition e st' t = table_partition e st t"
  using assms by (simp add: table_partition_def same_docs_def partition_get_spec(1) cfg_doc_def)

lemma perm_denied_spec:
  assumes "cfg_ok e (store_cfg st)"
  shows "snd (perm_denied e st t groups trusted perm) \<longleftrightarrow> \<not> trusted \<and> keeps_out e st perm groups t"
    "same_docs e st (fst (perm_denied e st t groups trusted perm))"
  using same_docs_refl [OF assms] same_docs_set [OF assms partition_get_spec(2,3) [OF assms]]
  by (auto simp: perm_denied_def split_beta keeps_out_def table_partition_def edb_check_perm_def split: option.splits)

lemma any_denied_spec:
  assumes "cfg_ok e (store_cfg st)"
  shows "snd (any_denied e groups trusted perm st ts) \<longleftrightarrow> \<not> trusted \<and> (\<exists>t \<in> set ts. keeps_out e st perm groups t)"
    "same_docs e st (fst (any_denied e groups trusted perm st ts))"
proof -
  have "(snd (any_denied e groups trusted perm st ts) \<longleftrightarrow> \<not> trusted \<and> (\<exists>t \<in> set ts. keeps_out e st perm groups t)) \<and>
      same_docs e st (fst (any_denied e groups trusted perm st ts))"
    using assms
  proof (induction ts arbitrary: st)
    case Nil
    then show ?case by (simp add: same_docs_refl)
  next
    case (Cons t ts)
    let ?p = "perm_denied e st t groups trusted perm"
    note p = perm_denied_spec [OF Cons.prems, of t groups trusted perm]
    have "cfg_ok e (store_cfg (fst ?p))" using p(2) by (simp add: same_docs_def)
    note ih = Cons.IH [OF this]
    have k: "keeps_out e (fst ?p) perm groups x \<longleftrightarrow> keeps_out e st perm groups x" for x
      using same_docs_partition [OF p(2)] by (simp add: keeps_out_def)
    show ?case
      using ih p same_docs_trans [OF p(2)] by (auto simp: split_beta Let_def k)
  qed
  then show "snd (any_denied e groups trusted perm st ts) \<longleftrightarrow> \<not> trusted \<and> (\<exists>t \<in> set ts. keeps_out e st perm groups t)"
    "same_docs e st (fst (any_denied e groups trusted perm st ts))" by blast+
qed

section \<open>Statements\<close>

lemma run_statement_select_keeps:
  assumes "cfg_ok e (store_cfg st)" "list_ok e" "allowed_op kind = None"
  shows "same_docs e st (fst (snd (run_statement e exchange lua stack_ks q kind sql tables n st)))"
proof (cases "q_open q")
  case None
  then show ?thesis by (simp add: run_statement_def same_docs_refl [OF assms(1)])
next
  case (Some d)
  let ?m = "materialize_all e exchange q n st d [] (statement_tables kind sql tables)"
  have m: "same_docs e st (fst (snd ?m))" by (rule materialize_all_keeps [OF assms(1,2)])
  obtain n' st' r where r: "?m = (n', st', r)" by (cases ?m)
  show ?thesis
    using Some m assms(3) unfolding run_statement_def Let_def r
    by (auto simp: r split: option.splits prepared.splits)
qed

lemma encode_result_code: "fst (encode_result e code result) \<in> {code, 500}"
  by (auto simp: encode_result_def split: option.splits)

lemma run_select_code: "fst (run_select e q d sql stmt) \<in> {200, 400, 500}"
  using encode_result_code [of e 200]
  by (fastforce simp: run_select_def split: option.splits bool.splits prod.splits step_end.splits)

lemma dml_encode_code: "fst (encode_result e (fst (dml_result kind oc)) result) \<in> {200, 500, 503}"
proof -
  have "fst (dml_result kind oc) \<in> {200, 503}" by (simp add: dml_result_def Let_def)
  then show ?thesis using encode_result_code [of e "fst (dml_result kind oc)" result] by auto
qed

lemma run_dml_code: "fst (snd (snd (run_dml e exchange lua stack_ks q kind tables d m sql n st))) \<in> {200, 400, 500, 503}"
proof -
  obtain d' hooks step where d: "q_dml q d sql = (d', hooks, step)" by (cases "q_dml q d sql")
  obtain n' st' oc where p: "process_events e exchange lua stack_ks q d' m (trap_events tables hooks) n st = (n', st', oc)"
    by (cases "process_events e exchange lua stack_ks q d' m (trap_events tables hooks) n st")
  show ?thesis
    using dml_encode_code [of e kind oc "snd (dml_result kind oc)"] by (auto simp: run_dml_def d p split_beta Let_def)
qed

lemma run_statement_code: "fst (snd (snd (run_statement e exchange lua stack_ks q kind sql tables n st))) \<noteq> 403"
proof -
  have sel: "fst (run_select e q d sql' stmt) \<noteq> 403" for d sql' stmt
    using run_select_code [of e q d sql' stmt] by auto
  have dml: "fst (snd (snd (run_dml e exchange lua stack_ks q kind ts d m sql' n' st'))) \<noteq> 403" for d sql' ts m n' st'
    using run_dml_code [of e exchange lua stack_ks q kind ts d m sql' n' st'] by auto
  show ?thesis
    by (simp add: run_statement_def Let_def sel dml split: option.splits prod.splits prepared.splits)
qed

text \<open>Where the result of a statement comes from.\<close>

lemma execute_cases:
  "(\<exists>json. edb_eql_execute e exchange lua stack_ks q sql groups trusted n st = (n, st, 400, json)) \<or>
    (let a = any_denied e groups trusted (needed_perm (classify_statement sql)) st (collect_refs sql [])
     in if snd a then \<exists>json. edb_eql_execute e exchange lua stack_ks q sql groups trusted n st = (n, fst a, 403, json)
        else edb_eql_execute e exchange lua stack_ks q sql groups trusted n st =
          run_statement e exchange lua stack_ks q (classify_statement sql) sql (collect_refs sql []) n (fst a))"
  by (auto simp: edb_eql_execute_def Let_def split_beta)

text \<open>
  C11. Statements are read-only unless they say otherwise: whatever SQLite answers, a statement that does
  not start with INSERT, REPLACE, UPDATE or DELETE leaves every document of every shard as it was,
  with and without replication, and so does every statement that is refused with status 403.
\<close>

theorem select_changes_nothing:
  fixes exchange :: "'n exchange" and q :: "'d shadow"
  assumes "cfg_ok e (store_cfg st)" "list_ok e"
    and "edb_eql_execute e exchange lua stack_ks q sql groups trusted n st = (n', st', code, json)"
    and "classify_statement sql \<in> {EQL_KIND_SELECT, EQL_KIND_OTHER} \<or> code = 403"
  shows "shard_view (cfg_engine (store_cfg st')) = shard_view (cfg_engine (store_cfg st))"
proof -
  let ?r = "edb_eql_execute e exchange lua stack_ks q sql groups trusted n st"
  let ?a = "any_denied e groups trusted (needed_perm (classify_statement sql)) st (collect_refs sql [])"
  note a = any_denied_spec(2) [OF assms(1), of groups trusted "needed_perm (classify_statement sql)" "collect_refs sql []"]
  have ok: "cfg_ok e (store_cfg (fst ?a))" using a by (simp add: same_docs_def)
  consider "?r = (n, st, code, json)" | "?r = (n, fst ?a, code, json)"
    | "?r = run_statement e exchange lua stack_ks q (classify_statement sql) sql (collect_refs sql []) n (fst ?a)"
    using assms(3) execute_cases [of e exchange lua stack_ks q sql groups trusted n st]
    by (cases "snd ?a") (auto simp: Let_def)
  then have "same_docs e st st'"
  proof cases
    case 1
    then show ?thesis using assms(1,3) by (simp add: same_docs_refl)
  next
    case 2
    then show ?thesis using assms(3) a by simp
  next
    case 3
    then have "code \<noteq> 403" using assms(3) run_statement_code [of e exchange lua stack_ks q] by (metis fst_conv snd_conv)
    then have "allowed_op (classify_statement sql) = None" using assms(4) by (auto simp: allowed_op_def)
    note k = same_docs_trans [OF a run_statement_select_keeps [OF ok assms(2) this, where exchange = exchange and lua = lua
      and stack_ks = stack_ks and q = q and sql = sql and tables = "collect_refs sql []" and n = n]]
    show ?thesis using k unfolding 3 [symmetric] assms(3) by simp
  qed
  then show ?thesis by (simp add: same_docs_def)
qed


text \<open>
  C10. Permissions come first and are exact: a statement with references (an INSERT naming its keyspaces)
  is refused with status 403 exactly when the caller is not trusted and some referenced partition has a
  non-empty mask for the permission of the statement's class that shares no group with the caller.
  The network is not touched and no document changes then.
\<close>

theorem permission_exact:
  fixes exchange :: "'n exchange" and q :: "'d shadow"
  assumes "cfg_ok e (store_cfg st)" "sql \<noteq> []" "collect_refs sql [] \<noteq> []"
    and "classify_statement sql \<noteq> EQL_KIND_INSERT \<or> (\<forall>t \<in> set (collect_refs sql []). \<not> t_pw t)"
    and "edb_eql_execute e exchange lua stack_ks q sql groups trusted n st = (n', st', code, json)"
  shows "(code = 403 \<longleftrightarrow> \<not> trusted \<and>
      (\<exists>t \<in> set (collect_refs sql []). keeps_out e st (needed_perm (classify_statement sql)) groups t)) \<and>
    (code = 403 \<longrightarrow> n' = n \<and> same_docs e st st')"
proof -
  let ?a = "any_denied e groups trusted (needed_perm (classify_statement sql)) st (collect_refs sql [])"
  note a = any_denied_spec [OF assms(1), of groups trusted "needed_perm (classify_statement sql)" "collect_refs sql []"]
  have eq: "edb_eql_execute e exchange lua stack_ks q sql groups trusted n st =
      (if snd ?a then (n, fst ?a, 403, error_response e ''permission denied'')
       else run_statement e exchange lua stack_ks q (classify_statement sql) sql (collect_refs sql []) n (fst ?a))"
    using assms(2-4) by (auto simp: edb_eql_execute_def Let_def split_beta)
  show ?thesis
  proof (cases "snd ?a")
    case True
    then show ?thesis using eq a assms(5) by auto
  next
    case False
    then have "code \<noteq> 403"
      using eq assms(5) run_statement_code [of e exchange lua stack_ks q] by (metis fst_conv snd_conv)
    then show ?thesis using False a(1) by simp
  qed
qed

section \<open>Writing rows back\<close>

text \<open>Values that survive the way into a column and back: no booleans, and no text where the column
  holds nested values of other documents.\<close>

definition survives :: "bool \<Rightarrow> cJSON \<Rightarrow> bool" where
  "survives nested v \<longleftrightarrow>
     (case v of JBool b \<Rightarrow> False | JString s \<Rightarrow> \<not> nested | JArray xs \<Rightarrow> nested | JObject kvs \<Rightarrow> nested | _ \<Rightarrow> True)"

lemma column_roundtrip:
  assumes "json_faithful e" "json_plain v" "survives nested v"
  shows "column_value e nested (bind_json e (Some v)) = v"
proof (cases v)
  case (JNumber r)
  then have r: "r = of_int \<lfloor>r\<rfloor>" using assms(2) by simp
  have "trunc_rat r = \<lfloor>r\<rfloor>" by (subst r) (rule trunc_rat_of_int)
  then show ?thesis using JNumber r by (auto simp: bind_json_def column_value_def json_int_def)
next
  case (JArray xs)
  obtain s where "cJSON_PrintUnformatted e v = Some s" "cJSON_ParseWithLength e s = Some v"
    using json_faithfulD [OF assms(1,2)] by metis
  then show ?thesis using JArray assms(3) by (auto simp: bind_json_def column_value_def survives_def)
next
  case (JObject kvs)
  obtain s where "cJSON_PrintUnformatted e v = Some s" "cJSON_ParseWithLength e s = Some v"
    using json_faithfulD [OF assms(1,2)] by metis
  then show ?thesis using JObject assms(3) by (auto simp: bind_json_def column_value_def survives_def)
qed (use assms(3) in \<open>auto simp: bind_json_def column_value_def survives_def\<close>)

lemma row_to_doc_bind:
  "row_to_doc e t (bind_row e t doc_id doc) =
     JObject (map (\<lambda>c. (fst c, column_value e (snd c) (bind_json e (json_get (Some doc) (fst c))))) (drop 1 (t_cols t)))"
  by (simp add: row_to_doc_def bind_row_def zip_map2 zip_same_conv_map comp_def split_def)

text \<open>
  C12. A row that is written back unchanged is its document, for the documents that fit their table:
  the keys are the columns of the shadow table behind the id, all of them and in order; every number
  is an integer of at most 2^53 and no text has a NUL byte; in a column that holds nested values
  somewhere the document has an array, an object, a number or null but no text, in the others null, a
  text or a number; booleans occur only inside nested values. Reading the row such a document was
  copied to gives the same document again. Other documents can change
  (\<open>writeback_changes_document\<close>: a column the document lacks comes back as null).
\<close>

theorem writeback_roundtrip:
  assumes "json_faithful e" "distinct (map fst kvs)" "map fst (drop 1 (t_cols t)) = map fst kvs"
    and "\<forall>i < length kvs. json_plain (snd (kvs ! i)) \<and> survives (snd (drop 1 (t_cols t) ! i)) (snd (kvs ! i))"
  shows "row_to_doc e t (bind_row e t doc_id (JObject kvs)) = JObject kvs"
proof -
  let ?cols = "drop 1 (t_cols t)"
  have len: "length ?cols = length kvs" using assms(3) by (metis length_map)
  have "map (\<lambda>c. (fst c, column_value e (snd c) (bind_json e (map_of kvs (fst c))))) ?cols = kvs"
  proof (rule nth_equalityI)
    show "length (map (\<lambda>c. (fst c, column_value e (snd c) (bind_json e (map_of kvs (fst c))))) ?cols) = length kvs"
      using len by simp
  next
    fix i assume "i < length (map (\<lambda>c. (fst c, column_value e (snd c) (bind_json e (map_of kvs (fst c))))) ?cols)"
    then have i: "i < length kvs" "i < length ?cols" using len by simp_all
    have name: "fst (?cols ! i) = fst (kvs ! i)" using assms(3) i by (metis nth_map)
    have "map_of kvs (fst (kvs ! i)) = Some (snd (kvs ! i))"
      using assms(2) i(1) by (simp add: map_of_eq_Some_iff)
    then have "column_value e (snd (?cols ! i)) (bind_json e (map_of kvs (fst (?cols ! i)))) = snd (kvs ! i)"
      using column_roundtrip [OF assms(1)] assms(4) i(1) name by auto
    then show "map (\<lambda>c. (fst c, column_value e (snd c) (bind_json e (map_of kvs (fst c))))) ?cols ! i = kvs ! i"
      using i name by (simp add: prod_eq_iff)
  qed
  then show ?thesis unfolding row_to_doc_bind by simp
qed

definition demo_table :: eql_table where
  "demo_table = (ref_table ''a'' ''b'' ''c'' 0)\<lparr>t_cols := [(''id'', False), (''name'', False), (''tags'', True)]\<rparr>"

theorem writeback_roundtrip_witness:
  "row_to_doc (json_env 9) demo_table (bind_row (json_env 9) demo_table ''x''
      (JObject [(''name'', JString ''n''), (''tags'', JArray [JString ''t''])])) =
    JObject [(''name'', JString ''n''), (''tags'', JArray [JString ''t''])]"
proof (rule writeback_roundtrip)
  show "\<forall>i < length [(''name'', JString ''n''), (''tags'', JArray [JString ''t''])].
      json_plain (snd ([(''name'', JString ''n''), (''tags'', JArray [JString ''t''])] ! i)) \<and>
      survives (snd (drop 1 (t_cols demo_table) ! i)) (snd ([(''name'', JString ''n''), (''tags'', JArray [JString ''t''])] ! i))"
    by (auto simp: demo_table_def survives_def less_Suc_eq)
qed (simp_all add: demo_table_def)

text \<open>
  The exceptions: a boolean comes back as a number, and every column of another document that is
  missing comes back as null, so an UPDATE of one field rewrites the others.
\<close>

lemma writeback_changes_document:
  "row_to_doc e demo_table (bind_row e demo_table ''x'' (JObject [(''name'', JBool True)])) =
     JObject [(''name'', json_int 1), (''tags'', JNull)]"
  by (simp add: row_to_doc_bind demo_table_def bind_json_def column_value_def)

text \<open>Names are put into SQL and JSON without escaping: different columns give the same statement, and
  different records the same change.\<close>

lemma create_sql_ambiguous:
  "create_sql (demo_table\<lparr>t_cols := [(''id'', False), (''x'' @ [chr_dquote] @ '', '' @ [chr_dquote] @ ''y'', False)]\<rparr>) =
   create_sql (demo_table\<lparr>t_cols := [(''id'', False), (''x'', False), (''y'', False)]\<rparr>)"
  by (simp add: create_sql_def create_prefix_def quoted_def)

lemma put_text_ambiguous:
  "put_text e t ''k'' (''a'' @ [chr_dquote] @ '','' @ jstr ''id'' ''b'' @ '','' @ [chr_dquote] @ ''x'' @ [chr_dquote] @ '':'' @ [chr_dquote]) v =
   put_text e t (''k'' @ [chr_dquote] @ '','' @ [chr_dquote] @ ''id'' @ [chr_dquote] @ '':'' @ [chr_dquote] @ ''a'')
     (''b'' @ [chr_dquote] @ '','' @ [chr_dquote] @ ''x'' @ [chr_dquote] @ '':'' @ [chr_dquote]) v"
  by (simp add: put_text_def jstr_def quoted_def)

text \<open>The text of the INSERT always fits the buffer that was measured by the text of the CREATE.\<close>

lemma insert_sql_fits: "create_sql t = Some create \<Longrightarrow> length (insert_sql t) < length create + 16"
proof -
  assume "create_sql t = Some create"
  then have c: "create = snprintf_s 4096 (create_prefix t @ '')'')" and len: "length (create_prefix t) < 4096"
    by (auto simp: create_sql_def split: if_splits)
  have "length (concat (map (\<lambda>c. '',?'') cols)) \<le> length (concat (map (\<lambda>c. '', '' @ quoted (fst c)) cols))" for cols :: "(string \<times> bool) list"
    by (induction cols) (auto simp: quoted_def)
  from this [of "drop 1 (t_cols t)"] show ?thesis
    using len unfolding c by (simp add: insert_sql_def create_prefix_def quoted_def snprintf_s_def)
qed

section \<open>Runs\<close>

definition demo_shadow :: "unit shadow" where
  "demo_shadow = \<lparr>q_open = Some (), q_exec = (\<lambda>d s. Some ()), q_prepare = (\<lambda>d s. True), q_insert = (\<lambda>d s r. Some ((), 1)),
     q_user = (\<lambda>d auth s. Prepared [] (Some (True, [''id'']))), q_select = (\<lambda>d s. ([], StepDone)),
     q_dml = (\<lambda>d s. ((), [], StepDone)), q_row = (\<lambda>d s i. None), q_text = (\<lambda>v. [])\<rparr>"

definition no_lua :: lua_hook where
  "no_lua = (\<lambda>ev trusted db part ks doc_id v cfg. cfg)"

abbreviation demo_select :: string where
  "demo_select \<equiv> ''SELECT * FROM '' @ dotted3 ''a'' ''b'' ''c''"

lemma demo_select_facts: "classify_statement demo_select = EQL_KIND_SELECT" "collect_refs demo_select [] = [ref_table ''a'' ''b'' ''c'' 0]"
proof -
  have "is_word ''a''" "is_word ''b''" "is_word ''c''" by (simp_all add: is_word_def is_ident_char_def)
  then show "collect_refs demo_select [] = [ref_table ''a'' ''b'' ''c'' 0]" by (intro select_collects) simp_all
  show "classify_statement demo_select = EQL_KIND_SELECT" by code_simp
qed

theorem select_changes_nothing_witness:
  "shard_view (cfg_engine (store_cfg (fst (snd
     (edb_eql_execute (json_env 9) no_net no_lua [] demo_shadow demo_select 0 False () (Single demo_config)))))) =
   shard_view (cfg_engine demo_config)"
proof -
  obtain n' st' code json where
    r: "edb_eql_execute (json_env 9) no_net no_lua [] demo_shadow demo_select 0 False () (Single demo_config) = (n', st', code, json)"
    by (metis prod_cases4)
  have "cfg_ok (json_env 9) (store_cfg (Single demo_config))" "list_ok (json_env 9)" by simp_all
  from select_changes_nothing [OF this r] show ?thesis unfolding r using demo_select_facts(1) by simp
qed

text \<open>A partition only group 1 may read, and everybody may write.\<close>

definition closed_cfg :: edb_config where
  "closed_cfg = fst (store (json_env 9) demo_config CFG_KEYSPACE_PARTITIONS (partition_id ''a'' ''b'') (partition_record ''a'' ''b'' 0 0 2 0))"

lemma closed_cfg_facts:
  "cfg_ok (json_env 9) closed_cfg"
  "t_db t = ''a'' \<Longrightarrow> t_part t = ''b'' \<Longrightarrow> table_partition (json_env 9) (Single closed_cfg) t =
     Some \<lparr>pt_database = ''a'', pt_name = ''b'', pt_create_mask = 0, pt_update_mask = 0, pt_read_mask = 2, pt_delete_mask = 0\<rparr>"
proof -
  have ok: "cfg_ok (json_env 9) demo_config" "cfg_local (json_env 9) demo_config" by simp_all
  have plain: "json_plain (partition_record ''a'' ''b'' 0 0 2 0)" by simp
  note s = store_spec [OF ok(1) disjI1 [OF ok(2)] plain, of CFG_KEYSPACE_PARTITIONS "partition_id ''a'' ''b''", folded closed_cfg_def]
  show "cfg_ok (json_env 9) closed_cfg" by (rule s(2))
  show "table_partition (json_env 9) (Single closed_cfg) t =
     Some \<lparr>pt_database = ''a'', pt_name = ''b'', pt_create_mask = 0, pt_update_mask = 0, pt_read_mask = 2, pt_delete_mask = 0\<rparr>"
    if "t_db t = ''a''" "t_part t = ''b''"
    using that partition_get_spec(1) [OF s(2)] s(3) by (simp add: table_partition_def NAME_OK_def)
qed

theorem permission_exact_witness:
  "fst (snd (snd (edb_eql_execute (json_env 9) no_net no_lua [] demo_shadow demo_select 4 False () (Single closed_cfg)))) = 403"
proof -
  obtain n' st' code json where
    r: "edb_eql_execute (json_env 9) no_net no_lua [] demo_shadow demo_select 4 False () (Single closed_cfg) = (n', st', code, json)"
    by (metis prod_cases4)
  have ok: "cfg_ok (json_env 9) (store_cfg (Single closed_cfg))" using closed_cfg_facts(1) by simp
  have "keeps_out (json_env 9) (Single closed_cfg) EDB_PERM_READ 4 (ref_table ''a'' ''b'' ''c'' 0)"
    using closed_cfg_facts(2) [of "ref_table ''a'' ''b'' ''c'' 0"] by (simp add: keeps_out_def perm_mask_def ref_table_def)
  moreover have "needed_perm EQL_KIND_SELECT = EDB_PERM_READ" by (simp add: needed_perm_def)
  ultimately have "code = 403"
    using permission_exact [OF ok _ _ _ r] demo_select_facts by (simp add: ref_table_def)
  then show ?thesis using r by simp
qed

text \<open>
  A source of an INSERT is read without the permission to read it: for \<open>INSERT INTO w.w.w SELECT ...\<close>
  only the permission to create is checked, for the source as well, so a user who may not read the
  partition a.b is not kept out of it.
\<close>

lemma insert_select_reads_unchecked:
  "map t_dotted (collect_refs ''INSERT INTO w.w.w SELECT * FROM a.b.c'' []) = [''w.w.w'', ''a.b.c''] \<and>
   needed_perm (classify_statement ''INSERT INTO w.w.w SELECT * FROM a.b.c'') = EDB_PERM_CREATE \<and>
   keeps_out (json_env 9) (Single closed_cfg) EDB_PERM_READ 4 (ref_table ''a'' ''b'' ''c'' 1) \<and>
   \<not> keeps_out (json_env 9) (Single closed_cfg) EDB_PERM_CREATE 4 (ref_table ''a'' ''b'' ''c'' 1)"
proof -
  have "map t_dotted (collect_refs ''INSERT INTO w.w.w SELECT * FROM a.b.c'' []) = [''w.w.w'', ''a.b.c'']" by code_simp
  moreover have "needed_perm (classify_statement ''INSERT INTO w.w.w SELECT * FROM a.b.c'') = EDB_PERM_CREATE" by code_simp
  moreover have "keeps_out (json_env 9) (Single closed_cfg) EDB_PERM_READ 4 (ref_table ''a'' ''b'' ''c'' 1)"
    "\<not> keeps_out (json_env 9) (Single closed_cfg) EDB_PERM_CREATE 4 (ref_table ''a'' ''b'' ''c'' 1)"
    using closed_cfg_facts(2) [of "ref_table ''a'' ''b'' ''c'' 1"] by (simp_all add: keeps_out_def perm_mask_def ref_table_def)
  ultimately show ?thesis by blast
qed

end
