(* ===== verification/Api_Props.thy ===== *)
theory Api_Props
  imports Api_Data Eql_Props Repl_Converge
begin

text \<open>
  What the API guarantees of its callers: rights come from a session, from a password or from an empty
  user table; sessions work until they end; a document is returned exactly when the partition of the
  named database lets the caller in. And three gaps: the lock-out after failed attempts never happens,
  the database name that is checked is not the one that is read, and the body of a request can take the
  place of its session token.
\<close>

section \<open>Failed attempts\<close>

text \<open>The table of attempts after any failed and successful logins.\<close>

inductive throttle_run :: "edb_auth_attempt list \<Rightarrow> bool" where
  Start: "throttle_run (replicate EDB_AUTH_ATTEMPT_SLOTS empty_attempt)"
| Fail: "throttle_run ats \<Longrightarrow> 0 \<le> now \<Longrightarrow> throttle_run (edb_auth_throttle_fail now ip ats)"
| Reset: "throttle_run ats \<Longrightarrow> throttle_run (edb_auth_throttle_reset ip ats)"

definition never_counted :: "edb_auth_attempt \<Rightarrow> bool" where
  "never_counted a \<longleftrightarrow> at_fails a \<le> 1 \<and> at_locked_until a = 0"

lemma count_fail_once: "0 \<le> now \<Longrightarrow> never_counted a \<Longrightarrow> never_counted (count_fail now ip a)"
  by (auto simp: never_counted_def count_fail_def Let_def EDB_AUTH_MAX_FAILS_def)

lemma auth_slot_from_less:
  "auth_slot_from now ip i f as = Some j \<Longrightarrow> (case f of None \<Rightarrow> True | Some k \<Rightarrow> k < i) \<Longrightarrow> j < i + length as"
  by (induction as arbitrary: i f) (force split: if_splits option.splits)+

lemma auth_slot_less: "auth_slot now ip ats = Some j \<Longrightarrow> j < length ats"
  using auth_slot_from_less [of now ip 0 None ats j] by (simp add: auth_slot_def)

lemma throttle_run_never: "throttle_run ats \<Longrightarrow> a \<in> set ats \<Longrightarrow> never_counted a"
proof (induction arbitrary: a rule: throttle_run.induct)
  case Start
  then show ?case by (simp add: never_counted_def empty_attempt_def)
next
  case (Fail ats now ip)
  show ?case
  proof (cases "ip = [] \<or> auth_slot now ip ats = None")
    case True
    then have "edb_auth_throttle_fail now ip ats = ats" by (auto simp: edb_auth_throttle_fail_def)
    with Fail show ?thesis by simp
  next
    case False
    then obtain i where i: "auth_slot now ip ats = Some i" by auto
    with False have "edb_auth_throttle_fail now ip ats = ats[i := count_fail now ip (ats ! i)]"
      by (simp add: edb_auth_throttle_fail_def)
    moreover have "never_counted (count_fail now ip (ats ! i))"
      using Fail.IH Fail.hyps(2) auth_slot_less [OF i] by (intro count_fail_once) simp_all
    ultimately show ?thesis using Fail.prems Fail.IH set_update_subset_insert [of ats i] by auto
  qed
next
  case (Reset ats ip)
  have "never_counted empty_attempt" by (simp add: never_counted_def empty_attempt_def)
  with Reset set_update_first [of "\<lambda>a. strcmp (at_ip a) ip = 0" "\<lambda>_. empty_attempt" ats] show ?case
    by (auto simp: edb_auth_throttle_reset_def split: if_splits)
qed

lemma throttle_run_open:
  assumes "throttle_run ats"
  shows "\<not> edb_auth_throttled now ip ats"
proof -
  have "at_fails (ats ! i) \<le> 1" if "auth_slot now ip ats = Some i" for i
    using throttle_run_never [OF assms, of "ats ! i"] auth_slot_less [OF that] by (simp add: never_counted_def)
  then show ?thesis
    by (force simp: edb_auth_throttled_def EDB_AUTH_MAX_FAILS_def split: option.splits)
qed

text \<open>
  No source address is ever locked out: a failed attempt resets the counter of its slot whenever the
  slot is not locked, and the slot is only locked when the counter reaches 8, so the counter never
  passes 1, however many attempts fail.
\<close>

theorem throttle_never_locks:
  assumes "throttle_run ats"
  shows "\<not> edb_auth_throttled now ip ats"
  by (rule throttle_run_open [OF assms])

definition after_fails :: "nat \<Rightarrow> edb_auth_attempt list" where
  "after_fails n = (edb_auth_throttle_fail 1000 ''10.0.0.7'' ^^ n) (replicate EDB_AUTH_ATTEMPT_SLOTS empty_attempt)"

lemma after_fails_run: "throttle_run (after_fails n)"
  by (induction n) (simp_all add: after_fails_def throttle_run.intros)

theorem throttle_never_locks_witness: "\<not> edb_auth_throttled 1000 ''10.0.0.7'' (after_fails 20)"
  by (rule throttle_never_locks [OF after_fails_run])

section \<open>Sessions\<close>

definition token_free :: "string \<Rightarrow> edb_session list \<Rightarrow> bool" where
  "token_free token ss \<longleftrightarrow> \<not> (\<exists>s \<in> set ss. se_used s \<and> se_token s = token)"

lemma index_of_unique:
  assumes "i < length xs" "P (xs ! i)" "\<And>j. j < length xs \<Longrightarrow> P (xs ! j) \<Longrightarrow> j = i"
  shows "index_of P xs = Some i"
proof (cases "index_of P xs")
  case None
  then show ?thesis using assms(1,2) by (auto simp: index_of_None_iff)
next
  case (Some k)
  with index_of_SomeD [OF this] assms(3) show ?thesis by blast
qed

lemma session_slot_less: "ss \<noteq> [] \<Longrightarrow> session_slot now ss < length ss"
  by (auto simp: session_slot_def split: option.split dest: index_of_SomeD)

lemma created_index:
  assumes "ss \<noteq> []" "length token = 64" "token_free token ss"
  shows "index_of (\<lambda>s. se_used s \<and> se_token s = token) (session_create now user groups token ss) = Some (session_slot now ss)"
proof (rule index_of_unique)
  let ?i = "session_slot now ss" and ?ss = "session_create now user groups token ss"
  have i: "?i < length ss" by (rule session_slot_less [OF assms(1)])
  then show "?i < length ?ss" by (simp add: session_create_def)
  show "se_used (?ss ! ?i) \<and> se_token (?ss ! ?i) = token"
    using i assms(2) by (simp add: session_create_def snprintf_s_id)
  show "j = ?i" if "j < length ?ss" "se_used (?ss ! j) \<and> se_token (?ss ! j) = token" for j
    using that assms(3) nth_mem [of j ss] by (cases "j = ?i") (auto simp: session_create_def token_free_def)
qed

lemma filter_update_le:
  "filter P xs = [] \<Longrightarrow> length (filter P (xs[i := x])) \<le> 1"
  by (induction xs arbitrary: i) (auto simp: filter_empty_conv split: nat.splits if_splits)

lemma filter_update_first:
  "length (filter P xs) \<le> 1 \<Longrightarrow> (\<And>x. \<not> P (f x)) \<Longrightarrow> filter P (update_first P f xs) = []"
  by (induction xs) (auto split: if_splits)

text \<open>
  A fresh session token gives the user's name and groups until 12 hours have passed, and nothing from
  then on; once the session is destroyed it gives nothing either. Another session keeps its rights while
  a slot is free or expired.
\<close>

theorem session_life:
  assumes "ss \<noteq> []" and "length token = 64" and "token_free token ss"
  shows "snd (session_lookup t token (session_create now user groups token ss)) =
      (if t < now + EDB_SESSION_TTL then Some (snprintf_s 128 user, groups) else None) \<and>
    snd (session_lookup t token (session_destroy token (session_create now user groups token ss))) = None \<and>
    (\<forall>s \<in> set ss. (\<exists>x \<in> set ss. \<not> se_used x \<or> se_expires x \<le> now) \<and> se_used s \<and> now < se_expires s \<longrightarrow>
       s \<in> set (session_create now user groups token ss))"
proof (intro conjI ballI impI)
  let ?i = "session_slot now ss" and ?ss = "session_create now user groups token ss"
  let ?hit = "\<lambda>s. se_used s \<and> se_token s = token"
  note idx = created_index [OF assms, of now user groups]
  have i: "?i < length ss" by (rule session_slot_less [OF assms(1)])
  have new: "?ss ! ?i = \<lparr>se_token = token, se_username = snprintf_s 128 user, se_groups = groups,
      se_expires = now + EDB_SESSION_TTL, se_used = True\<rparr>"
    using i assms(2) by (simp add: session_create_def snprintf_s_id)
  show "snd (session_lookup t token ?ss) = (if t < now + EDB_SESSION_TTL then Some (snprintf_s 128 user, groups) else None)"
    by (simp add: session_lookup_def idx new snprintf_s_def)
  have "filter ?hit ss = []" using assms(3) by (auto simp: filter_empty_conv token_free_def)
  then have "length (filter ?hit ?ss) \<le> 1" unfolding session_create_def by (rule filter_update_le)
  then have "filter ?hit (session_destroy token ?ss) = []"
    unfolding session_destroy_def strcmp_eq_0_iff by (rule filter_update_first) simp
  then have "index_of ?hit (session_destroy token ?ss) = None"
    by (simp only: index_of_None_iff filter_empty_conv)
  then show "snd (session_lookup t token (session_destroy token ?ss)) = None"
    by (simp add: session_lookup_def)
  fix s
  assume s: "s \<in> set ss" "(\<exists>x \<in> set ss. \<not> se_used x \<or> se_expires x \<le> now) \<and> se_used s \<and> now < se_expires s"
  then obtain k where k: "index_of (\<lambda>s. \<not> se_used s \<or> se_expires s \<le> now) ss = Some k"
    by (cases "index_of (\<lambda>s. \<not> se_used s \<or> se_expires s \<le> now) ss") (auto simp: index_of_None_iff)
  from s(1) obtain j where j: "j < length ss" "ss ! j = s" by (auto simp: in_set_conv_nth)
  have "j \<noteq> k" using index_of_SomeD [OF k] s(2) j(2) by auto
  then have "?ss ! j = s" "j < length ?ss" using j k by (simp_all add: session_create_def session_slot_def)
  then show "s \<in> set ?ss" using nth_mem by blast
qed

definition no_sessions :: "edb_session list" where
  "no_sessions = replicate EDB_SESSION_CAPACITY \<lparr>se_token = [], se_username = [], se_groups = 0, se_expires = 0, se_used = False\<rparr>"

theorem session_life_witness:
  "snd (session_lookup 100 (replicate 64 (CHR ''a'')) (session_create 90 ''ann'' 1 (replicate 64 (CHR ''a'')) no_sessions)) =
     Some (''ann'', 1)"
proof -
  have "no_sessions \<noteq> []" "token_free (replicate 64 (CHR ''a'')) no_sessions"
    by (simp_all add: no_sessions_def EDB_SESSION_CAPACITY_def token_free_def)
  from session_life [OF this(1) length_replicate this(2), of 100 90 "''ann''" 1] show ?thesis
    by (simp add: EDB_SESSION_TTL_def snprintf_s_def)
qed

section \<open>Authentication\<close>

text \<open>Checks of credentials and permissions change no document and send nothing.\<close>

definition same_store :: "sqlite_env \<Rightarrow> 'n api \<Rightarrow> 'n api \<Rightarrow> bool" where
  "same_store e ap ap' \<longleftrightarrow>
     same_docs e (ap_store ap) (ap_store ap') \<and> is_single ap' = is_single ap \<and> ap_net ap' = ap_net ap"

lemma ap_cfg_set [simp]: "ap_cfg (set_ap_cfg cfg ap) = cfg" "is_single (set_ap_cfg cfg ap) = is_single ap"
  "ap_net (set_ap_cfg cfg ap) = ap_net ap" "ap_sessions (set_ap_cfg cfg ap) = ap_sessions ap"
  "ap_attempts (set_ap_cfg cfg ap) = ap_attempts ap"
  by (cases "ap_store ap"; simp add: set_ap_cfg_def is_single_def)+

lemma same_store_set:
  assumes "cfg_ok e (ap_cfg ap)" "cfg_ok e cfg" "shard_view (cfg_engine cfg) = shard_view (cfg_engine (ap_cfg ap))"
  shows "same_store e ap (set_ap_cfg cfg ap)"
  using assms by (simp add: same_store_def same_docs_def)

lemma same_store_trans: "same_store e a b \<Longrightarrow> same_store e b c \<Longrightarrow> same_store e a c"
  by (auto simp: same_store_def same_docs_def)

lemma same_store_refl: "cfg_ok e (ap_cfg ap) \<Longrightarrow> same_store e ap ap"
  by (simp add: same_store_def same_docs_refl)

lemma same_store_tables:
  "same_store e ap (ap'\<lparr>ap_sessions := ss\<rparr>) = same_store e ap ap'"
  "same_store e ap (ap'\<lparr>ap_attempts := ats\<rparr>) = same_store e ap ap'"
  "same_store e (ap\<lparr>ap_sessions := ss\<rparr>) ap' = same_store e ap ap'"
  "same_store e (ap\<lparr>ap_attempts := ats\<rparr>) ap' = same_store e ap ap'"
  by (simp_all add: same_store_def is_single_def)

lemma has_password_fetch: "fst (edb_user_has_password e cfg name) = fst (fetch e cfg CFG_KEYSPACE_USERS name)"
  by (simp add: edb_user_has_password_def split_beta)

lemma verify_fetch: "fst (edb_user_verify_password e cfg name pw) = fst (fetch e cfg CFG_KEYSPACE_USERS name)"
  by (simp add: edb_user_verify_password_def split_beta)

lemma verify_cong:
  assumes "cfg_ok e cfg"
  shows "snd (edb_user_verify_password e (fst (fetch e cfg ks d)) name pw) = snd (edb_user_verify_password e cfg name pw)"
    "snd (edb_user_get e (fst (fetch e cfg ks d)) name) = snd (edb_user_get e cfg name)"
proof -
  have "snd (fetch e (fst (fetch e cfg ks d)) CFG_KEYSPACE_USERS name) = snd (fetch e cfg CFG_KEYSPACE_USERS name)"
    using fetch_spec(1) [OF fetch_spec(2) [OF assms]] fetch_spec(1,3) [OF assms] by simp
  then show "snd (edb_user_verify_password e (fst (fetch e cfg ks d)) name pw) = snd (edb_user_verify_password e cfg name pw)"
    "snd (edb_user_get e (fst (fetch e cfg ks d)) name) = snd (edb_user_get e cfg name)"
    by (simp_all add: edb_user_verify_password_def edb_user_get_def split_beta)
qed

text \<open>A login with a password: what it grants, and that it changes no document.\<close>

definition verified :: "sqlite_env \<Rightarrow> edb_config \<Rightarrow> string \<Rightarrow> string option \<Rightarrow> bool" where
  "verified e cfg name password \<longleftrightarrow>
     (case password of
        None \<Rightarrow> False
      | Some pw \<Rightarrow> pw \<noteq> [] \<and> snd (edb_user_has_password e cfg name) \<and> snd (edb_user_verify_password e cfg name pw))"

lemma password_login_spec:
  fixes ip name :: string and password :: "string option" and ap :: "'n api"
  assumes "cfg_ok e (ap_cfg ap)"
  defines "r \<equiv> password_login e ip name password ap"
  shows "same_store e ap (fst r)"
    and "snd r = (if verified e (ap_cfg ap) name password then map_option us_groups (snd (edb_user_get e (ap_cfg ap) name)) else None)"
proof -
  define c where "c = (case password of
               None \<Rightarrow> (ap_cfg ap, False)
             | Some pw \<Rightarrow>
                 if pw = [] then (ap_cfg ap, False)
                 else let (cfg, has) = edb_user_has_password e (ap_cfg ap) name
                      in if \<not> has then (cfg, False) else edb_user_verify_password e cfg name pw)"
  note f = fetch_spec [OF assms(1), of CFG_KEYSPACE_USERS name]
  have c: "cfg_ok e (fst c)" "shard_view (cfg_engine (fst c)) = shard_view (cfg_engine (ap_cfg ap))"
    "snd c = verified e (ap_cfg ap) name password"
    "snd (edb_user_get e (fst c) name) = snd (edb_user_get e (ap_cfg ap) name)"
    using assms(1) f fetch_spec [OF f(2), of CFG_KEYSPACE_USERS name] verify_cong [OF assms(1)] verify_cong [OF f(2)]
    by (auto simp: c_def verified_def split_beta Let_def has_password_fetch verify_fetch split: option.splits)
  let ?ap = "set_ap_cfg (fst c) ap"
  have s: "same_store e ap ?ap" by (rule same_store_set [OF assms(1) c(1,2)])
  have g: "fst (edb_user_get e (fst c) name) = fst (fetch e (fst c) CFG_KEYSPACE_USERS name)"
    by (simp add: edb_user_get_def split_beta)
  note f2 = fetch_spec [OF c(1), of CFG_KEYSPACE_USERS name]
  have r: "r = (if \<not> snd c then (?ap\<lparr>ap_attempts := edb_auth_throttle_fail (now_epoch e) ip (ap_attempts ?ap)\<rparr>, None)
      else (set_ap_cfg (fst (edb_user_get e (fst c) name)) (?ap\<lparr>ap_attempts := edb_auth_throttle_reset ip (ap_attempts ?ap)\<rparr>),
        map_option us_groups (snd (edb_user_get e (fst c) name))))"
    by (simp add: r_def password_login_def Let_def split_beta flip: c_def)
  let ?b = "?ap\<lparr>ap_attempts := edb_auth_throttle_reset ip (ap_attempts ?ap)\<rparr>"
  have "same_store e ?b (set_ap_cfg (fst (edb_user_get e (fst c) name)) ?b)"
    using f2 c(1) by (intro same_store_set) (simp_all add: g)
  with s show "same_store e ap (fst r)"
    by (auto simp: r same_store_tables intro: same_store_trans)
  show "snd r = (if verified e (ap_cfg ap) name password then map_option us_groups (snd (edb_user_get e (ap_cfg ap) name)) else None)"
    by (simp add: r c)
qed

lemma session_lookup_found:
  assumes "snd (session_lookup now token ss) = Some (user, groups)"
  shows "\<exists>s \<in> set ss. se_used s \<and> se_token s = token \<and> now < se_expires s \<and> groups = se_groups s"
proof -
  from assms obtain i where i: "index_of (\<lambda>s. se_used s \<and> se_token s = token) ss = Some i"
    by (auto simp: session_lookup_def split: option.splits)
  with assms have "now < se_expires (ss ! i)" "groups = se_groups (ss ! i)"
    by (auto simp: session_lookup_def split: if_splits)
  then show ?thesis using index_of_SomeD [OF i] by auto
qed

lemma user_list_keeps:
  assumes "cfg_ok e (ap_cfg ap)" "list_ok e"
  shows "same_store e ap (set_ap_cfg (fst (edb_user_list e (ap_cfg ap))) ap)"
  using collect_spec [OF assms, of CFG_KEYSPACE_USERS] assms(1)
  by (intro same_store_set) (simp_all add: edb_user_list_def split_beta)

definition has_token :: "sqlite_env \<Rightarrow> http_request \<Rightarrow> bool" where
  "has_token e req \<longleftrightarrow> fst (credentials e req) \<noteq> None \<and> fst (credentials e req) \<noteq> Some []"

lemma authenticate_untrusted:
  fixes req :: http_request and ap :: "'n api"
  assumes "cfg_ok e (ap_cfg ap)" "list_ok e" "\<not> rq_trusted req"
  defines "r \<equiv> authenticate e req ap" and "token \<equiv> the (fst (credentials e req))"
  shows "same_store e ap (fst r)"
    and "snd (snd r) \<Longrightarrow> has_token e req \<Longrightarrow>
      (\<exists>s \<in> set (ap_sessions ap). se_used s \<and> se_token s = token \<and> now_epoch e < se_expires s \<and> fst (snd r) = se_groups s) \<or>
      verified e (ap_cfg ap) token (snd (credentials e req)) \<and>
        map_option us_groups (snd (edb_user_get e (ap_cfg ap) token)) = Some (fst (snd r))"
    and "\<not> has_token e req \<Longrightarrow> \<not> edb_auth_throttled (now_epoch e) (rq_peer_ip req) (ap_attempts ap) \<Longrightarrow>
      snd r = (if snd (edb_user_list e (ap_cfg ap)) \<noteq> [] then 0 else - 1, True)"
proof -
  obtain tok pw where cr: "credentials e req = (tok, pw)" by fastforce
  obtain ss found where lk: "session_lookup (now_epoch e) token (ap_sessions ap) = (ss, found)" by fastforce
  let ?ap = "ap\<lparr>ap_sessions := ss\<rparr>"
  have ok: "cfg_ok e (ap_cfg ?ap)" using assms(1) by simp
  note pl = password_login_spec [OF ok, of "rq_peer_ip req" token pw]
  obtain ap2 gr where p: "password_login e (rq_peer_ip req) token pw ?ap = (ap2, gr)" by fastforce
  consider (throttled) "edb_auth_throttled (now_epoch e) (rq_peer_ip req) (ap_attempts ap)"
    | (session) g u where "has_token e req" "found = Some (u, g)" "r = (?ap, g, True)"
    | (password) "has_token e req" "r = (ap2, case gr of Some g \<Rightarrow> (g, True) | None \<Rightarrow> (0, False))"
    | (anonymous) "\<not> has_token e req"
      "r = (set_ap_cfg (fst (edb_user_list e (ap_cfg ap))) ap, if snd (edb_user_list e (ap_cfg ap)) \<noteq> [] then 0 else - 1, True)"
    using assms(3) lk p unfolding r_def authenticate_def
    by (cases "edb_auth_throttled (now_epoch e) (rq_peer_ip req) (ap_attempts ap)"; cases "has_token e req"; cases found; cases gr)
      (auto simp: has_token_def token_def cr split_beta Let_def)
  note cases4 = this
  have thr: "r = (ap, 0, False)" if "edb_auth_throttled (now_epoch e) (rq_peer_ip req) (ap_attempts ap)"
    using that assms(3) by (simp add: r_def authenticate_def)
  show "same_store e ap (fst r)"
    using cases4
  proof cases
    case throttled
    then show ?thesis using thr same_store_refl [OF assms(1)] by simp
  next
    case session
    then show ?thesis using same_store_refl [OF assms(1)] by (simp add: same_store_tables)
  next
    case password
    then show ?thesis using pl(1) by (simp add: p same_store_tables)
  next
    case anonymous
    then show ?thesis using user_list_keeps [OF assms(1,2)] by simp
  qed
  show "(\<exists>s \<in> set (ap_sessions ap). se_used s \<and> se_token s = token \<and> now_epoch e < se_expires s \<and> fst (snd r) = se_groups s) \<or>
      verified e (ap_cfg ap) token (snd (credentials e req)) \<and>
        map_option us_groups (snd (edb_user_get e (ap_cfg ap) token)) = Some (fst (snd r))"
    if "snd (snd r)" "has_token e req"
    using cases4
  proof cases
    case throttled
    then show ?thesis using that thr by simp
  next
    case (session g u)
    then show ?thesis using session_lookup_found [of "now_epoch e" token "ap_sessions ap" u g] lk by auto
  next
    case password
    then show ?thesis using that pl(2) by (auto simp: p cr split: option.splits if_splits)
  next
    case anonymous
    then show ?thesis using that by simp
  qed
  show "snd r = (if snd (edb_user_list e (ap_cfg ap)) \<noteq> [] then 0 else - 1, True)"
    if "\<not> has_token e req" "\<not> edb_auth_throttled (now_epoch e) (rq_peer_ip req) (ap_attempts ap)"
    using cases4 that by cases auto
qed

text \<open>
  Rights have a reason. When an untrusted request is authenticated, it presented the token of a session
  that has not expired and gets the groups of that session, or it presented the name of a user with the
  password of that user and gets the groups of that user, or it presented nothing and gets no group at
  all, unless there are no users yet. Authentication changes no document.
\<close>

theorem authenticate_sound:
  assumes "cfg_ok e (ap_cfg ap)" and "list_ok e" and "\<not> rq_trusted req" and "authenticate e req ap = (ap', groups, True)"
  shows "same_store e ap ap' \<and>
    (if has_token e req
     then (\<exists>s \<in> set (ap_sessions ap). se_used s \<and> se_token s = the (fst (credentials e req)) \<and>
             now_epoch e < se_expires s \<and> groups = se_groups s) \<or>
          verified e (ap_cfg ap) (the (fst (credentials e req))) (snd (credentials e req)) \<and>
          (\<exists>u. snd (edb_user_get e (ap_cfg ap) (the (fst (credentials e req)))) = Some u \<and> groups = us_groups u)
     else groups = (if snd (edb_user_list e (ap_cfg ap)) \<noteq> [] then 0 else - 1))"
proof -
  note a = authenticate_untrusted [OF assms(1-3), unfolded assms(4), simplified]
  have "\<not> edb_auth_throttled (now_epoch e) (rq_peer_ip req) (ap_attempts ap)"
    using assms(3,4) by (auto simp: authenticate_def)
  then show ?thesis using a by auto
qed

section \<open>Reading a document\<close>

lemma authorize_spec:
  fixes ap :: "'n api"
  assumes "cfg_ok e (ap_cfg ap)"
  shows "snd (authorize_partition e db part groups perm ap) \<longleftrightarrow>
      (case snd (edb_partition_get e (ap_cfg ap) db part) of None \<Rightarrow> True | Some p \<Rightarrow> edb_check_perm (perm_mask perm p) groups)"
    "same_store e ap (fst (authorize_partition e db part groups perm ap))"
  using same_store_set [OF assms partition_get_spec(2,3) [OF assms]]
  by (simp_all add: authorize_partition_def split_beta)

lemma same_store_ok: "same_store e ap ap' \<Longrightarrow> cfg_ok e (ap_cfg ap')"
  by (simp add: same_store_def same_docs_def)

lemma same_store_view:
  "same_store e ap ap' \<Longrightarrow> shard_view (cfg_engine (ap_cfg ap')) = shard_view (cfg_engine (ap_cfg ap))"
  by (simp add: same_store_def same_docs_def)

lemma same_store_partition:
  "same_store e ap ap' \<Longrightarrow> snd (edb_partition_get e (ap_cfg ap') db part) = snd (edb_partition_get e (ap_cfg ap) db part)"
  by (simp add: same_store_def same_docs_def partition_get_spec(1) cfg_doc_def)

lemma engine_get_store:
  fixes ap :: "'n api"
  assumes "cfg_ok e (ap_cfg ap)"
  shows "snd (ap_engine_op (\<lambda>en. edb_get e en part ks d) ap) = get_rows e (shard_view (cfg_engine (ap_cfg ap)) (shard_key part ks)) d"
    "same_store e ap (fst (ap_engine_op (\<lambda>en. edb_get e en part ks d) ap))"
proof -
  note c = cfg_okD [OF assms]
  show "snd (ap_engine_op (\<lambda>en. edb_get e en part ks d) ap) = get_rows e (shard_view (cfg_engine (ap_cfg ap)) (shard_key part ks)) d"
    using engine_get [OF c(1,2)] by (simp add: ap_engine_op_def split_beta)
  show "same_store e ap (fst (ap_engine_op (\<lambda>en. edb_get e en part ks d) ap))"
    using engine_get_keeps [OF c(1,2), of part ks d] same_store_set [OF assms, of "(ap_cfg ap)\<lparr>cfg_engine := fst (edb_get e (cfg_engine (ap_cfg ap)) part ks d)\<rparr>"] c
    by (simp add: ap_engine_op_def split_beta cfg_ok_def)
qed

text \<open>The answer to a caller with these groups, on a node without replication.\<close>

definition get_answer :: "sqlite_env \<Rightarrow> edb_config \<Rightarrow> string \<Rightarrow> string \<Rightarrow> string \<Rightarrow> string \<Rightarrow> u64 \<Rightarrow> http_response" where
  "get_answer e cfg db part ks doc_id groups =
     (if (case snd (edb_partition_get e cfg db part) of None \<Rightarrow> True | Some p \<Rightarrow> edb_check_perm (perm_mask EDB_PERM_READ p) groups)
      then case get_rows e (shard_view (cfg_engine cfg) (shard_key part ks)) doc_id of
             None \<Rightarrow> respond_error e 404 ''not found''
           | Some d \<Rightarrow> respond_json e 200 (Some d)
      else respond_error e 403 ''permission denied'')"

lemma get_after_auth:
  assumes "cfg_ok e (ap_cfg ap)" "is_single ap" "\<not> ap_restore_locked ap"
    "split_data_path (rq_path req) = Some (db, part, ks, doc_id)" "authenticate e req ap = (ap1, groups, True)" "same_store e ap ap1"
  shows "snd (handle_data_get e exchange req ap) = get_answer e (ap_cfg ap) db part ks doc_id groups"
    "same_store e ap (fst (handle_data_get e exchange req ap))"
proof -
  note ok1 = same_store_ok [OF assms(6)]
  obtain ap2 allowed where az: "authorize_partition e db part groups EDB_PERM_READ ap1 = (ap2, allowed)" by fastforce
  note a = authorize_spec [OF ok1, of db part groups EDB_PERM_READ, unfolded az, simplified]
  note s2 = same_store_trans [OF assms(6) a(2)]
  note ok2 = same_store_ok [OF s2]
  note g = engine_get_store [OF ok2, of part ks doc_id]
  have single: "read_document e exchange db part ks doc_id ap2 = ap_engine_op (\<lambda>en. edb_get e en part ks doc_id) ap2"
    using assms(2) s2 by (cases "ap_store ap2") (auto simp: read_document_def is_single_def same_store_def)
  show "snd (handle_data_get e exchange req ap) = get_answer e (ap_cfg ap) db part ks doc_id groups"
    using a(1) g(1) same_store_partition [OF assms(6), of db part] same_store_view [OF s2]
    by (simp add: handle_data_get_def assms(3-5) az single split_beta get_answer_def)
  show "same_store e ap (fst (handle_data_get e exchange req ap))"
    using s2 same_store_trans [OF s2 g(2)]
    by (simp add: handle_data_get_def assms(3-5) az single split_beta)
qed

lemma next_token_seg:
  assumes "seg \<noteq> []" "CHR ''/'' \<notin> set seg"
  shows "next_token (seg @ CHR ''/'' # r) = Some (seg, r)"
proof -
  have "dropWhile (\<lambda>c. c = CHR ''/'') (seg @ CHR ''/'' # r) = seg @ CHR ''/'' # r"
    using assms by (cases seg) auto
  moreover have "takeWhile (\<lambda>c. c \<noteq> CHR ''/'') (seg @ CHR ''/'' # r) = seg"
    "dropWhile (\<lambda>c. c \<noteq> CHR ''/'') (seg @ CHR ''/'' # r) = CHR ''/'' # r"
    using assms(2) by (induction seg) auto
  ultimately show ?thesis using assms(1) by (simp add: next_token_def Let_def)
qed

definition segment :: "nat \<Rightarrow> string \<Rightarrow> bool" where
  "segment cap s \<longleftrightarrow> s \<noteq> [] \<and> CHR ''/'' \<notin> set s \<and> length s < cap"

definition data_path :: "string \<Rightarrow> string \<Rightarrow> string \<Rightarrow> string \<Rightarrow> string" where
  "data_path db part ks doc_id = ''/data/'' @ db @ CHR ''/'' # part @ CHR ''/'' # ks @ CHR ''/'' # doc_id"

text \<open>The path of a document is split into its four names, up to their longest lengths.\<close>

lemma split_data_path_roundtrip:
  assumes "segment 128 db" "segment 256 part" "segment 128 ks" "segment 512 doc_id"
  shows "split_data_path (data_path db part ks doc_id) = Some (db, part, ks, doc_id)"
proof -
  let ?w = "db @ CHR ''/'' # part @ CHR ''/'' # ks @ CHR ''/'' # doc_id"
  have seg: "db \<noteq> []" "CHR ''/'' \<notin> set db" "part \<noteq> []" "CHR ''/'' \<notin> set part" "ks \<noteq> []" "CHR ''/'' \<notin> set ks"
    "doc_id \<noteq> []" "CHR ''/'' \<notin> set doc_id"
    and len: "length db < 128" "length part < 256" "length ks < 128" "length doc_id < 512"
    using assms by (simp_all add: segment_def)
  have "length ?w < 1024" using len by simp
  then have w: "snprintf_s 1024 ?w = ?w" by (rule snprintf_s_id)
  have "last ?w = last doc_id" using seg by simp
  then have "last ?w \<noteq> CHR ''/''" using seg(7,8) last_in_set by metis
  then show ?thesis
    using w seg len
    by (simp add: split_data_path_def data_path_def Let_def next_token_seg snprintf_s_id)
qed

text \<open>
  The permissions of a partition are looked up under the database name of the path, but documents are
  stored under partition and keyspace only. A caller without any credentials who names a database that
  has no record of the system partition is given every record of the configuration, users with salts and
  password hashes included, however many users there are.
\<close>

theorem system_store_open:
  assumes "cfg_ok e (ap_cfg ap)" and "list_ok e" and "is_single ap" and "\<not> ap_restore_locked ap"
    and "throttle_run (ap_attempts ap)" and "\<not> rq_trusted req" and "\<not> has_token e req"
    and "rq_path req = data_path db EDB_SYSTEM_DB ks name" and "segment 128 db" and "segment 128 ks" and "segment 512 name"
    and "cfg_doc e CFG_KEYSPACE_PARTITIONS (ap_cfg ap) (partition_id db EDB_SYSTEM_DB) = None"
    and "cfg_doc e ks (ap_cfg ap) name = Some obj"
  shows "snd (handle_data_get e exchange req ap) = respond_json e 200 (Some obj)"
proof -
  have "\<not> edb_auth_throttled (now_epoch e) (rq_peer_ip req) (ap_attempts ap)"
    by (rule throttle_run_open [OF assms(5)])
  note a = authenticate_untrusted [OF assms(1,2,6)] and third = authenticate_untrusted(3) [OF assms(1,2,6,7) this]
  obtain ap1 groups where auth: "authenticate e req ap = (ap1, groups, True)"
    using third by (cases "authenticate e req ap") auto
  have "segment 256 EDB_SYSTEM_DB" by (simp add: segment_def EDB_SYSTEM_DB_def)
  then have "split_data_path (rq_path req) = Some (db, EDB_SYSTEM_DB, ks, name)"
    using assms(8-11) by (simp add: split_data_path_roundtrip)
  from get_after_auth(1) [OF assms(1,3,4) this auth] a(1) auth assms(12,13) show ?thesis
    by (simp add: get_answer_def partition_get_spec(1) [OF assms(1)] cfg_doc_def)
qed

section \<open>Witnesses\<close>

text \<open>A node with one user, and a request without credentials.\<close>

definition ann_cfg :: edb_config where
  "ann_cfg = fst (store (json_env 9) demo_config CFG_KEYSPACE_USERS ''ann'' (user_record ''ann'' 1))"

definition ann_api :: "unit api" where
  "ann_api = \<lparr>ap_net = (), ap_store = Single ann_cfg, ap_restore_locked = False,
     ap_attempts = replicate EDB_AUTH_ATTEMPT_SLOTS empty_attempt, ap_sessions = no_sessions\<rparr>"

definition plain_get :: "string \<Rightarrow> http_request" where
  "plain_get path = \<lparr>rq_method = ''GET'', rq_path = path, rq_query = [], rq_headers = [], rq_body = [],
     rq_peer_ip = ''10.0.0.7'', rq_trusted = False\<rparr>"

lemma ann_store:
  "cfg_ok (json_env 9) demo_config" "cfg_local (json_env 9) demo_config" "json_plain (user_record ''ann'' 1)"
  by simp_all

lemmas ann_store_spec =
  store_spec [OF ann_store(1) disjI1 [OF ann_store(2)] ann_store(3), where ks = CFG_KEYSPACE_USERS and d = "''ann''",
    folded ann_cfg_def]

lemma ann_cfg_facts:
  "cfg_ok (json_env 9) ann_cfg"
  "cfg_doc (json_env 9) CFG_KEYSPACE_USERS ann_cfg ''ann'' = Some (user_record ''ann'' 1)"
  by (rule ann_store_spec(2)) (simp add: ann_store_spec(3))

lemma ann_no_partition:
  assumes "d \<noteq> ''ann''"
  shows "cfg_doc (json_env 9) CFG_KEYSPACE_PARTITIONS ann_cfg d = None"
proof (cases "shard_key EDB_SYSTEM_DB CFG_KEYSPACE_PARTITIONS = shard_key EDB_SYSTEM_DB CFG_KEYSPACE_USERS")
  case True
  then have "cfg_doc (json_env 9) CFG_KEYSPACE_PARTITIONS ann_cfg d = cfg_doc (json_env 9) CFG_KEYSPACE_USERS ann_cfg d"
    by (simp add: cfg_doc_def)
  then show ?thesis using assms by (simp add: ann_store_spec(3))
next
  case False
  from ann_store_spec(5) [OF False] show ?thesis by (simp add: cfg_doc_def get_rows_def)
qed

lemma plain_get_credentials: "credentials e (plain_get path) = (None, None)"
  by (simp add: credentials_def plain_get_def header_token_def header_password_def edb_http_header_def first_match_def)

lemma ann_api_facts:
  "cfg_ok (json_env 9) (ap_cfg ann_api)" "is_single ann_api" "\<not> ap_restore_locked ann_api"
  "throttle_run (ap_attempts ann_api)" "ap_cfg ann_api = ann_cfg"
  using ann_cfg_facts(1) Start by (simp_all add: ann_api_def is_single_def)

lemma plain_get_facts:
  "\<not> rq_trusted (plain_get path)" "\<not> has_token (json_env 9) (plain_get path)" "rq_path (plain_get path) = path"
  by (simp add: plain_get_def) (simp add: has_token_def plain_get_credentials, simp add: plain_get_def)

lemma ann_segments: "segment 128 ''x''" "segment 128 CFG_KEYSPACE_USERS" "segment 512 ''ann''"
  by (simp_all add: segment_def CFG_KEYSPACE_USERS_def)

lemma x_partition: "partition_id ''x'' EDB_SYSTEM_DB \<noteq> ''ann''"
  by (simp add: partition_id_def EDB_SYSTEM_DB_def snprintf_s_id)

theorem system_store_open_witness:
  "snd (handle_data_get (json_env 9) no_net (plain_get (data_path ''x'' EDB_SYSTEM_DB CFG_KEYSPACE_USERS ''ann'')) ann_api) =
     respond_json (json_env 9) 200 (Some (user_record ''ann'' 1))"
proof (rule system_store_open [OF ann_api_facts(1) _ ann_api_facts(2-4) plain_get_facts ann_segments])
  show "cfg_doc (json_env 9) CFG_KEYSPACE_PARTITIONS (ap_cfg ann_api) (partition_id ''x'' EDB_SYSTEM_DB) = None"
    unfolding ann_api_facts(5) by (rule ann_no_partition [OF x_partition])
  show "cfg_doc (json_env 9) CFG_KEYSPACE_USERS (ap_cfg ann_api) ''ann'' = Some (user_record ''ann'' 1)"
    unfolding ann_api_facts(5) by (rule ann_cfg_facts(2))
qed simp

theorem authenticate_sound_witness:
  "same_store (json_env 9) ann_api (fst (authenticate (json_env 9) (plain_get ''/status'') ann_api)) \<and>
   fst (snd (authenticate (json_env 9) (plain_get ''/status'') ann_api)) =
     (if snd (edb_user_list (json_env 9) (ap_cfg ann_api)) \<noteq> [] then 0 else - 1)"
proof -
  let ?r = "authenticate (json_env 9) (plain_get ''/status'') ann_api"
  note ok = ann_api_facts(1) and u = plain_get_facts(1,2) [of "''/status''"]
  have "\<not> edb_auth_throttled (now_epoch (json_env 9)) (rq_peer_ip (plain_get ''/status'')) (ap_attempts ann_api)"
    by (rule throttle_run_open [OF ann_api_facts(4)])
  then have "?r = (fst ?r, fst (snd ?r), True)"
    using authenticate_untrusted(3) [OF ok _ u] by (metis prod.collapse json_env_simps(3) snd_conv)
  from authenticate_sound [OF ok _ u(1) this] u(2) show ?thesis by simp
qed

end
