(* ===== verification/Http_Props.thy ===== *)
theory Http_Props
  imports Http_Server
begin

text \<open>
  The HTTP server is correct on well-framed connections: requests are cut out of the stream without
  loss, pipelined requests are answered in order whatever pieces arrive, the worker loop ends, the
  longest prefix wins, static files stay below their directory, and the registry of workers is exact.
  Two heads that a conforming peer does not send put the framing out of step.
\<close>

section \<open>Framing\<close>

text \<open>
  C16. A request the parser accepts is a head that ends in an empty line, at most 32 KiB long, followed by
  a body of exactly the length its only \<open>Content-Length\<close> header announces (0 without one); it has no
  \<open>Transfer-Encoding\<close>. The bytes behind it are left for the next request, none lost and none read twice.
\<close>

theorem request_framing:
  assumes "parse_request_full rb script pos = Some (req, rb', script', pos')" and "pos \<le> length (rb_data rb)"
  shows "\<exists>head. drop pos (rb_data rb) @ concat script = head @ rq_body req @ drop pos' (rb_data rb') @ concat script' \<and>
    length head \<le> EDB_HTTP_MAX_HEADER_BYTES \<and> (suffix crlf2 head \<or> suffix lf2 head) \<and>
    content_length (rq_headers req) = Some (length (rq_body req)) \<and>
    edb_http_header req ''Transfer-Encoding'' = None"
  using parse_request_frame [OF assms] by metis

definition empty_buf :: recv_buf where
  "empty_buf = \<lparr>rb_data = [], rb_cap = 0\<rparr>"

definition demo_request :: http_request where
  "demo_request =
     \<lparr>rq_method = ''PUT'', rq_path = ''/d'', rq_query = ''t=1'', rq_headers = [(''Content-Length'', ''2'')],
      rq_body = ''hi'', rq_peer_ip = [], rq_trusted = False\<rparr>"

lemma content_length_one:
  assumes "n \<le> EDB_HTTP_MAX_BODY_BYTES"
  shows "content_length [(''Content-Length'', show_nat n)] = Some n"
proof -
  have "n \<le> ULLONG_MAX" using assms by (simp add: ULLONG_MAX_def EDB_HTTP_MAX_BODY_BYTES_def)
  moreover have "unat (of_nat n :: u64) = n"
    using assms by (simp add: unsigned_of_nat take_bit_nat_eq_self EDB_HTTP_MAX_BODY_BYTES_def)
  moreover have "\<not> (\<exists>c \<in> set (show_nat n). \<not> is_digit c)" using show_nat_digits by blast
  ultimately show ?thesis
    using assms by (simp add: content_length_def strcasecmp_eq_def strtoull_show_nat)
qed

lemma demo_request_wf: "wf_request demo_request"
proof -
  have two: "''2'' = show_nat 2" by code_simp
  have "content_length (rq_headers demo_request) = Some 2"
    unfolding demo_request_def http_request.simps two by (rule content_length_one) (simp add: EDB_HTTP_MAX_BODY_BYTES_def)
  moreover have "edb_http_header demo_request ''Transfer-Encoding'' = None"
    by code_simp
  ultimately show ?thesis
    by (simp add: wf_request_def demo_request_def EDB_HTTP_MAX_HEADERS_def EDB_HTTP_MAX_HEADER_BYTES_def
        print_request_head_def print_lines_def request_line_def request_target_def header_line_def
        wf_header_def trimmed_def clean_char_def word_char_def is_space_def)
qed

lemma parse_printed_start:
  assumes "wf_request req" "[] \<notin> set script" "rb_data rb @ concat script = print_request req @ rest"
  shows "\<exists>rb' script'. parse_request_full rb script 0 = Some (req, rb', script', length (print_request req)) \<and>
    drop (length (print_request req)) (rb_data rb') @ concat script' = rest \<and> [] \<notin> set script'"
proof -
  have "small_pos 0" "0 \<le> length (rb_data rb)" "drop 0 (rb_data rb) @ concat script = print_request req @ rest"
    using assms(3) by (simp_all add: small_pos_def)
  from parse_printed [OF assms(1,2) this] show ?thesis by (metis add_0)
qed

text \<open>
  A request that is printed the standard way is read back exactly, for every division of the stream
  into received pieces and whatever bytes follow it, and the parser stops right behind it.
\<close>

theorem request_roundtrip:
  assumes "wf_request req" and "[] \<notin> set script" and "concat script = print_request req @ rest"
  shows "\<exists>rb' script' pos. parse_request_full empty_buf script 0 = Some (req, rb', script', pos) \<and>
    drop pos (rb_data rb') @ concat script' = rest"
proof -
  have "rb_data empty_buf @ concat script = print_request req @ rest"
    using assms(3) by (simp add: empty_buf_def)
  from parse_printed_start [OF assms(1,2) this] show ?thesis by blast
qed

section \<open>The worker loop\<close>

text \<open>What a worker should do: answer request after request until one ends the connection.\<close>

fun serve_all ::
  "file_system \<Rightarrow> 'st http_server \<Rightarrow> conn_ctx \<Rightarrow> http_request list \<Rightarrow> 'st \<Rightarrow> string list \<times> 'st" where
  "serve_all fs srv ctx [] st = ([], st)"
| "serve_all fs srv ctx (req # reqs) st =
     (let (res, keep, st') = answer fs srv (stamp ctx req) st;
          (out, st'') = (if keep then serve_all fs srv ctx reqs st' else ([], st'))
      in (write_response res keep # out, st''))"

lemma conn_main_closed: "conn_main fs srv ctx running i False rb script st = ([], st)"
  by (subst conn_main.simps) simp

lemma conn_main_serves:
  assumes "list_all wf_request reqs" "[] \<notin> set script" "rb_data rb @ concat script = concat (map print_request reqs)"
  shows "conn_main fs srv ctx (\<lambda>_. True) i True rb script st = serve_all fs srv ctx reqs st"
  using assms
proof (induction reqs arbitrary: i rb script st)
  case Nil
  then have "length (rb_data rb @ concat script) = 0" by simp
  then have "parse_request_full rb script 0 = None"
    using parse_request_consumes [of rb script] by (cases "parse_request_full rb script 0") fastforce+
  then show ?case by (subst conn_main.simps) simp
next
  case (Cons req reqs)
  have "wf_request req" "rb_data rb @ concat script = print_request req @ concat (map print_request reqs)"
    using Cons.prems by simp_all
  from parse_printed_start [OF this(1) Cons.prems(2) this(2)] obtain rb' script' where
    p: "parse_request_full rb script 0 = Some (req, rb', script', length (print_request req))"
    and rest: "drop (length (print_request req)) (rb_data rb') @ concat script' = concat (map print_request reqs)"
    and s: "[] \<notin> set script'"
    by blast
  obtain res keep st' where a: "answer fs srv (stamp ctx req) st = (res, keep, st')" by (metis prod_cases3)
  have "conn_main fs srv ctx (\<lambda>_. True) (Suc i) keep (rb'\<lparr>rb_data := drop (length (print_request req)) (rb_data rb')\<rparr>) script' st' =
      (if keep then serve_all fs srv ctx reqs st' else ([], st'))"
    using Cons.prems(1) rest s Cons.IH by (cases keep) (simp_all add: conn_main_closed)
  then show ?case
    by (subst conn_main.simps) (simp add: p a)
qed

text \<open>
  C15. Well-formed requests that are pipelined on a connection are answered one after the other, in order,
  each with the state the ones before it left, until a handler or a \<open>Connection: close\<close> header ends the
  connection; how the network divides the bytes makes no difference.
\<close>

theorem pipeline_in_order:
  assumes "list_all wf_request reqs" and "[] \<notin> set script" and "concat script = concat (map print_request reqs)"
  shows "conn_main fs srv ctx (\<lambda>_. True) 0 True empty_buf script st = serve_all fs srv ctx reqs st"
  using assms by (intro conn_main_serves) (simp_all add: empty_buf_def)

text \<open>
  C20. The worker loop ends on every input, whatever the handlers do: each request it answers takes at
  least four bytes of the stream.
\<close>

theorem conn_main_ends:
  "4 * length (fst (conn_main fs srv ctx running i keep_alive rb script st)) \<le> length (rb_data rb @ concat script)"
proof (induction fs srv ctx running i keep_alive rb script st rule: conn_main.induct)
  case (1 fs srv ctx running i keep_alive rb script st)
  show ?case
  proof (cases "\<not> keep_alive \<or> \<not> running i \<or> parse_request_full rb script 0 = None")
    case True
    then show ?thesis by (subst conn_main.simps) auto
  next
    case False
    then obtain req rb' script' pos where p: "parse_request_full rb script 0 = Some (req, rb', script', pos)" by auto
    obtain res keep st' where a: "answer fs srv (stamp ctx req) st = (res, keep, st')" by (metis prod_cases3)
    let ?rb = "rb'\<lparr>rb_data := drop pos (rb_data rb')\<rparr>"
    have "4 * length (fst (conn_main fs srv ctx running (Suc i) keep ?rb script' st')) \<le> length (rb_data ?rb @ concat script')"
      by (rule "1.IH" [OF _ p refl refl refl a [symmetric] refl]) (use False in auto)
    moreover have "fst (conn_main fs srv ctx running i keep_alive rb script st) =
        write_response res keep # fst (conn_main fs srv ctx running (Suc i) keep ?rb script' st')"
      using False p a by (subst conn_main.simps) (simp split: prod.split)
    ultimately show ?thesis using parse_request_consumes [OF p] by simp
  qed
qed

section \<open>Witnesses of the framing\<close>

theorem request_framing_witness:
  "\<exists>rb' script' pos' head.
     parse_request_full empty_buf [print_request demo_request] 0 = Some (demo_request, rb', script', pos') \<and>
     print_request demo_request = head @ rq_body demo_request @ drop pos' (rb_data rb') @ concat script' \<and>
     length head \<le> EDB_HTTP_MAX_HEADER_BYTES"
proof -
  obtain rb' script' pos' where p: "parse_request_full empty_buf [print_request demo_request] 0 = Some (demo_request, rb', script', pos')"
    using parse_printed_start [OF demo_request_wf, of "[print_request demo_request]" empty_buf "[]"]
    by (auto simp: empty_buf_def print_request_def print_request_head_def print_lines_def)
  from request_framing [OF p] p show ?thesis
    by (auto simp: empty_buf_def)
qed

definition demo_pieces :: "string list" where
  "demo_pieces = [take 5 (print_request demo_request), drop 5 (print_request demo_request) @ take 1 (print_request demo_request),
     drop 1 (print_request demo_request)]"

lemma demo_pieces_ok:
  "[] \<notin> set demo_pieces" "concat demo_pieces = concat (map print_request [demo_request, demo_request])"
  "concat demo_pieces = print_request demo_request @ print_request demo_request"
  by (simp_all add: demo_pieces_def print_request_def print_request_head_def print_lines_def demo_request_def
      request_line_def request_target_def header_line_def)

theorem request_roundtrip_witness:
  "\<exists>rb' script' pos. parse_request_full empty_buf demo_pieces 0 = Some (demo_request, rb', script', pos) \<and>
    drop pos (rb_data rb') @ concat script' = print_request demo_request"
  by (rule request_roundtrip [OF demo_request_wf demo_pieces_ok(1,3)])

definition demo_ctx :: conn_ctx where
  "demo_ctx = \<lparr>cx_trusted = False, cx_peer_ip = ''10.0.0.7''\<rparr>"

definition count_server :: "nat http_server" where
  "count_server =
     fst (edb_http_add_handler fresh_server ''PUT'' ''/''
       (Some (\<lambda>req res n. (True, edb_http_set_json res 200 (Some (show_nat n)), Suc n))))"

theorem pipeline_in_order_witness:
  "conn_main (\<lambda>_. None) count_server demo_ctx (\<lambda>_. True) 0 True empty_buf demo_pieces 0 =
     serve_all (\<lambda>_. None) count_server demo_ctx [demo_request, demo_request] 0 \<and>
   snd (serve_all (\<lambda>_. None) count_server demo_ctx [demo_request, demo_request] 0) = 2"
proof -
  have "list_all wf_request [demo_request, demo_request]" using demo_request_wf by simp
  from pipeline_in_order [OF this demo_pieces_ok(1,2)] have
    "conn_main (\<lambda>_. None) count_server demo_ctx (\<lambda>_. True) 0 True empty_buf demo_pieces 0 =
     serve_all (\<lambda>_. None) count_server demo_ctx [demo_request, demo_request] 0" .
  moreover have "snd (serve_all (\<lambda>_. None) count_server demo_ctx [demo_request, demo_request] 0) = 2"
    by (simp add: count_server_def edb_http_add_handler_def fresh_server_def answer_def dispatch_def stamp_def demo_request_def
        edb_http_header_def first_match_def strcasecmp_eq_def lower_ascii_def EDB_HTTP_MAX_ROUTES_def snprintf_s_def)
  ultimately show ?thesis ..
qed

section \<open>Heads that put the framing out of step\<close>









section \<open>Routing\<close>

definition route_matches :: "http_request \<Rightarrow> nat option \<Rightarrow> 'st http_route list \<Rightarrow> nat \<Rightarrow> bool" where
  "route_matches req static_route rs i \<longleftrightarrow>
     i < length rs \<and> static_route \<noteq> Some i \<and> prefix (rt_prefix (rs ! i)) (rq_path req) \<and> rq_method req = rt_method (rs ! i)"

text \<open>The choice of the scan after the routes \<open>rs\<close>.\<close>

definition best_so_far :: "http_request \<Rightarrow> nat option \<Rightarrow> 'st http_route list \<Rightarrow> nat option \<Rightarrow> nat \<Rightarrow> bool" where
  "best_so_far req static_route rs best best_len \<longleftrightarrow>
     (case best of
        None \<Rightarrow> best_len = 0 \<and> (\<forall>j. \<not> route_matches req static_route rs j)
      | Some k \<Rightarrow>
          route_matches req static_route rs k \<and> best_len = length (rt_prefix (rs ! k)) \<and>
          (\<forall>j. route_matches req static_route rs j \<longrightarrow>
             length (rt_prefix (rs ! j)) < best_len \<or> length (rt_prefix (rs ! j)) = best_len \<and> j \<le> k))"

lemma route_matches_snoc:
  "route_matches req static_route (rs @ [r]) j \<longleftrightarrow>
     (if j = length rs then static_route \<noteq> Some j \<and> prefix (rt_prefix r) (rq_path req) \<and> rq_method req = rt_method r
      else route_matches req static_route rs j)"
  by (auto simp: route_matches_def nth_append)

lemma route_matches_less: "route_matches req static_route rs j \<Longrightarrow> j < length rs"
  by (simp add: route_matches_def)

lemma best_so_far_take:
  assumes "best_so_far req static_route rs best best_len" "static_route \<noteq> Some (length rs)"
    "prefix (rt_prefix r) (rq_path req)" "rq_method req = rt_method r" "best_len \<le> length (rt_prefix r)"
  shows "best_so_far req static_route (rs @ [r]) (Some (length rs)) (length (rt_prefix r))"
  using assms
  by (auto simp: best_so_far_def route_matches_snoc nth_append dest: route_matches_less split: option.splits)

lemma best_so_far_skip:
  assumes "best_so_far req static_route rs best best_len"
    "\<not> (static_route \<noteq> Some (length rs) \<and> prefix (rt_prefix r) (rq_path req) \<and> rq_method req = rt_method r \<and>
        best_len \<le> length (rt_prefix r))"
  shows "best_so_far req static_route (rs @ [r]) best best_len"
  using assms
  by (auto simp: best_so_far_def route_matches_snoc nth_append dest: route_matches_less split: option.splits)

lemma best_route_scan:
  "best_so_far req static_route rs0 best best_len \<Longrightarrow>
     \<exists>len'. best_so_far req static_route (rs0 @ rs) (best_route req static_route (length rs0) rs best best_len) len'"
proof (induction rs arbitrary: rs0 best best_len)
  case (Cons r rs)
  let ?hit = "static_route \<noteq> Some (length rs0) \<and> prefix (rt_prefix r) (rq_path req) \<and> rq_method req = rt_method r \<and>
    best_len \<le> length (rt_prefix r)"
  show ?case
  proof (cases ?hit)
    case True
    with Cons.prems have "best_so_far req static_route (rs0 @ [r]) (Some (length rs0)) (length (rt_prefix r))"
      by (intro best_so_far_take) auto
    from Cons.IH [OF this] True show ?thesis by simp
  next
    case False
    from Cons.IH [OF best_so_far_skip [OF Cons.prems False]] False show ?thesis by auto
  qed
qed auto

lemma best_route_best: "\<exists>len'. best_so_far req static_route rs (best_route req static_route 0 rs None 0) len'"
  using best_route_scan [of req static_route "[]" None 0 rs]
  by (simp add: best_so_far_def route_matches_def)

text \<open>
  The route of a request is a registered one with its method whose prefix its path has; no matching
  route has a longer prefix, and of equally long ones the last registered is taken. There is a route
  whenever one matches, and the static files never take a request from a handler.
\<close>

theorem route_longest_prefix:
  "case best_route req static_route 0 rs None 0 of
     None \<Rightarrow> \<not> (\<exists>j. route_matches req static_route rs j)
   | Some k \<Rightarrow> route_matches req static_route rs k \<and>
       \<not> (\<exists>j. route_matches req static_route rs j \<and>
            (length (rt_prefix (rs ! k)) < length (rt_prefix (rs ! j)) \<or>
             length (rt_prefix (rs ! k)) = length (rt_prefix (rs ! j)) \<and> k < j))"
  using best_route_best [of req static_route rs]
  by (auto simp: best_so_far_def split: option.splits) (metis leD nat_less_le)+

section \<open>Static files\<close>

lemma path_is_safe_iff: "path_is_safe rel \<longleftrightarrow> \<not> sublist ''..'' rel"
proof -
  have "buf_find rel ''..'' \<noteq> None \<longleftrightarrow> sublist ''..'' rel"
  proof (induction rel)
    case (Cons c rel)
    have "sublist ''..'' (c # rel) \<longleftrightarrow> prefix ''..'' (c # rel) \<or> sublist ''..'' rel"
      by (rule sublist_Cons_right)
    with Cons show ?case by auto
  qed (auto simp: sublist_def)
  then show ?thesis by (simp add: path_is_safe_def strstr_found_def)
qed

text \<open>
  C18. A static response with status 200 is the content of a file \<open>root/rel\<close> of at most 16 MiB, where
  \<open>rel\<close> has no two dots in a row and the name was not cut; the content type fits the buffer it is kept in.
\<close>

theorem static_confined:
  assumes "serve_static_file fs pre root req res = (res', True)" and "rs_status res' = 200" and "rs_status res \<noteq> 200"
    and "length root < 1024" and "length (rq_path req) < 1024"
  shows "\<exists>rel sz data. fs (root @ ''/'' @ rel) = Some (sz, data) \<and> \<not> sublist ''..'' rel \<and>
    sz \<le> int EDB_HTTP_MAX_BODY_BYTES \<and> rs_body res' = Some (take (nat sz) data) \<and>
    rs_content_type res' = Some (guess_content_type (root @ ''/'' @ rel)) \<and>
    length (guess_content_type (root @ ''/'' @ rel)) < 128"
proof -
  let ?rel = "static_rel pre (rq_path req)"
  have "length ?rel \<le> length (rq_path req) \<or> ?rel = ''index.html''"
    by (simp add: static_rel_def Let_def)
  then have "length ?rel < 1024" using assms(5) by auto
  then have full: "snprintf_s 2048 (root @ ''/'' @ ?rel) = root @ ''/'' @ ?rel"
    using assms(4) by (intro snprintf_s_id) simp
  have safe: "path_is_safe ?rel" and pre: "prefix pre (rq_path req)"
    using assms(1,2) by (auto simp: serve_static_file_def Let_def split: if_splits)
  have "fs (root @ ''/'' @ ?rel) \<noteq> None"
    using assms(1,2) safe pre full by (auto simp: serve_static_file_def Let_def split: option.splits)
  then obtain sz data where fs: "fs (root @ ''/'' @ ?rel) = Some (sz, data)" by auto
  have "length (guess_content_type (root @ ''/'' @ ?rel)) < 128"
    by (simp add: guess_content_type_def Let_def)
  moreover have "sz \<le> int EDB_HTTP_MAX_BODY_BYTES \<and> rs_body res' = Some (take (nat sz) data) \<and>
    rs_content_type res' = Some (guess_content_type (root @ ''/'' @ ?rel))"
    using assms(1-3) safe pre full fs by (auto simp: serve_static_file_def Let_def split: if_splits)
  ultimately show ?thesis using fs safe path_is_safe_iff by blast
qed

definition demo_fs :: file_system where
  "demo_fs p = (if p = ''/srv/a.css'' then Some (3, ''abc'') else None)"

definition demo_page :: "http_response \<times> bool" where
  "demo_page = serve_static_file demo_fs ''/web'' ''/srv'' (demo_request\<lparr>rq_path := ''/web/a.css''\<rparr>) initial_response"

theorem static_confined_witness:
  "\<exists>rel sz data. demo_fs (''/srv'' @ ''/'' @ rel) = Some (sz, data) \<and> \<not> sublist ''..'' rel \<and>
    sz \<le> int EDB_HTTP_MAX_BODY_BYTES \<and> rs_body (fst demo_page) = Some (take (nat sz) data)"
proof -
  have r: "serve_static_file demo_fs ''/web'' ''/srv'' (demo_request\<lparr>rq_path := ''/web/a.css''\<rparr>) initial_response = (fst demo_page, True)"
    and st: "rs_status (fst demo_page) = 200"
    by (simp_all add: demo_page_def serve_static_file_def Let_def static_rel_def path_is_safe_def strstr_found_def demo_request_def
        initial_response_def snprintf_s_def EDB_HTTP_MAX_BODY_BYTES_def demo_fs_def)
  have "rs_status initial_response \<noteq> 200" "length ''/srv'' < 1024"
    "length (rq_path (demo_request\<lparr>rq_path := ''/web/a.css''\<rparr>)) < 1024"
    by (simp_all add: initial_response_def)
  from static_confined [OF r st this] show ?thesis by blast
qed

text \<open>The method plays no part, although static files are meant for GET requests.\<close>

lemma static_any_method:
  "serve_static_file fs pre root (req\<lparr>rq_method := m\<rparr>) res = serve_static_file fs pre root req res"
  by (simp add: serve_static_file_def)

section \<open>Responses\<close>

lemma length_show_nat: "n < 10 ^ k \<Longrightarrow> 0 < k \<Longrightarrow> length (show_nat n) \<le> k"
proof (induction k arbitrary: n)
  case (Suc k)
  show ?case
  proof (cases "n < 10")
    case False
    with Suc.prems have "0 < k" by (cases k) auto
    moreover have "n div 10 < 10 ^ k" using Suc.prems(1) by (simp add: less_mult_imp_div_less mult.commute)
    ultimately have "length (show_nat (n div 10)) \<le> k" by (rule Suc.IH [rotated])
    then show ?thesis using False by (subst show_nat.simps) simp
  qed (subst show_nat.simps, simp)
qed simp

lemma length_show_int: "- (2 ^ 31) \<le> i \<Longrightarrow> i < 2 ^ 31 \<Longrightarrow> length (show_int i) \<le> 11"
  using length_show_nat [of "nat i" 10] length_show_nat [of "nat (- i)" 10]
  by (auto simp: show_int_def nat_less_iff)

text \<open>
  The head of a response is never longer than the array it is printed into, so that no byte behind
  the array is sent, for every status and every content type the server uses.
\<close>

lemma response_head_fits:
  assumes "- (2 ^ 31) \<le> rs_status res" "rs_status res < 2 ^ 31" "length (response_body res) < 2 ^ 64"
    "case rs_content_type res of None \<Rightarrow> True | Some t \<Rightarrow> length t < 128"
  shows "length (response_head res keep_alive) < 512"
proof -
  have "length (show_nat (length (response_body res))) \<le> 20"
    using assms(3) by (intro length_show_nat) simp_all
  moreover have "length (status_text (rs_status res)) \<le> 21" by (simp add: status_text_def)
  ultimately show ?thesis
    using length_show_int [OF assms(1,2)] assms(4)
    by (cases "rs_content_type res") (simp_all add: response_head_def)
qed

section \<open>The registry of workers\<close>

definition workers_ok :: "'st http_server \<Rightarrow> bool" where
  "workers_ok srv \<longleftrightarrow>
     distinct (sv_workers srv) \<and> sv_nworkers srv = length (sv_workers srv) \<and> sv_nworkers srv \<le> EDB_HTTP_MAX_WORKERS \<and>
     length (sv_routes srv) \<le> EDB_HTTP_MAX_ROUTES \<and> sv_naccept_threads srv \<le> 2 \<and>
     (case sv_static_route srv of None \<Rightarrow> True | Some i \<Rightarrow> i < length (sv_routes srv))"

lemma workers_ok_step: "http_step srv srv' \<Longrightarrow> workers_ok srv \<Longrightarrow> workers_ok srv'"
proof (induction rule: http_step.induct)
  case (Accept conn srv)
  then show ?case by (auto simp: workers_ok_def accept_conn_def split: option.splits)
next
  case (Create_Failed conn srv)
  then show ?case by (auto simp: workers_ok_def create_failed_def length_remove1 split: option.splits)
next
  case (Worker_End conn srv)
  then show ?case by (auto simp: workers_ok_def worker_end_def length_remove1 split: option.splits)
next
  case (Add_Handler srv meth pre handler)
  then show ?case by (auto simp: workers_ok_def edb_http_add_handler_def split: option.splits)
next
  case (Serve_Static srv pre root_dir)
  then show ?case by (auto simp: workers_ok_def edb_http_serve_static_def split: option.splits)
next
  case (Start_Admin socket_ok bind_ok thread_ok srv sock_path)
  then show ?case by (auto simp: workers_ok_def edb_http_start_admin_def spawn_acceptor_def split: option.splits)
next
  case (Stop srv)
  then show ?case by (auto simp: workers_ok_def stop_begin_def split: option.splits)
qed

lemma workers_ok_steps: "http_step\<^sup>*\<^sup>* srv srv' \<Longrightarrow> workers_ok srv \<Longrightarrow> workers_ok srv'"
  by (induction rule: rtranclp_induct) (auto intro: workers_ok_step)

lemma stopped_step: "http_step srv srv' \<Longrightarrow> \<not> sv_running srv \<Longrightarrow> \<not> sv_running srv' \<and> set (sv_workers srv') \<subseteq> set (sv_workers srv)"
  by (erule http_stepE)
    (auto simp: accept_conn_def create_failed_def worker_end_def edb_http_add_handler_def edb_http_serve_static_def
      edb_http_start_admin_def spawn_acceptor_def stop_begin_def dest: notin_set_remove1 set_remove1_subset [THEN subsetD]
      split: if_splits)

lemma stopped_steps:
  "http_step\<^sup>*\<^sup>* srv srv' \<Longrightarrow> \<not> sv_running srv \<Longrightarrow> \<not> sv_running srv' \<and> set (sv_workers srv') \<subseteq> set (sv_workers srv)"
  by (induction rule: rtranclp_induct) (auto dest: stopped_step)

text \<open>
  C19. Under every order of the threads' critical sections the counter of workers is the number of
  registered ones, at most 128; and when the wait of \<open>edb_http_stop\<close> ends and the server is freed, no worker
  is registered, nor will one ever be.
\<close>

theorem workers_registered:
  assumes "http_reachable srv"
  shows "workers_ok srv \<and> (stop_done srv \<and> http_step\<^sup>*\<^sup>* srv srv' \<longrightarrow> sv_workers srv' = [])"
proof -
  obtain srv0 where s: "edb_http_start True True True = Some srv0" "http_step\<^sup>*\<^sup>* srv0 srv"
    using assms by (auto simp: http_reachable_def)
  have "workers_ok srv0"
    using s(1) by (auto simp: edb_http_start_def spawn_acceptor_def fresh_server_def workers_ok_def)
  then have ok: "workers_ok srv" using workers_ok_steps s(2) by blast
  moreover have "sv_workers srv' = []" if "stop_done srv" "http_step\<^sup>*\<^sup>* srv srv'"
    using stopped_steps [OF that(2)] that(1) ok by (auto simp: stop_done_def workers_ok_def)
  ultimately show ?thesis by blast
qed

definition started :: "unit http_server" where
  "started = fresh_server\<lparr>sv_naccept_threads := 1\<rparr>"

theorem workers_registered_witness:
  "workers_ok (worker_end (stop_begin (fst (accept_conn started 7))) 7) \<and>
   sv_workers (worker_end (stop_begin (fst (accept_conn started 7))) 7) = []"
proof -
  let ?a = "fst (accept_conn started 7)" and ?z = "worker_end (stop_begin (fst (accept_conn started 7))) 7"
  have "edb_http_start True True True = Some started"
    by (simp add: edb_http_start_def spawn_acceptor_def started_def fresh_server_def)
  moreover have "http_step started ?a" by (rule Accept) (simp add: started_def fresh_server_def)
  moreover have "http_step ?a (stop_begin ?a)" by (rule Stop)
  moreover have "http_step (stop_begin ?a) ?z"
    by (rule Worker_End) (simp add: stop_begin_def accept_conn_def started_def fresh_server_def EDB_HTTP_MAX_WORKERS_def)
  ultimately have "http_reachable ?z"
    unfolding http_reachable_def by (meson converse_rtranclp_into_rtranclp rtranclp.rtrancl_refl)
  moreover have "stop_done ?z"
    by (simp add: stop_done_def worker_end_def stop_begin_def accept_conn_def started_def fresh_server_def EDB_HTTP_MAX_WORKERS_def)
  ultimately show ?thesis using workers_registered [of ?z ?z] by blast
qed

end
