(* ===== verification/Spec2Isabelle.thy ===== *)
theory Spec2Isabelle
  imports Api_Props Http_Props
begin

text \<open>
  EpsilonDB: a verification library for the database under src/.

  \<^bold>\<open>The program.\<close> EpsilonDB is a distributed document store in C. A document lives in a shard, one
  SQLite file per (partition, keyspace); the shard manager caches open files and serves the
  document operations; the configuration store keeps databases, users, partitions and settings as
  documents of a reserved database in the same engine; nodes form a mesh over an authenticated
  frame protocol, gossip their state, elect a leader, place keys on nodes and move between
  placements in waves; writes are replicated with a timestamp and an origin and merged by last
  write wins. Clients come in over an HTTP server, whose routes authenticate them and read and write
  documents or run queries.

  \<^bold>\<open>Theories and sources.\<close>
  \<^item> \<open>Prelude\<close>, \<open>Decimal\<close>, \<open>Json\<close>: C strings and integers, \<open>strcmp\<close>, \<open>snprintf\<close>, \<open>strtoll\<close>, the cJSON tree.
  \<^item> \<open>Block_Stream\<close>, \<open>Md5\<close>, \<open>Sha256\<close> (engine/md5.c, engine/sha256.c): the digests; the locale
    \<open>block_loop\<close> is the contract of their buffering, interpreted on both contexts.
  \<^item> \<open>Crypto\<close> (engine/epsilon_crypto.c): ChaCha20, HMAC, HKDF, sealing and opening.
  \<^item> \<open>Wire\<close> (socket/estp_wire.c, key file of epsilon_cluster_rebalance.c): frames over partial reads
    and writes; what each system call returns is a script, so every short transfer is covered.
  \<^item> \<open>Filters\<close>, \<open>Shard\<close>, \<open>Shard_Props\<close>, \<open>Lww\<close> (engine/shard.c): filters and their SQL, the table of
    a shard, its statement cache and all document operations. The locale \<open>lww_register\<close> is the
    contract of replication; its interpretation on the shard gives convergence.
  \<^item> \<open>Manager\<close>, \<open>Manager_Inv\<close>, \<open>Manager_Props\<close> (engine/manager.c): the table of handles with
    reference counts, files as inodes, document operations through it. \<open>Manager_Inv\<close> is the step
    relation of threads interleaving its critical sections.
  \<^item> \<open>Record_Store\<close>, \<open>Config\<close>, \<open>Config_Props\<close> (engine/epsilon_config*.c): entities and settings.
    The locale \<open>record_store\<close> is the contract of named records; it is interpreted twice, for
    records without replication and for the settings of the cluster.
  \<^item> \<open>Cluster\<close> (socket/epsilon_cluster.c): peers, election, slices, owners and holders.
  \<^item> \<open>Gossip\<close> (epsilon_cluster.c, state_to_json to restore_state): the state document and its merge.
  \<^item> \<open>Rebalance\<close> (epsilon_cluster_rebalance.c): waves, compliance, collection of shards.
  \<^item> \<open>Membership\<close> (epsilon_cluster.c, leader_react to edb_cluster_remove_node): one definition per
    handler. \<open>Cluster_Inv\<close>, \<open>Cluster_Props\<close>: the invariant, the order \<open>evolves\<close> and the step relation
    \<open>cluster_step\<close> of all handlers. \<open>Cluster_Persist\<close>, \<open>Rebalance_Props\<close>, \<open>Membership_Props\<close>: what
    persistence, waves and handlers guarantee.
  \<^item> \<open>Repl\<close>, \<open>Change_Log\<close>, \<open>Repl_Props\<close>, \<open>Repl_Converge\<close> (socket/epsilon_repl.c, epsilon_repl_cache.c): the
    cache of undelivered changes, the write path with its quorum, replay, flush and the dispatcher.
    The locale \<open>change_log\<close> is the contract of the cache, interpreted as \<open>cache\<close>; \<open>lww_register\<close> is
    interpreted again, as \<open>node\<close>, for a whole node that applies change documents.
  \<^item> \<open>Repl_Read\<close>, \<open>Repl_Rows\<close>, \<open>Repl_Votes\<close>, \<open>Repl_Read_Props\<close> (socket/epsilon_repl_read.c): quorum reads, the
    merge of rows, the votes on a document, and runs.
  \<^item> \<open>Eql_Scan\<close>, \<open>Eql_Rewrite\<close>, \<open>Eql_Scan_Props\<close> (eql/epsilon_eql.c, read_ident to scan_update_columns): the
    scanner of the query language; a scanner state is the rest of the text.
  \<^item> \<open>Eql_Exec\<close>, \<open>Eql_Props\<close> (eql/epsilon_eql.c, perm_denied to edb_eql_execute): permissions, shadow tables,
    the authorizer, the execution of a statement and the write-back of its rows.
  \<^item> \<open>Http_Parse\<close>, \<open>Http_Frame\<close>, \<open>Http_Server\<close>, \<open>Http_Props\<close> (httpd/epsilon_http.c): the parser of request
    heads; requests over a stream that arrives in any pieces, and responses; routes, static files, the
    worker loop, start, stop and the registry of workers with its step relation \<open>http_step\<close>; what
    they guarantee.
  \<^item> \<open>Api_Auth\<close>, \<open>Api_Data\<close>, \<open>Api_Props\<close> (api/epsilon_api.c, epsilon_api_data.c and the sessions of
    epsilon_api_console.c): failed attempts, sessions, credentials, the document routes, and the two
    callbacks of the replication service. The state is the record \<open>api\<close>.

  \<^bold>\<open>State.\<close> Each struct is a record with the fields of the source; operations take and return it.
  Arrays with a count are lists. Failure results are \<open>option\<close> or a flag, as in the source.

  \<^bold>\<open>What is shown.\<close> Digests equal the fold of their block function over the padded message. A frame
  sent is received unchanged, and with a key only authentic frames are accepted. Replicas that
  apply the same changes in any order agree. Document operations through the manager act on their
  own shard only, survive a restart, and no handle is freed while in use. Slices cover every key
  once, all nodes compute the same holders, the leader is the least online member. Every
  interleaving of cluster handlers keeps the invariant; gossip only moves forward; the check of a
  promotion passes exactly when all nodes of the target comply, and what is promoted is the target
  pending afterwards; a shard is collected only while its holders are online elsewhere; state survives a
  restart. A write that succeeds was taken by a majority of the holders and is queued for the peers that
  did not acknowledge it; replay delivers in order and loses nothing. A quorum read returns what a
  majority holds. A query is refused exactly
  when a partition keeps the caller out, changes nothing unless it is an INSERT, UPDATE or DELETE,
  and its rewritten text fits its buffer. Entities read back as created. Pipelined requests are
  answered in order whatever pieces they arrive in, no byte of the stream is lost or read twice, the
  worker loop ends, static files stay below their root, and the counter of workers is right under every
  interleaving. A caller gets the groups of a live session or of a user whose password it gave, and
  otherwise none. Several theorems prove defects of the code; they are the findings of the manifest.

  \<^bold>\<open>Parameters and hypotheses.\<close> SQLite, the clock and the cJSON printer and parser are the record
  \<open>sqlite_env\<close>. \<open>env_ok\<close> says that SQLite calls succeed; \<open>json_faithful\<close> that cJSON reads back what it
  prints for integers below \<open>2 ^ 53\<close> and strings without NUL; \<open>list_ok\<close> that a query visits every
  row once; \<open>cache_works\<close> that the change cache's statements succeed. The network is a function from the
  frames of one exchange to the frames that come back (\<open>exchange\<close>); the private database of a query is
  the record \<open>shadow\<close>, the scripts run after a write are \<open>lua_hook\<close>, those of
  the document routes \<open>lua_fire\<close>. The handlers of the HTTP server, the files below its root and what each
  \<open>recv\<close> and \<open>send\<close> returns are arguments. Witnesses instantiate them with \<open>env_at\<close> and \<open>json_env\<close>. Random bytes, directory listings, the outcome of
  \<open>unlink\<close> and the answers of remote nodes are arguments.

  \<^bold>\<open>Bounds.\<close> Recursion over input bytes is bounded by the input; no definition uses fuel that can run out: loops are
  structural or have a measure. Epoch seconds and generations are unbounded integers: the C sums on
  them do not reach 64 bits. Digest words, permission masks and frame lengths are machine words.

  \<^bold>\<open>Steps.\<close> A critical section is one step of \<open>engine_step\<close>, \<open>cluster_step\<close> and \<open>http_step\<close>. A cluster
  handler is one step although it takes the lock several times; the sections of a promotion are steps
  of their own, and so are the two halves of the collection of a shard.

  \<^bold>\<open>Not modelled.\<close> Memory exhaustion; thread creation, sockets and time-outs; the streaming of whole
  shard files (catch-up, backup and restore); the administrative routes of the HTTP API, its login and
  setup forms, and the analytics; the binding of the Lua interpreter, whose scripts are parameters;
  vendored code (SQLite, cJSON, Lua); command line tools, the terminal interface, the installer, the
  admin page and the benchmark, which are input and output only.
\<close>

end
